(* ===== verification/Prelude.thy ===== *)
theory Prelude
  imports Main "HOL-Library.Word" "HOL-Library.Multiset"
begin

text \<open>
  Shared vocabulary of the development: the status codes every operation of the program
  returns (\<^verbatim>\<open>inc/external/graph/ge_error_codes.h\<close>), nullable pointers, the list
  searches the code writes with \<^verbatim>\<open>std::find_if\<close>/\<^verbatim>\<open>erase\<close>, decimal
  conversions (\<^verbatim>\<open>std::to_string\<close>, \<^verbatim>\<open>std::stoi\<close>), and the lemma
  collections the component theories use.
\<close>

section \<open>Status codes\<close>

datatype graphStatus =
  GRAPH_FAILED | GRAPH_SUCCESS | GRAPH_NOT_CHANGED | GRAPH_PARAM_INVALID
| GRAPH_NODE_WITHOUT_CONST_INPUT

text \<open>The 32-bit codes the enumeration stands for.\<close>

fun status_code :: "graphStatus \<Rightarrow> 32 word" where
  "status_code GRAPH_FAILED = 0xFFFFFFFF"
| "status_code GRAPH_SUCCESS = 0"
| "status_code GRAPH_NOT_CHANGED = 1343242304"
| "status_code GRAPH_PARAM_INVALID = 50331649"
| "status_code GRAPH_NODE_WITHOUT_CONST_INPUT = 50331648"

lemma status_code_inject: "status_code a = status_code b \<longleftrightarrow> a = b"
  by (cases a; cases b) simp_all

text \<open>
  A pointer that may be null is an option; an address is a natural number. Names are byte
  strings.
\<close>

type_synonym ptr = "nat option"

section \<open>Lemma collections\<close>

named_theorems list_search \<open>facts on searching and erasing in lists\<close>
named_theorems link_simps \<open>how an operation on links changes the peers of every anchor\<close>
named_theorems frame_simps \<open>what an operation leaves unchanged\<close>

section \<open>Searching and erasing in a sequence\<close>

text \<open>\<^verbatim>\<open>std::find_if\<close>: the position of the first hit, \<^term>\<open>None\<close> for
  \<^verbatim>\<open>end()\<close>; \<^verbatim>\<open>erase(it)\<close>: the sequence without that position.\<close>

fun find_index :: "('a \<Rightarrow> bool) \<Rightarrow> 'a list \<Rightarrow> nat option" where
  "find_index P [] = None"
| "find_index P (x # xs) = (if P x then Some 0 else map_option Suc (find_index P xs))"

definition erase_at :: "nat \<Rightarrow> 'a list \<Rightarrow> 'a list" where
  "erase_at i xs = take i xs @ drop (Suc i) xs"

lemma find_index_None [list_search]: "find_index P xs = None \<longleftrightarrow> (\<forall>x\<in>set xs. \<not> P x)"
  by (induction xs) auto

lemma find_index_Some [list_search]:
  "find_index P xs = Some i \<Longrightarrow> i < length xs \<and> P (xs ! i) \<and> (\<forall>j<i. \<not> P (xs ! j))"
proof (induction xs arbitrary: i)
  case (Cons x xs)
  then show ?case by (auto split: if_splits simp: nth_Cons' less_Suc_eq_0_disj)
qed simp

lemma find_index_cong: "(\<And>x. x \<in> set xs \<Longrightarrow> P x = Q x) \<Longrightarrow> find_index P xs = find_index Q xs"
  by (induction xs) auto

text \<open>Erasing the first element equal to a given one is \<^const>\<open>remove1\<close>.\<close>

lemma erase_find_eq [list_search]:
  "find_index (\<lambda>y. y = x) xs = Some i \<Longrightarrow> erase_at i xs = remove1 x xs"
proof (induction xs arbitrary: i)
  case (Cons y ys)
  then show ?case by (auto simp: erase_at_def split: if_splits)
qed simp

lemma find_index_eq_ex: "x \<in> set xs \<Longrightarrow> \<exists>i. find_index (\<lambda>y. y = x) xs = Some i"
  by (induction xs) auto

lemma find_index_eq_None: "find_index (\<lambda>y. y = x) xs = None \<longleftrightarrow> x \<notin> set xs"
  by (auto simp: find_index_None)

text \<open>Overwriting the first element equal to a given one.\<close>

fun replace1 :: "'a \<Rightarrow> 'a \<Rightarrow> 'a list \<Rightarrow> 'a list" where
  "replace1 x y [] = []"
| "replace1 x y (z # zs) = (if z = x then y # zs else z # replace1 x y zs)"

lemma update_find_eq [list_search]:
  "find_index (\<lambda>y. y = x) xs = Some i \<Longrightarrow> xs[i := z] = replace1 x z xs"
  by (induction xs arbitrary: i) (auto split: if_splits)

lemma length_replace1 [simp]: "length (replace1 x y xs) = length xs"
  by (induction xs) auto

lemma mset_replace1: "x \<in> set xs \<Longrightarrow> mset (replace1 x y xs) = add_mset y (mset xs - {#x#})"
  by (induction xs) auto

lemma set_replace1_subset: "set (replace1 x y xs) \<subseteq> insert y (set xs)"
  by (induction xs) auto

lemma count_list_pos: "0 < count_list xs x \<longleftrightarrow> x \<in> set xs"
  using count_list_0_iff [of xs x] by auto

lemma size_remove1_less: "x \<in> set xs \<Longrightarrow> length (remove1 x xs) < length xs"
  by (induction xs) auto

lemma count_list_map_filter_le: "count_list (filter P xs) x \<le> count_list xs x"
  by (induction xs) auto

lemma mset_insert_at: "mset (take i xs @ n # drop i xs) = add_mset n (mset xs)"
proof -
  have "mset xs = mset (take i xs) + mset (drop i xs)"
    unfolding mset_append [symmetric] by simp
  then show ?thesis by simp
qed

lemma sum_pos_iff: "finite A \<Longrightarrow> 0 < (\<Sum>a\<in>A. f a :: nat) \<longleftrightarrow> (\<exists>a\<in>A. 0 < f a)"
  unfolding neq0_conv [symmetric] by simp

lemma sum_list_pos_iff: "0 < (\<Sum>x\<leftarrow>xs. f x :: nat) \<longleftrightarrow> (\<exists>x\<in>set xs. 0 < f x)"
  by (induction xs) auto

lemma le_div_iff_int: "0 < a \<Longrightarrow> b \<le> n div a \<longleftrightarrow> b * a \<le> (n :: int)"
proof
  assume a: "0 < a"
  {
    assume "b \<le> n div a"
    then have "b * a \<le> n div a * a" using a by (intro mult_right_mono) simp_all
    also have "\<dots> \<le> n" using a by (simp add: minus_mod_eq_div_mult [symmetric])
    finally show "b * a \<le> n" .
  next
    assume "b * a \<le> n"
    then have "b * a div a \<le> n div a" using a by (intro zdiv_mono1)
    then show "b \<le> n div a" using a by simp
  }
qed

section \<open>Sequences of fallible steps\<close>

text \<open>
  An operation returns the changed state and a status; the next one runs only after success.
  A loop with an early return runs its body over the elements until one fails. A failing call
  keeps what it has changed so far, like the code. \<open>or_failed\<close> is the idiom
  \<^verbatim>\<open>if (x != GRAPH_SUCCESS) return GRAPH_FAILED\<close>.
\<close>

definition and_then :: "'s \<times> graphStatus \<Rightarrow> ('s \<Rightarrow> 's \<times> graphStatus) \<Rightarrow> 's \<times> graphStatus" where
  "and_then r f = (case r of (s, st) \<Rightarrow> if st = GRAPH_SUCCESS then f s else (s, st))"

definition or_failed :: "'s \<times> graphStatus \<Rightarrow> 's \<times> graphStatus" where
  "or_failed r = (case r of (s, st) \<Rightarrow> (s, if st = GRAPH_SUCCESS then GRAPH_SUCCESS else GRAPH_FAILED))"

fun each :: "('a \<Rightarrow> 's \<Rightarrow> 's \<times> graphStatus) \<Rightarrow> 'a list \<Rightarrow> 's \<Rightarrow> 's \<times> graphStatus" where
  "each f [] s = (s, GRAPH_SUCCESS)"
| "each f (x # xs) s = and_then (f x s) (each f xs)"

text \<open>
  Operations that may also throw \<^verbatim>\<open>std::out_of_range\<close>, dereference a null pointer, or never
  return.
\<close>

datatype 's run = Ret 's graphStatus | Throw 's | Crash | Hang

definition run_then :: "'s run \<Rightarrow> ('s \<Rightarrow> 's run) \<Rightarrow> 's run" where
  "run_then r f =
     (case r of Ret s st \<Rightarrow> if st = GRAPH_SUCCESS then f s else Ret s st | Throw s \<Rightarrow> Throw s | Crash \<Rightarrow> Crash | Hang \<Rightarrow> Hang)"

definition run_or_failed :: "'s run \<Rightarrow> 's run" where
  "run_or_failed r =
     (case r of Ret s st \<Rightarrow> Ret s (if st = GRAPH_SUCCESS then GRAPH_SUCCESS else GRAPH_FAILED)
      | Throw s \<Rightarrow> Throw s | Crash \<Rightarrow> Crash | Hang \<Rightarrow> Hang)"

definition lift_run :: "'s \<times> graphStatus \<Rightarrow> 's run" where
  "lift_run r = (case r of (s, st) \<Rightarrow> Ret s st)"

fun run_each :: "('a \<Rightarrow> 's \<Rightarrow> 's run) \<Rightarrow> 'a list \<Rightarrow> 's \<Rightarrow> 's run" where
  "run_each f [] s = Ret s GRAPH_SUCCESS"
| "run_each f (x # xs) s = run_then (f x s) (run_each f xs)"

lemma and_then_simps [simp]:
  "and_then (s, GRAPH_SUCCESS) f = f s" "st \<noteq> GRAPH_SUCCESS \<Longrightarrow> and_then (s, st) f = (s, st)"
  by (simp_all add: and_then_def)

lemma run_then_simps [simp]:
  "run_then (Ret s GRAPH_SUCCESS) f = f s" "st \<noteq> GRAPH_SUCCESS \<Longrightarrow> run_then (Ret s st) f = Ret s st"
  "run_then (Throw s) f = Throw s" "run_then Crash f = Crash" "run_then Hang f = Hang"
  by (simp_all add: run_then_def)

lemma fst_or_failed [simp]: "fst (or_failed r) = fst r"
  by (simp add: or_failed_def split: prod.splits)

lemma or_failed_simps [simp]: "or_failed (s, GRAPH_SUCCESS) = (s, GRAPH_SUCCESS)"
    "or_failed (s, GRAPH_FAILED) = (s, GRAPH_FAILED)"
  by (simp_all add: or_failed_def)

text \<open>An invariant of every step is one of the sequence, whatever the statuses.\<close>

lemma and_then_inv:
  "I (fst r) \<Longrightarrow> (\<And>s. r = (s, GRAPH_SUCCESS) \<Longrightarrow> I s \<Longrightarrow> I (fst (f s))) \<Longrightarrow> I (fst (and_then r f))"
  by (cases r) (simp add: and_then_def)

lemma each_inv:
  "I s \<Longrightarrow> (\<And>x s. x \<in> set xs \<Longrightarrow> I s \<Longrightarrow> I (fst (f x s))) \<Longrightarrow> I (fst (each f xs s))"
proof (induction xs arbitrary: s)
  case (Cons x xs)
  have 1: "I (fst (f x s))" by (rule Cons.prems) (simp_all add: Cons.prems)
  then have "I (fst (each f xs (fst (f x s))))"
    by (rule Cons.IH) (rule Cons.prems, simp_all)
  with 1 show ?case by (cases "f x s") (simp add: and_then_def)
qed simp

text \<open>A loop whose body succeeds from every state of the invariant succeeds.\<close>

lemma each_ok:
  assumes "I s" "\<And>x s. x \<in> set xs \<Longrightarrow> I s \<Longrightarrow> snd (f x s) = GRAPH_SUCCESS \<and> I (fst (f x s))"
  shows "snd (each f xs s) = GRAPH_SUCCESS \<and> I (fst (each f xs s))"
  using assms
proof (induction xs arbitrary: s)
  case (Cons x xs)
  have x: "snd (f x s) = GRAPH_SUCCESS \<and> I (fst (f x s))"
    by (rule Cons.prems) (simp_all add: Cons.prems)
  then have "snd (each f xs (fst (f x s))) = GRAPH_SUCCESS \<and> I (fst (each f xs (fst (f x s))))"
    by (intro Cons.IH) (use Cons.prems in simp_all)
  with x show ?case by (cases "f x s") simp
qed simp

text \<open>After a loop that succeeds, every element has what its own step established and later
  steps keep.\<close>

lemma each_all:
  assumes "snd (each f xs s) = GRAPH_SUCCESS" "P s"
    and step: "\<And>x s. x \<in> set xs \<Longrightarrow> P s \<Longrightarrow> snd (f x s) = GRAPH_SUCCESS \<Longrightarrow> P (fst (f x s)) \<and> Q x (fst (f x s))"
    and keep: "\<And>x y s. P s \<Longrightarrow> Q x s \<Longrightarrow> y \<in> set xs \<Longrightarrow> snd (f y s) = GRAPH_SUCCESS \<Longrightarrow> Q x (fst (f y s))"
  shows "P (fst (each f xs s)) \<and> (\<forall>x\<in>set xs. Q x (fst (each f xs s))) \<and>
    (\<forall>x. Q x s \<longrightarrow> Q x (fst (each f xs s)))"
  using assms
proof (induction xs arbitrary: s)
  case (Cons y xs)
  obtain s1 where y: "f y s = (s1, GRAPH_SUCCESS)" and rest: "snd (each f xs s1) = GRAPH_SUCCESS"
    using Cons.prems(1) by (cases "f y s") (simp add: and_then_def split: if_splits)
  have 1: "P s1 \<and> Q y s1" using Cons.prems(3) [of y s] Cons.prems(2) y by simp
  have 2: "\<forall>x. Q x s \<longrightarrow> Q x s1" using Cons.prems(4) [OF Cons.prems(2), of _ y] y by simp
  have "P (fst (each f xs s1)) \<and> (\<forall>x\<in>set xs. Q x (fst (each f xs s1))) \<and>
      (\<forall>x. Q x s1 \<longrightarrow> Q x (fst (each f xs s1)))"
    using rest 1 by (intro Cons.IH) (use Cons.prems(3,4) in auto)
  with 1 2 y show ?case by simp
qed simp

lemma each_append: "each f (xs @ ys) s = and_then (each f xs s) (each f ys)"
  by (induction xs arbitrary: s) (auto simp: and_then_def split: prod.splits)

end
