(* ===== verification/Anchors.thy ===== *)
theory Anchors
  imports Prelude
begin

text \<open>
  The anchors of \<^verbatim>\<open>graph/anchor.cc\<close>, \<^verbatim>\<open>inc/graph/anchor.h\<close> and
  \<^verbatim>\<open>graph/utils/anchor_utils.cc\<close>: the connection points of nodes. Anchors are shared
  mutable objects that refer to each other through weak pointers, so they live in a store: an
  address is a natural number, an object is what the store holds at it, and an address that
  holds nothing is an expired (or null) pointer. Nodes and graphs extend the store record in
  later theories; every operation here works on any extension of it.
\<close>

section \<open>The anchor objects\<close>

datatype AnchorStatus = ANCHOR_SUSPEND | ANCHOR_CONST | ANCHOR_DATA | ANCHOR_RESERVED

text \<open>The class hierarchy; the dynamic class of an object is one of the concrete four.\<close>

datatype anchor_class =
  Anchor | DataAnchor | InDataAnchor | OutDataAnchor
| ControlAnchor | InControlAnchor | OutControlAnchor

text \<open>
  \<open>a_owner\<close> is what \<^verbatim>\<open>owner_node_.lock()\<close> gives (\<^term>\<open>None\<close> once the node is gone),
  \<open>a_peers\<close> the weak pointers of \<^verbatim>\<open>peer_anchors_\<close>.
\<close>

record anchor =
  a_class :: anchor_class
  a_owner :: ptr
  a_idx :: int
  a_peers :: "nat list"
  a_format :: "32 word"
  a_status :: AnchorStatus

record anchor_store =
  anchors :: "nat \<Rightarrow> anchor option"

definition FORMAT_ND :: "32 word" where "FORMAT_ND = 2"

definition FORMAT_RESERVED :: "32 word" where "FORMAT_RESERVED = 40"

text \<open>A new anchor of a node: no peers, the defaults of the class.\<close>

definition new_anchor :: "anchor_class \<Rightarrow> nat \<Rightarrow> int \<Rightarrow> anchor" where
  "new_anchor c owner_node i =
     \<lparr>a_class = c, a_owner = Some owner_node, a_idx = i, a_peers = [],
      a_format = FORMAT_ND, a_status = ANCHOR_SUSPEND\<rparr>"

definition peers :: "('z) anchor_store_scheme \<Rightarrow> nat \<Rightarrow> nat list" where
  "peers s a = (case anchors s a of None \<Rightarrow> [] | Some x \<Rightarrow> a_peers x)"

definition upd_peers :: "(nat list \<Rightarrow> nat list) \<Rightarrow> nat \<Rightarrow> ('z) anchor_store_scheme \<Rightarrow> ('z) anchor_store_scheme" where
  "upd_peers f a s =
     s\<lparr>anchors := (anchors s)(a := map_option (a_peers_update f) (anchors s a))\<rparr>"

text \<open>\<^verbatim>\<open>weak_ptr::lock\<close>: the object, or null when it has expired.\<close>

definition lock :: "('z) anchor_store_scheme \<Rightarrow> nat \<Rightarrow> ptr" where
  "lock s a = (case anchors s a of None \<Rightarrow> None | Some _ \<Rightarrow> Some a)"

section \<open>Run-time types\<close>

text \<open>The overrides of \<^verbatim>\<open>IsTypeOf\<close>: each class accepts its own tag or asks its base class.\<close>

definition Anchor_IsTypeOf :: "anchor_class \<Rightarrow> bool" where
  "Anchor_IsTypeOf t = (t = Anchor)"

definition DataAnchor_IsTypeOf :: "anchor_class \<Rightarrow> bool" where
  "DataAnchor_IsTypeOf t = (if t = DataAnchor then True else Anchor_IsTypeOf t)"

definition InDataAnchor_IsTypeOf :: "anchor_class \<Rightarrow> bool" where
  "InDataAnchor_IsTypeOf t = (if t = InDataAnchor then True else DataAnchor_IsTypeOf t)"

definition OutDataAnchor_IsTypeOf :: "anchor_class \<Rightarrow> bool" where
  "OutDataAnchor_IsTypeOf t = (if t = OutDataAnchor then True else DataAnchor_IsTypeOf t)"

definition ControlAnchor_IsTypeOf :: "anchor_class \<Rightarrow> bool" where
  "ControlAnchor_IsTypeOf t = (if t = ControlAnchor then True else Anchor_IsTypeOf t)"

definition InControlAnchor_IsTypeOf :: "anchor_class \<Rightarrow> bool" where
  "InControlAnchor_IsTypeOf t = (if t = InControlAnchor then True else ControlAnchor_IsTypeOf t)"

definition OutControlAnchor_IsTypeOf :: "anchor_class \<Rightarrow> bool" where
  "OutControlAnchor_IsTypeOf t = (if t = OutControlAnchor then True else ControlAnchor_IsTypeOf t)"

text \<open>The virtual call, dispatched on the dynamic class.\<close>

fun is_type_of :: "anchor_class \<Rightarrow> anchor_class \<Rightarrow> bool" where
  "is_type_of Anchor t = Anchor_IsTypeOf t"
| "is_type_of DataAnchor t = DataAnchor_IsTypeOf t"
| "is_type_of InDataAnchor t = InDataAnchor_IsTypeOf t"
| "is_type_of OutDataAnchor t = OutDataAnchor_IsTypeOf t"
| "is_type_of ControlAnchor t = ControlAnchor_IsTypeOf t"
| "is_type_of InControlAnchor t = InControlAnchor_IsTypeOf t"
| "is_type_of OutControlAnchor t = OutControlAnchor_IsTypeOf t"

lemmas IsTypeOf_defs [simp] =
  Anchor_IsTypeOf_def DataAnchor_IsTypeOf_def InDataAnchor_IsTypeOf_def OutDataAnchor_IsTypeOf_def
  ControlAnchor_IsTypeOf_def InControlAnchor_IsTypeOf_def OutControlAnchor_IsTypeOf_def

definition DynamicAnchorCast :: "('z) anchor_store_scheme \<Rightarrow> anchor_class \<Rightarrow> ptr \<Rightarrow> ptr" where
  "DynamicAnchorCast s t p =
     (case p of None \<Rightarrow> None
      | Some a \<Rightarrow> (case anchors s a of None \<Rightarrow> None
                   | Some x \<Rightarrow> if \<not> is_type_of (a_class x) t then None else Some a))"

section \<open>Queries\<close>

definition GetOwnerNode :: "('z) anchor_store_scheme \<Rightarrow> nat \<Rightarrow> ptr" where
  "GetOwnerNode s a = (case anchors s a of None \<Rightarrow> None | Some x \<Rightarrow> a_owner x)"

definition GetIdx :: "('z) anchor_store_scheme \<Rightarrow> nat \<Rightarrow> int" where
  "GetIdx s a = (case anchors s a of None \<Rightarrow> 0 | Some x \<Rightarrow> a_idx x)"

definition SetIdx :: "nat \<Rightarrow> int \<Rightarrow> ('z) anchor_store_scheme \<Rightarrow> ('z) anchor_store_scheme" where
  "SetIdx a i s = s\<lparr>anchors := (anchors s)(a := map_option (a_idx_update (\<lambda>_. i)) (anchors s a))\<rparr>"

definition GetPeerAnchorsSize :: "('z) anchor_store_scheme \<Rightarrow> nat \<Rightarrow> nat" where
  "GetPeerAnchorsSize s a = length (peers s a)"

definition GetPeerAnchors :: "('z) anchor_store_scheme \<Rightarrow> nat \<Rightarrow> ptr list" where
  "GetPeerAnchors s a = map (lock s) (peers s a)"

definition GetFirstPeerAnchor :: "('z) anchor_store_scheme \<Rightarrow> nat \<Rightarrow> ptr" where
  "GetFirstPeerAnchor s a =
     (case peers s a of [] \<Rightarrow> None | p # _ \<Rightarrow> DynamicAnchorCast s Anchor (lock s p))"

text \<open>
  \<^verbatim>\<open>InDataAnchor::GetPeerOutAnchor\<close> and the filtering loops that collect the peers of one
  class (\<^verbatim>\<open>GetPeerInDataAnchors\<close>, \<^verbatim>\<open>GetPeerInControlAnchors\<close>,
  \<^verbatim>\<open>GetPeerOutControlAnchors\<close>, \<^verbatim>\<open>GetPeerOutDataAnchors\<close>).
\<close>

definition GetPeerOutAnchor :: "('z) anchor_store_scheme \<Rightarrow> nat \<Rightarrow> ptr" where
  "GetPeerOutAnchor s a =
     (case peers s a of [] \<Rightarrow> None | p # _ \<Rightarrow> DynamicAnchorCast s OutDataAnchor (lock s p))"

definition peers_of_class :: "('z) anchor_store_scheme \<Rightarrow> anchor_class \<Rightarrow> nat \<Rightarrow> nat list" where
  "peers_of_class s t a =
     List.map_filter (\<lambda>p. DynamicAnchorCast s t (lock s p)) (peers s a)"

definition OutData_GetPeerInDataAnchors :: "('z) anchor_store_scheme \<Rightarrow> nat \<Rightarrow> nat list" where
  "OutData_GetPeerInDataAnchors s a = peers_of_class s InDataAnchor a"

definition OutData_GetPeerInControlAnchors :: "('z) anchor_store_scheme \<Rightarrow> nat \<Rightarrow> nat list" where
  "OutData_GetPeerInControlAnchors s a = peers_of_class s InControlAnchor a"

definition InControl_GetPeerOutControlAnchors :: "('z) anchor_store_scheme \<Rightarrow> nat \<Rightarrow> nat list" where
  "InControl_GetPeerOutControlAnchors s a = peers_of_class s OutControlAnchor a"

definition InControl_GetPeerOutDataAnchors :: "('z) anchor_store_scheme \<Rightarrow> nat \<Rightarrow> nat list" where
  "InControl_GetPeerOutDataAnchors s a = peers_of_class s OutDataAnchor a"

definition OutControl_GetPeerInControlAnchors :: "('z) anchor_store_scheme \<Rightarrow> nat \<Rightarrow> nat list" where
  "OutControl_GetPeerInControlAnchors s a = peers_of_class s InControlAnchor a"

definition OutControl_GetPeerInDataAnchors :: "('z) anchor_store_scheme \<Rightarrow> nat \<Rightarrow> nat list" where
  "OutControl_GetPeerInDataAnchors s a = peers_of_class s InDataAnchor a"

text \<open>A 32-bit counter: it wraps like the code's \<^verbatim>\<open>uint32_t\<close>.\<close>

fun count_owned :: "('z) anchor_store_scheme \<Rightarrow> nat list \<Rightarrow> 32 word \<Rightarrow> 32 word" where
  "count_owned s [] out_nums = out_nums"
| "count_owned s (p # ps) out_nums =
     (case DynamicAnchorCast s InDataAnchor (lock s p) of
        None \<Rightarrow> count_owned s ps out_nums
      | Some a \<Rightarrow> count_owned s ps (if GetOwnerNode s a \<noteq> None then out_nums + 1 else out_nums))"

definition GetPeerInDataNodesSize :: "('z) anchor_store_scheme \<Rightarrow> nat \<Rightarrow> 32 word" where
  "GetPeerInDataNodesSize s a = count_owned s (peers s a) 0"

section \<open>Equality of anchors\<close>

text \<open>
  The virtual \<^verbatim>\<open>Equal\<close>: same class and owner, and for data anchors the same index. The
  abstract classes have no objects; a call on a null pointer does not occur in the callers.
\<close>

definition same_owner :: "('z) anchor_store_scheme \<Rightarrow> nat \<Rightarrow> nat \<Rightarrow> bool" where
  "same_owner s a b \<longleftrightarrow> GetOwnerNode s a = GetOwnerNode s b"

definition InDataAnchor_Equal :: "('z) anchor_store_scheme \<Rightarrow> nat \<Rightarrow> ptr \<Rightarrow> bool" where
  "InDataAnchor_Equal s a q =
     (case DynamicAnchorCast s InDataAnchor q of
        None \<Rightarrow> False
      | Some b \<Rightarrow> same_owner s a b \<and> GetIdx s a = GetIdx s b)"

definition OutDataAnchor_Equal :: "('z) anchor_store_scheme \<Rightarrow> nat \<Rightarrow> ptr \<Rightarrow> bool" where
  "OutDataAnchor_Equal s a q =
     (if q = None then False
      else case DynamicAnchorCast s OutDataAnchor q of
        None \<Rightarrow> False
      | Some b \<Rightarrow> same_owner s a b \<and> GetIdx s a = GetIdx s b)"

definition InControlAnchor_Equal :: "('z) anchor_store_scheme \<Rightarrow> nat \<Rightarrow> ptr \<Rightarrow> bool" where
  "InControlAnchor_Equal s a q =
     (if q = None then False
      else case DynamicAnchorCast s InControlAnchor q of
        None \<Rightarrow> False
      | Some b \<Rightarrow> same_owner s a b)"

definition OutControlAnchor_Equal :: "('z) anchor_store_scheme \<Rightarrow> nat \<Rightarrow> ptr \<Rightarrow> bool" where
  "OutControlAnchor_Equal s a q =
     (case DynamicAnchorCast s OutControlAnchor q of
        None \<Rightarrow> False
      | Some b \<Rightarrow> same_owner s a b)"

definition Equal :: "('z) anchor_store_scheme \<Rightarrow> nat \<Rightarrow> ptr \<Rightarrow> bool" where
  "Equal s a q =
     (case anchors s a of
        None \<Rightarrow> False
      | Some x \<Rightarrow>
         (case a_class x of
            InDataAnchor \<Rightarrow> InDataAnchor_Equal s a q
          | OutDataAnchor \<Rightarrow> OutDataAnchor_Equal s a q
          | InControlAnchor \<Rightarrow> InControlAnchor_Equal s a q
          | OutControlAnchor \<Rightarrow> OutControlAnchor_Equal s a q
          | _ \<Rightarrow> False))"

section \<open>Changing links\<close>

text \<open>\<^verbatim>\<open>Anchor::Unlink\<close>: both ends must know each other, or nothing changes.\<close>

definition Unlink :: "('z) anchor_store_scheme \<Rightarrow> nat \<Rightarrow> ptr \<Rightarrow> ('z) anchor_store_scheme \<times> graphStatus" where
  "Unlink s a peer =
     (case peer of
        None \<Rightarrow> (s, GRAPH_FAILED)
      | Some p \<Rightarrow>
         (case find_index (\<lambda>an. Equal s p (lock s an)) (peers s a) of
            None \<Rightarrow> (s, GRAPH_FAILED)
          | Some it \<Rightarrow>
             (case find_index (\<lambda>an. Equal s a (lock s an)) (peers s p) of
                None \<Rightarrow> (s, GRAPH_FAILED)
              | Some it_peer \<Rightarrow>
                  (upd_peers (erase_at it_peer) p (upd_peers (erase_at it) a s), GRAPH_SUCCESS))))"

text \<open>
  \<^verbatim>\<open>Anchor::UnlinkAll\<close>: unlink the front peer until none is left. The status of
  \<^verbatim>\<open>Unlink\<close> is only logged, so the loop need not end: \<^term>\<open>None\<close> is a call that
  never returns.
\<close>

partial_function (option) UnlinkAll_loop :: "('z) anchor_store_scheme \<Rightarrow> nat \<Rightarrow> ('z) anchor_store_scheme option" where
  "UnlinkAll_loop s a =
     (let s' = fst (Unlink s a (lock s (hd (peers s a))))
      in if peers s' a \<noteq> [] then UnlinkAll_loop s' a else Some s')"

definition UnlinkAll :: "('z) anchor_store_scheme \<Rightarrow> nat \<Rightarrow> ('z) anchor_store_scheme option" where
  "UnlinkAll s a = (if peers s a \<noteq> [] then UnlinkAll_loop s a else Some s)"

text \<open>
  \<^verbatim>\<open>Anchor::ReplacePeer\<close>: the slot that held \<open>old_peer\<close> now holds \<open>first_peer\<close>, and the
  slot of \<open>old_peer\<close> that held this anchor now holds \<open>second_peer\<close>.
\<close>

definition ReplacePeer ::
  "('z) anchor_store_scheme \<Rightarrow> nat \<Rightarrow> ptr \<Rightarrow> ptr \<Rightarrow> ptr \<Rightarrow> ('z) anchor_store_scheme \<times> graphStatus" where
  "ReplacePeer s this old_peer first_peer second_peer =
     (case (old_peer, first_peer, second_peer) of
        (Some old, Some first, Some second) \<Rightarrow>
          (case find_index (\<lambda>an. Equal s old (lock s an)) (peers s this) of
             None \<Rightarrow> (s, GRAPH_FAILED)
           | Some this_it \<Rightarrow>
              (case find_index (\<lambda>an. Equal s this (lock s an)) (peers s old) of
                 None \<Rightarrow> (s, GRAPH_FAILED)
               | Some old_it \<Rightarrow>
                  (let s1 = upd_peers (\<lambda>ps. ps[this_it := first]) this s;
                       s2 = upd_peers (\<lambda>ps. ps @ [this]) first s1;
                       s3 = upd_peers (\<lambda>ps. ps[old_it := second]) old s2;
                       s4 = upd_peers (\<lambda>ps. ps @ [old]) second s3
                   in (s4, GRAPH_SUCCESS))))
      | _ \<Rightarrow> (s, GRAPH_FAILED))"

definition IsLinkedWith :: "('z) anchor_store_scheme \<Rightarrow> nat \<Rightarrow> ptr \<Rightarrow> bool" where
  "IsLinkedWith s a peer =
     (find_index (\<lambda>an. case peer of None \<Rightarrow> False | Some p \<Rightarrow> Equal s p (lock s an)) (peers s a) \<noteq> None)"

text \<open>The pair of \<^verbatim>\<open>push_back\<close> calls every link operation ends with.\<close>

definition push_link :: "nat \<Rightarrow> nat \<Rightarrow> ('z) anchor_store_scheme \<Rightarrow> ('z) anchor_store_scheme" where
  "push_link a b s = upd_peers (\<lambda>ps. ps @ [a]) b (upd_peers (\<lambda>ps. ps @ [b]) a s)"

definition InData_LinkFrom :: "('z) anchor_store_scheme \<Rightarrow> nat \<Rightarrow> ptr \<Rightarrow> ('z) anchor_store_scheme \<times> graphStatus" where
  "InData_LinkFrom s this src =
     (case src of
        None \<Rightarrow> (s, GRAPH_FAILED)
      | Some a \<Rightarrow> if peers s this \<noteq> [] then (s, GRAPH_FAILED)
                  else (push_link this a s, GRAPH_SUCCESS))"

definition OutData_LinkTo_InData :: "('z) anchor_store_scheme \<Rightarrow> nat \<Rightarrow> ptr \<Rightarrow> ('z) anchor_store_scheme \<times> graphStatus" where
  "OutData_LinkTo_InData s this dest =
     (case dest of
        None \<Rightarrow> (s, GRAPH_FAILED)
      | Some b \<Rightarrow> if peers s b \<noteq> [] then (s, GRAPH_FAILED)
                  else (push_link this b s, GRAPH_SUCCESS))"

definition OutData_LinkTo_InControl :: "('z) anchor_store_scheme \<Rightarrow> nat \<Rightarrow> ptr \<Rightarrow> ('z) anchor_store_scheme \<times> graphStatus" where
  "OutData_LinkTo_InControl s this dest =
     (case dest of None \<Rightarrow> (s, GRAPH_FAILED) | Some b \<Rightarrow> (push_link this b s, GRAPH_SUCCESS))"

definition OutControl_LinkTo_InData :: "('z) anchor_store_scheme \<Rightarrow> nat \<Rightarrow> ptr \<Rightarrow> ('z) anchor_store_scheme \<times> graphStatus" where
  "OutControl_LinkTo_InData s this dest =
     (case dest of None \<Rightarrow> (s, GRAPH_FAILED) | Some b \<Rightarrow> (push_link this b s, GRAPH_SUCCESS))"

definition OutControl_LinkTo_InControl :: "('z) anchor_store_scheme \<Rightarrow> nat \<Rightarrow> ptr \<Rightarrow> ('z) anchor_store_scheme \<times> graphStatus" where
  "OutControl_LinkTo_InControl s this dest =
     (case dest of None \<Rightarrow> (s, GRAPH_FAILED) | Some b \<Rightarrow> (push_link this b s, GRAPH_SUCCESS))"

definition InControl_LinkFrom :: "('z) anchor_store_scheme \<Rightarrow> nat \<Rightarrow> ptr \<Rightarrow> ('z) anchor_store_scheme \<times> graphStatus" where
  "InControl_LinkFrom s this src =
     (case src of None \<Rightarrow> (s, GRAPH_FAILED) | Some a \<Rightarrow> (push_link this a s, GRAPH_SUCCESS))"

section \<open>Anchor utilities\<close>

definition GetFormat :: "('z) anchor_store_scheme \<Rightarrow> ptr \<Rightarrow> 32 word" where
  "GetFormat s p = (case p of None \<Rightarrow> FORMAT_RESERVED
     | Some a \<Rightarrow> (case anchors s a of None \<Rightarrow> FORMAT_RESERVED | Some x \<Rightarrow> a_format x))"

definition SetFormat :: "('z) anchor_store_scheme \<Rightarrow> ptr \<Rightarrow> 32 word \<Rightarrow> ('z) anchor_store_scheme \<times> graphStatus" where
  "SetFormat s p f =
     (case p of None \<Rightarrow> (s, GRAPH_FAILED)
      | Some a \<Rightarrow> if f = FORMAT_RESERVED then (s, GRAPH_FAILED)
                  else (s\<lparr>anchors := (anchors s)(a := map_option (a_format_update (\<lambda>_. f)) (anchors s a))\<rparr>,
                        GRAPH_SUCCESS))"

definition GetStatus :: "('z) anchor_store_scheme \<Rightarrow> ptr \<Rightarrow> AnchorStatus" where
  "GetStatus s p = (case p of None \<Rightarrow> ANCHOR_RESERVED
     | Some a \<Rightarrow> (case anchors s a of None \<Rightarrow> ANCHOR_RESERVED | Some x \<Rightarrow> a_status x))"

definition SetStatus :: "('z) anchor_store_scheme \<Rightarrow> ptr \<Rightarrow> AnchorStatus \<Rightarrow> ('z) anchor_store_scheme \<times> graphStatus" where
  "SetStatus s p st =
     (case p of None \<Rightarrow> (s, GRAPH_FAILED)
      | Some a \<Rightarrow> if st = ANCHOR_RESERVED then (s, GRAPH_FAILED)
                  else (s\<lparr>anchors := (anchors s)(a := map_option (a_status_update (\<lambda>_. st)) (anchors s a))\<rparr>,
                        GRAPH_SUCCESS))"

definition HasControlEdge :: "('z) anchor_store_scheme \<Rightarrow> ptr \<Rightarrow> bool" where
  "HasControlEdge s p =
     (case DynamicAnchorCast s ControlAnchor p of
        Some a \<Rightarrow> GetPeerAnchorsSize s a \<noteq> 0
      | None \<Rightarrow>
         (case DynamicAnchorCast s DataAnchor p of
            Some a \<Rightarrow> list_ex (\<lambda>q. DynamicAnchorCast s ControlAnchor q \<noteq> None) (GetPeerAnchors s a)
          | None \<Rightarrow> False))"

definition IsControlEdge :: "('z) anchor_store_scheme \<Rightarrow> ptr \<Rightarrow> ptr \<Rightarrow> bool" where
  "IsControlEdge s src dst =
     (case src of None \<Rightarrow> False
      | Some a \<Rightarrow>
          if \<not> IsLinkedWith s a dst then False
          else DynamicAnchorCast s ControlAnchor src \<noteq> None \<or> DynamicAnchorCast s ControlAnchor dst \<noteq> None)"

definition AnchorUtils_GetIdx :: "('z) anchor_store_scheme \<Rightarrow> ptr \<Rightarrow> int" where
  "AnchorUtils_GetIdx s p =
     (case DynamicAnchorCast s DataAnchor p of
        Some a \<Rightarrow> GetIdx s a
      | None \<Rightarrow> (case DynamicAnchorCast s ControlAnchor p of Some a \<Rightarrow> GetIdx s a | None \<Rightarrow> -1))"

end
