(* ===== verification/LinkInterface.thy ===== *)
theory LinkInterface
  imports Prelude
begin

text \<open>
  The contract between the anchors and the graph algorithms that rewire them. A client sees,
  for every anchor, the list of its peers; it can join two anchors (both lists grow at the
  end) and cut a link (both lists lose one occurrence). The laws below are what
  \<^verbatim>\<open>graph/anchor.cc\<close> promises; the theory Anchor_Links proves them of the model and the
  client lemmas here are proved once, from the laws alone.
\<close>

locale link_store =
  fixes peers :: "'s \<Rightarrow> 'a \<Rightarrow> 'a list"
    and join :: "'a \<Rightarrow> 'a \<Rightarrow> 's \<Rightarrow> 's"
    and cut :: "'a \<Rightarrow> 'a \<Rightarrow> 's \<Rightarrow> 's"
    and joinable :: "'s \<Rightarrow> 'a \<Rightarrow> 'a \<Rightarrow> bool"
    and inv :: "'s \<Rightarrow> bool"
  assumes sym: "inv s \<Longrightarrow> count_list (peers s a) b = count_list (peers s b) a"
    and linked_joinable: "inv s \<Longrightarrow> b \<in> set (peers s a) \<Longrightarrow> joinable s a b"
    and joinable_sym: "joinable s a b \<Longrightarrow> joinable s b a"
    and joinable_neq: "joinable s a b \<Longrightarrow> a \<noteq> b"
    and peers_join: "inv s \<Longrightarrow> joinable s a b \<Longrightarrow>
      peers (join a b s) = (peers s)(a := peers s a @ [b], b := peers s b @ [a])"
    and inv_join: "inv s \<Longrightarrow> joinable s a b \<Longrightarrow> inv (join a b s)"
    and joinable_join: "joinable (join a b s) = joinable s"
    and peers_cut: "inv s \<Longrightarrow> b \<in> set (peers s a) \<Longrightarrow>
      peers (cut a b s) = (peers s)(a := remove1 b (peers s a), b := remove1 a (peers s b))"
    and inv_cut: "inv s \<Longrightarrow> b \<in> set (peers s a) \<Longrightarrow> inv (cut a b s)"
    and joinable_cut: "joinable (cut a b s) = joinable s"
begin

definition links :: "'s \<Rightarrow> 'a \<Rightarrow> 'a \<Rightarrow> nat" where
  "links s a b = count_list (peers s a) b"

lemma linked_sym: "inv s \<Longrightarrow> b \<in> set (peers s a) \<longleftrightarrow> a \<in> set (peers s b)"
  using sym [of s a b] by (metis count_list_pos)

lemma linked_neq: "inv s \<Longrightarrow> b \<in> set (peers s a) \<Longrightarrow> a \<noteq> b"
  using joinable_neq linked_joinable by blast

text \<open>The multigraph view: joining adds one link, cutting removes one.\<close>

lemma links_join:
  assumes "inv s" "joinable s a b"
  shows "links (join a b s) x y =
    links s x y + (if (x = a \<and> y = b) \<or> (x = b \<and> y = a) then 1 else 0)"
  using assms joinable_neq [OF assms(2)] by (auto simp: links_def peers_join)

lemma links_cut:
  assumes "inv s" "b \<in> set (peers s a)"
  shows "links (cut a b s) x y =
    links s x y - (if (x = a \<and> y = b) \<or> (x = b \<and> y = a) then 1 else 0)"
  using assms linked_neq [OF assms] by (auto simp: links_def peers_cut)

text \<open>Cutting the front peer of an anchor until none is left.\<close>

fun cut_front :: "'a \<Rightarrow> 'a list \<Rightarrow> 's \<Rightarrow> 's" where
  "cut_front a [] s = s"
| "cut_front a (b # bs) s = cut_front a bs (cut a b s)"

lemma cut_front_inv:
  "inv s \<Longrightarrow> peers s a = bs \<Longrightarrow> inv (cut_front a bs s) \<and> joinable (cut_front a bs s) = joinable s"
proof (induction bs arbitrary: s)
  case (Cons b bs)
  then have "b \<in> set (peers s a)" by simp
  moreover from this Cons.prems have "peers (cut a b s) a = bs"
    using linked_neq [of s b a] by (auto simp: peers_cut)
  ultimately show ?case using Cons by (simp add: inv_cut joinable_cut)
qed simp

lemma removeAll_remove1: "removeAll x (remove1 x xs) = removeAll x xs"
  by (induction xs) auto

lemma cut_front_peers:
  assumes "inv s" "peers s a = bs"
  shows "peers (cut_front a bs s) x = (if x = a then [] else removeAll a (peers s x))"
  using assms
proof (induction bs arbitrary: s)
  case Nil
  then have "a \<notin> set (peers s x)" using linked_sym [of s x a] by simp
  with Nil show ?case by simp
next
  case (Cons b bs)
  have b: "b \<in> set (peers s a)" using Cons.prems by simp
  then have p: "peers (cut a b s) = (peers s)(a := bs, b := remove1 a (peers s b))"
    using Cons.prems by (simp add: peers_cut)
  have "a \<noteq> b" using Cons.prems(1) b by (rule linked_neq)
  then have "peers (cut a b s) a = bs" using p by simp
  from Cons.IH [OF inv_cut [OF Cons.prems(1) b] this] show ?case
    by (simp add: p removeAll_remove1)
qed

text \<open>Moving the far end of a link: cut one peer, join another.\<close>

definition move :: "'a \<Rightarrow> 'a \<Rightarrow> 'a \<Rightarrow> 's \<Rightarrow> 's" where
  "move a b c s = join a c (cut a b s)"

lemma inv_move: "inv s \<Longrightarrow> b \<in> set (peers s a) \<Longrightarrow> joinable s a c \<Longrightarrow> inv (move a b c s)"
  by (simp add: move_def inv_join inv_cut joinable_cut)

lemma links_move:
  assumes "inv s" "b \<in> set (peers s a)" "joinable s a c"
  shows "links (move a b c s) x y =
    links s x y - (if (x = a \<and> y = b) \<or> (x = b \<and> y = a) then 1 else 0)
                + (if (x = a \<and> y = c) \<or> (x = c \<and> y = a) then 1 else 0)"
  using assms by (simp add: move_def links_join links_cut inv_cut joinable_cut)

end

end
