(* ===== verification/Anchor_Links.thy ===== *)
theory Anchor_Links
  imports Anchors LinkInterface
begin

text \<open>
  The link invariant of the anchor store and what each operation of
  \<^verbatim>\<open>graph/anchor.cc\<close> does to it: a link is recorded at both of its ends, as often at
  one as at the other, and joins an out anchor with an in anchor.
\<close>

section \<open>What changing peers leaves alone\<close>

lemma anchors_upd_peers:
  "anchors (upd_peers f a s) b =
     (if a = b then map_option (a_peers_update f) (anchors s b) else anchors s b)"
  by (simp add: upd_peers_def)

lemma anchors_upd_peers_None [simp]: "anchors (upd_peers f a s) b = None \<longleftrightarrow> anchors s b = None"
  by (simp add: anchors_upd_peers)

lemma peers_upd_peers [link_simps]:
  "peers (upd_peers f a s) b = (if a = b \<and> anchors s b \<noteq> None then f (peers s b) else peers s b)"
  by (auto simp: peers_def anchors_upd_peers split: option.splits)

lemma lock_upd_peers [simp]: "lock (upd_peers f a s) = lock s"
  by (rule ext) (simp add: lock_def anchors_upd_peers split: option.splits)

lemma GetOwnerNode_upd_peers [simp]: "GetOwnerNode (upd_peers f a s) = GetOwnerNode s"
  by (rule ext) (simp add: GetOwnerNode_def anchors_upd_peers split: option.splits)

lemma GetIdx_upd_peers [simp]: "GetIdx (upd_peers f a s) = GetIdx s"
  by (rule ext) (simp add: GetIdx_def anchors_upd_peers split: option.splits)

lemma DynamicAnchorCast_upd_peers [simp]: "DynamicAnchorCast (upd_peers f a s) = DynamicAnchorCast s"
  by (intro ext) (simp add: DynamicAnchorCast_def anchors_upd_peers split: option.splits)

lemma Equal_upd_peers [simp]: "Equal (upd_peers f a s) = Equal s"
  by (intro ext)
     (simp add: Equal_def InDataAnchor_Equal_def OutDataAnchor_Equal_def InControlAnchor_Equal_def
        OutControlAnchor_Equal_def same_owner_def anchors_upd_peers
        split: option.splits anchor_class.splits)

text \<open>The class of the object at an address, if there is one.\<close>

definition class_of :: "('z) anchor_store_scheme \<Rightarrow> nat \<Rightarrow> anchor_class option" where
  "class_of s a = map_option a_class (anchors s a)"

lemma class_of_upd_peers [simp]: "class_of (upd_peers f a s) = class_of s"
  by (rule ext) (simp add: class_of_def anchors_upd_peers option.map_comp comp_def)

lemma class_of_None: "class_of s a = None \<longleftrightarrow> anchors s a = None"
  by (simp add: class_of_def)

lemma DynamicAnchorCast_lock:
  "DynamicAnchorCast s t (lock s p) =
     (case class_of s p of None \<Rightarrow> None | Some c \<Rightarrow> if is_type_of c t then Some p else None)"
  by (simp add: DynamicAnchorCast_def lock_def class_of_def split: option.splits)

section \<open>The invariant\<close>

definition is_in :: "anchor_class \<Rightarrow> bool" where
  "is_in c \<longleftrightarrow> c = InDataAnchor \<or> c = InControlAnchor"

definition is_out :: "anchor_class \<Rightarrow> bool" where
  "is_out c \<longleftrightarrow> c = OutDataAnchor \<or> c = OutControlAnchor"

text \<open>What tells two anchors apart: a node has one control anchor of each direction.\<close>

definition anchor_key :: "anchor \<Rightarrow> anchor_class \<times> ptr \<times> int" where
  "anchor_key x = (a_class x, a_owner x,
     if a_class x = InDataAnchor \<or> a_class x = OutDataAnchor then a_idx x else 0)"

definition key_of :: "('z) anchor_store_scheme \<Rightarrow> nat \<Rightarrow> (anchor_class \<times> ptr \<times> int) option" where
  "key_of s a = map_option anchor_key (anchors s a)"

definition ident_wf :: "('z) anchor_store_scheme \<Rightarrow> bool" where
  "ident_wf s \<longleftrightarrow>
     (\<forall>a c. class_of s a = Some c \<longrightarrow> is_in c \<or> is_out c) \<and>
     (\<forall>a b k. key_of s a = Some k \<longrightarrow> key_of s b = Some k \<longrightarrow> a = b)"

lemma ident_wf_inj: "ident_wf s \<Longrightarrow> key_of s a = Some k \<Longrightarrow> key_of s b = Some k \<Longrightarrow> a = b"
  unfolding ident_wf_def by blast

definition joinable :: "('z) anchor_store_scheme \<Rightarrow> nat \<Rightarrow> nat \<Rightarrow> bool" where
  "joinable s a b \<longleftrightarrow>
     (case (class_of s a, class_of s b) of
        (Some c, Some d) \<Rightarrow> (is_out c \<and> is_in d) \<or> (is_in c \<and> is_out d)
      | _ \<Rightarrow> False)"

definition link_inv :: "('z) anchor_store_scheme \<Rightarrow> bool" where
  "link_inv s \<longleftrightarrow> ident_wf s \<and>
     (\<forall>a b. count_list (peers s a) b = count_list (peers s b) a) \<and>
     (\<forall>a b. b \<in> set (peers s a) \<longrightarrow> joinable s a b)"

lemma is_in_out_excl: "is_in c \<Longrightarrow> is_out d \<Longrightarrow> c \<noteq> d"
  by (auto simp: is_in_def is_out_def)

lemma joinable_sym: "joinable s a b \<Longrightarrow> joinable s b a"
  by (auto simp: joinable_def split: option.splits)

lemma joinable_neq: "joinable s a b \<Longrightarrow> a \<noteq> b"
  by (auto simp: joinable_def is_in_def is_out_def split: option.splits)

lemma joinable_object: "joinable s a b \<Longrightarrow> anchors s a \<noteq> None \<and> anchors s b \<noteq> None"
  by (auto simp: joinable_def class_of_def split: option.splits)

lemma joinable_upd_peers [simp]: "joinable (upd_peers f a s) = joinable s"
  by (intro ext) (simp add: joinable_def)

lemma anchor_key_peers_update [simp]: "anchor_key (a_peers_update f x) = anchor_key x"
  by (simp add: anchor_key_def)

lemma key_of_upd_peers [simp]: "key_of (upd_peers f a s) = key_of s"
  by (rule ext) (simp add: key_of_def anchors_upd_peers option.map_comp comp_def)

lemma ident_wf_upd_peers [simp]: "ident_wf (upd_peers f a s) = ident_wf s"
  by (simp add: ident_wf_def)

lemma link_inv_ident: "link_inv s \<Longrightarrow> ident_wf s"
  by (simp add: link_inv_def)

lemma link_inv_count: "link_inv s \<Longrightarrow> count_list (peers s a) b = count_list (peers s b) a"
  by (simp add: link_inv_def)

lemma link_inv_joinable: "link_inv s \<Longrightarrow> b \<in> set (peers s a) \<Longrightarrow> joinable s a b"
  by (simp add: link_inv_def)

lemma link_inv_sym: "link_inv s \<Longrightarrow> b \<in> set (peers s a) \<longleftrightarrow> a \<in> set (peers s b)"
  using link_inv_count [of s a b] by (metis count_list_pos)

text \<open>The invariant sees the peers of an anchor only up to their order.\<close>

lemma link_inv_reorder:
  assumes "link_inv t" "\<And>a. mset (peers s a) = mset (peers t a)" "joinable s = joinable t" "ident_wf s"
  shows "link_inv s"
proof -
  have "count_list (peers s a) b = count_list (peers t a) b" for a b
    using assms(2) [of a] by (metis count_mset)
  moreover have "set (peers s a) = set (peers t a)" for a
    using assms(2) [of a] by (metis set_mset_mset)
  ultimately show ?thesis using assms by (simp add: link_inv_def)
qed

section \<open>Equality is identity of addresses\<close>

lemma Equal_lock_None [simp]: "Equal s a None = False"
  by (simp add: Equal_def InDataAnchor_Equal_def OutDataAnchor_Equal_def InControlAnchor_Equal_def
        OutControlAnchor_Equal_def DynamicAnchorCast_def split: option.splits anchor_class.splits)

lemmas Equal_defs = Equal_def InDataAnchor_Equal_def OutDataAnchor_Equal_def
  InControlAnchor_Equal_def OutControlAnchor_Equal_def DynamicAnchorCast_def lock_def
  same_owner_def GetOwnerNode_def GetIdx_def anchor_key_def is_in_def is_out_def

lemma Equal_key:
  assumes x: "anchors s a = Some x" and y: "anchors s b = Some y"
    and "is_in (a_class x) \<or> is_out (a_class x)" "is_in (a_class y) \<or> is_out (a_class y)"
  shows "Equal s a (lock s b) \<longleftrightarrow> anchor_key y = anchor_key x"
proof -
  have "a_class x \<in> {InDataAnchor, OutDataAnchor, InControlAnchor, OutControlAnchor}"
       "a_class y \<in> {InDataAnchor, OutDataAnchor, InControlAnchor, OutControlAnchor}"
    using assms(3,4) by (auto simp: is_in_def is_out_def)
  then show ?thesis using x y
    by (cases "a_class x"; cases "a_class y") (auto simp: Equal_defs)
qed

lemma Equal_iff:
  assumes id: "ident_wf s" and a: "anchors s a \<noteq> None"
  shows "Equal s a (lock s b) \<longleftrightarrow> b = a"
proof (cases "anchors s b")
  case None
  then show ?thesis using a by (auto simp: lock_def)
next
  case (Some y)
  from a obtain x where x: "anchors s a = Some x" by blast
  have "is_in (a_class x) \<or> is_out (a_class x)" "is_in (a_class y) \<or> is_out (a_class y)"
    using id x Some by (auto simp: ident_wf_def class_of_def)
  note eq = Equal_key [OF x Some this]
  have "anchor_key y = anchor_key x \<Longrightarrow> b = a"
    using ident_wf_inj [OF id, of b "anchor_key x" a] x Some by (simp add: key_of_def)
  with eq x Some show ?thesis by auto
qed

lemma Equal_find:
  "ident_wf s \<Longrightarrow> anchors s a \<noteq> None \<Longrightarrow>
     find_index (\<lambda>an. Equal s a (lock s an)) xs = find_index (\<lambda>an. an = a) xs"
  by (simp add: Equal_iff)

section \<open>Joining\<close>

lemma push_link_frame [frame_simps, simp]:
  "lock (push_link a b s) = lock s" "GetOwnerNode (push_link a b s) = GetOwnerNode s"
  "GetIdx (push_link a b s) = GetIdx s" "DynamicAnchorCast (push_link a b s) = DynamicAnchorCast s"
  "class_of (push_link a b s) = class_of s" "joinable (push_link a b s) = joinable s"
  "ident_wf (push_link a b s) = ident_wf s" "Equal (push_link a b s) = Equal s"
  "anchors (push_link a b s) c = None \<longleftrightarrow> anchors s c = None"
  by (simp_all add: push_link_def)

lemma peers_push_link [link_simps]:
  "joinable s a b \<Longrightarrow> peers (push_link a b s) = (peers s)(a := peers s a @ [b], b := peers s b @ [a])"
  using joinable_object [of s a b] joinable_neq [of s a b]
  by (auto simp: push_link_def peers_upd_peers)

lemma link_inv_push_link:
  assumes inv: "link_inv s" and j: "joinable s a b"
  shows "link_inv (push_link a b s)"
proof -
  note p = peers_push_link [OF j] and n = joinable_neq [OF j]
  have "count_list (peers (push_link a b s) x) y = count_list (peers (push_link a b s) y) x" for x y
    using n link_inv_count [OF inv, of x y] by (auto simp: p)
  moreover have "y \<in> set (peers (push_link a b s) x) \<Longrightarrow> joinable s x y" for x y
    using n j joinable_sym [OF j] link_inv_joinable [OF inv]
    by (auto simp: p split: if_splits)
  ultimately show ?thesis using inv by (simp add: link_inv_def)
qed

section \<open>Unlinking\<close>

text \<open>The effect of a successful unlink.\<close>

definition cut_link :: "nat \<Rightarrow> nat \<Rightarrow> ('z) anchor_store_scheme \<Rightarrow> ('z) anchor_store_scheme" where
  "cut_link a b s = upd_peers (remove1 a) b (upd_peers (remove1 b) a s)"

lemma cut_link_frame [frame_simps, simp]:
  "lock (cut_link a b s) = lock s" "GetOwnerNode (cut_link a b s) = GetOwnerNode s"
  "GetIdx (cut_link a b s) = GetIdx s" "DynamicAnchorCast (cut_link a b s) = DynamicAnchorCast s"
  "class_of (cut_link a b s) = class_of s" "joinable (cut_link a b s) = joinable s"
  "ident_wf (cut_link a b s) = ident_wf s" "Equal (cut_link a b s) = Equal s"
  "anchors (cut_link a b s) c = None \<longleftrightarrow> anchors s c = None"
  by (simp_all add: cut_link_def)

lemma peers_cut_link [link_simps]:
  "joinable s a b \<Longrightarrow>
     peers (cut_link a b s) = (peers s)(a := remove1 b (peers s a), b := remove1 a (peers s b))"
  using joinable_object [of s a b] joinable_neq [of s a b]
  by (auto simp: cut_link_def peers_upd_peers)

lemma link_inv_cut_link:
  assumes inv: "link_inv s" and b: "b \<in> set (peers s a)"
  shows "link_inv (cut_link a b s)"
proof -
  have j: "joinable s a b" using inv b by (rule link_inv_joinable)
  note p = peers_cut_link [OF j] and n = joinable_neq [OF j]
  have "count_list (peers (cut_link a b s) x) y = count_list (peers (cut_link a b s) y) x" for x y
    using n link_inv_count [OF inv, of x y] by (auto simp: p)
  moreover have "y \<in> set (peers (cut_link a b s) x) \<Longrightarrow> joinable s x y" for x y
    using n link_inv_joinable [OF inv] set_remove1_subset
    by (auto simp: p split: if_splits dest: subsetD [OF set_remove1_subset])
  ultimately show ?thesis using inv by (simp add: link_inv_def)
qed

lemma upd_peers_cong: "f (peers s a) = g (peers s a) \<Longrightarrow> upd_peers f a s = upd_peers g a s"
proof (cases "anchors s a")
  case (Some x)
  assume "f (peers s a) = g (peers s a)"
  with Some have "a_peers_update f x = a_peers_update g x"
    by (cases x) (simp add: peers_def)
  with Some show ?thesis by (simp add: upd_peers_def)
qed (simp add: upd_peers_def)

text \<open>On a consistent store, unlinking a peer succeeds and cuts one link; unlinking anything
  else fails and changes nothing.\<close>

lemma Unlink_linked:
  assumes inv: "link_inv s" and p: "p \<in> set (peers s a)"
  shows "Unlink s a (Some p) = (cut_link a p s, GRAPH_SUCCESS)"
proof -
  have j: "joinable s a p" using inv p by (rule link_inv_joinable)
  note obj = joinable_object [OF j] and id = link_inv_ident [OF inv] and n = joinable_neq [OF j]
  have p': "a \<in> set (peers s p)" using link_inv_sym [OF inv] p by blast
  obtain i where i: "find_index (\<lambda>an. an = p) (peers s a) = Some i"
    using find_index_eq_ex [OF p] by blast
  obtain k where k: "find_index (\<lambda>an. an = a) (peers s p) = Some k"
    using find_index_eq_ex [OF p'] by blast
  have "upd_peers (erase_at i) a s = upd_peers (remove1 p) a s"
    by (rule upd_peers_cong) (simp add: erase_find_eq [OF i])
  moreover have "upd_peers (erase_at k) p (upd_peers (remove1 p) a s) =
      upd_peers (remove1 a) p (upd_peers (remove1 p) a s)"
    using n by (intro upd_peers_cong) (simp add: peers_upd_peers erase_find_eq [OF k])
  ultimately show ?thesis
    using obj id i k by (simp add: Unlink_def Equal_find cut_link_def)
qed

lemma Unlink_unlinked:
  assumes "ident_wf s" "anchors s p \<noteq> None" "p \<notin> set (peers s a)"
  shows "Unlink s a (Some p) = (s, GRAPH_FAILED)"
  using assms by (simp add: Unlink_def Equal_find find_index_eq_None [THEN iffD2])

lemma Unlink_null [simp]: "Unlink s a None = (s, GRAPH_FAILED)"
  by (simp add: Unlink_def)

lemma Unlink_cases:
  assumes "link_inv s" "anchors s p \<noteq> None"
  shows "Unlink s a (Some p) =
    (if p \<in> set (peers s a) then (cut_link a p s, GRAPH_SUCCESS) else (s, GRAPH_FAILED))"
  using assms by (simp add: Unlink_linked Unlink_unlinked link_inv_ident)

text \<open>The store implements the contract of the graph algorithms.\<close>

interpretation ls: link_store peers push_link cut_link joinable link_inv
  by unfold_locales
     (auto simp: link_inv_count link_inv_joinable joinable_sym joinable_neq peers_push_link
        link_inv_push_link peers_cut_link link_inv_cut_link dest: joinable_neq)

end
