(* ===== verification/Anchor_Steps.thy ===== *)
theory Anchor_Steps
  imports Anchor_Links
begin

text \<open>
  The link operations of \<^verbatim>\<open>graph/anchor.cc\<close> as steps of a state machine: total
  correctness of \<^verbatim>\<open>UnlinkAll\<close>, the effect of \<^verbatim>\<open>ReplacePeer\<close>, and the
  invariants every reachable store satisfies.
\<close>

section \<open>Unlinking everything\<close>

lemma lock_object: "anchors s a \<noteq> None \<Longrightarrow> lock s a = Some a"
  by (auto simp: lock_def)

lemma link_inv_peer_object: "link_inv s \<Longrightarrow> b \<in> set (peers s a) \<Longrightarrow> anchors s b \<noteq> None"
  using link_inv_joinable joinable_object by blast

lemma Unlink_front:
  "link_inv s \<Longrightarrow> peers s a = b # bs \<Longrightarrow>
     fst (Unlink s a (lock s (hd (peers s a)))) = cut_link a b s"
  using link_inv_peer_object [of s b a] Unlink_linked [of s b a] by (simp add: lock_object)

lemma UnlinkAll_loop_eq:
  "link_inv s \<Longrightarrow> peers s a = b # bs \<Longrightarrow> UnlinkAll_loop s a = Some (ls.cut_front a (b # bs) s)"
proof (induction bs arbitrary: s b)
  case Nil
  have "peers (cut_link a b s) a = []"
    using Nil ls.linked_neq [of s b a] by (simp add: ls.peers_cut)
  then show ?case using Unlink_front [OF Nil] by (simp add: UnlinkAll_loop.simps [of s a] Let_def)
next
  case (Cons c cs)
  have b: "b \<in> set (peers s a)" using Cons.prems by simp
  have p: "peers (cut_link a b s) a = c # cs"
    using Cons.prems ls.linked_neq [OF Cons.prems(1) b] b by (simp add: ls.peers_cut)
  have "UnlinkAll_loop s a = UnlinkAll_loop (cut_link a b s) a"
    using Unlink_front [OF Cons.prems] p by (subst UnlinkAll_loop.simps) (simp add: Let_def)
  also have "\<dots> = Some (ls.cut_front a (c # cs) (cut_link a b s))"
    using link_inv_cut_link [OF Cons.prems(1) b] p by (rule Cons.IH)
  finally show ?case by simp
qed

lemma UnlinkAll_eq: "link_inv s \<Longrightarrow> UnlinkAll s a = Some (ls.cut_front a (peers s a) s)"
  using UnlinkAll_loop_eq by (cases "peers s a") (simp_all add: UnlinkAll_def)

lemma cut_front_frame [frame_simps, simp]:
  "lock (ls.cut_front a bs s) = lock s" "class_of (ls.cut_front a bs s) = class_of s"
  "DynamicAnchorCast (ls.cut_front a bs s) = DynamicAnchorCast s"
  "GetOwnerNode (ls.cut_front a bs s) = GetOwnerNode s"
  by (induction bs arbitrary: s) simp_all

text \<open>A front peer that does not answer keeps the loop going forever.\<close>

lemma UnlinkAll_loop_stuck:
  assumes "Unlink s a (lock s (hd (peers s a))) = (s, GRAPH_FAILED)" "peers s a \<noteq> []"
    and ret: "UnlinkAll_loop s a = Some t"
  shows False
proof -
  have "fst (Unlink s a (lock s (hd (peers s a)))) = s \<and> peers s a \<noteq> [] \<longrightarrow> False"
  proof (rule UnlinkAll_loop.raw_induct
      [where P = "\<lambda>s a t. fst (Unlink s a (lock s (hd (peers s a)))) = s \<and> peers s a \<noteq> [] \<longrightarrow> False",
        OF _ ret])
    fix f :: "'a anchor_store_scheme \<Rightarrow> nat \<Rightarrow> 'a anchor_store_scheme option" and s a t
    assume IH: "\<And>s a t. f s a = Some t \<Longrightarrow>
        fst (Unlink s a (lock s (hd (peers s a)))) = s \<and> peers s a \<noteq> [] \<longrightarrow> False"
      and eq: "(let s' = fst (Unlink s a (lock s (hd (peers s a))))
         in if peers s' a \<noteq> [] then f s' a else Some s') = Some t"
    show "fst (Unlink s a (lock s (hd (peers s a)))) = s \<and> peers s a \<noteq> [] \<longrightarrow> False"
    proof
      assume h: "fst (Unlink s a (lock s (hd (peers s a)))) = s \<and> peers s a \<noteq> []"
      with eq have "f s a = Some t" by (simp only: Let_def) simp
      with h show False using IH by blast
    qed
  qed
  with assms show False by simp
qed

section \<open>Replacing a peer\<close>

lemma ReplacePeer_eq:
  assumes inv: "link_inv s" and old: "old \<in> set (peers s this)"
    and that: "first \<noteq> old" "this \<noteq> old"
  shows "ReplacePeer s this (Some old) (Some first) (Some second) =
    (upd_peers (\<lambda>ps. ps @ [old]) second (upd_peers (replace1 this second) old
       (upd_peers (\<lambda>ps. ps @ [this]) first (upd_peers (replace1 old first) this s))), GRAPH_SUCCESS)"
proof -
  have j: "joinable s this old" using inv old by (rule link_inv_joinable)
  note obj = joinable_object [OF j] and id = link_inv_ident [OF inv]
  have this': "this \<in> set (peers s old)" using link_inv_sym [OF inv] old by blast
  obtain i where i: "find_index (\<lambda>an. an = old) (peers s this) = Some i"
    using find_index_eq_ex [OF old] by blast
  obtain k where k: "find_index (\<lambda>an. an = this) (peers s old) = Some k"
    using find_index_eq_ex [OF this'] by blast
  let ?s2 = "upd_peers (\<lambda>ps. ps @ [this]) first (upd_peers (replace1 old first) this s)"
  have 1: "upd_peers (\<lambda>ps. ps[i := first]) this s = upd_peers (replace1 old first) this s"
    by (rule upd_peers_cong) (simp add: update_find_eq [OF i])
  have 2: "upd_peers (\<lambda>ps. ps[k := second]) old ?s2 = upd_peers (replace1 this second) old ?s2"
    using that by (intro upd_peers_cong) (simp add: peers_upd_peers update_find_eq [OF k])
  show ?thesis
    using obj id i k 1 2 by (simp add: ReplacePeer_def Equal_find Let_def)
qed

definition rewired :: "(nat \<Rightarrow> nat list) \<Rightarrow> nat \<Rightarrow> nat \<Rightarrow> nat \<Rightarrow> nat \<Rightarrow> nat \<Rightarrow> nat list" where
  "rewired ps this old first second =
     ps(this := replace1 old first (ps this), first := ps first @ [this],
        old := replace1 this second (ps old), second := ps second @ [old])"

lemma ReplacePeer_peers:
  assumes inv: "link_inv s" and old: "old \<in> set (peers s this)"
    and first: "joinable s this first" and second: "joinable s second old"
    and neq: "first \<noteq> old" "second \<noteq> this" "first \<noteq> second"
  defines "s' \<equiv> fst (ReplacePeer s this (Some old) (Some first) (Some second))"
  shows "peers s' = rewired (peers s) this old first second" "joinable s' = joinable s"
    "ident_wf s'" "class_of s' = class_of s"
proof -
  have j: "joinable s this old" using inv old by (rule link_inv_joinable)
  have n: "this \<noteq> old" "this \<noteq> first" "second \<noteq> old"
    using j first second by (auto dest: joinable_neq)
  note eq = ReplacePeer_eq [OF inv old neq(1) n(1)]
  show "peers s' = rewired (peers s) this old first second"
    using n neq joinable_object [OF j] joinable_object [OF first] joinable_object [OF second]
    by (auto simp: s'_def eq rewired_def peers_upd_peers fun_eq_iff)
  show "joinable s' = joinable s" "ident_wf s'" "class_of s' = class_of s"
    using link_inv_ident [OF inv] by (simp_all add: s'_def eq)
qed

text \<open>Up to the order of peers this is one cut and two joins.\<close>

lemma ReplacePeer_refines:
  assumes inv: "link_inv s" and old: "old \<in> set (peers s this)"
    and first: "joinable s this first" and second: "joinable s second old"
    and neq: "first \<noteq> old" "second \<noteq> this" "first \<noteq> second"
  shows "mset (peers (fst (ReplacePeer s this (Some old) (Some first) (Some second))) x) =
    mset (peers (push_link second old (push_link this first (cut_link this old s))) x)"
proof -
  have j: "joinable s this old" using inv old by (rule link_inv_joinable)
  have n: "this \<noteq> old" "this \<noteq> first" "second \<noteq> old"
    using j first second by (auto dest: joinable_neq)
  have this': "this \<in> set (peers s old)" using link_inv_sym [OF inv] old by blast
  consider "x = this" | "x = old" | "x = first" | "x = second"
    | "x \<noteq> this" "x \<noteq> old" "x \<noteq> first" "x \<noteq> second" by blast
  then show ?thesis
    using n neq j first second
    by cases (simp_all add: ReplacePeer_peers(1) [OF assms] rewired_def peers_push_link
        peers_cut_link mset_replace1 [OF old] mset_replace1 [OF this'])
qed

text \<open>The second peer may be the anchor itself: a node inserted into a link of its own.\<close>

lemma ReplacePeer_refines_self:
  assumes inv: "link_inv s" and old: "old \<in> set (peers s this)"
    and first: "joinable s this first" and neq: "first \<noteq> old"
  shows "mset (peers (fst (ReplacePeer s this (Some old) (Some first) (Some this))) x) =
    mset (peers (push_link this old (push_link this first (cut_link this old s))) x)"
proof -
  have j: "joinable s this old" using inv old by (rule link_inv_joinable)
  have n: "this \<noteq> old" "this \<noteq> first" using j first by (auto dest: joinable_neq)
  have this': "this \<in> set (peers s old)" using link_inv_sym [OF inv] old by blast
  note eq = ReplacePeer_eq [OF inv old neq n(1)]
  consider "x = this" | "x = old" | "x = first" | "x \<noteq> this" "x \<noteq> old" "x \<noteq> first" by blast
  then show ?thesis
    using n neq j first joinable_object [OF j] joinable_object [OF first]
    by cases (simp_all add: eq peers_upd_peers peers_push_link peers_cut_link mset_replace1 [OF old]
        mset_replace1 [OF this'] this')
qed

lemma ReplacePeer_splits:
  assumes inv: "link_inv s" and old: "old \<in> set (peers s this)"
    and first: "joinable s this first" and second: "joinable s second old"
    and neq: "first \<noteq> old" "first \<noteq> second"
  shows "mset (peers (fst (ReplacePeer s this (Some old) (Some first) (Some second))) x) =
    mset (peers (push_link second old (push_link this first (cut_link this old s))) x)"
  using ReplacePeer_refines [OF assms(1-5) _ assms(6)] ReplacePeer_refines_self [OF assms(1-3,5)]
  by (cases "second = this") simp_all

lemma ReplacePeer_frame:
  assumes inv: "link_inv s" and old: "old \<in> set (peers s this)" and neq: "first \<noteq> old"
  shows "joinable (fst (ReplacePeer s this (Some old) (Some first) (Some second))) = joinable s"
    "ident_wf (fst (ReplacePeer s this (Some old) (Some first) (Some second)))"
    "class_of (fst (ReplacePeer s this (Some old) (Some first) (Some second))) = class_of s"
  using link_inv_ident [OF inv] ReplacePeer_eq [OF inv old neq] link_inv_joinable [OF inv old]
  by (auto dest: joinable_neq)

lemma link_inv_ReplacePeer:
  assumes inv: "link_inv s" and old: "old \<in> set (peers s this)"
    and first: "joinable s this first" and second: "joinable s second old"
    and neq: "first \<noteq> old" "first \<noteq> second"
  shows "link_inv (fst (ReplacePeer s this (Some old) (Some first) (Some second)))"
proof (rule link_inv_reorder)
  show "link_inv (push_link second old (push_link this first (cut_link this old s)))"
    using first second link_inv_cut_link [OF inv old] by (simp add: link_inv_push_link)
qed (simp_all only: ReplacePeer_splits [OF assms], simp_all add: ReplacePeer_frame [OF inv old neq(1)])

lemma ReplacePeer_unlinked:
  assumes "ident_wf s" "anchors s old \<noteq> None" "old \<notin> set (peers s this)"
  shows "ReplacePeer s this (Some old) (Some first) (Some second) = (s, GRAPH_FAILED)"
  using assms by (simp add: ReplacePeer_def Equal_find find_index_eq_None [THEN iffD2])

section \<open>At most one data source\<close>

text \<open>
  An in-data anchor is fed by at most one out-data anchor, and then by its front peer: every
  later peer is an out-control anchor. This is what \<^verbatim>\<open>GetPeerOutAnchor\<close>, which looks at
  the front peer only, relies on.
\<close>

definition single_source :: "('z) anchor_store_scheme \<Rightarrow> bool" where
  "single_source s \<longleftrightarrow>
     (\<forall>a p. class_of s a = Some InDataAnchor \<longrightarrow> p \<in> set (tl (peers s a)) \<longrightarrow>
        class_of s p = Some OutControlAnchor)"

lemma single_sourceI:
  "(\<And>a p. class_of s a = Some InDataAnchor \<Longrightarrow> p \<in> set (tl (peers s a)) \<Longrightarrow>
      class_of s p = Some OutControlAnchor) \<Longrightarrow> single_source s"
  by (auto simp: single_source_def)

lemma set_tl_remove1: "set (tl (remove1 x xs)) \<subseteq> set (tl xs)"
proof (cases xs)
  case (Cons y ys)
  then show ?thesis using set_remove1_subset [of x ys] list.set_sel(2) [of ys] by (cases ys) auto
qed simp

lemma single_source_cut_link:
  assumes "link_inv s" "b \<in> set (peers s a)" "single_source s"
  shows "single_source (cut_link a b s)"
  using assms set_tl_remove1 link_inv_joinable [OF assms(1,2)]
  unfolding single_source_def
  by (fastforce simp: peers_cut_link split: if_splits)

lemma single_source_cut_front:
  "link_inv s \<Longrightarrow> peers s a = bs \<Longrightarrow> single_source s \<Longrightarrow> single_source (ls.cut_front a bs s)"
proof (induction bs arbitrary: s)
  case (Cons b bs)
  then have b: "b \<in> set (peers s a)" by simp
  then have "peers (cut_link a b s) a = bs"
    using Cons.prems ls.linked_neq [of s b a] by (simp add: ls.peers_cut)
  with Cons b show ?case by (simp add: link_inv_cut_link single_source_cut_link)
qed simp

lemma set_tl_snoc: "set (tl (xs @ [y])) = (if xs = [] then {} else insert y (set (tl xs)))"
  by (cases xs) auto

text \<open>Appending to an in-data anchor is harmless when it is empty or the newcomer is control.\<close>

lemma single_source_push_link:
  assumes j: "joinable s a b" and ss: "single_source s"
    and a: "class_of s a = Some InDataAnchor \<Longrightarrow> peers s a = [] \<or> class_of s b = Some OutControlAnchor"
    and b: "class_of s b = Some InDataAnchor \<Longrightarrow> peers s b = [] \<or> class_of s a = Some OutControlAnchor"
  shows "single_source (push_link a b s)"
proof (rule single_sourceI)
  fix x p
  assume "class_of (push_link a b s) x = Some InDataAnchor" "p \<in> set (tl (peers (push_link a b s) x))"
  then show "class_of (push_link a b s) p = Some OutControlAnchor"
    using ss a b joinable_neq [OF j]
    by (auto simp: peers_push_link [OF j] set_tl_snoc single_source_def split: if_splits)
qed

lemma replace1_front: "x \<notin> set (tl xs) \<Longrightarrow> tl (replace1 x y xs) = tl xs"
proof -
  have "x \<notin> set zs \<Longrightarrow> replace1 x y zs = zs" for zs by (induction zs) auto
  then show "x \<notin> set (tl xs) \<Longrightarrow> tl (replace1 x y xs) = tl xs" by (cases xs) auto
qed

text \<open>Replacing a peer keeps this exactly when the first new peer, an in-data anchor, is free.\<close>

lemma single_source_ReplacePeer:
  assumes inv: "link_inv s" and old: "old \<in> set (peers s this)" and ss: "single_source s"
    and c: "class_of s this = Some OutDataAnchor" "class_of s old = Some InDataAnchor"
      "class_of s first = Some InDataAnchor" "class_of s second = Some OutDataAnchor"
    and fo: "first \<noteq> old"
  shows "single_source (fst (ReplacePeer s this (Some old) (Some first) (Some second))) \<longleftrightarrow>
    peers s first = []"
proof -
  have this': "this \<in> set (peers s old)" using link_inv_sym [OF inv] old by blast
  have n: "this \<noteq> old" "first \<noteq> this" "first \<noteq> second" "old \<noteq> second" using c by auto
  let ?t = "fst (ReplacePeer s this (Some old) (Some first) (Some second))"
  note eq = ReplacePeer_eq [OF inv old fo n(1)]
  have objects: "anchors s x \<noteq> None" if "class_of s x = Some k" for x k
    using that by (auto simp: class_of_def)
  have cl: "class_of ?t = class_of s" by (rule ReplacePeer_frame(3) [OF inv old fo])
  have pf: "peers ?t first = peers s first @ [this]"
    using n fo objects [OF c(3)] by (simp add: eq peers_upd_peers)
  have po: "peers ?t old = replace1 this second (peers s old)"
    using n fo objects [OF c(2)] by (simp add: eq peers_upd_peers)
  have px: "peers ?t x = peers s x" if "class_of s x = Some InDataAnchor" "x \<noteq> first" "x \<noteq> old" for x
    using that c by (auto simp: eq peers_upd_peers)
  have "this \<notin> set (tl (peers s old))" using ss c by (auto simp: single_source_def)
  then have tl: "tl (replace1 this second (peers s old)) = tl (peers s old)" by (rule replace1_front)
  show ?thesis
  proof
    assume free: "peers s first = []"
    show "single_source ?t"
    proof (rule single_sourceI)
      fix x p
      assume "class_of ?t x = Some InDataAnchor" "p \<in> set (tl (peers ?t x))"
      then show "class_of ?t p = Some OutControlAnchor"
        using ss free px [of x] by (cases "x = first"; cases "x = old") (auto simp: cl pf po tl single_source_def)
    qed
  next
    assume *: "single_source ?t"
    show "peers s first = []"
    proof (rule ccontr)
      assume "peers s first \<noteq> []"
      then have "this \<in> set (tl (peers ?t first))" by (simp add: pf set_tl_snoc)
      then have "class_of s this = Some OutControlAnchor"
        using * c(3) unfolding single_source_def cl by blast
      with c show False by simp
    qed
  qed
qed

section \<open>The anchor store as a state machine\<close>

text \<open>
  One rule per operation that creates or changes links; the class premises are the static
  types of the C++ overloads. Three rules have premises of their own. A new anchor, and an
  anchor given another index by \<^verbatim>\<open>SetIdx\<close>, must not take the class, owner and index of
  another anchor. \<^verbatim>\<open>ReplacePeer\<close> takes any anchors; the rule has the data anchors of its
  only caller, \<^verbatim>\<open>InsertNodeBetweenDataAnchors\<close>, and demands that the first new peer is not
  yet linked, which neither of the two checks and without which the input ends with two
  sources (lemma \<open>single_source_ReplacePeer\<close>).
\<close>

definition add_anchor :: "nat \<Rightarrow> anchor_class \<Rightarrow> nat \<Rightarrow> int \<Rightarrow> ('z) anchor_store_scheme \<Rightarrow> ('z) anchor_store_scheme" where
  "add_anchor a c n i s = s\<lparr>anchors := (anchors s)(a \<mapsto> new_anchor c n i)\<rparr>"

inductive anchor_step :: "('z) anchor_store_scheme \<Rightarrow> ('z) anchor_store_scheme \<Rightarrow> bool" where
  create: "anchors s a = None \<Longrightarrow> is_in c \<or> is_out c \<Longrightarrow>
     (\<And>b. key_of s b \<noteq> Some (anchor_key (new_anchor c n i))) \<Longrightarrow> anchor_step s (add_anchor a c n i s)"
| in_data_from: "class_of s a = Some InDataAnchor \<Longrightarrow> class_of s b = Some OutDataAnchor \<Longrightarrow>
     anchor_step s (fst (InData_LinkFrom s a (Some b)))"
| out_data_to_data: "class_of s a = Some OutDataAnchor \<Longrightarrow> class_of s b = Some InDataAnchor \<Longrightarrow>
     anchor_step s (fst (OutData_LinkTo_InData s a (Some b)))"
| out_data_to_control: "class_of s a = Some OutDataAnchor \<Longrightarrow> class_of s b = Some InControlAnchor \<Longrightarrow>
     anchor_step s (fst (OutData_LinkTo_InControl s a (Some b)))"
| out_control_to_data: "class_of s a = Some OutControlAnchor \<Longrightarrow> class_of s b = Some InDataAnchor \<Longrightarrow>
     anchor_step s (fst (OutControl_LinkTo_InData s a (Some b)))"
| out_control_to_control: "class_of s a = Some OutControlAnchor \<Longrightarrow> class_of s b = Some InControlAnchor \<Longrightarrow>
     anchor_step s (fst (OutControl_LinkTo_InControl s a (Some b)))"
| in_control_from: "class_of s a = Some InControlAnchor \<Longrightarrow> class_of s b = Some OutControlAnchor \<Longrightarrow>
     anchor_step s (fst (InControl_LinkFrom s a (Some b)))"
| unlink: "anchors s b \<noteq> None \<Longrightarrow> anchor_step s (fst (Unlink s a (Some b)))"
| unlink_all: "UnlinkAll s a = Some t \<Longrightarrow> anchor_step s t"
| replace: "class_of s this = Some OutDataAnchor \<Longrightarrow> class_of s old = Some InDataAnchor \<Longrightarrow>
     class_of s first = Some InDataAnchor \<Longrightarrow> class_of s second = Some OutDataAnchor \<Longrightarrow>
     peers s first = [] \<Longrightarrow>
     anchor_step s (fst (ReplacePeer s this (Some old) (Some first) (Some second)))"
| set_idx: "anchors s a = Some x \<Longrightarrow>
     (\<And>b. b \<noteq> a \<Longrightarrow> key_of s b \<noteq> Some (anchor_key (a_idx_update (\<lambda>_. i) x))) \<Longrightarrow>
     anchor_step s (SetIdx a i s)"

inductive anchor_reachable :: "('z) anchor_store_scheme \<Rightarrow> bool" where
  start: "anchors s = (\<lambda>_. None) \<Longrightarrow> anchor_reachable s"
| step: "anchor_reachable s \<Longrightarrow> anchor_step s t \<Longrightarrow> anchor_reachable t"

definition anchor_inv :: "('z) anchor_store_scheme \<Rightarrow> bool" where
  "anchor_inv s \<longleftrightarrow> link_inv s \<and> single_source s"

lemma anchor_invI: "link_inv s \<Longrightarrow> single_source s \<Longrightarrow> anchor_inv s"
  by (simp add: anchor_inv_def)

text \<open>The link operations share one argument: a push between compatible anchors.\<close>

lemma anchor_inv_push:
  assumes "anchor_inv s" "joinable s a b"
    "class_of s a = Some InDataAnchor \<Longrightarrow> peers s a = [] \<or> class_of s b = Some OutControlAnchor"
    "class_of s b = Some InDataAnchor \<Longrightarrow> peers s b = [] \<or> class_of s a = Some OutControlAnchor"
  shows "anchor_inv (push_link a b s)"
  using assms by (simp add: anchor_inv_def link_inv_push_link single_source_push_link)

lemmas link_op_defs = InData_LinkFrom_def OutData_LinkTo_InData_def OutData_LinkTo_InControl_def
  OutControl_LinkTo_InData_def OutControl_LinkTo_InControl_def InControl_LinkFrom_def

lemma anchor_inv_link_ops:
  assumes "anchor_inv s"
  shows "class_of s a = Some InDataAnchor \<Longrightarrow> class_of s b = Some OutDataAnchor \<Longrightarrow>
      anchor_inv (fst (InData_LinkFrom s a (Some b)))"
    "class_of s a = Some OutDataAnchor \<Longrightarrow> class_of s b = Some InDataAnchor \<Longrightarrow>
      anchor_inv (fst (OutData_LinkTo_InData s a (Some b)))"
    "class_of s a = Some OutDataAnchor \<Longrightarrow> class_of s b = Some InControlAnchor \<Longrightarrow>
      anchor_inv (fst (OutData_LinkTo_InControl s a (Some b)))"
    "class_of s a = Some OutControlAnchor \<Longrightarrow> class_of s b = Some InDataAnchor \<Longrightarrow>
      anchor_inv (fst (OutControl_LinkTo_InData s a (Some b)))"
    "class_of s a = Some OutControlAnchor \<Longrightarrow> class_of s b = Some InControlAnchor \<Longrightarrow>
      anchor_inv (fst (OutControl_LinkTo_InControl s a (Some b)))"
    "class_of s a = Some InControlAnchor \<Longrightarrow> class_of s b = Some OutControlAnchor \<Longrightarrow>
      anchor_inv (fst (InControl_LinkFrom s a (Some b)))"
  using assms
  by (auto simp: link_op_defs joinable_def is_in_def is_out_def intro!: anchor_inv_push)

lemma class_of_add_anchor: "class_of (add_anchor a c n i s) = (class_of s)(a \<mapsto> c)"
  by (auto simp: class_of_def add_anchor_def new_anchor_def)

lemma key_of_add_anchor:
  "key_of (add_anchor a c n i s) = (key_of s)(a \<mapsto> anchor_key (new_anchor c n i))"
  by (auto simp: key_of_def add_anchor_def)

lemma peers_add_anchor: "anchors s a = None \<Longrightarrow> peers (add_anchor a c n i s) = peers s"
  by (rule ext) (simp add: peers_def add_anchor_def new_anchor_def)

lemma anchor_inv_add:
  assumes inv: "anchor_inv s" and a: "anchors s a = None" and c: "is_in c \<or> is_out c"
    and fresh: "\<And>b. key_of s b \<noteq> Some (anchor_key (new_anchor c n i))"
  shows "anchor_inv (add_anchor a c n i s)"
proof (rule anchor_invI)
  have l: "link_inv s" and ss: "single_source s" using inv by (simp_all add: anchor_inv_def)
  have nolink: "b \<in> set (peers s x) \<Longrightarrow> x \<noteq> a \<and> b \<noteq> a" for b x
    using link_inv_joinable [OF l] joinable_object a by blast
  have "ident_wf (add_anchor a c n i s)"
    using link_inv_ident [OF l] c fresh
    by (auto simp: ident_wf_def class_of_add_anchor key_of_add_anchor)
  moreover have "b \<in> set (peers s x) \<Longrightarrow> joinable (add_anchor a c n i s) x b" for x b
    using link_inv_joinable [OF l, of b x] nolink [of b x]
    by (simp add: joinable_def class_of_add_anchor)
  ultimately show "link_inv (add_anchor a c n i s)"
    using l by (simp add: link_inv_def peers_add_anchor [OF a])
  show "single_source (add_anchor a c n i s)"
  proof (rule single_sourceI)
    fix x p
    assume x: "class_of (add_anchor a c n i s) x = Some InDataAnchor"
      and p: "p \<in> set (tl (peers (add_anchor a c n i s) x))"
    then have "p \<in> set (peers s x)"
      by (cases "peers s x") (auto simp: peers_add_anchor [OF a])
    with nolink [of p x] x p ss show "class_of (add_anchor a c n i s) p = Some OutControlAnchor"
      by (auto simp: class_of_add_anchor single_source_def peers_add_anchor [OF a])
  qed
qed

lemma SetIdx_frame:
  "peers (SetIdx a i s) = peers s" "class_of (SetIdx a i s) = class_of s"
  "joinable (SetIdx a i s) = joinable s"
proof -
  show 1: "peers (SetIdx a i s) = peers s"
    by (rule ext) (simp add: peers_def SetIdx_def split: option.split)
  show 2: "class_of (SetIdx a i s) = class_of s"
    by (rule ext) (simp add: class_of_def SetIdx_def option.map_comp comp_def)
  show "joinable (SetIdx a i s) = joinable s"
    by (intro ext) (simp add: joinable_def 2)
qed

lemma anchor_inv_SetIdx:
  assumes inv: "anchor_inv s" and a: "anchors s a = Some x"
    and fresh: "\<And>b. b \<noteq> a \<Longrightarrow> key_of s b \<noteq> Some (anchor_key (a_idx_update (\<lambda>_. i) x))"
  shows "anchor_inv (SetIdx a i s)"
proof -
  have k: "key_of (SetIdx a i s) = (key_of s)(a \<mapsto> anchor_key (a_idx_update (\<lambda>_. i) x))"
    using a by (auto simp: key_of_def SetIdx_def)
  have "ident_wf s" using inv by (simp add: anchor_inv_def link_inv_def)
  then have "ident_wf (SetIdx a i s)"
    using fresh unfolding ident_wf_def k SetIdx_frame by (auto split: if_splits)
  then show ?thesis
    using inv by (simp add: anchor_inv_def link_inv_def single_source_def SetIdx_frame)
qed

lemma anchor_step_inv: "anchor_step s t \<Longrightarrow> anchor_inv s \<Longrightarrow> anchor_inv t"
proof (induction rule: anchor_step.induct)
  case (create s a c n i)
  then show ?case by (blast intro: anchor_inv_add)
next
  case (unlink s b a)
  then have "link_inv s" "single_source s" by (simp_all add: anchor_inv_def)
  with unlink show ?case
    by (auto simp: Unlink_cases anchor_inv_def link_inv_cut_link single_source_cut_link)
next
  case (unlink_all s a t)
  then have "link_inv s" "single_source s" by (simp_all add: anchor_inv_def)
  with unlink_all show ?case
    using ls.cut_front_inv [of s a "peers s a"]
    by (auto simp: UnlinkAll_eq anchor_inv_def single_source_cut_front)
next
  case (replace s this old first second)
  then have l: "link_inv s" and ss: "single_source s" by (simp_all add: anchor_inv_def)
  show ?case
  proof (cases "old \<in> set (peers s this)")
    case True
    then have "this \<in> set (peers s old)" using link_inv_sym [OF l] by blast
    then have "first \<noteq> old" using replace.hyps by auto
    moreover have "joinable s this first" "joinable s second old" "first \<noteq> second"
      using replace.hyps by (auto simp: joinable_def is_in_def is_out_def)
    ultimately show ?thesis
      using replace.hyps
      using link_inv_ReplacePeer [OF l True, of first second]
        single_source_ReplacePeer [OF l True ss replace.hyps(1-4)]
      by (simp add: anchor_inv_def)
  next
    case False
    then have "ReplacePeer s this (Some old) (Some first) (Some second) = (s, GRAPH_FAILED)"
      using replace.hyps link_inv_ident [OF l]
      by (intro ReplacePeer_unlinked) (auto simp: class_of_def)
    then show ?thesis using replace.prems by simp
  qed
next
  case (set_idx s a x i)
  then show ?case by (blast intro: anchor_inv_SetIdx)
qed (use anchor_inv_link_ops in auto)

lemma anchor_reachable_inv: "anchor_reachable s \<Longrightarrow> anchor_inv s"
proof (induction rule: anchor_reachable.induct)
  case (start s)
  then show ?case
    by (simp add: anchor_inv_def link_inv_def single_source_def ident_wf_def class_of_def key_of_def
        peers_def)
next
  case (step s t)
  then show ?case by (blast intro: anchor_step_inv)
qed

end
