(* ===== verification/Nodes.thy ===== *)
theory Nodes
  imports Anchor_Steps
begin

text \<open>
  The nodes of \<^verbatim>\<open>graph/node.cc\<close> and the node helpers of
  \<^verbatim>\<open>graph/utils/node_utils.cc\<close>. A node owns its anchors (by address) and its operator
  description; the store of anchors is extended with the nodes and an allocator that hands out
  addresses never used before. Allocation always succeeds: the code's
  \<^verbatim>\<open>malloc\<close>-failure branches have no counterpart.
\<close>

section \<open>The objects\<close>

text \<open>
  The part of an \<^verbatim>\<open>OpDesc\<close> the graph layer reads: name, type, id, the numbers of inputs and
  outputs, the names of the subgraphs the operator instantiates, and two attributes
  (\<^verbatim>\<open>_aliasName\<close>, \<^verbatim>\<open>_parent_node_index\<close>). Each node has an \<^verbatim>\<open>OpDesc\<close> of its own.
\<close>

record op_desc =
  op_name :: string
  op_type :: string
  op_id :: int
  op_inputs :: nat
  op_outputs :: nat
  op_subgraphs :: "string list"
  op_alias :: "string list option"
  op_parent_index :: "32 word option"

record node =
  n_op :: "op_desc option"
  n_owner_graph :: ptr
  n_in_data :: "nat list"
  n_out_data :: "nat list"
  n_in_control :: ptr
  n_out_control :: ptr
  n_attrs :: "string list"
  n_has_init :: bool
  n_host_node :: bool
  n_anchor_status_updated :: bool

record node_store = anchor_store +
  nodes :: "nat \<Rightarrow> node option"
  next_addr :: nat

text \<open>Operator types (\<^verbatim>\<open>graph/debug/ge_op_types.h\<close>).\<close>

abbreviation "DATA \<equiv> ''Data''"
abbreviation "AIPPDATA \<equiv> ''AippData''"
abbreviation "ANN_DATA \<equiv> ''AnnData''"
abbreviation "INPUT_TYPE \<equiv> ''Input''"
abbreviation "CONSTANT \<equiv> ''Const''"
abbreviation "CONSTANTOP \<equiv> ''Constant''"
abbreviation "NETOUTPUT \<equiv> ''NetOutput''"
abbreviation "NEXTITERATION \<equiv> ''NextIteration''"
abbreviation "REFNEXTITERATION \<equiv> ''RefNextIteration''"
abbreviation "SEND \<equiv> ''Send''"
abbreviation "RECV \<equiv> ''Recv''"

definition new_node :: "op_desc option \<Rightarrow> ptr \<Rightarrow> node" where
  "new_node op g =
     \<lparr>n_op = op, n_owner_graph = g, n_in_data = [], n_out_data = [], n_in_control = None,
      n_out_control = None, n_attrs = [], n_has_init = False, n_host_node = False,
      n_anchor_status_updated = False\<rparr>"

definition upd_node :: "nat \<Rightarrow> (node \<Rightarrow> node) \<Rightarrow> ('z) node_store_scheme \<Rightarrow> ('z) node_store_scheme" where
  "upd_node n f s = s\<lparr>nodes := (nodes s)(n := map_option f (nodes s n))\<rparr>"

text \<open>Members read through a node pointer.\<close>

definition in_data_anchors :: "('z) node_store_scheme \<Rightarrow> nat \<Rightarrow> nat list" where
  "in_data_anchors s n = (case nodes s n of None \<Rightarrow> [] | Some x \<Rightarrow> n_in_data x)"

definition out_data_anchors :: "('z) node_store_scheme \<Rightarrow> nat \<Rightarrow> nat list" where
  "out_data_anchors s n = (case nodes s n of None \<Rightarrow> [] | Some x \<Rightarrow> n_out_data x)"

definition GetInControlAnchor :: "('z) node_store_scheme \<Rightarrow> nat \<Rightarrow> ptr" where
  "GetInControlAnchor s n = (case nodes s n of None \<Rightarrow> None | Some x \<Rightarrow> n_in_control x)"

definition GetOutControlAnchor :: "('z) node_store_scheme \<Rightarrow> nat \<Rightarrow> ptr" where
  "GetOutControlAnchor s n = (case nodes s n of None \<Rightarrow> None | Some x \<Rightarrow> n_out_control x)"

definition GetOpDesc :: "('z) node_store_scheme \<Rightarrow> nat \<Rightarrow> op_desc option" where
  "GetOpDesc s n = (case nodes s n of None \<Rightarrow> None | Some x \<Rightarrow> n_op x)"

definition GetName :: "('z) node_store_scheme \<Rightarrow> nat \<Rightarrow> string" where
  "GetName s n = (case GetOpDesc s n of None \<Rightarrow> [] | Some op \<Rightarrow> op_name op)"

definition GetType :: "('z) node_store_scheme \<Rightarrow> nat \<Rightarrow> string" where
  "GetType s n = (case GetOpDesc s n of None \<Rightarrow> [] | Some op \<Rightarrow> op_type op)"

definition GetOwnerComputeGraph :: "('z) node_store_scheme \<Rightarrow> nat \<Rightarrow> ptr" where
  "GetOwnerComputeGraph s n = (case nodes s n of None \<Rightarrow> None | Some x \<Rightarrow> n_owner_graph x)"

definition SetOwnerComputeGraph :: "nat \<Rightarrow> ptr \<Rightarrow> ('z) node_store_scheme \<Rightarrow> ('z) node_store_scheme \<times> graphStatus" where
  "SetOwnerComputeGraph n g s =
     (if g = None then (s, GRAPH_PARAM_INVALID)
      else (upd_node n (n_owner_graph_update (\<lambda>_. g)) s, GRAPH_SUCCESS))"

definition SetAnyOwnerComputeGraph :: "nat \<Rightarrow> ptr \<Rightarrow> ('z) node_store_scheme \<Rightarrow> ('z) node_store_scheme \<times> graphStatus" where
  "SetAnyOwnerComputeGraph n g s = (upd_node n (n_owner_graph_update (\<lambda>_. g)) s, GRAPH_SUCCESS)"

definition SetHostNode :: "nat \<Rightarrow> bool \<Rightarrow> ('z) node_store_scheme \<Rightarrow> ('z) node_store_scheme" where
  "SetHostNode n b s = upd_node n (n_host_node_update (\<lambda>_. b)) s"

definition SetId :: "nat \<Rightarrow> int \<Rightarrow> ('z) node_store_scheme \<Rightarrow> ('z) node_store_scheme" where
  "SetId n i s = upd_node n (n_op_update (map_option (op_id_update (\<lambda>_. i)))) s"

definition UpdateOpDesc :: "nat \<Rightarrow> op_desc option \<Rightarrow> ('z) node_store_scheme \<Rightarrow> ('z) node_store_scheme \<times> graphStatus" where
  "UpdateOpDesc n op_desc s =
     (case GetOpDesc s n of
        None \<Rightarrow> (s, GRAPH_FAILED)
      | Some op \<Rightarrow>
         (case op_desc of
            None \<Rightarrow> (s, GRAPH_PARAM_INVALID)
          | Some op' \<Rightarrow>
              if op_inputs op \<noteq> op_inputs op' then (s, GRAPH_PARAM_INVALID)
              else if op_outputs op \<noteq> op_outputs op' then (s, GRAPH_PARAM_INVALID)
              else (upd_node n (n_op_update (\<lambda>_. Some op')) s, GRAPH_SUCCESS)))"

section \<open>Creating the anchors of a node\<close>

text \<open>Allocation of one anchor object.\<close>

definition alloc_anchor :: "anchor_class \<Rightarrow> nat \<Rightarrow> int \<Rightarrow> ('z) node_store_scheme \<Rightarrow> nat \<times> ('z) node_store_scheme" where
  "alloc_anchor c n i s =
     (next_addr s, (add_anchor (next_addr s) c n i s)\<lparr>next_addr := Suc (next_addr s)\<rparr>)"

fun init_in_data :: "nat \<Rightarrow> int list \<Rightarrow> ('z) node_store_scheme \<Rightarrow> ('z) node_store_scheme" where
  "init_in_data n [] s = s"
| "init_in_data n (i # is) s =
     (let (a, s1) = alloc_anchor InDataAnchor n i s
      in init_in_data n is (upd_node n (n_in_data_update (\<lambda>as. as @ [a])) s1))"

fun init_out_data :: "nat \<Rightarrow> int list \<Rightarrow> ('z) node_store_scheme \<Rightarrow> ('z) node_store_scheme" where
  "init_out_data n [] s = s"
| "init_out_data n (i # is) s =
     (let (a, s1) = alloc_anchor OutDataAnchor n i s
      in init_out_data n is (upd_node n (n_out_data_update (\<lambda>as. as @ [a])) s1))"

definition Init :: "nat \<Rightarrow> ('z) node_store_scheme \<Rightarrow> ('z) node_store_scheme \<times> graphStatus" where
  "Init n s =
     (case nodes s n of
        None \<Rightarrow> (s, GRAPH_FAILED)
      | Some x \<Rightarrow>
          if n_has_init x then (s, GRAPH_SUCCESS)
          else (case n_op x of
              None \<Rightarrow> (s, GRAPH_FAILED)
            | Some op \<Rightarrow>
                (let s1 = init_in_data n (map int [0..<op_inputs op]) s;
                     s2 = init_out_data n (map int [0..<op_outputs op]) s1;
                     (a, s3) = alloc_anchor InControlAnchor n (-1) s2;
                     (b, s4) = alloc_anchor OutControlAnchor n (-1) s3;
                     s5 = upd_node n (n_in_control_update (\<lambda>_. Some a)) s4;
                     s6 = upd_node n (n_out_control_update (\<lambda>_. Some b)) s5
                 in (upd_node n (n_has_init_update (\<lambda>_. True)) s6, GRAPH_SUCCESS))))"

text \<open>\<^verbatim>\<open>Node::AddLinkFromForParse\<close>: a new input, fed by the only output of another node.\<close>

definition AddLinkFromForParse :: "nat \<Rightarrow> ptr \<Rightarrow> ('z) node_store_scheme \<Rightarrow> ('z) node_store_scheme \<times> graphStatus" where
  "AddLinkFromForParse n input_node s =
     (case input_node of
        None \<Rightarrow> (s, GRAPH_PARAM_INVALID)
      | Some m \<Rightarrow>
         (let out_anchors = out_data_anchors s m
          in if length out_anchors \<noteq> 1 then (s, GRAPH_PARAM_INVALID)
             else (let (a, s1) = alloc_anchor InDataAnchor n (int (length (in_data_anchors s n))) s;
                       s2 = upd_node n (n_in_data_update (\<lambda>as. as @ [a])) s1;
                       (s3, _) = OutData_LinkTo_InData s2 (out_anchors ! 0) (Some a)
                   in (s3, GRAPH_SUCCESS))))"

section \<open>Looking at the anchors of a node\<close>

definition GetAllInDataAnchors :: "('z) node_store_scheme \<Rightarrow> nat \<Rightarrow> nat list" where
  "GetAllInDataAnchors s n = in_data_anchors s n"

definition GetAllOutDataAnchors :: "('z) node_store_scheme \<Rightarrow> nat \<Rightarrow> nat list" where
  "GetAllOutDataAnchors s n = out_data_anchors s n"

definition GetAllInDataAnchorsSize :: "('z) node_store_scheme \<Rightarrow> nat \<Rightarrow> 32 word" where
  "GetAllInDataAnchorsSize s n = of_nat (length (in_data_anchors s n))"

definition GetAllOutDataAnchorsSize :: "('z) node_store_scheme \<Rightarrow> nat \<Rightarrow> 32 word" where
  "GetAllOutDataAnchorsSize s n = of_nat (length (out_data_anchors s n))"

text \<open>
  The control anchor counts among all anchors only when it has a peer. A node that is not
  initialised has a null control anchor, which the code would dereference here; the model
  then adds nothing.
\<close>

definition GetAllInAnchors :: "('z) node_store_scheme \<Rightarrow> nat \<Rightarrow> nat list" where
  "GetAllInAnchors s n =
     List.map_filter (\<lambda>a. DynamicAnchorCast s Anchor (Some a)) (in_data_anchors s n) @
     (case GetInControlAnchor s n of
        None \<Rightarrow> []
      | Some c \<Rightarrow>
          if length (InControl_GetPeerOutControlAnchors s c) > 0 \<or>
             length (InControl_GetPeerOutDataAnchors s c) > 0
          then (case DynamicAnchorCast s Anchor (Some c) of None \<Rightarrow> [] | Some a \<Rightarrow> [a])
          else [])"

definition GetAllOutAnchors :: "('z) node_store_scheme \<Rightarrow> nat \<Rightarrow> nat list" where
  "GetAllOutAnchors s n =
     List.map_filter (\<lambda>a. DynamicAnchorCast s Anchor (Some a)) (out_data_anchors s n) @
     (case GetOutControlAnchor s n of
        None \<Rightarrow> []
      | Some c \<Rightarrow>
          if length (OutControl_GetPeerInControlAnchors s c) > 0 \<or>
             length (OutControl_GetPeerInDataAnchors s c) > 0
          then (case DynamicAnchorCast s Anchor (Some c) of None \<Rightarrow> [] | Some a \<Rightarrow> [a])
          else [])"

definition GetInDataAnchor :: "('z) node_store_scheme \<Rightarrow> nat \<Rightarrow> int \<Rightarrow> ptr" where
  "GetInDataAnchor s n idx =
     (if idx < 0 \<or> idx \<ge> int (length (in_data_anchors s n)) then None
      else Some (in_data_anchors s n ! nat idx))"

definition GetOutDataAnchor :: "('z) node_store_scheme \<Rightarrow> nat \<Rightarrow> int \<Rightarrow> ptr" where
  "GetOutDataAnchor s n idx =
     (if idx < 0 \<or> idx \<ge> int (length (out_data_anchors s n)) then None
      else Some (out_data_anchors s n ! nat idx))"

definition GetInAnchor :: "('z) node_store_scheme \<Rightarrow> nat \<Rightarrow> int \<Rightarrow> ptr" where
  "GetInAnchor s n idx =
     (if idx < -1 \<or> idx \<ge> int (length (in_data_anchors s n)) then None
      else if idx = -1 then DynamicAnchorCast s Anchor (GetInControlAnchor s n)
      else Some (in_data_anchors s n ! nat idx))"

definition GetOutAnchor :: "('z) node_store_scheme \<Rightarrow> nat \<Rightarrow> int \<Rightarrow> ptr" where
  "GetOutAnchor s n idx =
     (if idx < -1 \<or> idx \<ge> int (length (out_data_anchors s n)) then None
      else if idx = -1 then DynamicAnchorCast s Anchor (GetOutControlAnchor s n)
      else Some (out_data_anchors s n ! nat idx))"

section \<open>Neighbours\<close>

text \<open>The owners of a list of anchors; an anchor whose node is gone is skipped.\<close>

definition owners :: "('z) anchor_store_scheme \<Rightarrow> nat list \<Rightarrow> nat list" where
  "owners s as = List.map_filter (GetOwnerNode s) as"

definition opt_anchors :: "ptr \<Rightarrow> (nat \<Rightarrow> nat list) \<Rightarrow> nat list" where
  "opt_anchors c f = (case c of None \<Rightarrow> [] | Some a \<Rightarrow> f a)"

definition GetInDataNodes :: "('z) node_store_scheme \<Rightarrow> nat \<Rightarrow> nat list" where
  "GetInDataNodes s n =
     owners s (List.map_filter (GetPeerOutAnchor s) (in_data_anchors s n))"

definition GetInControlNodes :: "('z) node_store_scheme \<Rightarrow> nat \<Rightarrow> nat list" where
  "GetInControlNodes s n =
     owners s (opt_anchors (GetInControlAnchor s n) (InControl_GetPeerOutControlAnchors s))"

definition GetInNodes :: "('z) node_store_scheme \<Rightarrow> nat \<Rightarrow> nat list" where
  "GetInNodes s n =
     owners s (List.map_filter (GetPeerOutAnchor s) (in_data_anchors s n)) @
     (case GetInControlAnchor s n of
        None \<Rightarrow> []
      | Some c \<Rightarrow>
          if peers s c = [] then []
          else owners s (InControl_GetPeerOutDataAnchors s c) @
               owners s (InControl_GetPeerOutControlAnchors s c))"

definition GetInAllNodes :: "('z) node_store_scheme \<Rightarrow> nat \<Rightarrow> nat list" where
  "GetInAllNodes s n = GetInDataNodes s n @ GetInControlNodes s n"

definition GetOutDataNodes :: "('z) node_store_scheme \<Rightarrow> nat \<Rightarrow> nat list" where
  "GetOutDataNodes s n =
     concat (map (\<lambda>a. owners s (OutData_GetPeerInDataAnchors s a)) (out_data_anchors s n))"

definition GetOutNodes :: "('z) node_store_scheme \<Rightarrow> nat \<Rightarrow> nat list" where
  "GetOutNodes s n =
     concat (map (\<lambda>a. owners s (OutData_GetPeerInDataAnchors s a)) (out_data_anchors s n)) @
     owners s (opt_anchors (GetOutControlAnchor s n) (OutControl_GetPeerInControlAnchors s))"

text \<open>Every live peer of the out-control anchor counts here, data anchors included.\<close>

definition live_peers :: "('z) anchor_store_scheme \<Rightarrow> nat \<Rightarrow> nat list" where
  "live_peers s a = List.map_filter (\<lambda>p. p) (GetPeerAnchors s a)"

definition GetOutControlNodes :: "('z) node_store_scheme \<Rightarrow> nat \<Rightarrow> nat list" where
  "GetOutControlNodes s n =
     concat (map (\<lambda>a. owners s (OutData_GetPeerInControlAnchors s a)) (out_data_anchors s n)) @
     owners s (opt_anchors (GetOutControlAnchor s n) (live_peers s))"

definition GetOutAllNodes :: "('z) node_store_scheme \<Rightarrow> nat \<Rightarrow> nat list" where
  "GetOutAllNodes s n =
     concat (map (\<lambda>a. owners s (OutData_GetPeerInDataAnchors s a) @
                       owners s (OutData_GetPeerInControlAnchors s a)) (out_data_anchors s n)) @
     owners s (opt_anchors (GetOutControlAnchor s n) (live_peers s))"

definition GetOutDataNodesSize :: "('z) node_store_scheme \<Rightarrow> nat \<Rightarrow> 32 word" where
  "GetOutDataNodesSize s n =
     foldl (\<lambda>out_nums a. out_nums + GetPeerInDataNodesSize s a) 0 (out_data_anchors s n)"

definition GetInDataNodesAndAnchors :: "('z) node_store_scheme \<Rightarrow> nat \<Rightarrow> (nat \<times> nat) list" where
  "GetInDataNodesAndAnchors s n =
     List.map_filter (\<lambda>p. case GetPeerOutAnchor s p of
         None \<Rightarrow> None
       | Some a \<Rightarrow> map_option (\<lambda>m. (m, a)) (GetOwnerNode s a)) (in_data_anchors s n)"

definition GetOutDataNodesAndAnchors :: "('z) node_store_scheme \<Rightarrow> nat \<Rightarrow> (nat \<times> nat) list" where
  "GetOutDataNodesAndAnchors s n =
     concat (map (\<lambda>p. List.map_filter (\<lambda>a. map_option (\<lambda>m. (m, a)) (GetOwnerNode s a))
                        (OutData_GetPeerInDataAnchors s p)) (out_data_anchors s n))"

text \<open>Back edges of a loop, which leave a node of type \<^verbatim>\<open>NextIteration\<close>, are ignored.\<close>

definition is_next_iteration :: "string \<Rightarrow> bool" where
  "is_next_iteration t \<longleftrightarrow> t = NEXTITERATION \<or> t = REFNEXTITERATION"

definition node_seen :: "('z) node_store_scheme \<Rightarrow> nat list \<Rightarrow> nat \<Rightarrow> bool" where
  "node_seen s nodes_seen a =
     (case GetOwnerNode s a of
        None \<Rightarrow> True
      | Some m \<Rightarrow> if is_next_iteration (GetType s m) then True else List.member nodes_seen m)"

definition IsAllInNodesSeen :: "('z) node_store_scheme \<Rightarrow> nat \<Rightarrow> nat list \<Rightarrow> bool" where
  "IsAllInNodesSeen s n nodes_seen =
     (list_all (\<lambda>p. case GetPeerOutAnchor s p of None \<Rightarrow> True | Some a \<Rightarrow> node_seen s nodes_seen a)
        (in_data_anchors s n) \<and>
      (case GetInControlAnchor s n of
         None \<Rightarrow> True
       | Some c \<Rightarrow>
           if peers s c = [] then True
           else list_all (node_seen s nodes_seen) (InControl_GetPeerOutControlAnchors s c)))"

section \<open>Comparing the connections of two nodes\<close>

definition NodeAttrsAreEqual :: "('z) node_store_scheme \<Rightarrow> nat \<Rightarrow> nat \<Rightarrow> bool" where
  "NodeAttrsAreEqual s l r =
     (case (nodes s l, nodes s r) of
        (Some x, Some y) \<Rightarrow>
           length (n_attrs x) = length (n_attrs y) \<and> list_all (List.member (n_attrs y)) (n_attrs x)
      | _ \<Rightarrow> False)"

text \<open>Two peers match when both their nodes are alive and have the same name.\<close>

definition peer_nodes_match :: "('z) node_store_scheme \<Rightarrow> ptr \<Rightarrow> ptr \<Rightarrow> bool" where
  "peer_nodes_match s p q =
     (case (Option.bind p (GetOwnerNode s), Option.bind q (GetOwnerNode s)) of
        (Some m, Some k) \<Rightarrow> GetName s m = GetName s k
      | _ \<Rightarrow> False)"

definition NodeAnchorIsEqual :: "('z) node_store_scheme \<Rightarrow> nat \<Rightarrow> nat \<Rightarrow> bool" where
  "NodeAnchorIsEqual s a b =
     (length (GetPeerAnchors s a) = length (GetPeerAnchors s b) \<and>
      list_all2 (peer_nodes_match s) (GetPeerAnchors s a) (GetPeerAnchors s b))"

definition NodeInConnectsAreEqual :: "('z) node_store_scheme \<Rightarrow> nat \<Rightarrow> nat \<Rightarrow> bool" where
  "NodeInConnectsAreEqual s l r =
     (if length (GetAllInDataAnchors s l) \<noteq> length (GetAllInDataAnchors s r) then False
      else let l_in = GetAllInAnchors s l; r_in = GetAllInAnchors s r
           in if length l_in - length (GetAllInDataAnchors s l) \<noteq>
                 length r_in - length (GetAllInDataAnchors s r) then False
              else list_all (\<lambda>i. NodeAnchorIsEqual s (l_in ! i) (r_in ! i)) [0..<length l_in])"

definition NodeOutConnectsAreEqual :: "('z) node_store_scheme \<Rightarrow> nat \<Rightarrow> nat \<Rightarrow> bool" where
  "NodeOutConnectsAreEqual s l r =
     (if length (GetAllOutDataAnchors s l) \<noteq> length (GetAllOutDataAnchors s r) then False
      else let l_out = GetAllOutAnchors s l; r_out = GetAllOutAnchors s r
           in if length l_out - length (GetAllOutDataAnchors s l) \<noteq>
                 length r_out - length (GetAllOutDataAnchors s r) then False
              else list_all (\<lambda>i.
                if i < length (GetAllOutDataAnchors s l)
                then NodeAnchorIsEqual s (GetAllOutDataAnchors s l ! i) (GetAllOutDataAnchors s r ! i)
                else NodeAnchorIsEqual s (l_out ! i) (r_out ! i)) [0..<length l_out])"

end
