(* ===== verification/Anchor_Properties.thy ===== *)
theory Anchor_Properties
  imports Anchor_Steps
begin

text \<open>
  The properties of the anchors: what the link operations of \<^verbatim>\<open>graph/anchor.cc\<close> promise
  their callers, each with a witness on a store of two nodes and an inserted third one.
\<close>

section \<open>A concrete store\<close>

text \<open>
  Node 100 has an output, node 101 an input, node 102 (to be inserted) one of each; node 103
  has the two control anchors.
\<close>

definition demo_anchors :: "nat \<Rightarrow> anchor option" where
  "demo_anchors =
     [0 \<mapsto> new_anchor OutDataAnchor 100 0, 1 \<mapsto> new_anchor InDataAnchor 101 0,
      2 \<mapsto> new_anchor OutDataAnchor 102 0, 3 \<mapsto> new_anchor InDataAnchor 102 0,
      4 \<mapsto> new_anchor InControlAnchor 103 (-1), 5 \<mapsto> new_anchor OutControlAnchor 103 (-1)]"

definition demo_store :: anchor_store where
  "demo_store = \<lparr>anchors = demo_anchors\<rparr>"

lemma demo_class_of [simp]:
  "class_of demo_store a =
     (if a = 0 \<or> a = 2 then Some OutDataAnchor else if a = 1 \<or> a = 3 then Some InDataAnchor
      else if a = 4 then Some InControlAnchor else if a = 5 then Some OutControlAnchor else None)"
  by (simp add: class_of_def demo_store_def demo_anchors_def new_anchor_def)

lemma demo_peers [simp]: "peers demo_store a = []"
  by (simp add: peers_def demo_store_def demo_anchors_def new_anchor_def)

lemma demo_joinable [simp]: "joinable demo_store 0 1" "joinable demo_store 0 3"
    "joinable demo_store 2 1"
  by (simp_all add: joinable_def is_in_def is_out_def del: One_nat_def)

lemma demo_link_inv [simp]: "link_inv demo_store"
proof -
  have "\<forall>a c. class_of demo_store a = Some c \<longrightarrow> is_in c \<or> is_out c"
    by (simp add: is_in_def is_out_def)
  moreover have "\<forall>a b k. key_of demo_store a = Some k \<longrightarrow> key_of demo_store b = Some k \<longrightarrow> a = b"
    by (auto simp: key_of_def demo_store_def demo_anchors_def new_anchor_def anchor_key_def
        split: if_splits)
  ultimately have "ident_wf demo_store" unfolding ident_wf_def by blast
  then show ?thesis by (simp add: link_inv_def)
qed

definition demo_linked :: anchor_store where
  "demo_linked = push_link 0 1 demo_store"

lemma demo_linked_facts [simp]:
  "link_inv demo_linked" "peers demo_linked = (\<lambda>_. [])(0 := [1], 1 := [0])"
  "class_of demo_linked = class_of demo_store" "joinable demo_linked = joinable demo_store"
  by (simp_all add: demo_linked_def link_inv_push_link peers_push_link fun_eq_iff del: One_nat_def)

lemma demo_objects [simp]:
  "anchors demo_linked a = None \<longleftrightarrow> a \<ge> 6" "anchors demo_store a = None \<longleftrightarrow> a \<ge> 6"
  using class_of_None [of demo_linked a] class_of_None [of demo_store a]
  by (auto split: if_splits)

text \<open>What \<^verbatim>\<open>ReplacePeer\<close> does to a first peer that is wired already: input 3, fed by
  output 6 of a fourth node, ends with the two data sources 6 and 0.\<close>

definition demo_fed :: anchor_store where
  "demo_fed = push_link 6 3 (add_anchor 6 OutDataAnchor 104 0 demo_linked)"

lemma demo_fed_link_inv: "link_inv (add_anchor 6 OutDataAnchor 104 0 demo_linked)"
proof -
  have "single_source demo_linked" by (rule single_sourceI) (auto split: if_splits)
  moreover have "key_of demo_linked b \<noteq> Some (anchor_key (new_anchor OutDataAnchor 104 0))" for b
    by (auto simp: demo_linked_def push_link_def key_of_def demo_store_def demo_anchors_def new_anchor_def
        anchor_key_def split: if_splits)
  ultimately have "anchor_inv (add_anchor 6 OutDataAnchor 104 0 demo_linked)"
    by (intro anchor_inv_add) (simp_all add: anchor_inv_def is_out_def)
  then show ?thesis by (simp add: anchor_inv_def)
qed

lemma ReplacePeer_two_sources:
  "peers (fst (ReplacePeer demo_fed 0 (Some 1) (Some 3) (Some 2))) 3 = [6, 0]"
proof -
  have j: "joinable (add_anchor 6 OutDataAnchor 104 0 demo_linked) 6 3"
    by (simp add: joinable_def class_of_add_anchor is_in_def is_out_def)
  have "link_inv demo_fed" "peers demo_fed 0 = [1]" "peers demo_fed 3 = [6]" "anchors demo_fed 3 \<noteq> None"
    unfolding demo_fed_def
    using link_inv_push_link [OF demo_fed_link_inv j] joinable_object [OF j]
    by (simp_all add: peers_push_link [OF j] peers_add_anchor del: One_nat_def)
  then show ?thesis
    using ReplacePeer_eq [of demo_fed 1 0 3 2] by (simp add: peers_upd_peers del: One_nat_def)
qed

section \<open>Properties\<close>



text \<open> C11: \<^verbatim>\<open>Anchor::Unlink\<close> on a consistent store: when the two anchors are linked it
  succeeds, removes exactly one link between them, touches no other anchor's peers and keeps
  the store consistent; when they are not linked it fails and changes nothing. \<close>

theorem unlink_removes_one_link:
  assumes "link_inv s" and "anchors s p \<noteq> None"
  shows "if p \<in> set (peers s a)
    then snd (Unlink s a (Some p)) = GRAPH_SUCCESS \<and> link_inv (fst (Unlink s a (Some p))) \<and>
      peers (fst (Unlink s a (Some p))) =
        (peers s)(a := remove1 p (peers s a), p := remove1 a (peers s p))
    else Unlink s a (Some p) = (s, GRAPH_FAILED)"
  using assms link_inv_joinable [of s p a]
  by (simp add: Unlink_cases peers_cut_link link_inv_cut_link)

lemma unlink_removes_one_link_witness:
  "snd (Unlink demo_linked 1 (Some 0)) = GRAPH_SUCCESS \<and>
   peers (fst (Unlink demo_linked 1 (Some 0))) = (\<lambda>_. []) \<and>
   Unlink demo_linked 3 (Some 0) = (demo_linked, GRAPH_FAILED)"
  using unlink_removes_one_link [of demo_linked 0 1] unlink_removes_one_link [of demo_linked 0 3]
  by (simp add: fun_eq_iff del: One_nat_def)

text \<open> C12: on a consistent store \<^verbatim>\<open>Anchor::UnlinkAll\<close> returns, and afterwards the anchor
  has no peer, no other anchor lists it any more, all other peers are kept in order, and the
  store is still consistent. \<close>

theorem unlink_all_returns:
  assumes "link_inv s"
  shows "\<exists>t. UnlinkAll s a = Some t \<and> link_inv t \<and> peers t a = [] \<and>
    (\<forall>x. x \<noteq> a \<longrightarrow> peers t x = removeAll a (peers s x))"
  using assms
  by (simp add: UnlinkAll_eq ls.cut_front_inv ls.cut_front_peers [OF assms refl])

lemma unlink_all_returns_witness:
  "\<exists>t. UnlinkAll demo_linked 0 = Some t \<and> peers t 0 = [] \<and> peers t 1 = []"
  using unlink_all_returns [of demo_linked 0] by auto

text \<open> \<^verbatim>\<open>Anchor::UnlinkAll\<close> ignores the status of \<^verbatim>\<open>Unlink\<close>: if the front peer
  cannot be unlinked (it has expired, or does not list the anchor), the loop never ends. \<close>

theorem unlink_all_stuck_diverges:
  assumes "peers s a \<noteq> []" and "Unlink s a (lock s (hd (peers s a))) = (s, GRAPH_FAILED)"
  shows "UnlinkAll s a = None"
  using UnlinkAll_loop_stuck [OF assms(2,1)] assms(1)
  by (cases "UnlinkAll_loop s a") (auto simp: UnlinkAll_def)

text \<open>The peer's node was destroyed and took the anchor with it, as a weak pointer allows.\<close>

lemma unlink_all_stuck_diverges_witness:
  "UnlinkAll (demo_linked\<lparr>anchors := (anchors demo_linked)(1 := None)\<rparr>) 0 = None"
proof (rule unlink_all_stuck_diverges)
  have "peers (demo_linked\<lparr>anchors := (anchors demo_linked)(1 := None)\<rparr>) 0 = peers demo_linked 0"
    unfolding peers_def by simp
  then have p: "peers (demo_linked\<lparr>anchors := (anchors demo_linked)(1 := None)\<rparr>) 0 = [1]" by simp
  then show "peers (demo_linked\<lparr>anchors := (anchors demo_linked)(1 := None)\<rparr>) 0 \<noteq> []" by simp
  show "Unlink (demo_linked\<lparr>anchors := (anchors demo_linked)(1 := None)\<rparr>) 0
          (lock (demo_linked\<lparr>anchors := (anchors demo_linked)(1 := None)\<rparr>)
            (hd (peers (demo_linked\<lparr>anchors := (anchors demo_linked)(1 := None)\<rparr>) 0))) =
        (demo_linked\<lparr>anchors := (anchors demo_linked)(1 := None)\<rparr>, GRAPH_FAILED)"
    unfolding p by (simp add: lock_def Unlink_def)
qed

text \<open> C13: \<^verbatim>\<open>Anchor::ReplacePeer\<close> inserts two anchors into an existing link: it succeeds,
  and in every anchor's peers, up to order, the old link is gone and the links to the first
  and the second new anchor are there; the consistency of the store is kept. \<close>

theorem replace_peer_splits_link:
  assumes "link_inv s" and "old \<in> set (peers s this)"
    and "joinable s this first" and "joinable s second old"
    and "first \<noteq> old" and "second \<noteq> this" and "first \<noteq> second"
  shows "snd (ReplacePeer s this (Some old) (Some first) (Some second)) = GRAPH_SUCCESS \<and>
    link_inv (fst (ReplacePeer s this (Some old) (Some first) (Some second))) \<and>
    (\<forall>x. mset (peers (fst (ReplacePeer s this (Some old) (Some first) (Some second))) x) =
      mset (peers (push_link second old (push_link this first (cut_link this old s))) x))"
  using ReplacePeer_refines [OF assms] link_inv_ReplacePeer [OF assms(1-5,7)]
    ReplacePeer_eq [OF assms(1,2,5)] joinable_neq [OF link_inv_joinable [OF assms(1,2)]]
  by simp

lemma replace_peer_splits_link_witness:
  "snd (ReplacePeer demo_linked 0 (Some 1) (Some 3) (Some 2)) = GRAPH_SUCCESS \<and>
   link_inv (fst (ReplacePeer demo_linked 0 (Some 1) (Some 3) (Some 2))) \<and>
   (\<forall>x. mset (peers (fst (ReplacePeer demo_linked 0 (Some 1) (Some 3) (Some 2))) x) =
     mset (peers (push_link 2 1 (push_link 0 3 (cut_link 0 1 demo_linked))) x))"
  by (rule replace_peer_splits_link) (simp_all del: One_nat_def)

text \<open> With at most one data source, \<^verbatim>\<open>InDataAnchor::GetPeerOutAnchor\<close>, which looks at
  the front peer only, finds the source exactly when there is one: its result is the one
  out-data anchor among the peers. \<close>

theorem peer_out_anchor_is_the_source:
  assumes "link_inv s" and "single_source s" and "class_of s a = Some InDataAnchor"
  shows "GetPeerOutAnchor s a = Some p \<longleftrightarrow> p \<in> set (peers s a) \<and> class_of s p = Some OutDataAnchor"
proof (cases "peers s a")
  case (Cons q qs)
  have "class_of s x = Some OutControlAnchor" if "x \<in> set qs" for x
    using assms that Cons by (simp add: single_source_def)
  moreover obtain c where "class_of s q = Some c" "is_out c"
    using link_inv_joinable [OF assms(1), of q a] assms(3) Cons
    by (auto simp: joinable_def is_in_def is_out_def split: option.splits)
  ultimately show ?thesis
    using Cons by (auto simp: GetPeerOutAnchor_def DynamicAnchorCast_lock is_out_def)
qed (simp add: GetPeerOutAnchor_def)

lemma peer_out_anchor_is_the_source_witness: "GetPeerOutAnchor demo_linked 1 = Some 0"
proof -
  have "single_source demo_linked" by (rule single_sourceI) (auto split: if_splits)
  then show ?thesis using peer_out_anchor_is_the_source [of demo_linked 1 0] by simp
qed

text \<open> C14: linking an out-data anchor to an in-data anchor succeeds exactly when the
  in-data anchor is free; it then adds one link between the two and nothing else, and
  otherwise changes nothing. \<close>

theorem data_link_needs_free_input:
  assumes "link_inv s" and "class_of s a = Some OutDataAnchor" and "class_of s b = Some InDataAnchor"
  shows "if peers s b = []
    then snd (OutData_LinkTo_InData s a (Some b)) = GRAPH_SUCCESS \<and>
      (\<forall>x y. ls.links (fst (OutData_LinkTo_InData s a (Some b))) x y =
        ls.links s x y + (if x = a \<and> y = b \<or> x = b \<and> y = a then 1 else 0))
    else OutData_LinkTo_InData s a (Some b) = (s, GRAPH_FAILED)"
proof -
  have "joinable s a b" using assms by (simp add: joinable_def is_in_def is_out_def)
  from ls.links_join [OF assms(1) this] show ?thesis by (simp add: OutData_LinkTo_InData_def)
qed

lemma data_link_needs_free_input_witness:
  "snd (OutData_LinkTo_InData demo_store 0 (Some 1)) = GRAPH_SUCCESS \<and>
   ls.links (fst (OutData_LinkTo_InData demo_store 0 (Some 1))) 1 0 = 1 \<and>
   OutData_LinkTo_InData demo_linked 2 (Some 1) = (demo_linked, GRAPH_FAILED)"
  using data_link_needs_free_input [of demo_store 0 1]
    data_link_needs_free_input [of demo_linked 2 1]
  by (simp add: ls.links_def del: One_nat_def)

end
