(* ===== verification/EdgeOps.thy ===== *)
theory EdgeOps
  imports Nodes Anchor_Properties
begin

text \<open>
  The edge operations of \<^verbatim>\<open>graph/utils/graph_utils.cc\<close> that work on single anchors:
  adding, removing and redirecting an edge, and inserting a node into one. The C++ overloads
  are told apart by a suffix that names the static types.
\<close>

section \<open>Adding and removing edges\<close>

definition AddEdge_data :: "ptr \<Rightarrow> ptr \<Rightarrow> ('z) anchor_store_scheme \<Rightarrow> ('z) anchor_store_scheme \<times> graphStatus" where
  "AddEdge_data src dst s =
     (case src of None \<Rightarrow> (s, GRAPH_FAILED) | Some a \<Rightarrow> or_failed (OutData_LinkTo_InData s a dst))"

definition AddEdge_control :: "ptr \<Rightarrow> ptr \<Rightarrow> ('z) anchor_store_scheme \<Rightarrow> ('z) anchor_store_scheme \<times> graphStatus" where
  "AddEdge_control src dst s =
     (case src of None \<Rightarrow> (s, GRAPH_FAILED) | Some a \<Rightarrow> or_failed (OutControl_LinkTo_InControl s a dst))"

definition AddEdge_data_control :: "ptr \<Rightarrow> ptr \<Rightarrow> ('z) anchor_store_scheme \<Rightarrow> ('z) anchor_store_scheme \<times> graphStatus" where
  "AddEdge_data_control src dst s =
     (case src of None \<Rightarrow> (s, GRAPH_FAILED) | Some a \<Rightarrow> or_failed (OutData_LinkTo_InControl s a dst))"

text \<open>The overload that sets the formats of both ends once they are linked.\<close>

definition AddEdge_format ::
  "ptr \<Rightarrow> 32 word \<Rightarrow> ptr \<Rightarrow> 32 word \<Rightarrow> ('z) anchor_store_scheme \<Rightarrow> ('z) anchor_store_scheme \<times> graphStatus" where
  "AddEdge_format src src_format dst dst_format s =
     (case src of
        None \<Rightarrow> (s, GRAPH_FAILED)
      | Some a \<Rightarrow>
          (case OutData_LinkTo_InData s a dst of
             (s1, st) \<Rightarrow>
               if st = GRAPH_SUCCESS
               then and_then (SetFormat s1 src src_format) (\<lambda>s2. SetFormat s2 dst dst_format)
               else (s1, GRAPH_FAILED)))"

text \<open>
  The overload on the base class tries the four combinations of concrete classes in turn, each
  attempt only after the previous ones have failed (a failed attempt changes nothing).
\<close>

definition try_link :: "ptr \<Rightarrow> ptr \<Rightarrow> ('s \<Rightarrow> nat \<Rightarrow> ptr \<Rightarrow> 's \<times> graphStatus) \<Rightarrow> ('s \<Rightarrow> 's \<times> graphStatus) \<Rightarrow> 's \<Rightarrow> 's \<times> graphStatus" where
  "try_link src dst link orelse s =
     (case (src, dst) of
        (Some a, Some b) \<Rightarrow>
           (case link s a (Some b) of (s1, st) \<Rightarrow> if st = GRAPH_SUCCESS then (s1, GRAPH_SUCCESS) else orelse s1)
      | _ \<Rightarrow> orelse s)"

definition AddEdge_any :: "ptr \<Rightarrow> ptr \<Rightarrow> ('z) anchor_store_scheme \<Rightarrow> ('z) anchor_store_scheme \<times> graphStatus" where
  "AddEdge_any src dst s =
     (let src_data = DynamicAnchorCast s OutDataAnchor src;
          dst_data = DynamicAnchorCast s InDataAnchor dst;
          src_control = DynamicAnchorCast s OutControlAnchor src;
          dst_control = DynamicAnchorCast s InControlAnchor dst
      in try_link src_data dst_data OutData_LinkTo_InData
          (try_link src_data dst_control OutData_LinkTo_InControl
            (try_link src_control dst_control OutControl_LinkTo_InControl
              (try_link src_control dst_data OutControl_LinkTo_InData
                (\<lambda>s. (s, GRAPH_FAILED))))) s)"

definition RemoveEdge_data :: "ptr \<Rightarrow> ptr \<Rightarrow> ('z) anchor_store_scheme \<Rightarrow> ('z) anchor_store_scheme \<times> graphStatus" where
  "RemoveEdge_data src dst s =
     (case src of None \<Rightarrow> (s, GRAPH_FAILED) | Some a \<Rightarrow> or_failed (Unlink s a dst))"

definition RemoveEdge_any :: "ptr \<Rightarrow> ptr \<Rightarrow> ('z) anchor_store_scheme \<Rightarrow> ('z) anchor_store_scheme \<times> graphStatus" where
  "RemoveEdge_any src dst s =
     (case src of None \<Rightarrow> (s, GRAPH_FAILED) | Some a \<Rightarrow> or_failed (Unlink s a dst))"

definition RemoveEdge_control :: "ptr \<Rightarrow> ptr \<Rightarrow> ('z) anchor_store_scheme \<Rightarrow> ('z) anchor_store_scheme \<times> graphStatus" where
  "RemoveEdge_control src dst s =
     (case src of None \<Rightarrow> (s, GRAPH_FAILED) | Some a \<Rightarrow> or_failed (Unlink s a dst))"

definition RemoveEdge_data_control :: "ptr \<Rightarrow> ptr \<Rightarrow> ('z) anchor_store_scheme \<Rightarrow> ('z) anchor_store_scheme \<times> graphStatus" where
  "RemoveEdge_data_control src dst s =
     (case src of None \<Rightarrow> (s, GRAPH_FAILED) | Some a \<Rightarrow> or_failed (Unlink s a dst))"

definition ReplaceEdgeDst_data :: "ptr \<Rightarrow> ptr \<Rightarrow> ptr \<Rightarrow> ('z) anchor_store_scheme \<Rightarrow> ('z) anchor_store_scheme \<times> graphStatus" where
  "ReplaceEdgeDst_data src dst new_dst s =
     or_failed (and_then (RemoveEdge_data src dst s) (AddEdge_data src new_dst))"

definition ReplaceEdgeDst_control :: "ptr \<Rightarrow> ptr \<Rightarrow> ptr \<Rightarrow> ('z) anchor_store_scheme \<Rightarrow> ('z) anchor_store_scheme \<times> graphStatus" where
  "ReplaceEdgeDst_control src dst new_dst s =
     or_failed (and_then (RemoveEdge_control src dst s) (AddEdge_control src new_dst))"

definition InsertNodeBetweenDataAnchors :: "ptr \<Rightarrow> ptr \<Rightarrow> ptr \<Rightarrow> ('z) node_store_scheme \<Rightarrow> ('z) node_store_scheme \<times> graphStatus" where
  "InsertNodeBetweenDataAnchors src dst inserted s =
     (case (src, dst, inserted) of
        (Some a, Some b, Some n) \<Rightarrow>
          (case GetInDataAnchor s n 0 of
             None \<Rightarrow> (s, GRAPH_FAILED)
           | Some node_in_anchor \<Rightarrow>
              (case GetOutDataAnchor s n 0 of
                 None \<Rightarrow> (s, GRAPH_FAILED)
               | Some node_out_anchor \<Rightarrow> ReplacePeer s a dst (Some node_in_anchor) (Some node_out_anchor)))
      | _ \<Rightarrow> (s, GRAPH_PARAM_INVALID))"

section \<open>Their effect on a consistent store\<close>

lemmas remove_defs = RemoveEdge_data_def RemoveEdge_any_def RemoveEdge_control_def
  RemoveEdge_data_control_def

lemmas add_defs = AddEdge_data_def AddEdge_control_def AddEdge_data_control_def

lemma RemoveEdge_linked:
  assumes "link_inv s" "b \<in> set (peers s a)"
  shows "RemoveEdge_data (Some a) (Some b) s = (cut_link a b s, GRAPH_SUCCESS)"
    "RemoveEdge_any (Some a) (Some b) s = (cut_link a b s, GRAPH_SUCCESS)"
    "RemoveEdge_control (Some a) (Some b) s = (cut_link a b s, GRAPH_SUCCESS)"
    "RemoveEdge_data_control (Some a) (Some b) s = (cut_link a b s, GRAPH_SUCCESS)"
  using assms by (simp_all add: remove_defs Unlink_linked)

text \<open>The general overload performs the one link the classes of its arguments admit.\<close>

lemma AddEdge_any_classes:
  assumes "class_of s a = Some c" "class_of s b = Some d"
  shows "AddEdge_any (Some a) (Some b) s =
    (if c = OutDataAnchor \<and> d = InDataAnchor then OutData_LinkTo_InData s a (Some b)
     else if c = OutDataAnchor \<and> d = InControlAnchor then OutData_LinkTo_InControl s a (Some b)
     else if c = OutControlAnchor \<and> d = InControlAnchor then OutControl_LinkTo_InControl s a (Some b)
     else if c = OutControlAnchor \<and> d = InDataAnchor then OutControl_LinkTo_InData s a (Some b)
     else (s, GRAPH_FAILED))"
  using assms
  by (cases c; cases d)
     (auto simp: AddEdge_any_def try_link_def DynamicAnchorCast_def class_of_def link_op_defs Let_def)

end
