(* ===== verification/Strings.thy ===== *)
theory Strings
  imports Prelude
begin

text \<open>
  What the program uses of C++ strings: \<^verbatim>\<open>StringUtils\<close> of
  \<^verbatim>\<open>graph/utils/string_utils.h\<close> (split and trim), the conversions
  \<^verbatim>\<open>std::to_string\<close>, \<^verbatim>\<open>std::stoi\<close> and \<^verbatim>\<open>std::strtol\<close> of the standard
  library, and the order in which \<^verbatim>\<open>std::map<string, _>\<close> iterates. Strings are char lists.
\<close>

section \<open>Splitting and trimming\<close>

definition is_space :: "char \<Rightarrow> bool" where
  "is_space c \<longleftrightarrow> (let n = of_char c :: nat in n = 32 \<or> (9 \<le> n \<and> n \<le> 13))"

definition Ltrim :: "string \<Rightarrow> string" where
  "Ltrim s = dropWhile is_space s"

definition Rtrim :: "string \<Rightarrow> string" where
  "Rtrim s = rev (dropWhile is_space (rev s))"

definition Trim :: "string \<Rightarrow> string" where
  "Trim s = Ltrim (Rtrim s)"

text \<open>
  The \<^verbatim>\<open>getline\<close> loop yields the pieces between delimiters, without a last empty piece;
  \<^verbatim>\<open>Split\<close> adds that piece back, and gives one empty piece for the empty string.
\<close>

fun getlines :: "char \<Rightarrow> string \<Rightarrow> string \<Rightarrow> string list" where
  "getlines d [] cur = (if cur = [] then [] else [rev cur])"
| "getlines d (c # cs) cur = (if c = d then rev cur # getlines d cs [] else getlines d cs (c # cur))"

definition Split :: "string \<Rightarrow> char \<Rightarrow> string list" where
  "Split str d =
     (if str = [] then [[]]
      else let elems = getlines d str [] in if last str = d then elems @ [[]] else elems)"

text \<open>Its specification: cut at every delimiter.\<close>

fun pieces :: "char \<Rightarrow> string \<Rightarrow> string list" where
  "pieces d [] = [[]]"
| "pieces d (c # cs) =
     (if c = d then [] # pieces d cs
      else case pieces d cs of [] \<Rightarrow> [[c]] | p # ps \<Rightarrow> (c # p) # ps)"

lemma pieces_not_Nil [simp]: "pieces d s \<noteq> []"
  by (induction s) (auto split: list.splits)

lemma getlines_pieces:
  "(if cs = [] then cur \<noteq> [] else True) \<Longrightarrow>
   getlines d cs cur @ (if cs \<noteq> [] \<and> last cs = d then [[]] else []) =
     (rev cur @ hd (pieces d cs)) # tl (pieces d cs)"
proof (induction d cs cur rule: getlines.induct)
  case (2 d c cs cur)
  show ?case
  proof (cases "cs = []")
    case True
    then show ?thesis by auto
  next
    case False
    then show ?thesis using 2 by (cases "pieces d cs") (auto split: list.splits)
  qed
qed auto

lemma Split_pieces: "Split s d = pieces d s"
proof (cases "s = []")
  case False
  have "getlines d s [] @ (if s \<noteq> [] \<and> last s = d then [[]] else []) =
      (rev [] @ hd (pieces d s)) # tl (pieces d s)"
    using False by (intro getlines_pieces) simp
  then show ?thesis using False by (auto simp: Split_def Let_def split: if_splits)
qed (simp add: Split_def)

text \<open>Joining the pieces with the delimiter gives the string back.\<close>

fun join_with :: "char \<Rightarrow> string list \<Rightarrow> string" where
  "join_with d [] = []"
| "join_with d [p] = p"
| "join_with d (p # q # ps) = p @ d # join_with d (q # ps)"

lemma join_pieces: "join_with d (pieces d s) = s"
proof (induction s)
  case (Cons c s)
  then show ?case by (cases "pieces d s" rule: list.exhaust; cases "tl (pieces d s)") auto
qed simp

lemma pieces_append:
  "d \<notin> set p \<Longrightarrow> pieces d (p @ d # s) = p # pieces d s"
  by (induction p) auto

lemma pieces_clean: "d \<notin> set p \<Longrightarrow> pieces d p = [p]"
  by (induction p) auto

lemma pieces_free: "p \<in> set (pieces d s) \<Longrightarrow> d \<notin> set p"
proof (induction s arbitrary: p)
  case (Cons c s)
  then show ?case by (cases "pieces d s") (auto split: if_splits)
qed simp

section \<open>Decimal numbers\<close>

fun nat_digits :: "nat \<Rightarrow> string" where
  "nat_digits n =
     (if n < 10 then [char_of (48 + n)] else nat_digits (n div 10) @ [char_of (48 + n mod 10)])"

declare nat_digits.simps [simp del]

definition to_string :: "int \<Rightarrow> string" where
  "to_string i = (if i < 0 then CHR ''-'' # nat_digits (nat (- i)) else nat_digits (nat i))"

definition is_digit :: "char \<Rightarrow> bool" where
  "is_digit c \<longleftrightarrow> 48 \<le> (of_char c :: nat) \<and> (of_char c :: nat) \<le> 57"

definition digit_val :: "char \<Rightarrow> nat" where
  "digit_val c = of_char c - 48"

fun parse_digits :: "nat \<Rightarrow> string \<Rightarrow> nat" where
  "parse_digits acc [] = acc"
| "parse_digits acc (c # cs) = (if is_digit c then parse_digits (10 * acc + digit_val c) cs else acc)"

text \<open>
  The common part of \<^verbatim>\<open>strtol\<close> and \<^verbatim>\<open>stoi\<close> in base 10: leading white space, an
  optional sign, then the longest run of digits; \<^term>\<open>None\<close> when there is no digit.
\<close>

definition parse_int :: "string \<Rightarrow> int option" where
  "parse_int s =
     (let t = Ltrim s;
          neg = (t \<noteq> [] \<and> hd t = CHR ''-'');
          u = (if t \<noteq> [] \<and> (hd t = CHR ''-'' \<or> hd t = CHR ''+'') then tl t else t)
      in if u \<noteq> [] \<and> is_digit (hd u)
         then Some (if neg then - int (parse_digits 0 u) else int (parse_digits 0 u)) else None)"

datatype stoi_result = Stoi int | Invalid_argument | Out_of_range

definition stoi :: "string \<Rightarrow> stoi_result" where
  "stoi s =
     (case parse_int s of
        None \<Rightarrow> Invalid_argument
      | Some i \<Rightarrow> if -(2^31) \<le> i \<and> i < 2^31 then Stoi i else Out_of_range)"

text \<open>\<^verbatim>\<open>strtol\<close> saturates at the limits of a 64-bit \<^verbatim>\<open>long\<close> and gives 0 without digits.\<close>

definition strtol :: "string \<Rightarrow> int" where
  "strtol s =
     (case parse_int s of None \<Rightarrow> 0 | Some i \<Rightarrow> max (-(2^63)) (min (2^63 - 1) i))"

lemma digit_char:
  "d < 10 \<Longrightarrow> is_digit (char_of (48 + d)) \<and> digit_val (char_of (48 + d)) = d"
  by (simp add: is_digit_def digit_val_def)

lemma parse_digits_append:
  "list_all is_digit xs \<Longrightarrow> parse_digits acc (xs @ ys) = parse_digits (parse_digits acc xs) ys"
  by (induction xs arbitrary: acc) auto

lemma nat_digits_digits: "list_all is_digit (nat_digits n) \<and> nat_digits n \<noteq> []"
  by (induction n rule: nat_digits.induct) (subst (1 2) nat_digits.simps, simp add: digit_char)

lemma parse_nat_digits: "parse_digits 0 (nat_digits n) = n"
proof (induction n rule: nat_digits.induct)
  case (1 n)
  show ?case
  proof (cases "n < 10")
    case True
    then show ?thesis by (simp add: nat_digits.simps [of n] digit_char)
  next
    case False
    then show ?thesis
      using 1 nat_digits_digits [of "n div 10"] digit_char [of "n mod 10"]
      by (simp add: nat_digits.simps [of n] parse_digits_append)
  qed
qed

lemma digit_not_special: "is_digit c \<Longrightarrow> \<not> is_space c \<and> c \<noteq> CHR ''-'' \<and> c \<noteq> CHR ''+'' \<and> c \<noteq> CHR '':''"
  by (auto simp: is_digit_def is_space_def Let_def)

lemma to_string_not_Nil [simp]: "to_string i \<noteq> []"
  using nat_digits_digits by (simp add: to_string_def)

lemma parse_int_to_string: "parse_int (to_string i) = Some i"
proof -
  obtain c cs where c: "nat_digits (nat \<bar>i\<bar>) = c # cs" "is_digit c"
    using nat_digits_digits [of "nat \<bar>i\<bar>"] by (cases "nat_digits (nat \<bar>i\<bar>)") auto
  have p: "parse_digits 0 (c # cs) = nat \<bar>i\<bar>" using parse_nat_digits [of "nat \<bar>i\<bar>"] c by simp
  have m: "\<not> is_space (CHR ''-'')" by (simp add: is_space_def)
  show ?thesis
  proof (cases "i < 0")
    case True
    then have "to_string i = CHR ''-'' # c # cs" using c by (simp add: to_string_def)
    with True c p m show ?thesis
      by (simp add: parse_int_def Ltrim_def Let_def del: parse_digits.simps)
  next
    case False
    then have "to_string i = c # cs" using c by (simp add: to_string_def)
    with False c p digit_not_special [OF c(2)] show ?thesis
      by (simp add: parse_int_def Ltrim_def Let_def del: parse_digits.simps)
  qed
qed

lemma stoi_to_string: "-(2^31) \<le> i \<Longrightarrow> i < 2^31 \<Longrightarrow> stoi (to_string i) = Stoi i"
  by (simp add: stoi_def parse_int_to_string)

lemma to_string_chars: "c \<in> set (to_string i) \<Longrightarrow> is_digit c \<or> c = CHR ''-''"
  using nat_digits_digits by (auto simp: to_string_def list_all_iff split: if_splits)

lemma Trim_to_string: "Trim (to_string i) = to_string i"
proof -
  have "\<forall>c \<in> set (to_string i). \<not> is_space c"
    using to_string_chars digit_not_special by (fastforce simp: is_space_def)
  moreover have d: "\<forall>c \<in> set xs. \<not> is_space c \<Longrightarrow> dropWhile is_space xs = xs" for xs
    by (cases xs) auto
  ultimately show ?thesis
    using d [of "rev (to_string i)"] d [of "to_string i"] by (simp add: Trim_def Ltrim_def Rtrim_def)
qed

section \<open>The order of map keys\<close>

text \<open>\<^verbatim>\<open>std::string\<close> compares bytes, as unsigned numbers, lexicographically.\<close>

fun str_less :: "string \<Rightarrow> string \<Rightarrow> bool" where
  "str_less _ [] = False"
| "str_less [] (_ # _) = True"
| "str_less (a # as) (b # bs) =
     ((of_char a :: nat) < of_char b \<or> (a = b \<and> str_less as bs))"

lemma str_less_irrefl [simp]: "\<not> str_less a a"
  by (induction a) auto

lemma str_less_trans: "str_less a b \<Longrightarrow> str_less b c \<Longrightarrow> str_less a c"
proof (induction a b arbitrary: c rule: str_less.induct)
  case (2 b bs)
  then show ?case by (cases c) auto
next
  case (3 a as b bs)
  then show ?case by (cases c) auto
qed simp

lemma str_less_linear: "str_less a b \<or> a = b \<or> str_less b a"
proof (induction a b rule: str_less.induct)
  case (1 a)
  then show ?case by (cases a) auto
next
  case (3 a as b bs)
  then show ?case by (metis of_char_eq_iff linorder_neqE_nat str_less.simps(3))
qed simp

text \<open>A \<^verbatim>\<open>std::map\<close> keyed by strings, as its sequence of entries in key order.\<close>

fun map_put :: "string \<Rightarrow> 'a \<Rightarrow> (string \<times> 'a) list \<Rightarrow> (string \<times> 'a) list" where
  "map_put k v [] = [(k, v)]"
| "map_put k v ((k', v') # m) =
     (if k = k' then (k, v) # m
      else if str_less k k' then (k, v) # (k', v') # m else (k', v') # map_put k v m)"

definition map_emplace :: "string \<Rightarrow> 'a \<Rightarrow> (string \<times> 'a) list \<Rightarrow> (string \<times> 'a) list" where
  "map_emplace k v m = (if map_of m k \<noteq> None then m else map_put k v m)"

text \<open>A \<^verbatim>\<open>std::set\<close> of strings, in order.\<close>

definition set_insert :: "string \<Rightarrow> string list \<Rightarrow> string list" where
  "set_insert k xs = map fst (map_put k () (map (\<lambda>x. (x, ())) xs))"

definition keys_sorted :: "(string \<times> 'a) list \<Rightarrow> bool" where
  "keys_sorted m \<longleftrightarrow> sorted_wrt str_less (map fst m)"

lemma map_of_put: "map_of (map_put k v m) = (map_of m)(k \<mapsto> v)"
  by (induction m) auto

lemma set_map_put: "set (map fst (map_put k v m)) = insert k (set (map fst m))"
proof (induction m)
  case (Cons x m)
  then show ?case by (cases x) auto
qed simp

lemma keys_sorted_put: "keys_sorted m \<Longrightarrow> keys_sorted (map_put k v m)"
proof (induction m)
  case (Cons x m)
  obtain k' v' where x: "x = (k', v')" by (cases x)
  have "set (map fst (map_put k v m)) = insert k (set (map fst m))"
    by (rule set_map_put)
  then show ?case
    using Cons str_less_linear [of k k'] str_less_trans [of k k']
    unfolding x keys_sorted_def by auto
qed (simp add: keys_sorted_def)

lemma keys_sorted_emplace: "keys_sorted m \<Longrightarrow> keys_sorted (map_emplace k v m)"
  by (simp add: map_emplace_def keys_sorted_put)

lemma keys_sorted_distinct: "keys_sorted m \<Longrightarrow> distinct (map fst m)"
proof (induction m)
  case (Cons x m)
  then show ?case by (force simp: keys_sorted_def)
qed simp

end
