(* ===== verification/GraphStore.thy ===== *)
theory GraphStore
  imports EdgeOps Strings
begin

text \<open>
  The compute graph of \<^verbatim>\<open>graph/compute_graph.cc\<close>: the list of its nodes with its
  separate counter, inputs and outputs, the subgraphs, and the operations that change them.
  Graphs are shared objects too, so the store of nodes is extended with them.
\<close>

section \<open>The objects\<close>

text \<open>
  The members the operations below read or write. \<^verbatim>\<open>nodes_\<close> holds non-null pointers
  (every insertion checks), \<^verbatim>\<open>out_nodes_map_\<close> is the sequence of its entries in key
  order, \<open>g_direct_nodes_size\<close> counts the elements of \<^verbatim>\<open>nodes_\<close> (a
  \<^verbatim>\<open>size_t\<close>, which the number of objects in memory cannot exhaust).
\<close>

record compute_graph =
  g_name :: string
  g_nodes :: "nat list"
  g_direct_nodes_size :: nat
  g_input_nodes :: "nat list"
  g_inputs_order :: "string list"
  g_input_size :: "32 word"
  g_output_size :: "32 word"
  g_out_nodes_map :: "(string \<times> int list) list"
  g_output_nodes_info :: "(nat \<times> int) list"
  g_sub_graph :: "nat list"
  g_names_to_subgraph :: "string \<Rightarrow> nat option"
  g_parent_graph :: ptr
  g_parent_node :: ptr
  g_is_valid_flag :: bool
  g_need_iteration :: bool

record graph_store = node_store +
  graphs :: "nat \<Rightarrow> compute_graph option"

definition new_graph :: "string \<Rightarrow> compute_graph" where
  "new_graph name =
     \<lparr>g_name = name, g_nodes = [], g_direct_nodes_size = 0, g_input_nodes = [],
      g_inputs_order = [], g_input_size = 1, g_output_size = 1, g_out_nodes_map = [],
      g_output_nodes_info = [], g_sub_graph = [], g_names_to_subgraph = (\<lambda>_. None),
      g_parent_graph = None, g_parent_node = None, g_is_valid_flag = False,
      g_need_iteration = False\<rparr>"

definition upd_graph :: "nat \<Rightarrow> (compute_graph \<Rightarrow> compute_graph) \<Rightarrow> ('z) graph_store_scheme \<Rightarrow> ('z) graph_store_scheme" where
  "upd_graph g f s = s\<lparr>graphs := (graphs s)(g := map_option f (graphs s g))\<rparr>"

definition graph_nodes :: "('z) graph_store_scheme \<Rightarrow> nat \<Rightarrow> nat list" where
  "graph_nodes s g = (case graphs s g of None \<Rightarrow> [] | Some x \<Rightarrow> g_nodes x)"

definition GetDirectNode :: "('z) graph_store_scheme \<Rightarrow> nat \<Rightarrow> nat list" where
  "GetDirectNode s g = graph_nodes s g"

definition GetDirectNodesSize :: "('z) graph_store_scheme \<Rightarrow> nat \<Rightarrow> nat" where
  "GetDirectNodesSize s g = (case graphs s g of None \<Rightarrow> 0 | Some x \<Rightarrow> g_direct_nodes_size x)"

definition GetInputNodes :: "('z) graph_store_scheme \<Rightarrow> nat \<Rightarrow> nat list" where
  "GetInputNodes s g = (case graphs s g of None \<Rightarrow> [] | Some x \<Rightarrow> g_input_nodes x)"

definition GetOutputNodes :: "('z) graph_store_scheme \<Rightarrow> nat \<Rightarrow> nat list" where
  "GetOutputNodes s g = (case graphs s g of None \<Rightarrow> [] | Some x \<Rightarrow> map fst (g_output_nodes_info x))"

definition is_valid_flag :: "('z) graph_store_scheme \<Rightarrow> nat \<Rightarrow> bool" where
  "is_valid_flag s g = (case graphs s g of None \<Rightarrow> False | Some x \<Rightarrow> g_is_valid_flag x)"

section \<open>The list of nodes and its counter\<close>

definition EraseFromNodeList :: "nat \<Rightarrow> nat \<Rightarrow> ('z) graph_store_scheme \<Rightarrow> ('z) graph_store_scheme" where
  "EraseFromNodeList g position s =
     upd_graph g (\<lambda>x. x\<lparr>g_nodes := erase_at position (g_nodes x),
                        g_direct_nodes_size := g_direct_nodes_size x - 1\<rparr>) s"

definition InsertToNodeList :: "nat \<Rightarrow> nat \<Rightarrow> nat \<Rightarrow> ('z) graph_store_scheme \<Rightarrow> ('z) graph_store_scheme" where
  "InsertToNodeList g position n s =
     upd_graph g (\<lambda>x. x\<lparr>g_nodes := take position (g_nodes x) @ n # drop position (g_nodes x),
                        g_direct_nodes_size := g_direct_nodes_size x + 1\<rparr>) s"

definition PushBackToNodeList :: "nat \<Rightarrow> nat \<Rightarrow> ('z) graph_store_scheme \<Rightarrow> ('z) graph_store_scheme" where
  "PushBackToNodeList g n s =
     upd_graph g (\<lambda>x. x\<lparr>g_nodes := g_nodes x @ [n],
                        g_direct_nodes_size := g_direct_nodes_size x + 1\<rparr>) s"

definition ClearNodeList :: "nat \<Rightarrow> ('z) graph_store_scheme \<Rightarrow> ('z) graph_store_scheme" where
  "ClearNodeList g s = upd_graph g (\<lambda>x. x\<lparr>g_nodes := [], g_direct_nodes_size := 0\<rparr>) s"

text \<open>\<^verbatim>\<open>std::find\<close> over the node list by pointer.\<close>

definition find_node_pos :: "('z) graph_store_scheme \<Rightarrow> nat \<Rightarrow> nat \<Rightarrow> nat option" where
  "find_node_pos s g n = find_index (\<lambda>m. m = n) (graph_nodes s g)"

section \<open>Adding nodes\<close>

text \<open>
  Each returns the pointer the code returns, null (\<^term>\<open>None\<close>) on an error. A new node is
  allocated at a fresh address with the given description, whose id is set first.
\<close>

definition AddNode :: "nat \<Rightarrow> ptr \<Rightarrow> ('z) graph_store_scheme \<Rightarrow> ptr \<times> ('z) graph_store_scheme" where
  "AddNode g node s =
     (case node of
        None \<Rightarrow> (None, s)
      | Some n \<Rightarrow>
          if GetOpDesc s n = None then (None, s)
          else (let s1 = SetHostNode n (is_valid_flag s g) s;
                    s2 = SetId n (int (GetDirectNodesSize s1 g)) s1
                in (node, PushBackToNodeList g n s2)))"

definition AddNodeFront :: "nat \<Rightarrow> ptr \<Rightarrow> ('z) graph_store_scheme \<Rightarrow> ptr \<times> ('z) graph_store_scheme" where
  "AddNodeFront g node s =
     (case node of
        None \<Rightarrow> (None, s)
      | Some n \<Rightarrow>
          if GetOpDesc s n = None then (None, s)
          else (let s1 = SetHostNode n (is_valid_flag s g) s;
                    s2 = SetId n (int (GetDirectNodesSize s1 g)) s1
                in if GetDirectNodesSize s2 g > 0 \<and> GetType s2 (hd (graph_nodes s2 g)) = DATA
                   then (node, InsertToNodeList g 1 n s2)
                   else (node, InsertToNodeList g 0 n s2)))"

definition alloc_node :: "nat \<Rightarrow> op_desc \<Rightarrow> ('z) graph_store_scheme \<Rightarrow> nat \<times> ('z) graph_store_scheme" where
  "alloc_node g op s =
     (let n = next_addr s
      in (n, fst (Init n (s\<lparr>nodes := (nodes s)(n \<mapsto> new_node (Some op) (Some g)), next_addr := Suc n\<rparr>))))"

definition AddNode_op :: "nat \<Rightarrow> op_desc option \<Rightarrow> ('z) graph_store_scheme \<Rightarrow> ptr \<times> ('z) graph_store_scheme" where
  "AddNode_op g op s =
     (case op of
        None \<Rightarrow> (None, s)
      | Some d \<Rightarrow>
          (let (n, s1) = alloc_node g (d\<lparr>op_id := int (GetDirectNodesSize s g)\<rparr>) s
           in AddNode g (Some n) s1))"

definition AddNodeFront_op :: "nat \<Rightarrow> op_desc option \<Rightarrow> ('z) graph_store_scheme \<Rightarrow> ptr \<times> ('z) graph_store_scheme" where
  "AddNodeFront_op g op s =
     (case op of
        None \<Rightarrow> (None, s)
      | Some d \<Rightarrow>
          (let (n, s1) = alloc_node g (d\<lparr>op_id := int (GetDirectNodesSize s g)\<rparr>) s
           in AddNodeFront g (Some n) s1))"

definition AddNode_op_id :: "nat \<Rightarrow> op_desc option \<Rightarrow> int \<Rightarrow> ('z) graph_store_scheme \<Rightarrow> ptr \<times> ('z) graph_store_scheme" where
  "AddNode_op_id g op new_id s =
     (case op of
        None \<Rightarrow> (None, s)
      | Some d \<Rightarrow>
          (let (n, s1) = alloc_node g (d\<lparr>op_id := new_id\<rparr>) s;
               s2 = SetHostNode n (is_valid_flag s1 g) s1
           in (Some n, PushBackToNodeList g n s2)))"

definition AddInputNode :: "nat \<Rightarrow> ptr \<Rightarrow> ('z) graph_store_scheme \<Rightarrow> ptr \<times> ('z) graph_store_scheme" where
  "AddInputNode g node s =
     (case node of
        None \<Rightarrow> (None, s)
      | Some n \<Rightarrow>
          (let s1 = upd_graph g (g_input_nodes_update (\<lambda>ns. ns @ [n])) s
           in if n \<notin> set (graph_nodes s1 g)
              then (let (r, s2) = AddNode g node s1 in (if r = None then None else node, s2))
              else (node, s1)))"

definition AddOutputNodeByIndex :: "nat \<Rightarrow> ptr \<Rightarrow> int \<Rightarrow> ('z) graph_store_scheme \<Rightarrow> ptr \<times> ('z) graph_store_scheme" where
  "AddOutputNodeByIndex g node index s =
     (case node of
        None \<Rightarrow> (None, s)
      | Some n \<Rightarrow>
          if GetOpDesc s n = None then (None, s)
          else
            (let info = (case graphs s g of None \<Rightarrow> [] | Some x \<Rightarrow> g_output_nodes_info x);
                 hit = find_index (\<lambda>item. GetName s (fst item) = GetName s n \<and> snd item = index) info;
                 result = (case hit of None \<Rightarrow> n | Some i \<Rightarrow> fst (info ! i));
                 s1 = (if hit = None
                       then upd_graph g (g_output_nodes_info_update (\<lambda>is. is @ [(n, index)])) s else s)
             in if n \<notin> set (graph_nodes s1 g)
                then (let (r, s2) = AddNode g node s1 in (if r = None then None else Some result, s2))
                else (Some result, s1)))"

definition AddOutputNode :: "nat \<Rightarrow> ptr \<Rightarrow> ('z) graph_store_scheme \<Rightarrow> ptr \<times> ('z) graph_store_scheme" where
  "AddOutputNode g node s = AddOutputNodeByIndex g node 0 s"

section \<open>Finding nodes\<close>

definition alias_names :: "('z) node_store_scheme \<Rightarrow> nat \<Rightarrow> string list" where
  "alias_names s n = (case Option.bind (GetOpDesc s n) op_alias of None \<Rightarrow> [] | Some as \<Rightarrow> as)"

definition FindNode :: "('z) graph_store_scheme \<Rightarrow> nat \<Rightarrow> string \<Rightarrow> ptr" where
  "FindNode s g name =
     List.find (\<lambda>n. GetName s n = name \<or> List.member (alias_names s n) name) (graph_nodes s g)"

definition FindFirstNodeMatchType :: "('z) graph_store_scheme \<Rightarrow> nat \<Rightarrow> string \<Rightarrow> ptr" where
  "FindFirstNodeMatchType s g t = List.find (\<lambda>n. GetType s n = t) (graph_nodes s g)"

section \<open>Removing nodes\<close>

definition RemoveInputNode :: "nat \<Rightarrow> ptr \<Rightarrow> ('z) graph_store_scheme \<Rightarrow> ('z) graph_store_scheme \<times> graphStatus" where
  "RemoveInputNode g node s =
     (case node of
        None \<Rightarrow> (s, GRAPH_FAILED)
      | Some n \<Rightarrow>
          (case find_index (\<lambda>m. m = n) (GetInputNodes s g) of
             None \<Rightarrow> (s, GRAPH_FAILED)
           | Some i \<Rightarrow> (upd_graph g (g_input_nodes_update (erase_at i)) s, GRAPH_SUCCESS)))"

definition RemoveOutputNode :: "nat \<Rightarrow> ptr \<Rightarrow> ('z) graph_store_scheme \<Rightarrow> ('z) graph_store_scheme \<times> graphStatus" where
  "RemoveOutputNode g node s =
     (case node of
        None \<Rightarrow> (s, GRAPH_FAILED)
      | Some n \<Rightarrow>
          (let find_node = (\<lambda>item. GetName s n = GetName s (fst item));
               info = (case graphs s g of None \<Rightarrow> [] | Some x \<Rightarrow> g_output_nodes_info x);
               s1 = upd_graph g (g_output_nodes_info_update (filter (\<lambda>item. \<not> find_node item))) s
           in (s1, if list_ex find_node info then GRAPH_SUCCESS else GRAPH_FAILED)))"

text \<open>
  \<^verbatim>\<open>RemoveConstInput\<close>: the constants that feed the node are disconnected from it, and
  erased from the node list once they feed nothing else.
\<close>

definition is_const_type :: "string \<Rightarrow> bool" where
  "is_const_type t \<longleftrightarrow> t = CONSTANT \<or> t = CONSTANTOP"

definition erase_node :: "nat \<Rightarrow> nat \<Rightarrow> ('z) graph_store_scheme \<Rightarrow> ('z) graph_store_scheme" where
  "erase_node g n s = (case find_node_pos s g n of None \<Rightarrow> s | Some i \<Rightarrow> EraseFromNodeList g i s)"

definition remove_const_input_at :: "nat \<Rightarrow> nat \<Rightarrow> ('z) graph_store_scheme \<Rightarrow> ('z) graph_store_scheme \<times> graphStatus" where
  "remove_const_input_at g in_anchor s =
     (case GetPeerOutAnchor s in_anchor of
        None \<Rightarrow> (s, GRAPH_SUCCESS)
      | Some out_anchor \<Rightarrow>
         (case GetOwnerNode s out_anchor of
            None \<Rightarrow> (s, GRAPH_SUCCESS)
          | Some m \<Rightarrow>
             if is_const_type (GetType s m)
             then and_then (or_failed (RemoveEdge_data (Some out_anchor) (Some in_anchor) s))
                    (\<lambda>s1. (if GetOutNodes s1 m = [] then erase_node g m s1 else s1, GRAPH_SUCCESS))
             else (s, GRAPH_SUCCESS)))"

definition RemoveConstInput :: "nat \<Rightarrow> ptr \<Rightarrow> ('z) graph_store_scheme \<Rightarrow> ('z) graph_store_scheme \<times> graphStatus" where
  "RemoveConstInput g node s =
     (case node of
        None \<Rightarrow> (s, GRAPH_PARAM_INVALID)
      | Some n \<Rightarrow> each (remove_const_input_at g) (GetAllInDataAnchors s n) s)"

section \<open>Isolating and removing a node\<close>

text \<open>Each redirection of an edge is a removal followed by an addition.\<close>

definition move_data :: "nat \<Rightarrow> nat \<Rightarrow> nat \<Rightarrow> ('z) anchor_store_scheme \<Rightarrow> ('z) anchor_store_scheme \<times> graphStatus" where
  "move_data old new dst s =
     and_then (RemoveEdge_data (Some old) (Some dst) s) (AddEdge_data (Some new) (Some dst))"

definition move_data_control :: "nat \<Rightarrow> nat \<Rightarrow> nat \<Rightarrow> ('z) anchor_store_scheme \<Rightarrow> ('z) anchor_store_scheme \<times> graphStatus" where
  "move_data_control old new dst s =
     and_then (RemoveEdge_data_control (Some old) (Some dst) s) (AddEdge_data_control (Some new) (Some dst))"

definition move_control :: "nat \<Rightarrow> nat \<Rightarrow> nat \<Rightarrow> ('z) anchor_store_scheme \<Rightarrow> ('z) anchor_store_scheme \<times> graphStatus" where
  "move_control old new dst s =
     and_then (RemoveEdge_control (Some old) (Some dst) s) (AddEdge_control (Some new) (Some dst))"

text \<open>The control successors of a data output become those of a control output.\<close>

definition move_data_to_control :: "nat \<Rightarrow> nat \<Rightarrow> nat \<Rightarrow> ('z) anchor_store_scheme \<Rightarrow> ('z) anchor_store_scheme \<times> graphStatus" where
  "move_data_to_control old new dst s =
     and_then (RemoveEdge_data_control (Some old) (Some dst) s) (AddEdge_control (Some new) (Some dst))"

definition isolate_out_anchor :: "nat \<Rightarrow> nat \<Rightarrow> ('z) anchor_store_scheme \<Rightarrow> ('z) anchor_store_scheme \<times> graphStatus" where
  "isolate_out_anchor pre out s =
     and_then (each (move_data out pre) (OutData_GetPeerInDataAnchors s out) s)
       (\<lambda>s1. each (move_data_control out pre) (OutData_GetPeerInControlAnchors s1 out) s1)"

definition owner_out_control :: "('z) node_store_scheme \<Rightarrow> nat \<Rightarrow> ptr" where
  "owner_out_control s a = Option.bind (GetOwnerNode s a) (GetOutControlAnchor s)"

definition isolate_in_anchor :: "nat \<Rightarrow> nat \<Rightarrow> ('z) node_store_scheme \<Rightarrow> ('z) node_store_scheme \<times> graphStatus" where
  "isolate_in_anchor n in_data_anchor s =
     (case GetPeerOutAnchor s in_data_anchor of
        None \<Rightarrow> (s, GRAPH_SUCCESS)
      | Some pre \<Rightarrow>
          and_then (RemoveEdge_data (Some pre) (Some in_data_anchor) s)
            (\<lambda>s1. if (case GetOwnerNode s1 pre of None \<Rightarrow> False | Some m \<Rightarrow> is_const_type (GetType s1 m))
                  then (s1, GRAPH_SUCCESS)
                  else and_then (each (isolate_out_anchor pre) (GetAllOutDataAnchors s1 n) s1)
                    (\<lambda>s2. case GetOutControlAnchor s2 n of
                        None \<Rightarrow> (s2, GRAPH_PARAM_INVALID)
                      | Some out_ctrl \<Rightarrow>
                         (case owner_out_control s2 pre of
                            None \<Rightarrow> (s2, GRAPH_PARAM_INVALID)
                          | Some pre_ctrl \<Rightarrow>
                              each (move_control out_ctrl pre_ctrl)
                                (OutControl_GetPeerInControlAnchors s2 out_ctrl) s2))))"

definition isolate_in_control_peer :: "nat \<Rightarrow> nat \<Rightarrow> nat \<Rightarrow> ('z) node_store_scheme \<Rightarrow> ('z) node_store_scheme \<times> graphStatus" where
  "isolate_in_control_peer n in_ctrl pre_ctrl s =
     and_then (RemoveEdge_control (Some pre_ctrl) (Some in_ctrl) s)
       (\<lambda>s1. and_then
         (each (\<lambda>out s. each (move_data_to_control out pre_ctrl) (OutData_GetPeerInControlAnchors s out) s)
            (GetAllOutDataAnchors s1 n) s1)
         (\<lambda>s2. case GetOutControlAnchor s2 n of
             None \<Rightarrow> (s2, GRAPH_SUCCESS)
           | Some out_ctrl \<Rightarrow>
               each (move_control out_ctrl pre_ctrl) (OutControl_GetPeerInControlAnchors s2 out_ctrl) s2))"

definition isolate_in_control_data :: "nat list \<Rightarrow> nat \<Rightarrow> nat \<Rightarrow> ('z) node_store_scheme \<Rightarrow> ('z) node_store_scheme \<times> graphStatus" where
  "isolate_in_control_data next_nodes in_ctrl out_data s =
     and_then (RemoveEdge_data_control (Some out_data) (Some in_ctrl) s)
       (each (\<lambda>m s. AddEdge_data_control (Some out_data) (GetInControlAnchor s m) s) next_nodes)"

definition RemoveExtraOutEdge :: "ptr \<Rightarrow> ('z) node_store_scheme \<Rightarrow> ('z) node_store_scheme \<times> graphStatus" where
  "RemoveExtraOutEdge node s =
     (case node of
        None \<Rightarrow> (s, GRAPH_PARAM_INVALID)
      | Some n \<Rightarrow>
          and_then
            (each (\<lambda>out s.
               and_then
                 (each (\<lambda>dst. RemoveEdge_data (Some out) (Some dst)) (OutData_GetPeerInDataAnchors s out) s)
                 (\<lambda>s1. each (\<lambda>dst. RemoveEdge_data_control (Some out) (Some dst))
                         (OutData_GetPeerInControlAnchors s1 out) s1))
               (GetAllOutDataAnchors s n) s)
            (\<lambda>s2. case GetOutControlAnchor s2 n of
                None \<Rightarrow> (s2, GRAPH_SUCCESS)
              | Some out_ctrl \<Rightarrow>
                  each (\<lambda>dst. RemoveEdge_control (Some out_ctrl) (Some dst))
                    (OutControl_GetPeerInControlAnchors s2 out_ctrl) s2))"

definition ComputeGraph_IsolateNode :: "ptr \<Rightarrow> ('z) node_store_scheme \<Rightarrow> ('z) node_store_scheme \<times> graphStatus" where
  "ComputeGraph_IsolateNode node s =
     (case node of
        None \<Rightarrow> (s, GRAPH_PARAM_INVALID)
      | Some n \<Rightarrow>
          (let next_nodes = GetOutAllNodes s n
           in and_then (each (isolate_in_anchor n) (GetAllInDataAnchors s n) s)
             (\<lambda>s1. case GetInControlAnchor s1 n of
                 None \<Rightarrow> (s1, GRAPH_PARAM_INVALID)
               | Some in_ctrl \<Rightarrow>
                   and_then
                     (each (isolate_in_control_peer n in_ctrl) (InControl_GetPeerOutControlAnchors s1 in_ctrl) s1)
                     (\<lambda>s2. and_then
                        (each (isolate_in_control_data next_nodes in_ctrl)
                           (InControl_GetPeerOutDataAnchors s2 in_ctrl) s2)
                        (RemoveExtraOutEdge node)))))"

definition RemoveNode :: "nat \<Rightarrow> ptr \<Rightarrow> ('z) graph_store_scheme \<Rightarrow> ('z) graph_store_scheme \<times> graphStatus" where
  "RemoveNode g node s =
     (case node of
        None \<Rightarrow> (s, GRAPH_FAILED)
      | Some n \<Rightarrow>
          (let s1 = fst (RemoveConstInput g node s);
               s2 = fst (RemoveInputNode g node s1);
               s3 = fst (RemoveOutputNode g node s2)
           in (case ComputeGraph_IsolateNode node s3 of
                 (s4, st) \<Rightarrow>
                   if st \<noteq> GRAPH_SUCCESS then (s4, GRAPH_FAILED)
                   else (case find_node_pos s4 g n of
                           None \<Rightarrow> (s4, GRAPH_FAILED)
                         | Some i \<Rightarrow> (EraseFromNodeList g i s4, GRAPH_SUCCESS)))))"

section \<open>Subgraphs\<close>

definition graph_name :: "('z) graph_store_scheme \<Rightarrow> nat \<Rightarrow> string" where
  "graph_name s g = (case graphs s g of None \<Rightarrow> [] | Some x \<Rightarrow> g_name x)"

definition sub_graphs :: "('z) graph_store_scheme \<Rightarrow> nat \<Rightarrow> nat list" where
  "sub_graphs s g = (case graphs s g of None \<Rightarrow> [] | Some x \<Rightarrow> g_sub_graph x)"

definition names_to_subgraph :: "('z) graph_store_scheme \<Rightarrow> nat \<Rightarrow> string \<Rightarrow> ptr" where
  "names_to_subgraph s g = (case graphs s g of None \<Rightarrow> (\<lambda>_. None) | Some x \<Rightarrow> g_names_to_subgraph x)"

definition GetParentGraph :: "('z) graph_store_scheme \<Rightarrow> nat \<Rightarrow> ptr" where
  "GetParentGraph s g = (case graphs s g of None \<Rightarrow> None | Some x \<Rightarrow> g_parent_graph x)"

definition GetParentNode :: "('z) graph_store_scheme \<Rightarrow> nat \<Rightarrow> ptr" where
  "GetParentNode s g = (case graphs s g of None \<Rightarrow> None | Some x \<Rightarrow> g_parent_node x)"

definition SetParentGraph :: "nat \<Rightarrow> ptr \<Rightarrow> ('z) graph_store_scheme \<Rightarrow> ('z) graph_store_scheme" where
  "SetParentGraph g parent s = upd_graph g (g_parent_graph_update (\<lambda>_. parent)) s"

definition SetParentNode :: "nat \<Rightarrow> ptr \<Rightarrow> ('z) graph_store_scheme \<Rightarrow> ('z) graph_store_scheme" where
  "SetParentNode g parent s = upd_graph g (g_parent_node_update (\<lambda>_. parent)) s"

definition GetAllSubgraphs :: "('z) graph_store_scheme \<Rightarrow> nat \<Rightarrow> nat list" where
  "GetAllSubgraphs s g = sub_graphs s g"

text \<open>The obsolete pair overwrites an existing entry of the same name.\<close>

definition AddSubGraph :: "nat \<Rightarrow> ptr \<Rightarrow> ('z) graph_store_scheme \<Rightarrow> ptr \<times> ('z) graph_store_scheme" where
  "AddSubGraph g sub_graph s =
     (case sub_graph of
        None \<Rightarrow> (None, s)
      | Some h \<Rightarrow>
          (sub_graph, upd_graph g (\<lambda>x. x\<lparr>g_sub_graph := g_sub_graph x @ [h],
             g_names_to_subgraph := (g_names_to_subgraph x)(graph_name s h \<mapsto> h)\<rparr>) s))"

definition RemoveSubGraph :: "nat \<Rightarrow> ptr \<Rightarrow> ('z) graph_store_scheme \<Rightarrow> ('z) graph_store_scheme \<times> graphStatus" where
  "RemoveSubGraph g sub_graph s =
     (case sub_graph of
        None \<Rightarrow> (s, GRAPH_FAILED)
      | Some h \<Rightarrow>
          (let s1 = upd_graph g (\<lambda>x. x\<lparr>g_names_to_subgraph :=
                      (g_names_to_subgraph x)(graph_name s h := None)\<rparr>) s
           in (case find_index (\<lambda>k. k = h) (sub_graphs s1 g) of
                 Some i \<Rightarrow> (upd_graph g (g_sub_graph_update (erase_at i)) s1, GRAPH_SUCCESS)
               | None \<Rightarrow> (s1, GRAPH_SUCCESS))))"

definition AddSubgraph :: "nat \<Rightarrow> string \<Rightarrow> ptr \<Rightarrow> ('z) graph_store_scheme \<Rightarrow> ('z) graph_store_scheme \<times> graphStatus" where
  "AddSubgraph g name subgraph s =
     (case subgraph of
        None \<Rightarrow> (s, GRAPH_PARAM_INVALID)
      | Some h \<Rightarrow>
         (case GetParentGraph s h of
            None \<Rightarrow> (s, GRAPH_PARAM_INVALID)
          | Some parent_graph \<Rightarrow>
             (case GetParentNode s h of
                None \<Rightarrow> (s, GRAPH_PARAM_INVALID)
              | Some parent_node \<Rightarrow>
                  if GetOwnerComputeGraph s parent_node \<noteq> Some parent_graph then (s, GRAPH_PARAM_INVALID)
                  else if names_to_subgraph s g name \<noteq> None then (s, GRAPH_PARAM_INVALID)
                  else (upd_graph g (\<lambda>x. x\<lparr>g_sub_graph := g_sub_graph x @ [h],
                          g_names_to_subgraph := (g_names_to_subgraph x)(name \<mapsto> h)\<rparr>) s,
                        GRAPH_SUCCESS))))"

definition AddSubgraph_own :: "nat \<Rightarrow> ptr \<Rightarrow> ('z) graph_store_scheme \<Rightarrow> ('z) graph_store_scheme \<times> graphStatus" where
  "AddSubgraph_own g subgraph s =
     (case subgraph of None \<Rightarrow> (s, GRAPH_PARAM_INVALID)
      | Some h \<Rightarrow> AddSubgraph g (graph_name s h) subgraph s)"

definition RemoveSubgraph :: "nat \<Rightarrow> string \<Rightarrow> ('z) graph_store_scheme \<Rightarrow> ('z) graph_store_scheme" where
  "RemoveSubgraph g name s =
     (case names_to_subgraph s g name of
        None \<Rightarrow> s
      | Some h \<Rightarrow>
          upd_graph g (\<lambda>x. x\<lparr>g_sub_graph :=
              (case find_index (\<lambda>k. k = h) (g_sub_graph x) of
                 None \<Rightarrow> g_sub_graph x | Some i \<Rightarrow> erase_at i (g_sub_graph x)),
            g_names_to_subgraph := (g_names_to_subgraph x)(name := None)\<rparr>) s)"

definition RemoveSubgraph_own :: "nat \<Rightarrow> ptr \<Rightarrow> ('z) graph_store_scheme \<Rightarrow> ('z) graph_store_scheme" where
  "RemoveSubgraph_own g subgraph s =
     (case subgraph of None \<Rightarrow> s | Some h \<Rightarrow> RemoveSubgraph g (graph_name s h) s)"

text \<open>
  The lookup asks the parent, up to the root. A cycle of parents would make it recurse
  forever: \<^term>\<open>None\<close> is a call that does not return, \<^term>\<open>Some None\<close> a null result.
\<close>

partial_function (option) GetSubgraph :: "('z) graph_store_scheme \<Rightarrow> nat \<Rightarrow> string \<Rightarrow> ptr option" where
  "GetSubgraph s g name =
     (case GetParentGraph s g of
        None \<Rightarrow> Some (names_to_subgraph s g name)
      | Some parent \<Rightarrow> GetSubgraph s parent name)"

text \<open>
  \<^verbatim>\<open>AllGraphNodes\<close>: the nodes in order, each followed by the nodes of the subgraphs it
  instantiates; the subgraphs are collected in the reverse order of a node's instance names.
\<close>

definition subgraph_names :: "('z) node_store_scheme \<Rightarrow> nat \<Rightarrow> string list" where
  "subgraph_names s n = (case GetOpDesc s n of None \<Rightarrow> [] | Some op \<Rightarrow> op_subgraphs op)"

fun expand_subgraphs ::
  "('z) graph_store_scheme \<Rightarrow> nat \<Rightarrow> string list \<Rightarrow> nat list \<times> nat list \<Rightarrow> (nat list \<times> nat list) option" where
  "expand_subgraphs s g [] acc = Some acc"
| "expand_subgraphs s g (name # names) (subgraphs, candidates) =
     Option.bind (GetSubgraph s g name)
       (\<lambda>r. case r of
           None \<Rightarrow> expand_subgraphs s g names (subgraphs, candidates)
         | Some h \<Rightarrow> expand_subgraphs s g names (subgraphs @ [h], graph_nodes s h @ candidates))"

partial_function (option) AllGraphNodes_loop ::
  "('z) graph_store_scheme \<Rightarrow> nat \<Rightarrow> nat list \<Rightarrow> nat list \<Rightarrow> nat list \<Rightarrow> (nat list \<times> nat list) option" where
  "AllGraphNodes_loop s g candidates all_nodes subgraphs =
     (case candidates of
        [] \<Rightarrow> Some (all_nodes, subgraphs)
      | node # rest \<Rightarrow>
          Option.bind (expand_subgraphs s g (rev (subgraph_names s node)) (subgraphs, rest))
            (\<lambda>(subgraphs', candidates'). AllGraphNodes_loop s g candidates' (all_nodes @ [node]) subgraphs'))"

definition AllGraphNodes :: "('z) graph_store_scheme \<Rightarrow> nat \<Rightarrow> (nat list \<times> nat list) option" where
  "AllGraphNodes s g = AllGraphNodes_loop s g (graph_nodes s g) [] []"

definition GetAllNodes :: "('z) graph_store_scheme \<Rightarrow> nat \<Rightarrow> nat list option" where
  "GetAllNodes s g = map_option fst (AllGraphNodes s g)"

section \<open>Index mappings and output names\<close>

definition SetParentIndex :: "nat \<Rightarrow> 32 word \<Rightarrow> ('z) node_store_scheme \<Rightarrow> ('z) node_store_scheme" where
  "SetParentIndex n i s = upd_node n (n_op_update (map_option (op_parent_index_update (\<lambda>_. Some i)))) s"

definition update_input_index :: "(32 word \<Rightarrow> 32 word option) \<Rightarrow> nat \<Rightarrow> ('z) node_store_scheme \<Rightarrow> ('z) node_store_scheme" where
  "update_input_index input_mapping n s =
     (if GetType s n = DATA
      then (case Option.bind (GetOpDesc s n) op_parent_index of
              None \<Rightarrow> s
            | Some cur_index \<Rightarrow>
                (case input_mapping cur_index of None \<Rightarrow> s | Some i \<Rightarrow> SetParentIndex n i s))
      else s)"

definition UpdateInputMapping :: "nat \<Rightarrow> (32 word \<Rightarrow> 32 word option) \<Rightarrow> ('z) graph_store_scheme \<Rightarrow> ('z) graph_store_scheme \<times> graphStatus" where
  "UpdateInputMapping g input_mapping s =
     (fold (update_input_index input_mapping) (graph_nodes s g) s, GRAPH_SUCCESS)"

text \<open>
  \<^verbatim>\<open>SetUserDefOutput\<close> parses \<^verbatim>\<open>name:index;name:index...\<close>; malformed items are
  skipped, a repeated index is ignored. \<^verbatim>\<open>GetOutput\<close> prints the map.
\<close>

definition add_output :: "string \<Rightarrow> (string \<times> int list) list \<Rightarrow> (string \<times> int list) list" where
  "add_output node m =
     (case Split node (CHR '':'') of
        [nm, idx] \<Rightarrow>
          (case stoi (Trim idx) of
             Stoi index \<Rightarrow>
               (case map_of m nm of
                  None \<Rightarrow> map_put nm [index] m
                | Some is \<Rightarrow> if List.member is index then m else map_put nm (is @ [index]) m)
           | _ \<Rightarrow> m)
      | _ \<Rightarrow> m)"

definition SetUserDefOutput :: "nat \<Rightarrow> string \<Rightarrow> ('z) graph_store_scheme \<Rightarrow> ('z) graph_store_scheme" where
  "SetUserDefOutput g output_name s =
     (if output_name = [] then s
      else upd_graph g (g_out_nodes_map_update (fold add_output (Split output_name (CHR '';'')))) s)"

definition output_string :: "(string \<times> int list) list \<Rightarrow> string" where
  "output_string m =
     concat (map (\<lambda>(nm, idxes). concat (map (\<lambda>idx. nm @ '':'' @ to_string idx @ '';'') idxes)) m)"

text \<open>
  \<^verbatim>\<open>substr(0, length() - 1)\<close> drops the last separator; on the empty string the length
  wraps to the largest \<^verbatim>\<open>size_t\<close> and the result is empty, as \<^const>\<open>butlast\<close> gives.
\<close>

definition GetOutput :: "('z) graph_store_scheme \<Rightarrow> nat \<Rightarrow> string" where
  "GetOutput s g =
     butlast (output_string (case graphs s g of None \<Rightarrow> [] | Some x \<Rightarrow> g_out_nodes_map x))"

end
