(* ===== verification/GraphRewire.thy ===== *)
theory GraphRewire
  imports GraphStore
begin

text \<open>
  Rewiring around whole nodes, \<^verbatim>\<open>graph/utils/graph_utils.cc\<close> and
  \<^verbatim>\<open>graph/utils/node_utils.cc\<close>: inserting a node behind an output, isolating a node,
  replacing its anchors by those of another, copying and moving control edges. These operations
  can throw, crash on a null pointer or, through \<^verbatim>\<open>UnlinkAll\<close>, hang, so they return a
  \<^typ>\<open>'s run\<close>.
\<close>

section \<open>Unlinking\<close>

definition run_unlink_all :: "nat \<Rightarrow> ('z) anchor_store_scheme \<Rightarrow> ('z) anchor_store_scheme run" where
  "run_unlink_all a s = (case UnlinkAll s a of None \<Rightarrow> Hang | Some s' \<Rightarrow> Ret s' GRAPH_SUCCESS)"

text \<open>\<^verbatim>\<open>NodeUtils::UnlinkAll\<close>.\<close>

definition NodeUtils_UnlinkAll :: "nat \<Rightarrow> ('z) node_store_scheme \<Rightarrow> ('z) node_store_scheme run" where
  "NodeUtils_UnlinkAll n s =
     run_then (run_each run_unlink_all (GetAllOutAnchors s n) s)
       (\<lambda>s1. run_each run_unlink_all (GetAllInAnchors s1 n) s1)"

section \<open>Isolating a node\<close>

text \<open>
  The pairs of nodes that got a data edge, \<^verbatim>\<open>InNodesToOut\<close>, are recorded as a list; a
  null node is recorded like any other.
\<close>

type_synonym io_pairs = "(ptr \<times> ptr) list"

definition relink_one ::
    "nat \<Rightarrow> nat \<Rightarrow> nat \<Rightarrow> ('z) anchor_store_scheme \<times> io_pairs \<Rightarrow> (('z) anchor_store_scheme \<times> io_pairs) \<times> graphStatus" where
  "relink_one new_out old_out peer = (\<lambda>(s, io).
     case Unlink s peer (Some old_out) of
       (s1, st1) \<Rightarrow>
         if st1 \<noteq> GRAPH_SUCCESS then ((s1, io), GRAPH_FAILED)
         else (case InData_LinkFrom s1 peer (Some new_out) of
                 (s2, st2) \<Rightarrow>
                   if st2 \<noteq> GRAPH_SUCCESS then ((s2, io), GRAPH_FAILED)
                   else ((s2, io @ [(GetOwnerNode s2 new_out, GetOwnerNode s2 peer)]), GRAPH_SUCCESS)))"

definition ReplaceOutDataAnchor ::
    "ptr \<Rightarrow> ptr \<Rightarrow> ('z) anchor_store_scheme \<times> io_pairs \<Rightarrow> (('z) anchor_store_scheme \<times> io_pairs) \<times> graphStatus" where
  "ReplaceOutDataAnchor new_out old_out sio =
     (case (new_out, old_out) of
        (Some new, Some old) \<Rightarrow> each (relink_one new old) (OutData_GetPeerInDataAnchors (fst sio) old) sio
      | _ \<Rightarrow> (sio, GRAPH_PARAM_INVALID))"

text \<open>One output: its consumers get the source of the input that the map names.\<close>

definition relink_output ::
    "nat list \<Rightarrow> nat list \<Rightarrow> int list \<Rightarrow> nat \<Rightarrow> ('z) anchor_store_scheme \<times> io_pairs \<Rightarrow>
     (('z) anchor_store_scheme \<times> io_pairs) run" where
  "relink_output ins outs io_map i = (\<lambda>(s, io).
     let out_data_anchor = outs ! i;
         in_index = (if i < length io_map then io_map ! i else -1)
     in if in_index < 0
        then (case UnlinkAll s out_data_anchor of None \<Rightarrow> Hang | Some s1 \<Rightarrow> Ret (s1, io) GRAPH_SUCCESS)
        else if in_index \<ge> int (length ins) then Ret (s, io) GRAPH_PARAM_INVALID
        else
          (let in_anchor = ins ! nat in_index
           in case GetPeerOutAnchor s in_anchor of
                None \<Rightarrow> Ret (s, io) GRAPH_SUCCESS
              | Some peer_out \<Rightarrow>
                  (case Unlink s peer_out (Some in_anchor) of
                     (s1, st) \<Rightarrow>
                       if st \<noteq> GRAPH_SUCCESS then Ret (s1, io) GRAPH_FAILED
                       else run_or_failed
                              (lift_run (ReplaceOutDataAnchor (Some peer_out) (Some out_data_anchor) (s1, io))))))"

definition RelinkDataIO ::
    "ptr \<Rightarrow> int list \<Rightarrow> ('z) node_store_scheme \<times> io_pairs \<Rightarrow> (('z) node_store_scheme \<times> io_pairs) run" where
  "RelinkDataIO node io_map = (\<lambda>(s, io).
     case node of
       None \<Rightarrow> Ret (s, io) GRAPH_PARAM_INVALID
     | Some n \<Rightarrow>
         (let ins = GetAllInDataAnchors s n; outs = GetAllOutDataAnchors s n
          in if length outs < length io_map then Ret (s, io) GRAPH_PARAM_INVALID
             else run_then (run_each (relink_output ins outs io_map) [0..<length outs] (s, io))
               (\<lambda>(s1, io1).
                  case run_each run_unlink_all (GetAllInDataAnchors s1 n) s1 of
                    Ret s2 st \<Rightarrow> Ret (s2, io1) st
                  | Throw s2 \<Rightarrow> Throw (s2, io1) | Crash \<Rightarrow> Crash | Hang \<Rightarrow> Hang)))"

text \<open>
  The predecessors and successors before the data edges change. The containers are unordered:
  \<open>iter\<close> gives the order in which one is traversed, from its elements in the order of their
  insertion.
\<close>

definition GetFullConnectIONodes ::
    "(nat list \<Rightarrow> nat list) \<Rightarrow> ('z) node_store_scheme \<Rightarrow> nat \<Rightarrow> nat list \<times> nat list" where
  "GetFullConnectIONodes iter s n =
     (iter (remdups (GetInNodes s n)), iter (remdups (GetOutNodes s n)))"

definition relink_control ::
    "io_pairs \<Rightarrow> nat \<Rightarrow> nat \<Rightarrow> ('z) node_store_scheme \<Rightarrow> ('z) node_store_scheme \<times> graphStatus" where
  "relink_control io in_node out_node s =
     (if (Some in_node, Some out_node) \<in> set io then (s, GRAPH_SUCCESS)
      else (case GetOutControlAnchor s in_node of
              None \<Rightarrow> (s, GRAPH_PARAM_INVALID)
            | Some c \<Rightarrow>
                if IsLinkedWith s c (GetInControlAnchor s out_node) then (s, GRAPH_SUCCESS)
                else if in_node = out_node then (s, GRAPH_SUCCESS)
                else or_failed (AddEdge_control (Some c) (GetInControlAnchor s out_node) s)))"

definition RelinkControlNodeIfNeed ::
    "nat list \<times> nat list \<Rightarrow> io_pairs \<Rightarrow> ('z) node_store_scheme \<Rightarrow> ('z) node_store_scheme \<times> graphStatus" where
  "RelinkControlNodeIfNeed in_nodes_to_out io s =
     each (\<lambda>in_node. each (relink_control io in_node) (snd in_nodes_to_out)) (fst in_nodes_to_out) s"

definition GraphUtils_IsolateNode ::
    "(nat list \<Rightarrow> nat list) \<Rightarrow> ptr \<Rightarrow> int list \<Rightarrow> ('z) node_store_scheme \<Rightarrow> ('z) node_store_scheme run" where
  "GraphUtils_IsolateNode iter node io_map s =
     (case node of
        None \<Rightarrow> Ret s GRAPH_PARAM_INVALID
      | Some n \<Rightarrow>
          (let in_nodes_to_out = GetFullConnectIONodes iter s n
           in case RelinkDataIO node io_map (s, []) of
                Ret (s1, io) st \<Rightarrow>
                  run_then (Ret s1 st)
                    (\<lambda>s1. run_then (lift_run (RelinkControlNodeIfNeed in_nodes_to_out io s1))
                       (NodeUtils_UnlinkAll n))
              | Throw (s1, io) \<Rightarrow> Throw s1 | Crash \<Rightarrow> Crash | Hang \<Rightarrow> Hang))"

definition IsolateNodeOneIO ::
    "(nat list \<Rightarrow> nat list) \<Rightarrow> ptr \<Rightarrow> ('z) node_store_scheme \<Rightarrow> ('z) node_store_scheme run" where
  "IsolateNodeOneIO iter node s =
     (case node of
        None \<Rightarrow> Ret s GRAPH_PARAM_INVALID
      | Some n \<Rightarrow>
          if GetAllInDataAnchorsSize s n \<noteq> 1 then Ret s GRAPH_PARAM_INVALID
          else if GetAllOutDataAnchorsSize s n \<noteq> 1 then Ret s GRAPH_PARAM_INVALID
          else GraphUtils_IsolateNode iter node [0] s)"

section \<open>Replacing the anchors of a node\<close>

text \<open>\<^verbatim>\<open>old_outs.at(i)\<close> throws when the map names an output the old node does not have.\<close>

definition replace_out_at ::
    "nat list \<Rightarrow> nat list \<Rightarrow> int list \<Rightarrow> nat \<Rightarrow> ('z) anchor_store_scheme \<Rightarrow> ('z) anchor_store_scheme run" where
  "replace_out_at new_outs old_outs outputs_map i s =
     (if i \<ge> length outputs_map then Ret s GRAPH_SUCCESS
      else if outputs_map ! i < 0 then Ret s GRAPH_SUCCESS
      else if outputs_map ! i \<ge> int (length old_outs) then Throw s
      else (case ReplaceOutDataAnchor (Some (new_outs ! i)) (Some (old_outs ! nat (outputs_map ! i))) (s, []) of
              ((s1, _), st) \<Rightarrow> Ret s1 st))"

definition ReplaceOutDataAnchors ::
    "nat list \<Rightarrow> nat list \<Rightarrow> int list \<Rightarrow> ('z) anchor_store_scheme \<Rightarrow> ('z) anchor_store_scheme run" where
  "ReplaceOutDataAnchors new_outs old_outs outputs_map s =
     (if length new_outs < length outputs_map then Ret s GRAPH_PARAM_INVALID
      else run_each (replace_out_at new_outs old_outs outputs_map) [0..<length new_outs] s)"

definition replace_in_at ::
    "nat list \<Rightarrow> nat list \<Rightarrow> int list \<Rightarrow> nat \<Rightarrow> ('z) anchor_store_scheme \<Rightarrow> ('z) anchor_store_scheme run" where
  "replace_in_at new_ins old_ins inputs_map i s =
     (if i \<ge> length inputs_map then Ret s GRAPH_SUCCESS
      else if inputs_map ! i < 0 then Ret s GRAPH_SUCCESS
      else if inputs_map ! i \<ge> int (length old_ins) then Throw s
      else
        (let old_in_anchor = old_ins ! nat (inputs_map ! i)
         in case GetPeerOutAnchor s old_in_anchor of
              None \<Rightarrow> Ret s GRAPH_SUCCESS
            | Some peer_out_anchor \<Rightarrow>
                lift_run (and_then (or_failed (Unlink s peer_out_anchor (Some old_in_anchor)))
                  (\<lambda>s1. or_failed (OutData_LinkTo_InData s1 peer_out_anchor (Some (new_ins ! i)))))))"

definition ReplaceInDataAnchors ::
    "nat list \<Rightarrow> nat list \<Rightarrow> int list \<Rightarrow> ('z) anchor_store_scheme \<Rightarrow> ('z) anchor_store_scheme run" where
  "ReplaceInDataAnchors new_ins old_ins inputs_map s =
     (if length new_ins < length inputs_map then Ret s GRAPH_PARAM_INVALID
      else run_each (replace_in_at new_ins old_ins inputs_map) [0..<length new_ins] s)"

text \<open>Copying all control edges; peers the new node has already are left out.\<close>

definition copy_control_in :: "nat \<Rightarrow> ptr set \<Rightarrow> ptr \<Rightarrow> ('z) anchor_store_scheme \<Rightarrow> ('z) anchor_store_scheme \<times> graphStatus" where
  "copy_control_in new_in exists_set peer_out s =
     (if peer_out = None \<or> peer_out \<in> exists_set then (s, GRAPH_SUCCESS)
      else or_failed (AddEdge_any peer_out (Some new_in) s))"

definition copy_control_out :: "nat \<Rightarrow> ptr set \<Rightarrow> ptr \<Rightarrow> ('z) anchor_store_scheme \<Rightarrow> ('z) anchor_store_scheme \<times> graphStatus" where
  "copy_control_out new_out exists_set peer_in s =
     (if peer_in = None \<or> peer_in \<in> exists_set then (s, GRAPH_SUCCESS)
      else or_failed (AddEdge_any (Some new_out) peer_in s))"

definition ReplaceControlAnchors :: "ptr \<Rightarrow> ptr \<Rightarrow> ('z) node_store_scheme \<Rightarrow> ('z) node_store_scheme \<times> graphStatus" where
  "ReplaceControlAnchors new_nd old_nd s =
     (case (new_nd, old_nd) of
        (Some nw, Some od) \<Rightarrow>
          (case (GetInControlAnchor s nw, GetInControlAnchor s od) of
             (Some new_in, Some old_in) \<Rightarrow>
               and_then
                 (each (copy_control_in new_in (set (GetPeerAnchors s new_in))) (GetPeerAnchors s old_in) s)
                 (\<lambda>s1. case (GetOutControlAnchor s1 od, GetOutControlAnchor s1 nw) of
                     (Some old_out, Some new_out) \<Rightarrow>
                       each (copy_control_out new_out (set (GetPeerAnchors s1 new_out))) (GetPeerAnchors s1 old_out) s1
                   | _ \<Rightarrow> (s1, GRAPH_PARAM_INVALID))
           | _ \<Rightarrow> (s, GRAPH_PARAM_INVALID))
      | _ \<Rightarrow> (s, GRAPH_PARAM_INVALID))"

definition ReplaceNodeDataAnchors ::
    "ptr \<Rightarrow> ptr \<Rightarrow> int list \<Rightarrow> int list \<Rightarrow> ('z) node_store_scheme \<Rightarrow> ('z) node_store_scheme run" where
  "ReplaceNodeDataAnchors new_nd old_nd inputs_map outputs_map s =
     (case (new_nd, old_nd) of
        (Some nw, Some od) \<Rightarrow>
          run_then
            (run_or_failed (ReplaceOutDataAnchors (GetAllOutDataAnchors s nw) (GetAllOutDataAnchors s od) outputs_map s))
            (\<lambda>s1. run_or_failed
               (ReplaceInDataAnchors (GetAllInDataAnchors s1 nw) (GetAllInDataAnchors s1 od) inputs_map s1))
      | _ \<Rightarrow> Ret s GRAPH_PARAM_INVALID)"

definition ReplaceNodeAnchors ::
    "ptr \<Rightarrow> ptr \<Rightarrow> int list \<Rightarrow> int list \<Rightarrow> ('z) node_store_scheme \<Rightarrow> ('z) node_store_scheme run" where
  "ReplaceNodeAnchors new_nd old_nd inputs_map outputs_map s =
     (if new_nd = None \<or> old_nd = None then Ret s GRAPH_PARAM_INVALID
      else run_then (run_or_failed (ReplaceNodeDataAnchors new_nd old_nd inputs_map outputs_map s))
             (\<lambda>s1. run_or_failed (lift_run (ReplaceControlAnchors new_nd old_nd s1))))"

section \<open>Inserting a node behind an output\<close>

text \<open>
  \<^verbatim>\<open>NodeUtils::GetNodeType\<close> reads the type of a framework operator from an attribute
  of its description, the argument \<open>original_type\<close>.
\<close>

abbreviation "FRAMEWORKOP \<equiv> ''FrameworkOp''"
abbreviation "SWITCH \<equiv> ''Switch''"
abbreviation "REFSWITCH \<equiv> ''RefSwitch''"
abbreviation "SWITCHN \<equiv> ''SwitchN''"

definition GetNodeType :: "(nat \<Rightarrow> string) \<Rightarrow> ('z) node_store_scheme \<Rightarrow> nat \<Rightarrow> string" where
  "GetNodeType original_type s n = (if GetType s n \<noteq> FRAMEWORKOP then GetType s n else original_type n)"

definition move_control_to :: "nat \<Rightarrow> ptr \<Rightarrow> nat \<Rightarrow> ('z) anchor_store_scheme \<Rightarrow> ('z) anchor_store_scheme run" where
  "move_control_to src_out_ctrl insert_ctrl peer s =
     (case and_then (RemoveEdge_control (Some src_out_ctrl) (Some peer) s)
             (AddEdge_control insert_ctrl (Some peer)) of
        (s1, st) \<Rightarrow>
          if st = GRAPH_SUCCESS then Ret s1 GRAPH_SUCCESS
          else if GetOwnerNode s1 peer = None then Crash else Ret s1 GRAPH_FAILED)"

text \<open>The removal of the old edge is not checked: an unlinked destination just gets the new one.\<close>

definition insert_before_dst ::
    "nat \<Rightarrow> nat \<Rightarrow> nat \<Rightarrow> nat \<Rightarrow> bool \<Rightarrow> int \<Rightarrow> ptr \<Rightarrow> ('z) node_store_scheme \<Rightarrow> ('z) node_store_scheme run" where
  "insert_before_dst src src_node insert_node src_out_ctrl ctrl_edge_flag output_index dst s =
     (case dst of
        None \<Rightarrow> Ret s GRAPH_PARAM_INVALID
      | Some d \<Rightarrow>
         (case GetOwnerNode s d of
            None \<Rightarrow> Crash
          | Some dst_node \<Rightarrow>
              if GetOwnerComputeGraph s src_node \<noteq> GetOwnerComputeGraph s dst_node then Ret s GRAPH_FAILED
              else
                (let s1 = fst (RemoveEdge_data (Some src) dst s)
                 in run_then (lift_run (or_failed (AddEdge_data (GetOutDataAnchor s1 insert_node output_index) dst s1)))
                      (\<lambda>s2. if \<not> ctrl_edge_flag then Ret s2 GRAPH_SUCCESS
                             else run_each
                               (move_control_to src_out_ctrl (GetOutControlAnchor s2 insert_node))
                               (OutControl_GetPeerInControlAnchors s2 src_out_ctrl) s2))))"

definition InsertNodeAfter ::
    "(nat \<Rightarrow> string) \<Rightarrow> ptr \<Rightarrow> ptr list \<Rightarrow> ptr \<Rightarrow> 32 word \<Rightarrow> 32 word \<Rightarrow> ('z) node_store_scheme \<Rightarrow> ('z) node_store_scheme run" where
  "InsertNodeAfter original_type src dsts insert_node input_index output_index s =
     (case (src, insert_node) of
        (Some a, Some ins) \<Rightarrow>
          (case GetOwnerNode s a of
             None \<Rightarrow> Crash
           | Some src_node \<Rightarrow>
              if GetOwnerComputeGraph s src_node \<noteq> GetOwnerComputeGraph s ins then Ret s GRAPH_FAILED
              else run_then
                (lift_run (or_failed (AddEdge_data src (GetInDataAnchor s ins (sint input_index)) s)))
                (\<lambda>s1. case GetOutControlAnchor s1 src_node of
                    None \<Rightarrow> Ret s1 GRAPH_PARAM_INVALID
                  | Some src_out_ctrl \<Rightarrow>
                      (let ctrl_edge_flag =
                             (\<not> List.member [SWITCH, REFSWITCH, SWITCHN] (GetNodeType original_type s1 src_node))
                       in run_each (\<lambda>dst. insert_before_dst a src_node ins src_out_ctrl ctrl_edge_flag
                              (sint output_index) dst) dsts s1)))
      | _ \<Rightarrow> Ret s GRAPH_PARAM_INVALID)"

definition RemoveJustNode :: "nat \<Rightarrow> ptr \<Rightarrow> ('z) graph_store_scheme \<Rightarrow> ('z) graph_store_scheme \<times> graphStatus" where
  "RemoveJustNode g node s =
     (case node of
        None \<Rightarrow> (s, GRAPH_FAILED)
      | Some n \<Rightarrow>
          (case find_node_pos s g n of
             Some i \<Rightarrow> (EraseFromNodeList g i s, GRAPH_SUCCESS)
           | None \<Rightarrow> (s, GRAPH_FAILED)))"

definition RemoveJustNode_ptr :: "ptr \<Rightarrow> ptr \<Rightarrow> ('z) graph_store_scheme \<Rightarrow> ('z) graph_store_scheme \<times> graphStatus" where
  "RemoveJustNode_ptr compute_graph node s =
     (if compute_graph = None \<or> node = None then (s, GRAPH_PARAM_INVALID)
      else or_failed (RemoveJustNode (the compute_graph) node s))"

section \<open>Copying and moving edges\<close>

definition copy_in_ctrl :: "nat list \<Rightarrow> ptr \<Rightarrow> nat \<Rightarrow> ('z) node_store_scheme \<Rightarrow> ('z) node_store_scheme \<times> graphStatus" where
  "copy_in_ctrl exist_nodes dst_ctrl in_node s =
     (if in_node \<in> set exist_nodes then (s, GRAPH_SUCCESS)
      else AddEdge_control (GetOutControlAnchor s in_node) dst_ctrl s)"

definition CopyInCtrlEdges :: "ptr \<Rightarrow> ptr \<Rightarrow> ('z) node_store_scheme \<Rightarrow> ('z) node_store_scheme \<times> graphStatus" where
  "CopyInCtrlEdges src_node dst_node s =
     (case (src_node, dst_node) of
        (Some a, Some b) \<Rightarrow>
          each (copy_in_ctrl (GetInControlNodes s b) (GetInControlAnchor s b)) (GetInControlNodes s a) s
      | _ \<Rightarrow> (s, GRAPH_PARAM_INVALID))"

definition MoveInCtrlEdges :: "ptr \<Rightarrow> ptr \<Rightarrow> ('z) node_store_scheme \<Rightarrow> ('z) node_store_scheme run" where
  "MoveInCtrlEdges src_node dst_node s =
     (case (src_node, dst_node) of
        (Some a, Some b) \<Rightarrow>
          run_then (lift_run (CopyInCtrlEdges src_node dst_node s))
            (\<lambda>s1. case GetInControlAnchor s1 a of
                None \<Rightarrow> Ret s1 GRAPH_PARAM_INVALID | Some c \<Rightarrow> run_unlink_all c s1)
      | _ \<Rightarrow> Ret s GRAPH_FAILED)"

definition copy_out_ctrl :: "nat list \<Rightarrow> ptr \<Rightarrow> nat \<Rightarrow> ('z) node_store_scheme \<Rightarrow> ('z) node_store_scheme \<times> graphStatus" where
  "copy_out_ctrl exist_nodes dst_out_ctrl out_node s =
     (if out_node \<in> set exist_nodes then (s, GRAPH_SUCCESS)
      else AddEdge_control dst_out_ctrl (GetInControlAnchor s out_node) s)"

definition CopyOutCtrlEdges :: "ptr \<Rightarrow> ptr \<Rightarrow> ('z) node_store_scheme \<Rightarrow> ('z) node_store_scheme \<times> graphStatus" where
  "CopyOutCtrlEdges src_node dst_node s =
     (case (src_node, dst_node) of
        (Some a, Some b) \<Rightarrow>
          each (copy_out_ctrl (GetOutControlNodes s b) (GetOutControlAnchor s b)) (GetOutControlNodes s a) s
      | _ \<Rightarrow> (s, GRAPH_FAILED))"

definition MoveOutCtrlEdges :: "ptr \<Rightarrow> ptr \<Rightarrow> ('z) node_store_scheme \<Rightarrow> ('z) node_store_scheme run" where
  "MoveOutCtrlEdges src_node dst_node s =
     (case (src_node, dst_node) of
        (Some a, Some b) \<Rightarrow>
          run_then (lift_run (CopyOutCtrlEdges src_node dst_node s))
            (\<lambda>s1. case GetOutControlAnchor s1 a of
                None \<Rightarrow> Ret s1 GRAPH_PARAM_INVALID | Some c \<Rightarrow> run_unlink_all c s1)
      | _ \<Rightarrow> Ret s GRAPH_FAILED)"

text \<open>
  The error message of a failed copy names the node that feeds the input, through pointers that
  are null for an input without a source.
\<close>

definition copy_in_data :: "nat \<Rightarrow> nat \<Rightarrow> ('z) node_store_scheme \<Rightarrow> ('z) node_store_scheme run" where
  "copy_in_data dst_node in_data_anchor s =
     (case AddEdge_data (GetPeerOutAnchor s in_data_anchor)
             (GetInDataAnchor s dst_node (GetIdx s in_data_anchor)) s of
        (s1, st) \<Rightarrow>
          if st \<noteq> GRAPH_SUCCESS
          then (if Option.bind (GetPeerOutAnchor s1 in_data_anchor) (GetOwnerNode s1) = None then Crash
                else Ret s1 st)
          else Ret s1 GRAPH_SUCCESS)"

definition CopyInDataEdges :: "ptr \<Rightarrow> ptr \<Rightarrow> ('z) node_store_scheme \<Rightarrow> ('z) node_store_scheme run" where
  "CopyInDataEdges src_node dst_node s =
     (case (src_node, dst_node) of
        (Some a, Some b) \<Rightarrow>
          (if GetInDataNodes s a = [] then Ret s GRAPH_SUCCESS
           else run_each (copy_in_data b) (GetAllInDataAnchors s a) s)
      | _ \<Rightarrow> Ret s GRAPH_PARAM_INVALID)"

definition AppendInputNode :: "nat \<Rightarrow> ptr \<Rightarrow> ('z) graph_store_scheme \<Rightarrow> ('z) graph_store_scheme \<times> graphStatus" where
  "AppendInputNode g node s =
     (case AddInputNode g node s of
        (None, s1) \<Rightarrow> (s1, GRAPH_FAILED)
      | (Some n, s1) \<Rightarrow>
          (upd_graph g (\<lambda>x. x\<lparr>g_input_size := g_input_size x + 1,
             g_inputs_order := g_inputs_order x @ [GetName s1 n]\<rparr>) s1, GRAPH_SUCCESS))"

text \<open>\<^term>\<open>None\<close>: a cycle of parents, the loop does not end.\<close>

partial_function (option) FindRootGraph_loop :: "('z) graph_store_scheme \<Rightarrow> nat \<Rightarrow> nat option" where
  "FindRootGraph_loop s g =
     (case GetParentGraph s g of None \<Rightarrow> Some g | Some parent \<Rightarrow> FindRootGraph_loop s parent)"

definition FindRootGraph :: "('z) graph_store_scheme \<Rightarrow> ptr \<Rightarrow> ptr option" where
  "FindRootGraph s graph =
     (case graph of None \<Rightarrow> Some None | Some g \<Rightarrow> map_option Some (FindRootGraph_loop s g))"

section \<open>Node utilities\<close>

text \<open>\<^verbatim>\<open>map_send_info_\<close> and \<^verbatim>\<open>map_recv_info_\<close> are static maps from nodes to events.\<close>

record event_info =
  map_send_info :: "nat \<Rightarrow> 32 word list option"
  map_recv_info :: "nat \<Rightarrow> 32 word list option"

definition push_event :: "nat \<Rightarrow> 32 word \<Rightarrow> (nat \<Rightarrow> 32 word list option) \<Rightarrow> nat \<Rightarrow> 32 word list option" where
  "push_event n event_id m = m(n \<mapsto> (case m n of None \<Rightarrow> [] | Some es \<Rightarrow> es) @ [event_id])"

definition AddSendEventId :: "ptr \<Rightarrow> 32 word \<Rightarrow> event_info \<Rightarrow> event_info \<times> graphStatus" where
  "AddSendEventId node event_id e =
     (case node of None \<Rightarrow> (e, GRAPH_PARAM_INVALID)
      | Some n \<Rightarrow> (map_send_info_update (push_event n event_id) e, GRAPH_SUCCESS))"

definition AddRecvEventId :: "ptr \<Rightarrow> 32 word \<Rightarrow> event_info \<Rightarrow> event_info \<times> graphStatus" where
  "AddRecvEventId node event_id e =
     (case node of None \<Rightarrow> (e, GRAPH_PARAM_INVALID)
      | Some n \<Rightarrow> (map_recv_info_update (push_event n event_id) e, GRAPH_SUCCESS))"

definition find_events :: "(nat \<Rightarrow> 32 word list option) \<Rightarrow> ptr \<Rightarrow> 32 word list \<Rightarrow> 32 word list \<times> graphStatus" where
  "find_events m node vec =
     (case node of None \<Rightarrow> (vec, GRAPH_PARAM_INVALID)
      | Some n \<Rightarrow> (case m n of None \<Rightarrow> (vec, GRAPH_FAILED) | Some es \<Rightarrow> (es, GRAPH_SUCCESS)))"

definition GetSendEventIdList :: "event_info \<Rightarrow> ptr \<Rightarrow> 32 word list \<Rightarrow> 32 word list \<times> graphStatus" where
  "GetSendEventIdList e node vec_send = find_events (map_send_info e) node vec_send"

definition GetRecvEventIdList :: "event_info \<Rightarrow> ptr \<Rightarrow> 32 word list \<Rightarrow> 32 word list \<times> graphStatus" where
  "GetRecvEventIdList e node vec_recv = find_events (map_recv_info e) node vec_recv"

definition ClearSendInfo :: "event_info \<Rightarrow> event_info \<times> graphStatus" where
  "ClearSendInfo e = (e\<lparr>map_send_info := (\<lambda>_. None)\<rparr>, GRAPH_SUCCESS)"

definition ClearRecvInfo :: "event_info \<Rightarrow> event_info \<times> graphStatus" where
  "ClearRecvInfo e = (e\<lparr>map_recv_info := (\<lambda>_. None)\<rparr>, GRAPH_SUCCESS)"

text \<open>The loop asks the same node in every round.\<close>

fun nth_layer_loop :: "('z) node_store_scheme \<Rightarrow> nat \<Rightarrow> nat \<Rightarrow> ptr \<Rightarrow> ptr option" where
  "nth_layer_loop s src 0 cur_ptr = Some cur_ptr"
| "nth_layer_loop s src (Suc rounds) cur_ptr =
     (case GetOutDataNodes s src of [n] \<Rightarrow> nth_layer_loop s src rounds (Some n) | _ \<Rightarrow> None)"

definition GetSingleOutputNodeOfNthLayer :: "('z) node_store_scheme \<Rightarrow> ptr \<Rightarrow> int \<Rightarrow> ptr \<Rightarrow> ptr \<times> graphStatus" where
  "GetSingleOutputNodeOfNthLayer s src depth dst =
     (case src of
        None \<Rightarrow> (dst, GRAPH_PARAM_INVALID)
      | Some n \<Rightarrow>
          if depth < 1 then (dst, GRAPH_FAILED)
          else (case nth_layer_loop s n (nat depth) None of
                  None \<Rightarrow> (dst, GRAPH_FAILED) | Some cur_ptr \<Rightarrow> (cur_ptr, GRAPH_SUCCESS)))"

definition GetDataOutAnchorAndControlInAnchor ::
    "('z) node_store_scheme \<Rightarrow> ptr \<Rightarrow> ptr \<times> ptr \<Rightarrow> (ptr \<times> ptr) \<times> graphStatus" where
  "GetDataOutAnchorAndControlInAnchor s node outs =
     (case node of
        None \<Rightarrow> (outs, GRAPH_PARAM_INVALID)
      | Some n \<Rightarrow>
          (case concat (map (\<lambda>p. map (Pair p) (OutData_GetPeerInControlAnchors s p)) (GetAllOutDataAnchors s n)) of
             [] \<Rightarrow> (outs, GRAPH_FAILED)
           | (p, p_in) # _ \<Rightarrow> ((Some p, Some p_in), GRAPH_SUCCESS)))"

text \<open>Erasing an input renumbers the ones behind it.\<close>

fun renumber_from :: "int \<Rightarrow> nat list \<Rightarrow> ('z) anchor_store_scheme \<Rightarrow> ('z) anchor_store_scheme" where
  "renumber_from i [] s = s"
| "renumber_from i (a # as) s = renumber_from (i + 1) as (SetIdx a i s)"

definition ClearInDataAnchor :: "ptr \<Rightarrow> ptr \<Rightarrow> ('z) node_store_scheme \<Rightarrow> ('z) node_store_scheme \<times> graphStatus" where
  "ClearInDataAnchor node in_data_anchor s =
     (case (node, in_data_anchor) of
        (Some n, Some a) \<Rightarrow>
          (case find_index (\<lambda>x. x = a) (in_data_anchors s n) of
             None \<Rightarrow> (s, GRAPH_FAILED)
           | Some index \<Rightarrow>
               (let s1 = upd_node n (n_in_data_update (erase_at index)) s
                in (renumber_from (int index) (drop index (in_data_anchors s1 n)) s1, GRAPH_SUCCESS)))
      | _ \<Rightarrow> (s, GRAPH_FAILED))"

definition SetAllAnchorStatus :: "ptr \<Rightarrow> ('z) node_store_scheme \<Rightarrow> ('z) node_store_scheme \<times> graphStatus" where
  "SetAllAnchorStatus node s =
     (case node of None \<Rightarrow> (s, GRAPH_FAILED)
      | Some n \<Rightarrow> (upd_node n (n_anchor_status_updated_update (\<lambda>_. True)) s, GRAPH_SUCCESS))"

definition IsAnchorStatusSet :: "('z) node_store_scheme \<Rightarrow> ptr \<Rightarrow> bool" where
  "IsAnchorStatusSet s node =
     (case node of None \<Rightarrow> False
      | Some n \<Rightarrow> (case nodes s n of None \<Rightarrow> False | Some x \<Rightarrow> n_anchor_status_updated x))"

text \<open>A step that fails is skipped, \<^verbatim>\<open>continue\<close>; the status is not returned.\<close>

definition move_out_data :: "nat \<Rightarrow> nat \<Rightarrow> nat \<Rightarrow> ('z) anchor_store_scheme \<Rightarrow> ('z) anchor_store_scheme" where
  "move_out_data origin_out new_out peer s =
     fst (and_then (Unlink s origin_out (Some peer)) (\<lambda>s1. OutData_LinkTo_InData s1 new_out (Some peer)))"

definition move_out_data_control :: "nat \<Rightarrow> nat \<Rightarrow> nat \<Rightarrow> ('z) anchor_store_scheme \<Rightarrow> ('z) anchor_store_scheme" where
  "move_out_data_control origin_out new_out peer s =
     fst (and_then (Unlink s origin_out (Some peer)) (\<lambda>s1. OutData_LinkTo_InControl s1 new_out (Some peer)))"

definition move_out_anchor :: "nat \<times> nat \<Rightarrow> ('z) anchor_store_scheme \<Rightarrow> ('z) anchor_store_scheme" where
  "move_out_anchor = (\<lambda>(origin_out, new_out) s.
     let s1 = fold (move_out_data origin_out new_out) (OutData_GetPeerInDataAnchors s origin_out) s
     in fold (move_out_data_control origin_out new_out) (OutData_GetPeerInControlAnchors s1 origin_out) s1)"

definition MoveOutputEdges :: "ptr \<Rightarrow> ptr \<Rightarrow> ('z) node_store_scheme \<Rightarrow> ('z) node_store_scheme run" where
  "MoveOutputEdges origin_node new_nd s =
     (case (origin_node, new_nd) of
        (Some od, Some nw) \<Rightarrow>
          (let origin_outs = GetAllOutDataAnchors s od; new_outs = GetAllOutDataAnchors s nw
           in if length origin_outs \<noteq> length new_outs then Ret s GRAPH_FAILED
              else
                (let s1 = fold move_out_anchor (zip origin_outs new_outs) s
                 in (case (GetOutControlAnchor s1 od, GetOutControlAnchor s1 nw) of
                       (Some origin_ctrl, Some new_ctrl) \<Rightarrow>
                         (let s2 = fold (\<lambda>peer s. fst (OutControl_LinkTo_InControl s new_ctrl (Some peer)))
                                     (OutControl_GetPeerInControlAnchors s1 origin_ctrl) s1;
                              s3 = fold (\<lambda>peer s. fst (OutControl_LinkTo_InData s new_ctrl (Some peer)))
                                     (OutControl_GetPeerInDataAnchors s2 origin_ctrl) s2
                          in run_unlink_all origin_ctrl s3)
                     | _ \<Rightarrow> Ret s1 GRAPH_PARAM_INVALID)))
      | _ \<Rightarrow> Ret s GRAPH_FAILED)"

end
