(* ===== verification/TopoSort.thy ===== *)
theory TopoSort
  imports GraphStore
begin

text \<open>
  Topological sorting in \<^verbatim>\<open>graph/compute_graph.cc\<close>: the edge counts, the initial
  worklist (\<^verbatim>\<open>SortNodes\<close>), the depth-first and the breadth-first loop, and the
  operations that reorder a graph with them. The option \<^verbatim>\<open>ge.graphRunMode\<close> the code asks
  the context for is an argument: \<^term>\<open>None\<close> when it is not set.
\<close>

section \<open>Edge counts\<close>

text \<open>
  \<^verbatim>\<open>GetInEdgeSize\<close> counts the peers of all inputs, less one for every input fed by a back
  edge of a loop; the flag is the early return of its sanity check.
\<close>

definition from_next_iteration :: "('z) node_store_scheme \<Rightarrow> nat \<Rightarrow> bool" where
  "from_next_iteration s a =
     (case Option.bind (GetPeerOutAnchor s a) (GetOwnerNode s) of
        None \<Rightarrow> False | Some m \<Rightarrow> is_next_iteration (GetType s m))"

fun in_edge_data :: "('z) node_store_scheme \<Rightarrow> nat list \<Rightarrow> nat \<Rightarrow> nat \<times> bool" where
  "in_edge_data s [] in_edge_size = (in_edge_size, False)"
| "in_edge_data s (a # as) in_edge_size =
     (let in_edge_size' = in_edge_size + GetPeerAnchorsSize s a
      in if from_next_iteration s a
         then (if in_edge_size' = 0 then (in_edge_size', True) else in_edge_data s as (in_edge_size' - 1))
         else in_edge_data s as in_edge_size')"

definition GetInEdgeSize :: "('z) node_store_scheme \<Rightarrow> nat \<Rightarrow> nat" where
  "GetInEdgeSize s n =
     (case in_edge_data s (GetAllInDataAnchors s n) 0 of
        (in_edge_size, returned) \<Rightarrow>
          if returned then in_edge_size
          else (case GetInControlAnchor s n of
                  None \<Rightarrow> in_edge_size | Some c \<Rightarrow> in_edge_size + GetPeerAnchorsSize s c))"

definition UINT64_MAX :: nat where "UINT64_MAX = 2 ^ 64 - 1"

definition GetOutEdgeSize :: "('z) node_store_scheme \<Rightarrow> nat \<Rightarrow> nat" where
  "GetOutEdgeSize s n =
     (let out_edge_size =
            (if is_next_iteration (GetType s n) then 0
             else sum_list (map (\<lambda>a. length (GetPeerAnchors s a)) (GetAllOutDataAnchors s n)))
      in case GetOutControlAnchor s n of
           None \<Rightarrow> out_edge_size
         | Some c \<Rightarrow>
             if out_edge_size > UINT64_MAX - length (GetPeerAnchors s c) then 0
             else out_edge_size + length (GetPeerAnchors s c))"

section \<open>The run mode\<close>

text \<open>
  \<^verbatim>\<open>GraphRunMode(strtol(...))\<close>: the enumeration's underlying type is 32-bit unsigned, so the
  number is truncated and compared as such; 1 is \<^verbatim>\<open>TRAIN\<close>.
\<close>

definition run_mode_code :: "string \<Rightarrow> 32 word" where
  "run_mode_code run_mode = word_of_int (strtol run_mode)"

definition TRAIN :: "32 word" where "TRAIN = 1"

definition IsUseBFS :: "string option \<Rightarrow> bool" where
  "IsUseBFS run_mode =
     (case run_mode of
        None \<Rightarrow> False
      | Some r \<Rightarrow> if r = [] then False else run_mode_code r \<ge> TRAIN)"

definition verify_isolated :: "string option \<Rightarrow> bool" where
  "verify_isolated run_mode =
     (case run_mode of
        None \<Rightarrow> False
      | Some r \<Rightarrow> if r = [] then False else run_mode_code r < TRAIN)"

section \<open>The initial worklist\<close>

type_synonym in_edges = "nat \<Rightarrow> 32 word option"

definition is_data_type :: "string \<Rightarrow> bool" where
  "is_data_type t \<longleftrightarrow> t = DATA \<or> t = AIPPDATA \<or> t = INPUT_TYPE \<or> t = ANN_DATA"

text \<open>
  Nodes without input edges: other nodes go to the front of the stack, data nodes right behind
  them, so both groups end up in reverse order. \<^term>\<open>None\<close>: an isolated node was found.
\<close>

fun collect_inputs ::
  "('z) node_store_scheme \<Rightarrow> bool \<Rightarrow> nat list \<Rightarrow> nat \<Rightarrow> nat list \<Rightarrow> in_edges \<Rightarrow> (nat list \<times> in_edges) option" where
  "collect_inputs s verify [] spec_node_size stack m = Some (stack, m)"
| "collect_inputs s verify (n # ns) spec_node_size stack m =
     (if GetOpDesc s n = None then collect_inputs s verify ns spec_node_size stack m
      else
        (let m' = m(n \<mapsto> of_nat (GetInEdgeSize s n))
         in if m' n = Some 0
            then (if \<not> is_data_type (GetType s n)
                  then (if verify \<and> GetOutEdgeSize s n = 0 then None
                        else collect_inputs s verify ns (Suc spec_node_size) (n # stack) m')
                  else collect_inputs s verify ns spec_node_size
                         (take spec_node_size stack @ n # drop spec_node_size stack) m')
            else collect_inputs s verify ns spec_node_size stack m'))"

text \<open>The exchange sort by the user's input order; \<open>inx_i\<close> is not updated after a swap.\<close>

definition order_index :: "string list \<Rightarrow> string \<Rightarrow> nat option" where
  "order_index order name = find_index (\<lambda>x. x = name) order"

definition list_swap :: "nat \<Rightarrow> nat \<Rightarrow> 'a list \<Rightarrow> 'a list" where
  "list_swap i j xs = xs[i := xs ! j, j := xs ! i]"

fun order_inner :: "('z) node_store_scheme \<Rightarrow> string list \<Rightarrow> nat \<Rightarrow> nat \<Rightarrow> nat list \<Rightarrow> nat list \<Rightarrow> nat list" where
  "order_inner s order i inx_i [] stack = stack"
| "order_inner s order i inx_i (j # js) stack =
     (case order_index order (GetName s (stack ! j)) of
        None \<Rightarrow> order_inner s order i inx_i js stack
      | Some inx_j \<Rightarrow>
          order_inner s order i inx_i js (if inx_i < inx_j then list_swap i j stack else stack))"

fun order_outer :: "('z) node_store_scheme \<Rightarrow> string list \<Rightarrow> nat list \<Rightarrow> nat list \<Rightarrow> nat list" where
  "order_outer s order [] stack = stack"
| "order_outer s order (i # is) stack =
     (case order_index order (GetName s (stack ! i)) of
        None \<Rightarrow> order_outer s order is stack
      | Some inx_i \<Rightarrow> order_outer s order is (order_inner s order i inx_i [i+1..<length stack] stack))"

definition inputs_order :: "('z) graph_store_scheme \<Rightarrow> nat \<Rightarrow> string list" where
  "inputs_order s g = (case graphs s g of None \<Rightarrow> [] | Some x \<Rightarrow> g_inputs_order x)"

definition SortNodes :: "('z) graph_store_scheme \<Rightarrow> nat \<Rightarrow> string option \<Rightarrow> (nat list \<times> in_edges) option" where
  "SortNodes s g run_mode =
     (case collect_inputs s (verify_isolated run_mode) (GetDirectNode s g) 0 [] (\<lambda>_. None) of
        None \<Rightarrow> None
      | Some (stack, m) \<Rightarrow> Some (order_outer s (inputs_order s g) [0..<length stack] stack, m))"

section \<open>Counting down the edges\<close>

text \<open>
  For every target anchor the count of its node goes down by one; a node whose count reaches
  zero is ready. A node that is not in the map (another graph's) is passed over.
\<close>

fun relax :: "('z) node_store_scheme \<Rightarrow> nat list \<Rightarrow> in_edges \<Rightarrow> nat list \<Rightarrow> in_edges \<times> nat list" where
  "relax s [] m out_nodes = (m, out_nodes)"
| "relax s (p # ps) m out_nodes =
     (case GetOwnerNode s p of
        None \<Rightarrow> relax s ps m out_nodes
      | Some n \<Rightarrow>
          (case m n of
             None \<Rightarrow> relax s ps m out_nodes
           | Some c \<Rightarrow> relax s ps (m(n \<mapsto> c - 1)) (if c - 1 = 0 then out_nodes @ [n] else out_nodes)))"

text \<open>Depth first: the ready successors of each anchor go on top of the stack.\<close>

definition stack_push :: "bool \<Rightarrow> nat list \<Rightarrow> nat list \<Rightarrow> nat list" where
  "stack_push reverse out_nodes stack = stack @ (if reverse then rev out_nodes else out_nodes)"

fun dfs_anchors :: "('z) node_store_scheme \<Rightarrow> bool \<Rightarrow> nat list \<Rightarrow> in_edges \<times> nat list \<Rightarrow> in_edges \<times> nat list" where
  "dfs_anchors s reverse [] (m, stack) = (m, stack)"
| "dfs_anchors s reverse (a # as) (m, stack) =
     (let (m1, out1) = relax s (OutData_GetPeerInDataAnchors s a) m [];
          (m2, out2) = relax s (OutData_GetPeerInControlAnchors s a) m1 []
      in dfs_anchors s reverse as (m2, stack_push reverse out2 (stack_push reverse out1 stack)))"

definition dfs_control :: "('z) node_store_scheme \<Rightarrow> bool \<Rightarrow> nat \<Rightarrow> in_edges \<times> nat list \<Rightarrow> (in_edges \<times> nat list) option" where
  "dfs_control s reverse node = (\<lambda>(m, stack).
     case GetOutControlAnchor s node of
        None \<Rightarrow> Some (m, stack)
      | Some c \<Rightarrow>
          if None \<in> set (GetPeerAnchors s c) then None
          else (let (m1, out1) = relax s (live_peers s c) m [] in Some (m1, stack_push reverse out1 stack)))"

partial_function (option) dfs_loop ::
  "('z) node_store_scheme \<Rightarrow> bool \<Rightarrow> nat list \<Rightarrow> in_edges \<Rightarrow> nat list \<Rightarrow> (nat list \<times> graphStatus) option" where
  "dfs_loop s reverse stack m node_vec =
     (if stack = [] then Some (node_vec, GRAPH_SUCCESS)
      else
        (let node = last stack; node_vec' = node_vec @ [node]
         in if GetOpDesc s node = None then Some (node_vec', GRAPH_PARAM_INVALID)
            else (case dfs_control s reverse node
                      (dfs_anchors s reverse (GetAllOutDataAnchors s node) (m, butlast stack)) of
                    None \<Rightarrow> Some (node_vec', GRAPH_PARAM_INVALID)
                  | Some (m', stack') \<Rightarrow> dfs_loop s reverse stack' m' node_vec')))"

definition DFSTopologicalSorting ::
  "('z) graph_store_scheme \<Rightarrow> nat \<Rightarrow> string option \<Rightarrow> bool \<Rightarrow> (nat list \<times> graphStatus) option" where
  "DFSTopologicalSorting s g run_mode reverse =
     (case SortNodes s g run_mode of
        None \<Rightarrow> Some ([], GRAPH_FAILED)
      | Some (stack, m) \<Rightarrow> dfs_loop s reverse stack m [])"

text \<open>
  Breadth first: the ready successors are collected in a map keyed by name (an equal name is
  not inserted again) and pushed to the front of the queue in the order of the names. A peer
  of the control anchor that has expired is dereferenced by the code; the model passes it over.
\<close>

fun relax_named ::
  "('z) node_store_scheme \<Rightarrow> nat list \<Rightarrow> in_edges \<Rightarrow> (string \<times> nat) list \<Rightarrow> in_edges \<times> (string \<times> nat) list" where
  "relax_named s [] m breadth = (m, breadth)"
| "relax_named s (p # ps) m breadth =
     (case GetOwnerNode s p of
        None \<Rightarrow> relax_named s ps m breadth
      | Some n \<Rightarrow>
          (case m n of
             None \<Rightarrow> relax_named s ps m breadth
           | Some c \<Rightarrow> relax_named s ps (m(n \<mapsto> c - 1))
                         (if c - 1 = 0 then map_emplace (GetName s n) n breadth else breadth)))"

definition out_targets :: "('z) node_store_scheme \<Rightarrow> nat \<Rightarrow> nat list" where
  "out_targets s node =
     concat (map (\<lambda>a. OutData_GetPeerInDataAnchors s a @ OutData_GetPeerInControlAnchors s a)
       (GetAllOutDataAnchors s node)) @
     (case GetOutControlAnchor s node of None \<Rightarrow> [] | Some c \<Rightarrow> live_peers s c)"

definition CollectBreadthOutNode ::
  "('z) node_store_scheme \<Rightarrow> nat \<Rightarrow> in_edges \<Rightarrow> (string \<times> nat) list \<Rightarrow> in_edges \<times> (string \<times> nat) list" where
  "CollectBreadthOutNode s node m breadth = relax_named s (out_targets s node) m breadth"

partial_function (option) bfs_loop ::
  "('z) node_store_scheme \<Rightarrow> nat list \<Rightarrow> nat list \<Rightarrow> in_edges \<Rightarrow> nat list \<Rightarrow> (nat list \<times> graphStatus) option" where
  "bfs_loop s stack_input stack m node_vec =
     (if stack_input = [] \<and> stack = [] then Some (node_vec, GRAPH_SUCCESS)
      else
        (let (node, stack_input', stack') =
               (if stack \<noteq> [] then (last stack, stack_input, butlast stack)
                else (last stack_input, butlast stack_input, stack));
             node_vec' = node_vec @ [node]
         in if GetOpDesc s node = None then Some (node_vec', GRAPH_PARAM_INVALID)
            else (let (m', breadth) = CollectBreadthOutNode s node m []
                  in bfs_loop s stack_input' (rev (map snd breadth) @ stack') m' node_vec')))"

definition BFSTopologicalSorting ::
  "('z) graph_store_scheme \<Rightarrow> nat \<Rightarrow> string option \<Rightarrow> (nat list \<times> graphStatus) option" where
  "BFSTopologicalSorting s g run_mode =
     (case SortNodes s g run_mode of
        None \<Rightarrow> Some ([], GRAPH_FAILED)
      | Some (stack_input, m) \<Rightarrow> bfs_loop s stack_input [] m [])"

section \<open>Sorting a graph\<close>

fun set_ids :: "int \<Rightarrow> nat list \<Rightarrow> ('z) node_store_scheme \<Rightarrow> ('z) node_store_scheme" where
  "set_ids i [] s = s"
| "set_ids i (n # ns) s = set_ids (i + 1) ns (SetId n i s)"

definition TopologicalSortingGraph ::
  "nat \<Rightarrow> string option \<Rightarrow> bool \<Rightarrow> ('z) graph_store_scheme \<Rightarrow> (('z) graph_store_scheme \<times> graphStatus) option" where
  "TopologicalSortingGraph g run_mode dfs_reverse s =
     Option.bind
       (if IsUseBFS run_mode then BFSTopologicalSorting s g run_mode
        else DFSTopologicalSorting s g run_mode dfs_reverse)
       (\<lambda>(node_vec, st).
          if st \<noteq> GRAPH_SUCCESS then Some (s, GRAPH_FAILED)
          else if length node_vec \<noteq> GetDirectNodesSize s g then Some (s, GRAPH_FAILED)
          else (let s1 = set_ids 0 node_vec (ClearNodeList g s);
                    s2 = fold (PushBackToNodeList g) node_vec s1
                in Some (upd_graph g (g_is_valid_flag_update (\<lambda>_. True)) s2, GRAPH_SUCCESS)))"

text \<open>The graph, then its subgraphs in order, stopping at the first that fails.\<close>

fun sort_graphs ::
  "nat list \<Rightarrow> string option \<Rightarrow> ('z) graph_store_scheme \<Rightarrow> (('z) graph_store_scheme \<times> graphStatus) option" where
  "sort_graphs [] run_mode s = Some (s, GRAPH_SUCCESS)"
| "sort_graphs (g # gs) run_mode s =
     Option.bind (TopologicalSortingGraph g run_mode False s)
       (\<lambda>(s', st). if st \<noteq> GRAPH_SUCCESS then Some (s', st) else sort_graphs gs run_mode s')"

definition TopologicalSorting ::
  "nat \<Rightarrow> string option \<Rightarrow> ('z) graph_store_scheme \<Rightarrow> (('z) graph_store_scheme \<times> graphStatus) option" where
  "TopologicalSorting g run_mode s =
     Option.bind (TopologicalSortingGraph g run_mode False s)
       (\<lambda>(s1, st).
          if st \<noteq> GRAPH_SUCCESS then Some (s1, st)
          else if sub_graphs s1 g = [] then Some (s1, GRAPH_SUCCESS)
          else Option.bind (sort_graphs (sub_graphs s1 g) run_mode s1)
            (\<lambda>(s2, st2).
               if st2 \<noteq> GRAPH_SUCCESS then Some (s2, st2)
               else Option.bind (AllGraphNodes s2 g)
                 (\<lambda>(all_nodes, subgraphs).
                    (let s3 = set_ids 0 all_nodes s2
                     in if length (sub_graphs s3 g) \<noteq> length subgraphs then Some (s3, GRAPH_SUCCESS)
                        else Some (upd_graph g (g_sub_graph_update (\<lambda>_. subgraphs)) s3, GRAPH_SUCCESS)))))"

section \<open>Event nodes\<close>

text \<open>
  \<^verbatim>\<open>ReorderEventNodes\<close> moves a receive node right before the first node it controls and a
  send node right behind the first node that controls it; \<^verbatim>\<open>at(0)\<close> throws when there is
  none. The list loses its element through \<^verbatim>\<open>erase\<close> and regains it through
  \<^verbatim>\<open>insert\<close>, so its counter is not touched. A node that is not found makes
  \<^verbatim>\<open>++src_iter\<close> step past the end of the circular list, to its beginning.
\<close>

definition insert_before :: "nat \<Rightarrow> nat \<Rightarrow> nat list \<Rightarrow> nat list" where
  "insert_before dst n xs =
     (case find_index (\<lambda>m. m = dst) xs of
        None \<Rightarrow> xs @ [n] | Some i \<Rightarrow> take i xs @ n # drop i xs)"

definition insert_after :: "nat \<Rightarrow> nat \<Rightarrow> nat list \<Rightarrow> nat list" where
  "insert_after src n xs =
     (case find_index (\<lambda>m. m = src) xs of
        None \<Rightarrow> n # xs | Some i \<Rightarrow> take (Suc i) xs @ n # drop (Suc i) xs)"

definition reorder_recv :: "('z) node_store_scheme \<Rightarrow> nat \<Rightarrow> nat list \<Rightarrow> nat list option" where
  "reorder_recv s node node_list =
     (if GetType s node = RECV
      then (case GetOutControlNodes s node of
              [] \<Rightarrow> None | dst # _ \<Rightarrow> Some (insert_before dst node (remove1 node node_list)))
      else Some node_list)"

definition reorder_send :: "('z) node_store_scheme \<Rightarrow> nat \<Rightarrow> nat list \<Rightarrow> nat list option" where
  "reorder_send s node node_list =
     (if GetType s node = SEND
      then (case GetInControlNodes s node of
              [] \<Rightarrow> None | src # _ \<Rightarrow> Some (insert_after src node (remove1 node node_list)))
      else Some node_list)"

fun reorder_events :: "('z) node_store_scheme \<Rightarrow> nat list \<Rightarrow> nat list \<Rightarrow> nat list option" where
  "reorder_events s [] node_list = Some node_list"
| "reorder_events s (node # ns) node_list =
     (if GetOpDesc s node = None then reorder_events s ns node_list
      else Option.bind (reorder_recv s node node_list)
        (\<lambda>l1. Option.bind (reorder_send s node l1) (reorder_events s ns)))"

definition ReorderEventNodes :: "nat \<Rightarrow> ('z) graph_store_scheme \<Rightarrow> ('z) graph_store_scheme option" where
  "ReorderEventNodes g s =
     map_option (\<lambda>l. upd_graph g (g_nodes_update (\<lambda>_. l)) s)
       (reorder_events s (GetDirectNode s g) (graph_nodes s g))"

text \<open>\<^verbatim>\<open>InsertEventNodes\<close> renumbers the nodes and drops those without a description.\<close>

fun renumber_nodes :: "nat \<Rightarrow> int \<Rightarrow> nat list \<Rightarrow> ('z) graph_store_scheme \<Rightarrow> ('z) graph_store_scheme" where
  "renumber_nodes g i [] s = s"
| "renumber_nodes g i (n # ns) s =
     renumber_nodes g (i + 1) ns
       (if GetOpDesc s n = None then s else PushBackToNodeList g n (SetId n i s))"

definition InsertEventNodes :: "nat \<Rightarrow> ('z) graph_store_scheme \<Rightarrow> (('z) graph_store_scheme \<times> graphStatus) option" where
  "InsertEventNodes g s =
     map_option (\<lambda>s1. (renumber_nodes g 0 (graph_nodes s1 g) (ClearNodeList g s1), GRAPH_SUCCESS))
       (ReorderEventNodes g s)"

fun reorder_graphs :: "nat list \<Rightarrow> ('z) graph_store_scheme \<Rightarrow> ('z) graph_store_scheme option" where
  "reorder_graphs [] s = Some s"
| "reorder_graphs (g # gs) s = Option.bind (ReorderEventNodes g s) (reorder_graphs gs)"

definition InsertGraphEvents :: "nat \<Rightarrow> ('z) graph_store_scheme \<Rightarrow> (('z) graph_store_scheme \<times> graphStatus) option" where
  "InsertGraphEvents g s =
     Option.bind (ReorderEventNodes g s)
       (\<lambda>s1. Option.bind (reorder_graphs (sub_graphs s1 g) s1)
         (\<lambda>s2. map_option (\<lambda>(all_nodes, _). (set_ids 0 all_nodes s2, GRAPH_SUCCESS)) (AllGraphNodes s2 g)))"

end
