(* ===== verification/ReadySort.thy ===== *)
theory ReadySort
  imports Prelude
begin

text \<open>
  The contract of a worklist that sorts a finite multigraph by counting down incoming edges.
  A state holds the ready elements and the remaining counts; a step takes one ready element
  and releases its edges. Whatever the discipline (stack, queue), the loop ends, yields the
  elements in topological order, and yields all of them exactly when there is no cycle. The
  depth-first and the breadth-first loop of \<^verbatim>\<open>graph/compute_graph.cc\<close> are instances.
\<close>

section \<open>Topological order\<close>

definition edge_rel :: "'n set \<Rightarrow> ('n \<Rightarrow> 'n \<Rightarrow> nat) \<Rightarrow> ('n \<times> 'n) set" where
  "edge_rel V ec = {(x, y). x \<in> V \<and> y \<in> V \<and> 0 < ec x y}"

definition topo_order :: "('n \<times> 'n) set \<Rightarrow> 'n list \<Rightarrow> bool" where
  "topo_order R xs \<longleftrightarrow> (\<forall>i<length xs. \<forall>x. (x, xs ! i) \<in> R \<longrightarrow> x \<in> set (take i xs))"

lemma topo_order_Nil [simp]: "topo_order (edge_rel V ec) []"
  by (simp add: topo_order_def)

lemma topo_order_snoc:
  assumes "topo_order (edge_rel V ec) xs" "\<And>x. (x, y) \<in> edge_rel V ec \<Longrightarrow> x \<in> set xs"
  shows "topo_order (edge_rel V ec) (xs @ [y])"
  using assms by (auto simp: topo_order_def nth_append less_Suc_eq)

text \<open>A topological order of everything rules out cycles; without cycles some element of any
  non-empty part has all its predecessors outside it.\<close>

lemma topo_order_acyclic:
  assumes "topo_order (edge_rel V ec) xs" "set xs = V" "distinct xs"
  shows "acyclic (edge_rel V ec)"
proof -
  define pos where "pos x = (THE i. i < length xs \<and> xs ! i = x)" for x
  have pos: "pos (xs ! i) = i" if "i < length xs" for i
    unfolding pos_def using that assms(3) by (intro the_equality) (auto simp: nth_eq_iff_index_eq)
  have "(x, y) \<in> measure pos" if "(x, y) \<in> edge_rel V ec" for x y
  proof -
    have "y \<in> set xs" using that assms(2) by (simp add: edge_rel_def)
    then obtain j where j: "j < length xs" "xs ! j = y" by (auto simp: in_set_conv_nth)
    then have "x \<in> set (take j xs)" using assms(1) that by (auto simp: topo_order_def)
    then obtain i where "i < j" "xs ! i = x" using j by (auto simp: in_set_conv_nth)
    with j pos show ?thesis by (metis in_measure order.strict_trans)
  qed
  then have "edge_rel V ec \<subseteq> measure pos" by auto
  then show ?thesis using wf_measure wf_subset wf_acyclic by blast
qed

lemma acyclic_has_source:
  assumes "finite V" "acyclic (edge_rel V ec)" "R \<subseteq> V" "R \<noteq> {}"
  obtains y where "y \<in> R" "\<And>x. x \<in> R \<Longrightarrow> ec x y = 0"
proof -
  have "finite (edge_rel V ec)"
    by (rule finite_subset [of _ "V \<times> V"]) (auto simp: edge_rel_def assms(1))
  then have "wf (edge_rel V ec)" using assms(2) by (rule finite_acyclic_wf)
  then obtain y where y: "y \<in> R" "\<And>x. (x, y) \<in> edge_rel V ec \<Longrightarrow> x \<notin> R"
    using assms(4) by (metis wfE_min ex_in_conv)
  have "ec x y = 0" if "x \<in> R" for x
    using y(1) y(2) [of x] that assms(3) by (fastforce simp: edge_rel_def)
  then show thesis by (rule that [OF y(1)])
qed

section \<open>The interface\<close>

locale ready_sort =
  fixes V :: "'n set"
    and ec :: "'n \<Rightarrow> 'n \<Rightarrow> nat"
    and good :: "'st \<Rightarrow> bool"
    and ready :: "'st \<Rightarrow> 'n list"
    and cnt :: "'st \<Rightarrow> 'n \<Rightarrow> nat"
    and pick :: "'st \<Rightarrow> 'n"
    and step :: "'st \<Rightarrow> 'st"
    and loop :: "'st \<Rightarrow> 'n list \<Rightarrow> 'r option"
    and result :: "'n list \<Rightarrow> 'r"
  assumes finite_V: "finite V"
    and pick_ready: "ready st \<noteq> [] \<Longrightarrow> pick st \<in> set (ready st)"
    and loop_done: "ready st = [] \<Longrightarrow> loop st xs = Some (result xs)"
    and loop_step: "good st \<Longrightarrow> ready st \<noteq> [] \<Longrightarrow> pick st \<in> V \<Longrightarrow>
      loop st xs = loop (step st) (xs @ [pick st])"
    and good_step: "good st \<Longrightarrow> ready st \<noteq> [] \<Longrightarrow> pick st \<in> V \<Longrightarrow> good (step st)"
    and cnt_step: "good st \<Longrightarrow> ready st \<noteq> [] \<Longrightarrow> pick st \<in> V \<Longrightarrow>
      (\<And>n. n \<in> V \<Longrightarrow> ec (pick st) n \<le> cnt st n) \<Longrightarrow> n \<in> V \<Longrightarrow>
      cnt (step st) n = cnt st n - ec (pick st) n"
    and ready_step: "good st \<Longrightarrow> ready st \<noteq> [] \<Longrightarrow> pick st \<in> V \<Longrightarrow>
      (\<And>n. n \<in> V \<Longrightarrow> ec (pick st) n \<le> cnt st n) \<Longrightarrow>
      \<exists>new. distinct new \<and> set new = {n \<in> V. 0 < ec (pick st) n \<and> cnt st n = ec (pick st) n} \<and>
        mset (ready (step st)) = mset (ready st) - {#pick st#} + mset new"
begin

definition sort_inv :: "'n list \<Rightarrow> 'st \<Rightarrow> bool" where
  "sort_inv xs st \<longleftrightarrow>
     distinct (xs @ ready st) \<and> set (xs @ ready st) \<subseteq> V \<and>
     (\<forall>n\<in>V. cnt st n = (\<Sum>x\<in>V - set xs. ec x n)) \<and>
     (\<forall>n\<in>V. cnt st n = 0 \<longleftrightarrow> n \<in> set xs \<union> set (ready st)) \<and>
     topo_order (edge_rel V ec) xs"

lemma sort_invD:
  assumes "sort_inv xs st"
  shows "distinct (xs @ ready st)" "set (xs @ ready st) \<subseteq> V"
    "n \<in> V \<Longrightarrow> cnt st n = (\<Sum>x\<in>V - set xs. ec x n)"
    "n \<in> V \<Longrightarrow> cnt st n = 0 \<longleftrightarrow> n \<in> set xs \<union> set (ready st)" "topo_order (edge_rel V ec) xs"
  using assms unfolding sort_inv_def by blast+

lemma cnt_remaining:
  assumes "sort_inv xs st" "n \<in> V" "x \<in> V - set xs"
  shows "ec x n \<le> cnt st n"
    "cnt st n = 0 \<Longrightarrow> ec x n = 0"
proof -
  have f: "finite (V - set xs)" using finite_V by simp
  show "ec x n \<le> cnt st n"
    unfolding sort_invD(3) [OF assms(1,2)] using f assms(3) by (intro member_le_sum) auto
  then show "cnt st n = 0 \<Longrightarrow> ec x n = 0" by simp
qed

lemma sort_inv_step:
  assumes inv: "sort_inv xs st" and g: "good st" and r: "ready st \<noteq> []"
  shows "sort_inv (xs @ [pick st]) (step st)"
proof -
  define x where "x = pick st"
  note D = sort_invD [OF inv]
  have x: "x \<in> set (ready st)" "x \<in> V" "x \<notin> set xs"
    using pick_ready [OF r] D(1,2) by (auto simp: x_def)
  then have xV: "pick st \<in> V" and xr: "x \<in> V - set xs" by (simp_all add: x_def)
  have le: "ec x n \<le> cnt st n" if "n \<in> V" for n
    using cnt_remaining(1) [OF inv that xr] .
  have c: "cnt (step st) n = cnt st n - ec x n" if "n \<in> V" for n
    unfolding x_def by (rule cnt_step [OF g r xV _ that]) (use le x_def in simp)
  obtain new where new: "distinct new" "set new = {n \<in> V. 0 < ec x n \<and> cnt st n = ec x n}"
    "mset (ready (step st)) = mset (ready st) - {#x#} + mset new"
    using ready_step [OF g r xV] le by (auto simp: x_def)
  have new_iff: "n \<in> set new \<longleftrightarrow> n \<in> V \<and> 0 < ec x n \<and> cnt st n = ec x n" for n
    by (simp add: new(2))
  have ready: "mset (ready (step st)) = mset (remove1 x (ready st) @ new)"
    using new(3) x(1) by simp
  then have sr: "set (ready (step st)) = set (remove1 x (ready st)) \<union> set new"
    by (metis mset_eq_setD set_append)
  have x0: "cnt st x = 0" using D(4) [OF x(2)] x(1) by simp
  have fresh: "n \<notin> set xs \<union> set (ready st)" if "n \<in> set new" for n
  proof -
    have "n \<in> V" "cnt st n \<noteq> 0" using that by (simp_all add: new_iff)
    then show ?thesis using D(4) [of n] by simp
  qed
  have sum: "(\<Sum>y\<in>V - set (xs @ [x]). ec y n) = cnt st n - ec x n" if "n \<in> V" for n
  proof -
    have "(\<Sum>y\<in>V - set xs. ec y n) = ec x n + (\<Sum>y\<in>V - set xs - {x}. ec y n)"
      using xr finite_V by (intro sum.remove) auto
    moreover have "V - set (xs @ [x]) = V - set xs - {x}" by auto
    ultimately show ?thesis using D(3) [OF that] by simp
  qed
  show ?thesis
    unfolding sort_inv_def x_def [symmetric]
  proof (intro conjI ballI)
    have "distinct (remove1 x (ready st) @ new)"
      using D(1) new(1) fresh by (auto dest: notin_set_remove1)
    then have d: "distinct (ready (step st))" using ready by (metis mset_eq_imp_distinct_iff)
    have "x \<notin> set (ready (step st))" using sr D(1) x(1) fresh by auto
    moreover have "set xs \<inter> set (ready (step st)) = {}"
      using sr D(1) fresh set_remove1_subset [of x "ready st"] by auto
    ultimately show "distinct ((xs @ [x]) @ ready (step st))" using d D(1) x(3) by auto
    show "set ((xs @ [x]) @ ready (step st)) \<subseteq> V"
      using sr D(2) x(2) new_iff set_remove1_subset [of x "ready st"] by auto
  next
    fix n assume n: "n \<in> V"
    show "cnt (step st) n = (\<Sum>y\<in>V - set (xs @ [x]). ec y n)" using c [OF n] sum [OF n] by simp
    show "cnt (step st) n = 0 \<longleftrightarrow> n \<in> set (xs @ [x]) \<union> set (ready (step st))"
    proof (cases "n \<in> set xs \<union> set (ready st)")
      case True
      then have "cnt (step st) n = 0" using c [OF n] D(4) [OF n] by simp
      moreover have "n \<in> set (xs @ [x]) \<union> set (ready (step st))"
        using True sr by (cases "n = x") auto
      ultimately show ?thesis by simp
    next
      case False
      then have "cnt st n \<noteq> 0" using D(4) [OF n] by simp
      then have "cnt (step st) n = 0 \<longleftrightarrow> n \<in> set new"
        using c [OF n] le [OF n] n by (simp add: new_iff) arith
      moreover have "n \<noteq> x" using False x(1) by auto
      ultimately show ?thesis
        using False sr notin_set_remove1 [of n "ready st" x] by simp
    qed
  next
    show "topo_order (edge_rel V ec) (xs @ [x])"
    proof (rule topo_order_snoc [OF D(5)])
      fix y assume "(y, x) \<in> edge_rel V ec"
      then show "y \<in> set xs"
        using cnt_remaining(2) [OF inv x(2) _ x0, of y] by (auto simp: edge_rel_def)
    qed
  qed
qed

text \<open>When nothing is ready, the sorted elements are all of them exactly without cycles.\<close>

lemma sort_inv_final:
  assumes inv: "sort_inv xs st" and r: "ready st = []"
  shows "length xs = card V \<longleftrightarrow> acyclic (edge_rel V ec)"
proof
  note D = sort_invD [OF inv]
  assume "length xs = card V"
  then have "set xs = V"
    using D(1,2) finite_V by (metis append_Nil2 card_subset_eq distinct_card r)
  then show "acyclic (edge_rel V ec)" using D(1,5) r by (intro topo_order_acyclic) auto
next
  note D = sort_invD [OF inv]
  assume ac: "acyclic (edge_rel V ec)"
  have "V - set xs = {}"
  proof (rule ccontr)
    assume ne: "V - set xs \<noteq> {}"
    obtain y where y: "y \<in> V - set xs" "\<And>x. x \<in> V - set xs \<Longrightarrow> ec x y = 0"
      using acyclic_has_source [OF finite_V ac _ ne] by auto
    then have "cnt st y = 0" using D(3) by simp
    then show False using D(4) [of y] y(1) r by simp
  qed
  then have "set xs = V" using D(2) r by auto
  then show "length xs = card V" using D(1) r by (metis append_Nil2 distinct_card)
qed

text \<open>Total correctness of the loop, from the invariant and from a fresh start.\<close>

lemma loop_sorts:
  assumes "sort_inv xs st" "good st"
  shows "\<exists>ys. loop st xs = Some (result ys) \<and> distinct ys \<and> set ys \<subseteq> V \<and>
    topo_order (edge_rel V ec) ys \<and> (length ys = card V \<longleftrightarrow> acyclic (edge_rel V ec))"
  using assms
proof (induction "card V - length xs" arbitrary: xs st rule: less_induct)
  case less
  note D = sort_invD [OF less.prems(1)]
  show ?case
  proof (cases "ready st = []")
    case True
    with D sort_inv_final [OF less.prems(1)] loop_done [of st xs] show ?thesis
      by (intro exI [of _ xs]) auto
  next
    case False
    have "pick st \<in> V" using pick_ready [OF False] D(2) by auto
    then have eq: "loop st xs = loop (step st) (xs @ [pick st])"
      using loop_step less.prems(2) False by blast
    have "length xs + length (ready st) \<le> card V"
      using D(1,2) finite_V by (metis card_mono distinct_card length_append)
    then have "card V - length (xs @ [pick st]) < card V - length xs"
      using False by (cases "ready st") auto
    from less.hyps [OF this sort_inv_step [OF less.prems False]
        good_step [OF less.prems(2) False \<open>pick st \<in> V\<close>]]
    show ?thesis using eq by simp
  qed
qed

lemma sorts_from_start:
  assumes "good st" "distinct (ready st)" "set (ready st) \<subseteq> V"
    "\<And>n. n \<in> V \<Longrightarrow> cnt st n = (\<Sum>x\<in>V. ec x n)"
    "\<And>n. n \<in> V \<Longrightarrow> cnt st n = 0 \<longleftrightarrow> n \<in> set (ready st)"
  shows "\<exists>ys. loop st [] = Some (result ys) \<and> distinct ys \<and> set ys \<subseteq> V \<and>
    topo_order (edge_rel V ec) ys \<and> (length ys = card V \<longleftrightarrow> acyclic (edge_rel V ec))"
proof (rule loop_sorts)
  show "sort_inv [] st"
    unfolding sort_inv_def
    by (intro conjI ballI) (use assms(2,3,5) in simp_all, use assms(4) in simp)
qed (rule assms(1))

end

end
