(* ===== verification/TopoSort_Loops.thy ===== *)
theory TopoSort_Loops
  imports TopoSort ReadySort
begin

text \<open>
  The depth-first and the breadth-first loop of \<^verbatim>\<open>graph/compute_graph.cc\<close> keep the
  contract of theory ReadySort: counting down over the targets of a node subtracts its edges
  from the counts, and exactly the nodes whose count reaches zero become ready.
\<close>

section \<open>Counting down\<close>

definition hits :: "('z) node_store_scheme \<Rightarrow> nat list \<Rightarrow> nat \<Rightarrow> nat" where
  "hits s ps n = count_list (map (GetOwnerNode s) ps) (Some n)"

lemma hits_simps [simp]:
  "hits s [] n = 0" "hits s (p # ps) n = (if GetOwnerNode s p = Some n then 1 else 0) + hits s ps n"
  "hits s (ps @ qs) n = hits s ps n + hits s qs n"
  by (simp_all add: hits_def)

definition edge_count :: "('z) node_store_scheme \<Rightarrow> nat \<Rightarrow> nat \<Rightarrow> nat" where
  "edge_count s x n = hits s (out_targets s x) n"

definition enough :: "in_edges \<Rightarrow> (nat \<Rightarrow> nat) \<Rightarrow> bool" where
  "enough m h \<longleftrightarrow> (\<forall>n c. m n = Some c \<longrightarrow> h n \<le> unat c)"

lemma enough_Cons:
  assumes "enough m (hits s (p # ps))" "GetOwnerNode s p = Some n" "m n = Some c"
  shows "enough (m(n \<mapsto> c - 1)) (hits s ps)" "unat (c - 1) = unat c - 1" "0 < unat c"
    "hits s ps n \<le> unat c - 1"
proof -
  have "hits s (p # ps) n \<le> unat c" using assms(1,3) unfolding enough_def by blast
  then have le: "Suc (hits s ps n) \<le> unat c" using assms(2) by simp
  then show p: "0 < unat c" "hits s ps n \<le> unat c - 1" by simp_all
  then show u: "unat (c - 1) = unat c - 1"
    by (metis One_nat_def Suc_le_lessD not_gr_zero not_less_zero unat_0 unat_minus_one)
  show "enough (m(n \<mapsto> c - 1)) (hits s ps)"
    unfolding enough_def
  proof (intro allI impI)
    fix k d assume d: "(m(n \<mapsto> c - 1)) k = Some d"
    show "hits s ps k \<le> unat d"
    proof (cases "k = n")
      case True
      then show ?thesis using d p(2) u by simp
    next
      case False
      then have "hits s (p # ps) k \<le> unat d" using d assms(1) by (simp add: enough_def)
      then show ?thesis by simp
    qed
  qed
qed

lemma enough_skip: "enough m (hits s (p # ps)) \<Longrightarrow> enough m (hits s ps)"
  unfolding enough_def by fastforce

text \<open>One target either concerns no node of the map, or takes one off a count.\<close>

lemma relax_skip:
  "Option.bind (GetOwnerNode s p) m = None \<Longrightarrow> relax s (p # ps) m xs = relax s ps m xs"
  by (auto split: option.splits bind_splits)

lemma relax_hit:
  "GetOwnerNode s p = Some n \<Longrightarrow> m n = Some c \<Longrightarrow>
   relax s (p # ps) m xs = relax s ps (m(n \<mapsto> c - 1)) (if c - 1 = 0 then xs @ [n] else xs)"
  by simp

declare relax.simps(2) [simp del]

lemma relax_cases:
  obtains (skip) "Option.bind (GetOwnerNode s p) m = None"
  | (hit) n c where "GetOwnerNode s p = Some n" "m n = Some c"
  by (cases "GetOwnerNode s p"; cases "Option.bind (GetOwnerNode s p) m") auto

lemma relax_out: "relax s ps m xs = (fst (relax s ps m []), xs @ snd (relax s ps m []))"
proof (induction ps arbitrary: m xs)
  case (Cons p ps)
  show ?case
  proof (cases rule: relax_cases [of s p m])
    case skip
    show ?thesis unfolding relax_skip [OF skip] by (rule Cons)
  next
    case (hit n c)
    define m' where "m' = m(n \<mapsto> c - 1)"
    have "relax s (p # ps) m ys = relax s ps m' (if c - 1 = 0 then ys @ [n] else ys)" for ys
      unfolding m'_def by (rule relax_hit [where m = m and n = n and c = c, OF hit])
    then show ?thesis
      using Cons [of m' "xs @ [n]"] Cons [of m' "[n]"] Cons [of m' xs] by simp
  qed
qed simp

lemma relax_append:
  "relax s (ps @ qs) m xs = relax s qs (fst (relax s ps m xs)) (snd (relax s ps m xs))"
proof (induction ps arbitrary: m xs)
  case (Cons p ps)
  show ?case
  proof (cases rule: relax_cases [of s p m])
    case skip
    show ?thesis using Cons relax_skip [OF skip] by (metis append_Cons)
  next
    case (hit n c)
    show ?thesis using Cons relax_hit [where m = m and n = n and c = c, OF hit] by (metis append_Cons)
  qed
qed simp

lemma relax_counts:
  "enough m (hits s ps) \<Longrightarrow>
   fst (relax s ps m xs) k = map_option (\<lambda>c. c - of_nat (hits s ps k)) (m k)"
proof (induction ps arbitrary: m xs)
  case (Cons p ps)
  show ?case
  proof (cases rule: relax_cases [of s p m])
    case skip
    then have "hits s (p # ps) k = hits s ps k" if "m k \<noteq> None" using that by auto
    then show ?thesis
      unfolding relax_skip [OF skip] using Cons.IH [OF enough_skip [OF Cons.prems]]
      by (cases "m k") auto
  next
    case (hit n c)
    show ?thesis
      unfolding relax_hit [where m = m and n = n and c = c, OF hit] Cons.IH [OF enough_Cons(1) [where n = n and c = c, OF Cons.prems hit]]
      using hit by (auto simp: diff_diff_eq)
  qed
qed (simp add: option.map_ident)

definition zeroed :: "('z) node_store_scheme \<Rightarrow> nat list \<Rightarrow> in_edges \<Rightarrow> nat \<Rightarrow> bool" where
  "zeroed s ps m n \<longleftrightarrow> (case m n of None \<Rightarrow> False | Some c \<Rightarrow> 0 < hits s ps n \<and> unat c = hits s ps n)"

lemma relax_ready:
  "enough m (hits s ps) \<Longrightarrow>
   distinct (snd (relax s ps m [])) \<and> (\<forall>k. k \<in> set (snd (relax s ps m [])) \<longleftrightarrow> zeroed s ps m k)"
proof (induction ps arbitrary: m)
  case (Cons p ps)
  show ?case
  proof (cases rule: relax_cases [of s p m])
    case skip
    then have "hits s (p # ps) k = hits s ps k" if "m k \<noteq> None" for k using that by auto
    then have "zeroed s (p # ps) m k = zeroed s ps m k" for k
      by (auto simp: zeroed_def split: option.splits)
    then show ?thesis
      using Cons.IH [OF enough_skip [OF Cons.prems]] relax_skip [OF skip] by simp
  next
    case (hit n c)
    define m' where "m' = m(n \<mapsto> c - 1)"
    note e = enough_Cons [where n = n and c = c, OF Cons.prems hit]
    have IHm: "distinct (snd (relax s ps m' [])) \<and>
        (\<forall>k. k \<in> set (snd (relax s ps m' [])) \<longleftrightarrow> zeroed s ps m' k)"
      by (rule Cons.IH [OF e(1) [folded m'_def]])
    then have IH: "distinct (snd (relax s ps m' []))"
      "k \<in> set (snd (relax s ps m' [])) \<longleftrightarrow> zeroed s ps m' k" for k by simp_all
    have z: "c - 1 = 0 \<longleftrightarrow> unat c = 1"
      by (simp add: word_unat_eq_iff [of c 1])
    have r: "snd (relax s (p # ps) m []) = (if c - 1 = 0 then [n] else []) @ snd (relax s ps m' [])"
      unfolding relax_hit [where m = m and n = n and c = c, OF hit] m'_def [symmetric] using relax_out [of s ps m' "[n]"] by simp
    have zn: "zeroed s (p # ps) m n \<longleftrightarrow> unat c = Suc (hits s ps n)"
      "zeroed s ps m' n \<longleftrightarrow> 0 < hits s ps n \<and> unat c - 1 = hits s ps n"
      using hit e(2) by (simp_all add: zeroed_def m'_def)
    have zk: "zeroed s (p # ps) m k = zeroed s ps m' k" if "k \<noteq> n" for k
    proof -
      have "hits s (p # ps) k = hits s ps k" using that hit by simp
      then show ?thesis
        using that by (simp add: zeroed_def m'_def del: hits_simps split: option.split)
    qed
    have "k \<in> set (snd (relax s (p # ps) m [])) \<longleftrightarrow> zeroed s (p # ps) m k" for k
      using IH(2) [of k] zn zk [of k] z e(3,4) by (cases "k = n") (auto simp: r)
    moreover have "distinct (snd (relax s (p # ps) m []))"
      using IH zn(2) z e(4) by (auto simp: r)
    ultimately show ?thesis by blast
  qed
qed (simp add: zeroed_def split: option.splits)

section \<open>Depth first\<close>

lemma stack_push_mset [simp]: "mset (stack_push reverse xs st) = mset st + mset xs"
  by (simp add: stack_push_def)

definition anchor_targets :: "('z) node_store_scheme \<Rightarrow> nat list \<Rightarrow> nat list" where
  "anchor_targets s as =
     concat (map (\<lambda>a. OutData_GetPeerInDataAnchors s a @ OutData_GetPeerInControlAnchors s a) as)"

lemma dfs_anchors_relax:
  "fst (dfs_anchors s reverse as (m, st)) = fst (relax s (anchor_targets s as) m []) \<and>
   mset (snd (dfs_anchors s reverse as (m, st))) =
     mset st + mset (snd (relax s (anchor_targets s as) m []))"
proof (induction as arbitrary: m st)
  case (Cons a as)
  define m1 where "m1 = fst (relax s (OutData_GetPeerInDataAnchors s a) m [])"
  define o1 where "o1 = snd (relax s (OutData_GetPeerInDataAnchors s a) m [])"
  define m2 where "m2 = fst (relax s (OutData_GetPeerInControlAnchors s a) m1 [])"
  define o2 where "o2 = snd (relax s (OutData_GetPeerInControlAnchors s a) m1 [])"
  have d: "dfs_anchors s reverse (a # as) (m, st) =
      dfs_anchors s reverse as (m2, stack_push reverse o2 (stack_push reverse o1 st))"
    by (simp add: m1_def m2_def o1_def o2_def split: prod.splits)
  have t: "anchor_targets s (a # as) =
      OutData_GetPeerInDataAnchors s a @ OutData_GetPeerInControlAnchors s a @ anchor_targets s as"
    by (simp add: anchor_targets_def)
  have r1: "relax s (OutData_GetPeerInControlAnchors s a) m1 o1 = (m2, o1 @ o2)"
    using relax_out [of s "OutData_GetPeerInControlAnchors s a" m1 o1] by (simp add: m2_def o2_def)
  have "relax s (anchor_targets s (a # as)) m [] = relax s (anchor_targets s as) m2 (o1 @ o2)"
    by (simp add: t relax_append r1 m1_def [symmetric] o1_def [symmetric])
  then have "relax s (anchor_targets s (a # as)) m [] =
      (fst (relax s (anchor_targets s as) m2 []), (o1 @ o2) @ snd (relax s (anchor_targets s as) m2 []))"
    using relax_out [of s "anchor_targets s as" m2 "o1 @ o2"] by simp
  with d Cons [of m2 "stack_push reverse o2 (stack_push reverse o1 st)"] show ?case
    by (simp add: ac_simps)
qed (simp add: anchor_targets_def)

text \<open>What both loops need of the nodes: descriptions and live control targets.\<close>

definition nodes_live :: "('z) node_store_scheme \<Rightarrow> nat list \<Rightarrow> bool" where
  "nodes_live s ns \<longleftrightarrow>
     (\<forall>n\<in>set ns. GetOpDesc s n \<noteq> None \<and>
        (\<forall>c. GetOutControlAnchor s n = Some c \<longrightarrow> None \<notin> set (GetPeerAnchors s c)))"

definition dfs_step :: "('z) node_store_scheme \<Rightarrow> bool \<Rightarrow> in_edges \<times> nat list \<Rightarrow> in_edges \<times> nat list" where
  "dfs_step s reverse = (\<lambda>(m, stack).
     the (dfs_control s reverse (last stack)
       (dfs_anchors s reverse (GetAllOutDataAnchors s (last stack)) (m, butlast stack))))"

lemma dfs_step_relax:
  assumes "nodes_live s ns" "last stack \<in> set ns"
  shows "dfs_control s reverse (last stack)
       (dfs_anchors s reverse (GetAllOutDataAnchors s (last stack)) (m, butlast stack)) =
      Some (dfs_step s reverse (m, stack))"
    "fst (dfs_step s reverse (m, stack)) = fst (relax s (out_targets s (last stack)) m [])"
    "mset (snd (dfs_step s reverse (m, stack))) =
       mset (butlast stack) + mset (snd (relax s (out_targets s (last stack)) m []))"
proof -
  let ?n = "last stack"
  define t where "t = anchor_targets s (GetAllOutDataAnchors s ?n)"
  obtain m1 st1 where d: "dfs_anchors s reverse (GetAllOutDataAnchors s ?n) (m, butlast stack) = (m1, st1)"
    by fastforce
  have d1: "m1 = fst (relax s t m [])" "mset st1 = mset (butlast stack) + mset (snd (relax s t m []))"
    using dfs_anchors_relax [of s reverse "GetAllOutDataAnchors s ?n" m "butlast stack"] d
    by (simp_all add: t_def)
  have out: "out_targets s ?n =
      t @ (case GetOutControlAnchor s ?n of None \<Rightarrow> [] | Some c \<Rightarrow> live_peers s c)"
    by (simp add: out_targets_def t_def anchor_targets_def)
  have ctl: "dfs_control s reverse ?n (m1, st1) =
      Some (case GetOutControlAnchor s ?n of None \<Rightarrow> (m1, st1)
        | Some c \<Rightarrow> (fst (relax s (live_peers s c) m1 []),
            stack_push reverse (snd (relax s (live_peers s c) m1 [])) st1))"
    using assms
    by (auto simp: dfs_control_def nodes_live_def split: option.splits prod.splits)
  then show "dfs_control s reverse ?n
       (dfs_anchors s reverse (GetAllOutDataAnchors s ?n) (m, butlast stack)) =
      Some (dfs_step s reverse (m, stack))"
    by (simp add: dfs_step_def d)
  have "dfs_step s reverse (m, stack) = (case GetOutControlAnchor s ?n of None \<Rightarrow> (m1, st1)
        | Some c \<Rightarrow> (fst (relax s (live_peers s c) m1 []),
            stack_push reverse (snd (relax s (live_peers s c) m1 [])) st1))"
    by (simp add: dfs_step_def d ctl)
  then show "fst (dfs_step s reverse (m, stack)) = fst (relax s (out_targets s ?n) m [])"
    "mset (snd (dfs_step s reverse (m, stack))) =
       mset (butlast stack) + mset (snd (relax s (out_targets s ?n) m []))"
    using relax_out [of s _ m1 "snd (relax s t m [])"]
    by (auto simp: out d1 relax_append split: option.splits)
qed

definition remaining :: "in_edges \<Rightarrow> nat \<Rightarrow> nat" where
  "remaining m n = (case m n of None \<Rightarrow> 0 | Some c \<Rightarrow> unat c)"

lemma remaining_relax:
  assumes "enough m (hits s ps)"
  shows "remaining (fst (relax s ps m [])) n = remaining m n - (if m n = None then 0 else hits s ps n)"
proof (cases "m n")
  case (Some c)
  then have "hits s ps n \<le> unat c" using assms by (simp add: enough_def)
  moreover from this have "unat (of_nat (hits s ps n) :: 32 word) = hits s ps n"
    using order_le_less_trans [OF _ unsigned_less [of c], of "hits s ps n"]
    by (simp add: unsigned_of_nat take_bit_nat_eq_self)
  ultimately have "unat (c - of_nat (hits s ps n)) = unat c - hits s ps n"
    by (simp add: unat_sub word_le_nat_alt)
  with Some show ?thesis by (simp add: remaining_def relax_counts [OF assms])
qed (simp add: remaining_def relax_counts [OF assms])

lemma enough_edge_count:
  "dom m = V \<Longrightarrow> (\<And>n. n \<in> V \<Longrightarrow> edge_count s x n \<le> remaining m n) \<Longrightarrow> enough m (hits s (out_targets s x))"
  by (force simp: enough_def edge_count_def remaining_def split: option.splits)

lemma relax_dom [simp]: "dom (fst (relax s ps m xs)) = dom m"
proof (induction ps arbitrary: m xs)
  case (Cons p ps)
  show ?case
  proof (cases rule: relax_cases [of s p m])
    case skip
    then show ?thesis using Cons relax_skip [OF skip] by metis
  next
    case (hit n c)
    have "dom (m(n \<mapsto> c - 1)) = dom m" using hit by auto
    then show ?thesis
      unfolding relax_hit [where m = m and n = n and c = c, OF hit] by (simp only: Cons.IH)
  qed
qed simp

definition dfs_good :: "('z) node_store_scheme \<Rightarrow> nat list \<Rightarrow> in_edges \<times> nat list \<Rightarrow> bool" where
  "dfs_good s ns = (\<lambda>(m, stack). dom m = set ns \<and> nodes_live s ns)"

lemma relax_new:
  assumes "dom m = V" "\<And>n. n \<in> V \<Longrightarrow> edge_count s x n \<le> remaining m n"
  shows "distinct (snd (relax s (out_targets s x) m []))"
    "set (snd (relax s (out_targets s x) m [])) =
       {n \<in> V. 0 < edge_count s x n \<and> remaining m n = edge_count s x n}"
proof -
  note r = relax_ready [OF enough_edge_count [OF assms]]
  then show "distinct (snd (relax s (out_targets s x) m []))" by blast
  have "zeroed s (out_targets s x) m k \<longleftrightarrow>
      k \<in> V \<and> 0 < edge_count s x k \<and> remaining m k = edge_count s x k" for k
    using assms(1) by (cases "m k") (auto simp: zeroed_def edge_count_def remaining_def)
  with r show "set (snd (relax s (out_targets s x) m [])) =
       {n \<in> V. 0 < edge_count s x n \<and> remaining m n = edge_count s x n}" by blast
qed

interpretation dfs: ready_sort "set ns" "edge_count s" "dfs_good s ns" snd "\<lambda>st. remaining (fst st)"
    "\<lambda>st. last (snd st)" "dfs_step s reverse"
    "\<lambda>st xs. dfs_loop s reverse (snd st) (fst st) xs" "\<lambda>xs. (xs, GRAPH_SUCCESS)"
  for s :: "('z) node_store_scheme" and ns reverse
proof
  fix st :: "in_edges \<times> nat list" and xs
  show "snd st = [] \<Longrightarrow> dfs_loop s reverse (snd st) (fst st) xs = Some (xs, GRAPH_SUCCESS)"
    by (simp add: dfs_loop.simps)
next
  fix st :: "in_edges \<times> nat list" and xs
  assume g: "dfs_good s ns st" "snd st \<noteq> []" "last (snd st) \<in> set ns"
  obtain m stack where st: "st = (m, stack)" by (cases st)
  have l: "nodes_live s ns" "last stack \<in> set ns" using g by (simp_all add: st dfs_good_def)
  show "dfs_loop s reverse (snd st) (fst st) xs =
      dfs_loop s reverse (snd (dfs_step s reverse st)) (fst (dfs_step s reverse st))
        (xs @ [last (snd st)])"
    using g l dfs_step_relax(1) [OF l, of reverse m]
    by (subst dfs_loop.simps) (auto simp: st Let_def nodes_live_def split: prod.splits)
  show "dfs_good s ns (dfs_step s reverse st)"
    using g dfs_step_relax(2) [OF l, of reverse m]
    by (cases "dfs_step s reverse st") (simp add: st dfs_good_def)
  assume le: "\<And>n. n \<in> set ns \<Longrightarrow> edge_count s (last (snd st)) n \<le> remaining (fst st) n"
  have d: "dom m = set ns" using g by (simp add: st dfs_good_def)
  have le': "\<And>n. n \<in> set ns \<Longrightarrow> edge_count s (last stack) n \<le> remaining m n"
    using le by (simp add: st)
  show "remaining (fst (dfs_step s reverse st)) n =
      remaining (fst st) n - edge_count s (last (snd st)) n" if "n \<in> set ns" for n
    using that d remaining_relax [OF enough_edge_count [OF d le']] dfs_step_relax(2) [OF l, of reverse m]
    by (auto simp: st edge_count_def)
  show "\<exists>new. distinct new \<and>
      set new = {n \<in> set ns. 0 < edge_count s (last (snd st)) n \<and>
        remaining (fst st) n = edge_count s (last (snd st)) n} \<and>
      mset (snd (dfs_step s reverse st)) = mset (snd st) - {#last (snd st)#} + mset new"
  proof (intro exI conjI)
    show "distinct (snd (relax s (out_targets s (last stack)) m []))"
      by (rule relax_new(1) [OF d le'])
    show "set (snd (relax s (out_targets s (last stack)) m [])) =
        {n \<in> set ns. 0 < edge_count s (last (snd st)) n \<and>
          remaining (fst st) n = edge_count s (last (snd st)) n}"
      using relax_new(2) [OF d le'] by (simp add: st)
    have "mset stack = add_mset (last stack) (mset (butlast stack))"
      using g(2) by (metis append_butlast_last_id mset.simps(2) snd_conv st union_code
          add_mset_add_single mset_append mset_single_iff_right single_is_union)
    then show "mset (snd (dfs_step s reverse st)) = mset (snd st) - {#last (snd st)#} +
        mset (snd (relax s (out_targets s (last stack)) m []))"
      using dfs_step_relax(3) [OF l, of reverse m] by (simp add: st)
  qed
qed simp_all

section \<open>Breadth first\<close>

text \<open>
  Collecting by name keeps every ready node, as long as no two nodes of the graph share one.
\<close>

lemma relax_named_skip:
  "Option.bind (GetOwnerNode s p) m = None \<Longrightarrow> relax_named s (p # ps) m b = relax_named s ps m b"
  by (auto split: option.splits bind_splits)

lemma relax_named_hit:
  "GetOwnerNode s p = Some n \<Longrightarrow> m n = Some c \<Longrightarrow>
   relax_named s (p # ps) m b = relax_named s ps (m(n \<mapsto> c - 1))
     (if c - 1 = 0 then map_emplace (GetName s n) n b else b)"
  by simp

declare relax_named.simps(2) [simp del]

definition by_name :: "('z) node_store_scheme \<Rightarrow> nat list \<Rightarrow> (string \<times> nat) list \<Rightarrow> (string \<times> nat) list" where
  "by_name s ns b = fold (\<lambda>n. map_emplace (GetName s n) n) ns b"

lemma relax_named_relax:
  "relax_named s ps m b = (fst (relax s ps m []), by_name s (snd (relax s ps m [])) b)"
proof (induction ps arbitrary: m b)
  case (Cons p ps)
  show ?case
  proof (cases rule: relax_cases [of s p m])
    case skip
    show ?thesis unfolding relax_skip [OF skip] relax_named_skip [OF skip] by (rule Cons.IH)
  next
    case (hit n c)
    define m' where "m' = m(n \<mapsto> c - 1)"
    show ?thesis
      unfolding relax_hit [where m = m and n = n and c = c, OF hit]
        relax_named_hit [where m = m and n = n and c = c, OF hit] m'_def [symmetric]
      using Cons.IH [of m'] relax_out [of s ps m' "[n]"] by (simp add: by_name_def)
  qed
qed (simp add: by_name_def)

lemma mset_map_put: "k \<notin> set (map fst b) \<Longrightarrow> mset (map snd (map_put k v b)) = add_mset v (mset (map snd b))"
proof (induction b)
  case (Cons x b)
  then show ?case by (cases x) auto
qed simp

lemma map_emplace_new:
  assumes "k \<notin> set (map fst b)"
  shows "mset (map snd (map_emplace k v b)) = add_mset v (mset (map snd b))"
    "set (map fst (map_emplace k v b)) = insert k (set (map fst b))"
proof -
  have "map_of b k = None" using assms by (simp add: map_of_eq_None_iff)
  then show "mset (map snd (map_emplace k v b)) = add_mset v (mset (map snd b))"
    "set (map fst (map_emplace k v b)) = insert k (set (map fst b))"
    using mset_map_put [OF assms] set_map_put [of k v b] by (simp_all add: map_emplace_def)
qed

lemma by_name_keeps:
  assumes "distinct ns" "inj_on (GetName s) (set ns)" "GetName s ` set ns \<inter> set (map fst b) = {}"
  shows "mset (map snd (by_name s ns b)) = mset ns + mset (map snd b)"
  using assms
proof (induction ns arbitrary: b)
  case (Cons n ns)
  define b' where "b' = map_emplace (GetName s n) n b"
  have k: "GetName s n \<notin> set (map fst b)" using Cons.prems(3) by auto
  note e = map_emplace_new [OF k, of n, folded b'_def]
  have "GetName s ` set ns \<inter> set (map fst b') = {}"
    unfolding e(2) using Cons.prems by (auto simp: inj_on_def)
  then have "mset (map snd (by_name s ns b')) = mset ns + mset (map snd b')"
    using Cons.prems by (intro Cons.IH) (auto simp: inj_on_def)
  moreover have "by_name s (n # ns) b = by_name s ns b'" by (simp add: by_name_def b'_def)
  ultimately show ?case using e(1) by simp
qed (simp add: by_name_def)

type_synonym bfs_state = "in_edges \<times> nat list \<times> nat list"

definition bfs_pick :: "bfs_state \<Rightarrow> nat" where
  "bfs_pick = (\<lambda>(m, stack_input, stack). if stack \<noteq> [] then last stack else last stack_input)"

definition bfs_rest :: "bfs_state \<Rightarrow> nat list \<times> nat list" where
  "bfs_rest = (\<lambda>(m, stack_input, stack).
     if stack \<noteq> [] then (stack_input, butlast stack) else (butlast stack_input, stack))"

definition bfs_step :: "('z) node_store_scheme \<Rightarrow> bfs_state \<Rightarrow> bfs_state" where
  "bfs_step s st =
     (let (m', breadth) = CollectBreadthOutNode s (bfs_pick st) (fst st) [];
          (stack_input', stack') = bfs_rest st
      in (m', stack_input', rev (map snd breadth) @ stack'))"

definition bfs_ready :: "bfs_state \<Rightarrow> nat list" where
  "bfs_ready = (\<lambda>(m, stack_input, stack). stack_input @ stack)"

definition bfs_good :: "('z) node_store_scheme \<Rightarrow> nat list \<Rightarrow> bfs_state \<Rightarrow> bool" where
  "bfs_good s ns st \<longleftrightarrow> dom (fst st) = set ns \<and> nodes_live s ns \<and> inj_on (GetName s) (set ns)"

lemma mset_butlast: "xs \<noteq> [] \<Longrightarrow> mset xs = add_mset (last xs) (mset (butlast xs))"
  by (induction xs rule: rev_induct) auto

lemma bfs_rest_mset:
  assumes "bfs_ready st \<noteq> []"
  shows "mset (bfs_ready st) - {#bfs_pick st#} = mset (fst (bfs_rest st)) + mset (snd (bfs_rest st))"
    "bfs_pick st \<in> set (bfs_ready st)"
  using assms mset_butlast
  by (cases st; force simp: bfs_ready_def bfs_rest_def bfs_pick_def)+

lemma bfs_step_relax:
  "bfs_step s st =
     (fst (relax s (out_targets s (bfs_pick st)) (fst st) []), fst (bfs_rest st),
      rev (map snd (by_name s (snd (relax s (out_targets s (bfs_pick st)) (fst st) [])) [])) @
        snd (bfs_rest st))"
  by (simp add: bfs_step_def CollectBreadthOutNode_def relax_named_relax Let_def split: prod.splits)

interpretation bfs: ready_sort "set ns" "edge_count s" "bfs_good s ns" bfs_ready
    "\<lambda>st. remaining (fst st)" bfs_pick "bfs_step s"
    "\<lambda>(m, stack_input, stack) xs. bfs_loop s stack_input stack m xs" "\<lambda>xs. (xs, GRAPH_SUCCESS)"
  for s :: "('z) node_store_scheme" and ns
proof
  fix st :: bfs_state and xs
  show "bfs_ready st = [] \<Longrightarrow>
      (case st of (m, stack_input, stack) \<Rightarrow> \<lambda>xs. bfs_loop s stack_input stack m xs) xs =
      Some (xs, GRAPH_SUCCESS)"
    by (cases st) (simp add: bfs_ready_def bfs_loop.simps)
  show "bfs_ready st \<noteq> [] \<Longrightarrow> bfs_pick st \<in> set (bfs_ready st)" by (rule bfs_rest_mset)
next
  fix st :: bfs_state and xs
  assume g: "bfs_good s ns st" "bfs_ready st \<noteq> []" "bfs_pick st \<in> set ns"
  obtain m si sk where st: "st = (m, si, sk)" by (cases st)
  have op: "GetOpDesc s (bfs_pick st) \<noteq> None"
    using g by (simp add: bfs_good_def nodes_live_def)
  have unfold: "bfs_loop s si sk m xs =
      (let (m', breadth) = CollectBreadthOutNode s (bfs_pick st) m []
       in bfs_loop s (fst (bfs_rest st)) (rev (map snd breadth) @ snd (bfs_rest st)) m'
            (xs @ [bfs_pick st]))"
    using g(2) op
    by (subst bfs_loop.simps) (auto simp: st bfs_ready_def bfs_pick_def bfs_rest_def Let_def)
  then show "(case st of (m, stack_input, stack) \<Rightarrow> \<lambda>xs. bfs_loop s stack_input stack m xs) xs =
      (case bfs_step s st of (m, stack_input, stack) \<Rightarrow> \<lambda>xs. bfs_loop s stack_input stack m xs)
        (xs @ [bfs_pick st])"
    by (simp add: st bfs_step_def Let_def split: prod.splits)
  show "bfs_good s ns (bfs_step s st)"
    using g by (simp add: bfs_good_def bfs_step_relax)
  assume le: "\<And>n. n \<in> set ns \<Longrightarrow> edge_count s (bfs_pick st) n \<le> remaining (fst st) n"
  have d: "dom (fst st) = set ns" using g by (simp add: bfs_good_def)
  show "remaining (fst (bfs_step s st)) n = remaining (fst st) n - edge_count s (bfs_pick st) n"
    if "n \<in> set ns" for n
    using that d remaining_relax [OF enough_edge_count [OF d le]]
    by (auto simp: bfs_step_relax edge_count_def)
  let ?new = "snd (relax s (out_targets s (bfs_pick st)) (fst st) [])"
  note new = relax_new [OF d le]
  have "mset (map snd (by_name s ?new [])) = mset ?new"
    using new g by (subst by_name_keeps) (auto simp: bfs_good_def intro: inj_on_subset)
  then have "mset (bfs_ready (bfs_step s st)) = mset (bfs_ready st) - {#bfs_pick st#} + mset ?new"
    using bfs_rest_mset(1) [OF g(2)] by (simp add: bfs_step_relax bfs_ready_def)
  with new show "\<exists>new. distinct new \<and>
      set new = {n \<in> set ns. 0 < edge_count s (bfs_pick st) n \<and>
        remaining (fst st) n = edge_count s (bfs_pick st) n} \<and>
      mset (bfs_ready (bfs_step s st)) = mset (bfs_ready st) - {#bfs_pick st#} + mset new"
    by blast
qed simp

end
