(* ===== verification/TopoSort_Correct.thy ===== *)
theory TopoSort_Correct
  imports TopoSort_Loops
begin

text \<open>
  Topological sorting of a well-formed graph: the in-degree the code reads off the input
  anchors is the number of edges from the graph's nodes, the initial worklist holds the nodes
  without predecessors, and so the loops of TopoSort_Loops start from the invariant of
  ReadySort.
\<close>

section \<open>Well-formed nodes\<close>

definition owns :: "('z) node_store_scheme \<Rightarrow> anchor_class \<Rightarrow> nat \<Rightarrow> nat \<Rightarrow> bool" where
  "owns s c n a \<longleftrightarrow> class_of s a = Some c \<and> GetOwnerNode s a = Some n"

definition node_wf :: "('z) node_store_scheme \<Rightarrow> nat \<Rightarrow> bool" where
  "node_wf s n \<longleftrightarrow>
     GetOpDesc s n \<noteq> None \<and>
     distinct (in_data_anchors s n) \<and> distinct (out_data_anchors s n) \<and>
     (\<forall>a. a \<in> set (in_data_anchors s n) \<longleftrightarrow> owns s InDataAnchor n a) \<and>
     (\<forall>a. a \<in> set (out_data_anchors s n) \<longleftrightarrow> owns s OutDataAnchor n a) \<and>
     (\<forall>a. GetInControlAnchor s n = Some a \<longleftrightarrow> owns s InControlAnchor n a) \<and>
     (\<forall>a. GetOutControlAnchor s n = Some a \<longleftrightarrow> owns s OutControlAnchor n a)"

definition in_anchors :: "('z) node_store_scheme \<Rightarrow> nat \<Rightarrow> nat list" where
  "in_anchors s n = in_data_anchors s n @ (case GetInControlAnchor s n of None \<Rightarrow> [] | Some c \<Rightarrow> [c])"

definition out_anchors :: "('z) node_store_scheme \<Rightarrow> nat \<Rightarrow> nat list" where
  "out_anchors s n = out_data_anchors s n @ (case GetOutControlAnchor s n of None \<Rightarrow> [] | Some c \<Rightarrow> [c])"

lemma set_opt_list [simp]: "x \<in> set (case p of None \<Rightarrow> [] | Some c \<Rightarrow> [c]) \<longleftrightarrow> p = Some x"
  by (auto split: option.split)

lemma node_wfD:
  assumes "node_wf s n"
  shows "a \<in> set (in_data_anchors s n) \<longleftrightarrow> owns s InDataAnchor n a"
    "a \<in> set (out_data_anchors s n) \<longleftrightarrow> owns s OutDataAnchor n a"
    "GetInControlAnchor s n = Some a \<longleftrightarrow> owns s InControlAnchor n a"
    "GetOutControlAnchor s n = Some a \<longleftrightarrow> owns s OutControlAnchor n a"
    "distinct (in_data_anchors s n)" "distinct (out_data_anchors s n)" "GetOpDesc s n \<noteq> None"
  using assms unfolding node_wf_def by blast+

lemma in_anchors_iff:
  "node_wf s n \<Longrightarrow> a \<in> set (in_anchors s n) \<longleftrightarrow>
     (\<exists>c. class_of s a = Some c \<and> is_in c) \<and> GetOwnerNode s a = Some n"
  unfolding in_anchors_def set_append Un_iff set_opt_list node_wfD
  by (auto simp: owns_def is_in_def)

lemma out_anchors_iff:
  "node_wf s n \<Longrightarrow> a \<in> set (out_anchors s n) \<longleftrightarrow>
     (\<exists>c. class_of s a = Some c \<and> is_out c) \<and> GetOwnerNode s a = Some n"
  unfolding out_anchors_def set_append Un_iff set_opt_list node_wfD
  by (auto simp: owns_def is_out_def)

lemma distinct_opt_list:
  "distinct (xs @ (case p of None \<Rightarrow> [] | Some c \<Rightarrow> [c])) \<longleftrightarrow> distinct xs \<and> (\<forall>a\<in>set xs. p \<noteq> Some a)"
  by (auto split: option.split)

lemma distinct_anchors:
  assumes "node_wf s n"
  shows "distinct (in_anchors s n)" "distinct (out_anchors s n)"
  unfolding in_anchors_def out_anchors_def distinct_opt_list
  using node_wfD [OF assms] by (auto simp: owns_def)

text \<open>The peers of out-anchors, filtered by class or not, are all of the peers.\<close>

lemma peers_of_class_filter:
  "peers_of_class s t a = filter (\<lambda>p. \<exists>c. class_of s p = Some c \<and> is_type_of c t) (peers s a)"
proof -
  have "List.map_filter (\<lambda>p. DynamicAnchorCast s t (lock s p)) ps =
      filter (\<lambda>p. \<exists>c. class_of s p = Some c \<and> is_type_of c t) ps" for ps
    by (induction ps) (auto simp: DynamicAnchorCast_lock map_filter_simps split: option.split)
  then show ?thesis by (simp add: peers_of_class_def)
qed

lemma out_data_peers:
  assumes "link_inv s" "class_of s a = Some OutDataAnchor"
  shows "mset (OutData_GetPeerInDataAnchors s a) + mset (OutData_GetPeerInControlAnchors s a) =
    mset (peers s a)"
proof -
  define D where "D p \<longleftrightarrow> (\<exists>c. class_of s p = Some c \<and> is_type_of c InDataAnchor)" for p
  have "(\<exists>c. class_of s p = Some c \<and> is_type_of c InControlAnchor) \<longleftrightarrow> \<not> D p" if "p \<in> set (peers s a)" for p
    using link_inv_joinable [OF assms(1) that] assms(2)
    by (auto simp: D_def joinable_def is_in_def is_out_def split: option.splits)
  then have "OutData_GetPeerInControlAnchors s a = filter (\<lambda>p. \<not> D p) (peers s a)"
    unfolding OutData_GetPeerInControlAnchors_def peers_of_class_filter by (rule filter_cong [OF refl])
  moreover have "OutData_GetPeerInDataAnchors s a = filter D (peers s a)"
    unfolding OutData_GetPeerInDataAnchors_def peers_of_class_filter
    by (intro filter_cong refl) (simp add: D_def)
  ultimately show ?thesis by (simp flip: multiset_partition)
qed

lemma GetPeerAnchors_all: "link_inv s \<Longrightarrow> GetPeerAnchors s a = map Some (peers s a)"
  using link_inv_peer_object [of s] by (auto simp: GetPeerAnchors_def lock_object)

lemma live_peers_all: "link_inv s \<Longrightarrow> live_peers s a = peers s a"
  by (simp add: live_peers_def GetPeerAnchors_all map_filter_def comp_def)

lemma out_targets_peers:
  assumes "link_inv s" "node_wf s n"
  shows "mset (out_targets s n) = (\<Sum>a\<leftarrow>out_anchors s n. mset (peers s a))"
proof -
  have "mset (concat (map (\<lambda>a. OutData_GetPeerInDataAnchors s a @ OutData_GetPeerInControlAnchors s a) as)) =
      (\<Sum>a\<leftarrow>as. mset (peers s a))" if "set as \<subseteq> set (out_data_anchors s n)" for as
    using that assms(2) by (induction as) (auto simp: out_data_peers [OF assms(1)] node_wf_def owns_def)
  then show ?thesis
    using live_peers_all [OF assms(1)]
    by (auto simp: out_targets_def out_anchors_def GetAllOutDataAnchors_def split: option.splits)
qed

section \<open>Double counting\<close>

lemma count_by_owner:
  assumes "finite A" "\<And>p. p \<in> set xs \<Longrightarrow> f p = Some n \<longleftrightarrow> p \<in> A"
  shows "count_list (map f xs) (Some n) = (\<Sum>a\<in>A. count_list xs a)"
  using assms(2)
proof (induction xs)
  case (Cons x xs)
  have "(\<Sum>a\<in>A. count_list (x # xs) a) = (\<Sum>a\<in>A. (if x = a then 1 else 0) + count_list xs a)"
    by (intro sum.cong) auto
  also have "\<dots> = (if x \<in> A then 1 else 0) + (\<Sum>a\<in>A. count_list xs a)"
    using assms(1) by (simp add: sum.distrib)
  finally show ?case using Cons by simp
qed simp

lemma hits_out_targets:
  assumes "link_inv s" "node_wf s x"
  shows "edge_count s x n = (\<Sum>b\<leftarrow>out_anchors s x. hits s (peers s b) n)"
proof -
  have h: "hits s ps n = count (image_mset (GetOwnerNode s) (mset ps)) (Some n)" for ps
    by (simp add: hits_def flip: mset_map count_mset)
  have "count (image_mset (GetOwnerNode s) (\<Sum>a\<leftarrow>as. mset (peers s a))) (Some n) =
      (\<Sum>b\<leftarrow>as. hits s (peers s b) n)" for as
    by (induction as) (simp_all add: h)
  then show ?thesis by (simp add: edge_count_def h out_targets_peers [OF assms])
qed

lemma hits_peers:
  assumes "link_inv s" "node_wf s n" "class_of s b = Some c" "is_out c"
  shows "hits s (peers s b) n = (\<Sum>a\<in>set (in_anchors s n). count_list (peers s a) b)"
proof -
  have "GetOwnerNode s p = Some n \<longleftrightarrow> p \<in> set (in_anchors s n)" if "p \<in> set (peers s b)" for p
    using link_inv_joinable [OF assms(1) that] assms(3,4)
    by (auto simp: in_anchors_iff [OF assms(2)] joinable_def is_in_def is_out_def split: option.splits)
  then show ?thesis
    unfolding hits_def by (subst count_by_owner) (auto simp: link_inv_count [OF assms(1), of b])
qed

text \<open>The inputs of the graph come from its own nodes.\<close>

definition closed_inputs :: "('z) node_store_scheme \<Rightarrow> nat set \<Rightarrow> bool" where
  "closed_inputs s V \<longleftrightarrow>
     (\<forall>n\<in>V. \<forall>a\<in>set (in_anchors s n). \<forall>p\<in>set (peers s a). \<exists>x\<in>V. GetOwnerNode s p = Some x)"

theorem sum_edge_count:
  assumes inv: "link_inv s" and wf: "\<And>x. x \<in> V \<Longrightarrow> node_wf s x" and fin: "finite V"
    and cl: "closed_inputs s V" and n: "n \<in> V"
  shows "(\<Sum>x\<in>V. edge_count s x n) = (\<Sum>a\<leftarrow>in_anchors s n. length (peers s a))"
proof -
  let ?I = "set (in_anchors s n)" and ?O = "\<lambda>x. set (out_anchors s x)"
  have e: "edge_count s x n = (\<Sum>b\<in>?O x. \<Sum>a\<in>?I. count_list (peers s a) b)" if "x \<in> V" for x
  proof -
    have "edge_count s x n = (\<Sum>b\<in>?O x. hits s (peers s b) n)"
      unfolding hits_out_targets [OF inv wf [OF that]]
      using distinct_anchors [OF wf [OF that]] by (simp add: sum_list_distinct_conv_sum_set)
    also have "\<dots> = (\<Sum>b\<in>?O x. \<Sum>a\<in>?I. count_list (peers s a) b)"
      using hits_peers [OF inv wf [OF n]] out_anchors_iff [OF wf [OF that]] by (intro sum.cong) auto
    finally show ?thesis .
  qed
  have disj: "?O x \<inter> ?O y = {}" if "x \<in> V" "y \<in> V" "x \<noteq> y" for x y
    using that out_anchors_iff [OF wf [OF that(1)]] out_anchors_iff [OF wf [OF that(2)]] by auto
  have "(\<Sum>x\<in>V. edge_count s x n) = (\<Sum>x\<in>V. \<Sum>b\<in>?O x. \<Sum>a\<in>?I. count_list (peers s a) b)"
    using e by simp
  also have "\<dots> = (\<Sum>b\<in>(\<Union>x\<in>V. ?O x). \<Sum>a\<in>?I. count_list (peers s a) b)"
    using fin disj by (intro sum.UNION_disjoint [symmetric]) auto
  also have "\<dots> = (\<Sum>a\<in>?I. \<Sum>b\<in>(\<Union>x\<in>V. ?O x). count_list (peers s a) b)"
    by (rule sum.swap)
  also have "\<dots> = (\<Sum>a\<in>?I. length (peers s a))"
  proof (rule sum.cong [OF refl], rule sum_count_set)
    fix a assume a: "a \<in> ?I"
    show "set (peers s a) \<subseteq> (\<Union>x\<in>V. ?O x)"
    proof
      fix p assume p: "p \<in> set (peers s a)"
      then obtain x where x: "x \<in> V" "GetOwnerNode s p = Some x"
        using cl n a unfolding closed_inputs_def by metis
      obtain c where "class_of s p = Some c" "is_out c"
        using link_inv_joinable [OF inv p] a in_anchors_iff [OF wf [OF n]]
        by (auto simp: joinable_def is_in_def is_out_def split: option.splits)
      then show "p \<in> (\<Union>x\<in>V. ?O x)" using x out_anchors_iff [OF wf [OF x(1)]] by blast
    qed
  qed (use fin in simp)
  also have "\<dots> = (\<Sum>a\<leftarrow>in_anchors s n. length (peers s a))"
    using distinct_anchors [OF wf [OF n]] by (simp add: sum_list_distinct_conv_sum_set)
  finally show ?thesis .
qed

text \<open>Without back edges the code's in-degree is the number of peers of all input anchors.\<close>

definition no_back_edges :: "('z) node_store_scheme \<Rightarrow> nat set \<Rightarrow> bool" where
  "no_back_edges s V \<longleftrightarrow> (\<forall>n\<in>V. \<forall>a\<in>set (in_data_anchors s n). \<not> from_next_iteration s a)"

lemma in_edge_data_sum:
  "\<forall>a\<in>set as. \<not> from_next_iteration s a \<Longrightarrow>
     in_edge_data s as k = (k + (\<Sum>a\<leftarrow>as. length (peers s a)), False)"
  by (induction as arbitrary: k) (auto simp: Let_def GetPeerAnchorsSize_def)

lemma GetInEdgeSize_sum:
  "no_back_edges s V \<Longrightarrow> n \<in> V \<Longrightarrow> GetInEdgeSize s n = (\<Sum>a\<leftarrow>in_anchors s n. length (peers s a))"
  by (simp add: GetInEdgeSize_def GetAllInDataAnchors_def no_back_edges_def in_edge_data_sum
      in_anchors_def GetPeerAnchorsSize_def split: option.splits)

section \<open>The initial worklist\<close>

lemma mset_list_swap [simp]:
  "i < length xs \<Longrightarrow> j < length xs \<Longrightarrow> mset (list_swap i j xs) = mset xs"
  unfolding list_swap_def by (rule mset_swap)

lemma length_list_swap [simp]: "length (list_swap i j xs) = length xs"
  by (simp add: list_swap_def)

lemma order_inner_mset:
  "i < length st \<Longrightarrow> \<forall>j\<in>set js. j < length st \<Longrightarrow>
     mset (order_inner s order i inx js st) = mset st \<and> length (order_inner s order i inx js st) = length st"
  by (induction js arbitrary: st) (auto split: option.splits)

lemma order_outer_mset:
  "\<forall>i\<in>set is. i < length st \<Longrightarrow> mset (order_outer s order is st) = mset st"
proof (induction "is" arbitrary: st)
  case (Cons i "is")
  show ?case
  proof (cases "order_index order (GetName s (st ! i))")
    case (Some inx)
    let ?st = "order_inner s order i inx [i+1..<length st] st"
    have "mset ?st = mset st" "length ?st = length st"
      using Cons.prems order_inner_mset [of i st "[i+1..<length st]" s order inx] by auto
    then show ?thesis using Some Cons.IH [of ?st] Cons.prems by simp
  qed (use Cons in simp)
qed simp

text \<open>What the run-mode check may object to: a node without any edge that is no data node.\<close>

definition isolated :: "('z) node_store_scheme \<Rightarrow> nat \<Rightarrow> bool" where
  "isolated s n \<longleftrightarrow> (of_nat (GetInEdgeSize s n) :: 32 word) = 0 \<and> \<not> is_data_type (GetType s n) \<and>
     GetOutEdgeSize s n = 0"

lemma collect_inputs_spec:
  assumes "\<forall>n\<in>set ns. GetOpDesc s n \<noteq> None" "k \<le> length st"
  shows "case collect_inputs s v ns k st m of
      None \<Rightarrow> v \<and> (\<exists>n\<in>set ns. isolated s n)
    | Some (st', m') \<Rightarrow> \<not> (v \<and> (\<exists>n\<in>set ns. isolated s n)) \<and>
        mset st' = mset st + mset (filter (\<lambda>n. (of_nat (GetInEdgeSize s n) :: 32 word) = 0) ns) \<and>
        m' = (\<lambda>n. if n \<in> set ns then Some (of_nat (GetInEdgeSize s n)) else m n)"
  using assms
proof (induction ns arbitrary: k st m)
  case (Cons n ns)
  define w :: "32 word" where "w = of_nat (GetInEdgeSize s n)"
  define m' where "m' = m(n \<mapsto> w)"
  have m: "(\<lambda>i. if i \<in> set ns then Some (of_nat (GetInEdgeSize s i)) else m' i) =
      (\<lambda>i. if i \<in> set (n # ns) then Some (of_nat (GetInEdgeSize s i)) else m i)"
    by (rule ext) (auto simp: m'_def w_def)
  have ins: "mset (take k st @ n # drop k st) = add_mset n (mset st)"
    by (rule mset_insert_at)
  have op: "GetOpDesc s n \<noteq> None" "\<forall>n\<in>set ns. GetOpDesc s n \<noteq> None" using Cons.prems by auto
  have eq: "collect_inputs s v (n # ns) k st m =
      (if w \<noteq> 0 then collect_inputs s v ns k st m'
       else if is_data_type (GetType s n)
            then collect_inputs s v ns k (take k st @ n # drop k st) m'
            else if v \<and> GetOutEdgeSize s n = 0 then None
            else collect_inputs s v ns (Suc k) (n # st) m')"
    using op(1) by (auto simp: m'_def w_def Let_def)
  have iso: "isolated s n \<longleftrightarrow> w = 0 \<and> \<not> is_data_type (GetType s n) \<and> GetOutEdgeSize s n = 0"
    by (simp add: isolated_def w_def)
  have filt: "filter (\<lambda>n. (of_nat (GetInEdgeSize s n) :: 32 word) = 0) (n # ns) =
      (if w = 0 then [n] else []) @ filter (\<lambda>n. (of_nat (GetInEdgeSize s n) :: 32 word) = 0) ns"
    by (simp add: w_def)
  note IH = Cons.IH [where m = m', OF op(2)]
  consider "w \<noteq> 0" | "w = 0" "is_data_type (GetType s n)" | "isolated s n" "v"
    | "w = 0" "\<not> is_data_type (GetType s n)" "\<not> (v \<and> isolated s n)"
    using iso by blast
  then show ?case
  proof cases
    case 1
    then have "\<not> isolated s n" using iso by simp
    with 1 show ?thesis
      using IH [OF Cons.prems(2)] unfolding eq filt m [symmetric]
      by (simp split: option.splits prod.splits)
  next
    case 2
    then have "\<not> isolated s n" "k \<le> length (take k st @ n # drop k st)"
      using iso Cons.prems(2) by simp_all
    with 2 show ?thesis
      using IH [of k "take k st @ n # drop k st"] unfolding eq filt m [symmetric] ins
      by (simp split: option.splits prod.splits)
  next
    case 3
    then show ?thesis using iso unfolding eq by simp
  next
    case 4
    then show ?thesis
      using IH [of "Suc k" "n # st"] Cons.prems(2) iso unfolding eq filt m [symmetric]
      by (simp split: option.splits prod.splits)
  qed
qed simp

lemma SortNodes_spec:
  assumes "\<forall>n\<in>set (graph_nodes s g). GetOpDesc s n \<noteq> None"
  shows "case SortNodes s g run_mode of
      None \<Rightarrow> verify_isolated run_mode \<and> (\<exists>n\<in>set (graph_nodes s g). isolated s n)
    | Some (st, m) \<Rightarrow> \<not> (verify_isolated run_mode \<and> (\<exists>n\<in>set (graph_nodes s g). isolated s n)) \<and>
        mset st = mset (filter (\<lambda>n. (of_nat (GetInEdgeSize s n) :: 32 word) = 0) (graph_nodes s g)) \<and>
        m = (\<lambda>n. if n \<in> set (graph_nodes s g) then Some (of_nat (GetInEdgeSize s n)) else None)"
  using collect_inputs_spec [OF assms, of 0 "[]" "verify_isolated run_mode" "\<lambda>_. None"]
  by (auto simp: SortNodes_def GetDirectNode_def order_outer_mset split: option.splits)

section \<open>Starting the loops\<close>

definition graph_ok :: "('z) graph_store_scheme \<Rightarrow> nat \<Rightarrow> bool" where
  "graph_ok s g \<longleftrightarrow>
     link_inv s \<and> distinct (graph_nodes s g) \<and> (\<forall>n\<in>set (graph_nodes s g). node_wf s n) \<and>
     closed_inputs s (set (graph_nodes s g)) \<and> no_back_edges s (set (graph_nodes s g)) \<and>
     (\<forall>n\<in>set (graph_nodes s g). GetInEdgeSize s n < 2 ^ 32)"

text \<open>One node depends on another when an output of the latter is linked to an input of it.\<close>

definition depends :: "('z) graph_store_scheme \<Rightarrow> nat \<Rightarrow> (nat \<times> nat) set" where
  "depends s g = {(x, n). x \<in> set (graph_nodes s g) \<and> n \<in> set (graph_nodes s g) \<and>
     (\<exists>b\<in>set (out_anchors s x). \<exists>a\<in>set (in_anchors s n). a \<in> set (peers s b))}"

lemma depends_edge_rel:
  assumes "graph_ok s g"
  shows "depends s g = edge_rel (set (graph_nodes s g)) (edge_count s)"
proof -
  have inv: "link_inv s" and wf: "x \<in> set (graph_nodes s g) \<Longrightarrow> node_wf s x" for x
    using assms by (simp_all add: graph_ok_def)
  have "0 < edge_count s x n \<longleftrightarrow>
      (\<exists>b\<in>set (out_anchors s x). \<exists>a\<in>set (in_anchors s n). a \<in> set (peers s b))"
    if x: "x \<in> set (graph_nodes s g)" and n: "n \<in> set (graph_nodes s g)" for x n
  proof -
    have "hits s (peers s b) n = (\<Sum>a\<in>set (in_anchors s n). count_list (peers s a) b)"
      if "b \<in> set (out_anchors s x)" for b
      using that hits_peers [OF inv wf [OF n]] out_anchors_iff [OF wf [OF x]] by blast
    then have "0 < edge_count s x n \<longleftrightarrow> (\<exists>b\<in>set (out_anchors s x).
        0 < (\<Sum>a\<in>set (in_anchors s n). count_list (peers s a) b))"
      unfolding hits_out_targets [OF inv wf [OF x]] sum_list_pos_iff by simp
    also have "\<dots> \<longleftrightarrow> (\<exists>b\<in>set (out_anchors s x). \<exists>a\<in>set (in_anchors s n). b \<in> set (peers s a))"
      by (simp add: sum_pos_iff count_list_pos)
    finally show ?thesis using link_inv_sym [OF inv] by blast
  qed
  then show ?thesis by (auto simp: depends_def edge_rel_def)
qed

lemma graph_ok_live: "graph_ok s g \<Longrightarrow> nodes_live s (graph_nodes s g)"
  by (auto simp: graph_ok_def nodes_live_def node_wf_def GetPeerAnchors_all)

lemma unat_small: "k < 2 ^ 32 \<Longrightarrow> unat (of_nat k :: 32 word) = k"
  by (simp add: unsigned_of_nat take_bit_nat_eq_self)

lemma initial_counts:
  assumes "graph_ok s g" "n \<in> set (graph_nodes s g)"
  shows "GetInEdgeSize s n = (\<Sum>x\<in>set (graph_nodes s g). edge_count s x n)"
    "(of_nat (GetInEdgeSize s n) :: 32 word) = 0 \<longleftrightarrow> GetInEdgeSize s n = 0"
proof -
  show "GetInEdgeSize s n = (\<Sum>x\<in>set (graph_nodes s g). edge_count s x n)"
    using assms sum_edge_count [of s "set (graph_nodes s g)" n]
      GetInEdgeSize_sum [of s "set (graph_nodes s g)" n]
    by (auto simp: graph_ok_def)
  have "GetInEdgeSize s n < 2 ^ 32" using assms unfolding graph_ok_def by blast
  then show "(of_nat (GetInEdgeSize s n) :: 32 word) = 0 \<longleftrightarrow> GetInEdgeSize s n = 0"
    unfolding word_unat_eq_iff [of "of_nat (GetInEdgeSize s n) :: 32 word" 0]
    by (simp add: unat_small)
qed

lemma SortNodes_inv:
  assumes ok: "graph_ok s g" and st: "SortNodes s g run_mode = Some (st, m)"
  shows "distinct st \<and> set st \<subseteq> set (graph_nodes s g) \<and>
    (\<forall>n\<in>set (graph_nodes s g). remaining m n = (\<Sum>x\<in>set (graph_nodes s g). edge_count s x n)) \<and>
    (\<forall>n\<in>set (graph_nodes s g). remaining m n = 0 \<longleftrightarrow> n \<in> set st) \<and>
    dom m = set (graph_nodes s g)"
proof -
  have op: "\<forall>n\<in>set (graph_nodes s g). GetOpDesc s n \<noteq> None"
    using ok by (auto simp: graph_ok_def node_wf_def)
  have m: "m = (\<lambda>n. if n \<in> set (graph_nodes s g) then Some (of_nat (GetInEdgeSize s n)) else None)"
    and ms: "mset st = mset (filter (\<lambda>n. (of_nat (GetInEdgeSize s n) :: 32 word) = 0) (graph_nodes s g))"
    using SortNodes_spec [OF op, of run_mode] st by auto
  have rem: "remaining m n = GetInEdgeSize s n" if "n \<in> set (graph_nodes s g)" for n
    using that ok by (simp add: m remaining_def graph_ok_def unat_small)
  have set_st: "set st = {n \<in> set (graph_nodes s g). GetInEdgeSize s n = 0}"
    using mset_eq_setD [OF ms] initial_counts(2) [OF ok] by auto
  have "distinct st"
    using ms ok by (metis distinct_filter graph_ok_def mset_eq_imp_distinct_iff)
  then show ?thesis
    using set_st rem initial_counts(1) [OF ok] by (auto simp: m dom_def)
qed

lemma DFS_sorts:
  assumes ok: "graph_ok s g" and st: "SortNodes s g run_mode = Some (st, m)"
  shows "\<exists>ys. DFSTopologicalSorting s g run_mode reverse = Some (ys, GRAPH_SUCCESS) \<and>
    distinct ys \<and> set ys \<subseteq> set (graph_nodes s g) \<and> topo_order (depends s g) ys \<and>
    (length ys = card (set (graph_nodes s g)) \<longleftrightarrow> acyclic (depends s g))"
proof -
  let ?V = "set (graph_nodes s g)"
  note i = SortNodes_inv [OF ok st]
  have "dfs_good s (graph_nodes s g) (m, st)"
    using i graph_ok_live [OF ok] by (simp add: dfs_good_def)
  from dfs.sorts_from_start [OF this, of reverse] i
  have "\<exists>ys. dfs_loop s reverse st m [] = Some (ys, GRAPH_SUCCESS) \<and> distinct ys \<and>
      set ys \<subseteq> ?V \<and> topo_order (edge_rel ?V (edge_count s)) ys \<and>
      (length ys = card ?V \<longleftrightarrow> acyclic (edge_rel ?V (edge_count s)))"
    unfolding fst_conv snd_conv by blast
  then show ?thesis
    by (simp add: DFSTopologicalSorting_def st depends_edge_rel [OF ok])
qed

lemma BFS_sorts:
  assumes ok: "graph_ok s g" and st: "SortNodes s g run_mode = Some (st, m)"
    and names: "inj_on (GetName s) (set (graph_nodes s g))"
  shows "\<exists>ys. BFSTopologicalSorting s g run_mode = Some (ys, GRAPH_SUCCESS) \<and>
    distinct ys \<and> set ys \<subseteq> set (graph_nodes s g) \<and> topo_order (depends s g) ys \<and>
    (length ys = card (set (graph_nodes s g)) \<longleftrightarrow> acyclic (depends s g))"
proof -
  let ?V = "set (graph_nodes s g)"
  note i = SortNodes_inv [OF ok st]
  have "bfs_good s (graph_nodes s g) (m, st, [])"
    using i graph_ok_live [OF ok] names by (simp add: bfs_good_def)
  moreover have "bfs_ready (m, st, []) = st" by (simp add: bfs_ready_def)
  ultimately have "\<exists>ys. bfs_loop s st [] m [] = Some (ys, GRAPH_SUCCESS) \<and> distinct ys \<and>
      set ys \<subseteq> ?V \<and> topo_order (edge_rel ?V (edge_count s)) ys \<and>
      (length ys = card ?V \<longleftrightarrow> acyclic (edge_rel ?V (edge_count s)))"
    using bfs.sorts_from_start [of s "graph_nodes s g" "(m, st, [])"] i
    unfolding fst_conv prod.case by (metis (no_types, lifting))
  then show ?thesis
    by (simp add: BFSTopologicalSorting_def st depends_edge_rel [OF ok])
qed

section \<open>Installing the order\<close>

lemma graphs_upd_node [simp]: "graphs (upd_node n f s) = graphs s"
  by (simp add: upd_node_def)

lemma graphs_set_ids [simp]: "graphs (set_ids i ns s) = graphs s"
  by (induction ns arbitrary: i s) (simp_all add: SetId_def)

lemma graph_nodes_upd_graph [simp]:
  "graph_nodes (upd_graph g f s) g' =
     (if g' = g then (case graphs s g of None \<Rightarrow> [] | Some x \<Rightarrow> g_nodes (f x)) else graph_nodes s g')"
  by (simp add: graph_nodes_def upd_graph_def split: option.split)

lemma nodes_upd_graph [simp]: "nodes (upd_graph g f s) = nodes s"
  by (simp add: upd_graph_def)

lemma graphs_upd_graph [simp]:
  "graphs (upd_graph g f s) h = (if h = g then map_option f (graphs s g) else graphs s h)"
  by (simp add: upd_graph_def)

lemma push_back_all:
  "graphs (fold (PushBackToNodeList g) ns s) h =
     (if h = g then map_option (\<lambda>x. x\<lparr>g_nodes := g_nodes x @ ns,
        g_direct_nodes_size := g_direct_nodes_size x + length ns\<rparr>) (graphs s g) else graphs s h)"
  "nodes (fold (PushBackToNodeList g) ns s) = nodes s"
proof (induction ns arbitrary: s)
  case Nil
  { case 1 show ?case by (simp add: option.map_ident) }
  { case 2 show ?case by simp }
next
  case (Cons n ns)
  { case 1 show ?case
      unfolding fold.simps comp_apply Cons.IH(1) by (simp add: PushBackToNodeList_def option.map_comp comp_def) }
  { case 2 show ?case
      unfolding fold.simps comp_apply Cons.IH(2) by (simp add: PushBackToNodeList_def) }
qed

definition count_ok :: "('z) graph_store_scheme \<Rightarrow> nat \<Rightarrow> bool" where
  "count_ok s g \<longleftrightarrow> graphs s g \<noteq> None \<and> GetDirectNodesSize s g = length (graph_nodes s g)"

text \<open>The ids written by the final loop are the positions in the order.\<close>

definition op_id_of :: "('z) node_store_scheme \<Rightarrow> nat \<Rightarrow> int option" where
  "op_id_of s n = map_option op_id (GetOpDesc s n)"

lemma op_id_of_SetId:
  "op_id_of (SetId n i s) m = (if m = n \<and> GetOpDesc s n \<noteq> None then Some i else op_id_of s m)"
  by (auto simp: op_id_of_def SetId_def upd_node_def GetOpDesc_def split: option.splits)

lemma GetOpDesc_SetId_None [simp]: "GetOpDesc (SetId n i s) m = None \<longleftrightarrow> GetOpDesc s m = None"
  by (auto simp: SetId_def upd_node_def GetOpDesc_def split: option.splits)

lemma set_ids_other: "m \<notin> set ns \<Longrightarrow> op_id_of (set_ids i ns s) m = op_id_of s m"
  by (induction ns arbitrary: i s) (auto simp: op_id_of_SetId)

lemma set_ids_position:
  "distinct ns \<Longrightarrow> \<forall>n\<in>set ns. GetOpDesc s n \<noteq> None \<Longrightarrow> k < length ns \<Longrightarrow>
     op_id_of (set_ids i ns s) (ns ! k) = Some (i + int k)"
proof (induction ns arbitrary: i s k)
  case (Cons n ns)
  show ?case
  proof (cases k)
    case 0
    then show ?thesis using Cons.prems by (simp add: set_ids_other op_id_of_SetId)
  next
    case (Suc j)
    then show ?thesis using Cons.prems Cons.IH [of "SetId n i s" j "i + 1"] by simp
  qed
qed simp

definition sort_installed :: "nat \<Rightarrow> nat list \<Rightarrow> ('z) graph_store_scheme \<Rightarrow> ('z) graph_store_scheme \<Rightarrow> bool" where
  "sort_installed g ys s t \<longleftrightarrow>
     graph_nodes t g = ys \<and> count_ok t g \<and> is_valid_flag t g \<and>
     (\<forall>k<length ys. op_id_of t (ys ! k) = Some (int k)) \<and>
     (\<forall>h. h \<noteq> g \<longrightarrow> graphs t h = graphs s h) \<and>
     (\<forall>m. m \<notin> set ys \<longrightarrow> op_id_of t m = op_id_of s m)"

lemma op_id_of_cong: "nodes s = nodes t \<Longrightarrow> op_id_of s m = op_id_of t m"
  by (simp add: op_id_of_def GetOpDesc_def)

lemma TopologicalSortingGraph_installs:
  assumes c: "count_ok s g" and ys: "distinct ys" "\<forall>n\<in>set ys. GetOpDesc s n \<noteq> None"
    and sort: "(if IsUseBFS run_mode then BFSTopologicalSorting s g run_mode
        else DFSTopologicalSorting s g run_mode reverse) = Some (ys, GRAPH_SUCCESS)"
  shows "if length ys = length (graph_nodes s g)
    then \<exists>t. TopologicalSortingGraph g run_mode reverse s = Some (t, GRAPH_SUCCESS) \<and>
      sort_installed g ys s t
    else TopologicalSortingGraph g run_mode reverse s = Some (s, GRAPH_FAILED)"
proof (cases "length ys = length (graph_nodes s g)")
  case False
  then show ?thesis using c sort by (simp add: TopologicalSortingGraph_def count_ok_def)
next
  case True
  obtain x where x: "graphs s g = Some x" using c by (auto simp: count_ok_def)
  define s1 where "s1 = set_ids 0 ys (ClearNodeList g s)"
  define s2 where "s2 = fold (PushBackToNodeList g) ys s1"
  define t where "t = upd_graph g (g_is_valid_flag_update (\<lambda>_. True)) s2"
  have s1: "graphs s1 h = (if h = g then Some (x\<lparr>g_nodes := [], g_direct_nodes_size := 0\<rparr>)
      else graphs s h)" for h
    using x by (simp add: s1_def ClearNodeList_def)
  have tg: "graphs t h = (if h = g then Some (x\<lparr>g_nodes := ys, g_direct_nodes_size := length ys,
      g_is_valid_flag := True\<rparr>) else graphs s h)" for h
    by (simp add: t_def s2_def push_back_all s1)
  have tn: "nodes t = nodes s1" by (simp add: t_def s2_def push_back_all)
  have ids: "op_id_of s1 (ys ! k) = Some (int k)" if "k < length ys" for k
    using set_ids_position [of ys "ClearNodeList g s" k 0] that ys
    by (simp add: s1_def GetOpDesc_def ClearNodeList_def)
  have other: "op_id_of s1 m = op_id_of s m" if "m \<notin> set ys" for m
    using that by (simp add: s1_def set_ids_other) (rule op_id_of_cong, simp add: ClearNodeList_def)
  have "TopologicalSortingGraph g run_mode reverse s = Some (t, GRAPH_SUCCESS)"
    using c sort True
    by (simp add: TopologicalSortingGraph_def count_ok_def t_def s2_def s1_def Let_def)
  moreover have "sort_installed g ys s t"
    unfolding sort_installed_def count_ok_def
    using tg ids other op_id_of_cong [OF tn]
    by (simp add: graph_nodes_def GetDirectNodesSize_def is_valid_flag_def)
  ultimately show ?thesis using True by auto
qed

text \<open>Both disciplines, with the isolated-node check.\<close>

lemma TopologicalSortingGraph_sorts:
  assumes "graph_ok s g" and "count_ok s g"
    and "\<not> (verify_isolated run_mode \<and> (\<exists>n\<in>set (graph_nodes s g). isolated s n))"
    and "IsUseBFS run_mode \<Longrightarrow> inj_on (GetName s) (set (graph_nodes s g))"
  shows "if acyclic (depends s g)
    then \<exists>t ys. TopologicalSortingGraph g run_mode reverse s = Some (t, GRAPH_SUCCESS) \<and>
      sort_installed g ys s t \<and> mset ys = mset (graph_nodes s g) \<and> topo_order (depends s g) ys
    else TopologicalSortingGraph g run_mode reverse s = Some (s, GRAPH_FAILED)"
proof -
  let ?V = "set (graph_nodes s g)"
  have op: "\<forall>n\<in>?V. GetOpDesc s n \<noteq> None" and d: "distinct (graph_nodes s g)"
    using assms(1) node_wfD(7) by (auto simp: graph_ok_def)
  then have len: "card ?V = length (graph_nodes s g)" by (simp add: distinct_card)
  obtain st m where "SortNodes s g run_mode = Some (st, m)"
    using SortNodes_spec [OF op, of run_mode] assms(3) by (cases "SortNodes s g run_mode") auto
  from DFS_sorts [OF assms(1) this, of reverse] BFS_sorts [OF assms(1) this] assms(4)
  obtain ys where ys: "(if IsUseBFS run_mode then BFSTopologicalSorting s g run_mode
        else DFSTopologicalSorting s g run_mode reverse) = Some (ys, GRAPH_SUCCESS)"
    "distinct ys" "set ys \<subseteq> ?V" "topo_order (depends s g) ys"
    "length ys = card ?V \<longleftrightarrow> acyclic (depends s g)"
    by (cases "IsUseBFS run_mode") auto
  have inst: "if length ys = length (graph_nodes s g)
    then \<exists>t. TopologicalSortingGraph g run_mode reverse s = Some (t, GRAPH_SUCCESS) \<and> sort_installed g ys s t
    else TopologicalSortingGraph g run_mode reverse s = Some (s, GRAPH_FAILED)"
    using ys op by (intro TopologicalSortingGraph_installs [OF assms(2) ys(2)]) auto
  have "set ys = ?V" if "length ys = card ?V"
    using that ys by (intro card_subset_eq) (simp_all add: distinct_card)
  then have "mset ys = mset (graph_nodes s g)" if "acyclic (depends s g)"
    using that ys(2,5) d by (simp add: set_eq_iff_mset_eq_distinct)
  with inst ys(4,5) len show ?thesis by (cases "acyclic (depends s g)") auto
qed

end
