(* ===== verification/Wiring.thy ===== *)
theory Wiring
  imports GraphRewire TopoSort_Correct
begin

text \<open>
  What the operations on edges leave alone, and the invariant they keep. A store is \<open>wired\<close>
  relative to an earlier one when only peers have changed and the anchor invariant holds; every
  operation of EdgeOps, GraphStore and GraphRewire that changes edges stays within it, provided
  every node object is well-formed. Loops are handled by one rule per sequencing combinator.
\<close>

section \<open>Only peers change\<close>

definition same_frame :: "('z) anchor_store_scheme \<Rightarrow> ('z) anchor_store_scheme \<Rightarrow> bool" where
  "same_frame s t \<longleftrightarrow>
     (\<forall>a. map_option (a_peers_update (\<lambda>_. [])) (anchors t a) = map_option (a_peers_update (\<lambda>_. [])) (anchors s a)) \<and>
     anchor_store.more t = anchor_store.more s"

lemma same_frame_refl [simp]: "same_frame s s"
  by (simp add: same_frame_def)

lemma same_frame_trans: "same_frame s t \<Longrightarrow> same_frame t u \<Longrightarrow> same_frame s u"
  by (simp add: same_frame_def)

lemma same_frame_upd_peers [simp]: "same_frame s (upd_peers f a s)"
  by (simp add: same_frame_def anchors_upd_peers upd_peers_def option.map_comp comp_def)

lemma same_frame_upd_peers_left: "same_frame s t \<Longrightarrow> same_frame s (upd_peers f a t)"
  by (rule same_frame_trans [OF _ same_frame_upd_peers])

lemma same_frame_push [simp]: "same_frame s (push_link a b s)"
  by (simp add: push_link_def same_frame_upd_peers_left)

lemma same_frame_cut [simp]: "same_frame s (cut_link a b s)"
  by (simp add: cut_link_def same_frame_upd_peers_left)

lemma same_frame_anchor:
  assumes "same_frame s t"
  shows "map_option (a_peers_update (\<lambda>_. [])) (anchors t a) = map_option (a_peers_update (\<lambda>_. [])) (anchors s a)"
  using assms by (simp add: same_frame_def)

lemma bare_fields:
  assumes "a_peers_update (\<lambda>_. []) a = a_peers_update (\<lambda>_. []) b"
  shows "a_class a = a_class b" "a_owner a = a_owner b" "a_idx a = a_idx b"
  using arg_cong [OF assms, of a_class] arg_cong [OF assms, of a_owner] arg_cong [OF assms, of a_idx]
  by simp_all

lemma bare_eqD:
  assumes "map_option (a_peers_update (\<lambda>_. [])) x = map_option (a_peers_update (\<lambda>_. [])) y"
  shows "map_option a_class x = map_option a_class y \<and> map_option a_owner x = map_option a_owner y \<and>
   map_option a_idx x = map_option a_idx y \<and> map_option anchor_key x = map_option anchor_key y \<and>
   (x = None \<longleftrightarrow> y = None)"
proof (cases x)
  case None
  then show ?thesis using assms by simp
next
  case (Some a)
  then obtain b where b: "y = Some b" using assms by (cases y) simp_all
  with Some assms have "a_peers_update (\<lambda>_. []) a = a_peers_update (\<lambda>_. []) b" by simp
  note f = bare_fields [OF this]
  show ?thesis unfolding Some b by (simp add: f anchor_key_def)
qed

lemma same_frame_eqs:
  assumes "same_frame s t"
  shows "class_of t = class_of s" "key_of t = key_of s" "GetOwnerNode t = GetOwnerNode s"
    "GetIdx t = GetIdx s" "lock t = lock s" "anchors t a = None \<longleftrightarrow> anchors s a = None"
proof -
  note e = bare_eqD [OF same_frame_anchor [OF assms]]
  show "class_of t = class_of s" using e by (auto simp: class_of_def)
  show "key_of t = key_of s" using e by (auto simp: key_of_def)
  show "GetOwnerNode t = GetOwnerNode s"
  proof
    fix a show "GetOwnerNode t a = GetOwnerNode s a"
      using e [of a] by (cases "anchors s a"; cases "anchors t a") (auto simp: GetOwnerNode_def)
  qed
  show "GetIdx t = GetIdx s"
  proof
    fix a show "GetIdx t a = GetIdx s a"
      using e [of a] by (cases "anchors s a"; cases "anchors t a") (auto simp: GetIdx_def)
  qed
  show "lock t = lock s"
  proof
    fix a show "lock t a = lock s a"
      using e [of a] by (cases "anchors s a"; cases "anchors t a") (auto simp: lock_def)
  qed
  show "anchors t a = None \<longleftrightarrow> anchors s a = None" using e [of a] by simp
qed

lemma same_frame_joinable: "same_frame s t \<Longrightarrow> joinable t = joinable s"
  using same_frame_eqs(1) [of s t] by (intro ext) (simp add: joinable_def)

lemma DynamicAnchorCast_class:
  "DynamicAnchorCast s c p =
     (case p of None \<Rightarrow> None | Some a \<Rightarrow>
        (case class_of s a of None \<Rightarrow> None | Some k \<Rightarrow> if is_type_of k c then Some a else None))"
  by (simp add: DynamicAnchorCast_def class_of_def split: option.splits)

lemma same_frame_cast: "same_frame s t \<Longrightarrow> DynamicAnchorCast t = DynamicAnchorCast s"
  using same_frame_eqs(1) [of s t] by (intro ext) (simp add: DynamicAnchorCast_class cong: option.case_cong)

lemma same_frame_nodes: "same_frame s t \<Longrightarrow> nodes t = nodes s"
  for s t :: "('z) node_store_scheme"
  by (cases s; cases t) (simp add: same_frame_def)

lemma same_frame_addr: "same_frame s t \<Longrightarrow> next_addr t = next_addr s"
  for s t :: "('z) node_store_scheme"
  by (cases s; cases t) (simp add: same_frame_def)

lemma same_frame_graphs: "same_frame s t \<Longrightarrow> graphs t = graphs s"
  for s t :: "('z) graph_store_scheme"
  by (cases s; cases t) (simp add: same_frame_def)

lemma same_frame_members:
  fixes s t :: "('z) node_store_scheme"
  assumes "same_frame s t"
  shows "in_data_anchors t = in_data_anchors s" "out_data_anchors t = out_data_anchors s"
    "GetInControlAnchor t = GetInControlAnchor s" "GetOutControlAnchor t = GetOutControlAnchor s"
    "GetOpDesc t = GetOpDesc s" "GetType t = GetType s" "GetName t = GetName s"
    "GetOwnerComputeGraph t = GetOwnerComputeGraph s"
    "GetInDataAnchor t = GetInDataAnchor s" "GetOutDataAnchor t = GetOutDataAnchor s"
  using same_frame_nodes [OF assms]
  by (auto simp: in_data_anchors_def out_data_anchors_def GetInControlAnchor_def GetOutControlAnchor_def
      GetOpDesc_def GetType_def GetName_def GetOwnerComputeGraph_def GetInDataAnchor_def GetOutDataAnchor_def
      intro!: ext)

lemma same_frame_node_wf: "same_frame s t \<Longrightarrow> node_wf t n = node_wf s n"
  using same_frame_eqs [of s t] same_frame_members [of s t] by (simp add: node_wf_def owns_def)

section \<open>What may happen to a run\<close>

text \<open>
  A run that is \<open>run_ok P\<close> ends in a state with P, by returning or by throwing, or crashes on a
  null pointer; it does not hang. \<open>run_rets P\<close> excludes throwing and crashing as well.
\<close>

definition run_ok :: "('s \<Rightarrow> bool) \<Rightarrow> 's run \<Rightarrow> bool" where
  "run_ok P r = (case r of Ret s st \<Rightarrow> P s | Throw s \<Rightarrow> P s | Crash \<Rightarrow> True | Hang \<Rightarrow> False)"

definition run_rets :: "('s \<Rightarrow> bool) \<Rightarrow> 's run \<Rightarrow> bool" where
  "run_rets P r = (case r of Ret s st \<Rightarrow> P s | _ \<Rightarrow> False)"

lemma run_ok_simps [simp]:
  "run_ok P (Ret s st) = P s" "run_ok P (Throw s) = P s" "run_ok P Crash" "\<not> run_ok P Hang"
  "run_rets P (Ret s st) = P s" "\<not> run_rets P (Throw s)" "\<not> run_rets P Crash" "\<not> run_rets P Hang"
  by (simp_all add: run_ok_def run_rets_def)

lemma run_rets_ok: "run_rets P r \<Longrightarrow> run_ok P r"
  by (cases r) simp_all

lemma run_rets_iff: "run_rets P r \<longleftrightarrow> (\<exists>s st. r = Ret s st \<and> P s)"
  by (cases r) auto

named_theorems wiring \<open>introduction rules for what the sequencing of operations keeps\<close>

lemma run_ok_then [wiring]:
  "run_ok P r \<Longrightarrow> (\<And>s. P s \<Longrightarrow> run_ok P (f s)) \<Longrightarrow> run_ok P (run_then r f)"
  by (cases r) (auto simp: run_then_def)

lemma run_rets_then [wiring]:
  "run_rets P r \<Longrightarrow> (\<And>s. P s \<Longrightarrow> run_rets P (f s)) \<Longrightarrow> run_rets P (run_then r f)"
  by (cases r) (auto simp: run_then_def)

lemma run_ok_each [wiring]:
  "P s \<Longrightarrow> (\<And>x s. x \<in> set xs \<Longrightarrow> P s \<Longrightarrow> run_ok P (f x s)) \<Longrightarrow> run_ok P (run_each f xs s)"
  by (induction xs arbitrary: s) (auto intro!: run_ok_then)

lemma run_rets_each [wiring]:
  "P s \<Longrightarrow> (\<And>x s. x \<in> set xs \<Longrightarrow> P s \<Longrightarrow> run_rets P (f x s)) \<Longrightarrow> run_rets P (run_each f xs s)"
  by (induction xs arbitrary: s) (auto intro!: run_rets_then)

lemma run_ok_lift [wiring]: "P (fst r) \<Longrightarrow> run_ok P (lift_run r)"
  by (cases r) (simp add: lift_run_def)

lemma run_rets_lift [wiring]: "P (fst r) \<Longrightarrow> run_rets P (lift_run r)"
  by (cases r) (simp add: lift_run_def)

lemma run_ok_failed [wiring]: "run_ok P r \<Longrightarrow> run_ok P (run_or_failed r)"
  by (cases r) (simp_all add: run_or_failed_def)

lemma run_rets_failed [wiring]: "run_rets P r \<Longrightarrow> run_rets P (run_or_failed r)"
  by (cases r) (simp_all add: run_or_failed_def)

lemma and_then_keeps [wiring]:
  "P (fst r) \<Longrightarrow> (\<And>s. P s \<Longrightarrow> P (fst (f s))) \<Longrightarrow> P (fst (and_then r f))"
  by (cases r) (simp add: and_then_def)

lemma or_failed_keeps [wiring]: "P (fst r) \<Longrightarrow> P (fst (or_failed r))"
  by simp

lemma each_keeps [wiring]:
  "P s \<Longrightarrow> (\<And>x s. x \<in> set xs \<Longrightarrow> P s \<Longrightarrow> P (fst (f x s))) \<Longrightarrow> P (fst (each f xs s))"
  by (rule each_inv)

lemma fold_keeps [wiring]:
  "P s \<Longrightarrow> (\<And>x s. x \<in> set xs \<Longrightarrow> P s \<Longrightarrow> P (f x s)) \<Longrightarrow> P (fold f xs s)"
  by (induction xs arbitrary: s) auto

section \<open>Wired stores\<close>

definition wired :: "('z) anchor_store_scheme \<Rightarrow> ('z) anchor_store_scheme \<Rightarrow> bool" where
  "wired s0 s \<longleftrightarrow> same_frame s0 s \<and> anchor_inv s"

lemma wired_refl: "anchor_inv s \<Longrightarrow> wired s s"
  by (simp add: wired_def)

lemma wired_inv: "wired s0 s \<Longrightarrow> anchor_inv s \<and> link_inv s"
  by (simp add: wired_def anchor_inv_def)

lemma wired_class [simp]: "wired s0 s \<Longrightarrow> class_of s a = class_of s0 a"
  using same_frame_eqs(1) [of s0 s] by (simp add: wired_def)

lemma wired_trans: "wired s0 s \<Longrightarrow> wired s t \<Longrightarrow> wired s0 t"
  by (auto simp: wired_def intro: same_frame_trans)

lemma Unlink_result:
  assumes "link_inv s"
  shows "Unlink s a p = (s, GRAPH_FAILED) \<or>
     (\<exists>b. p = Some b \<and> b \<in> set (peers s a) \<and> Unlink s a p = (cut_link a b s, GRAPH_SUCCESS))"
proof (cases p)
  case (Some b)
  show ?thesis
  proof (cases "anchors s b")
    case None
    then have "\<not> Equal s b q" for q by (simp add: Equal_def)
    then show ?thesis by (simp add: Some Unlink_def find_index_None [THEN iffD2])
  next
    case (Some x)
    then show ?thesis using Unlink_cases [OF assms, of b a] \<open>p = Some b\<close> by auto
  qed
qed simp

lemma wired_Unlink [wiring]: "wired s0 s \<Longrightarrow> wired s0 (fst (Unlink s a p))"
  using Unlink_result [of s a p]
  by (auto simp: wired_def anchor_inv_def link_inv_cut_link single_source_cut_link
      intro: same_frame_trans)

lemma wired_RemoveEdge [wiring]:
  assumes "wired s0 s"
  shows "wired s0 (fst (RemoveEdge_data a p s))" "wired s0 (fst (RemoveEdge_any a p s))"
    "wired s0 (fst (RemoveEdge_control a p s))" "wired s0 (fst (RemoveEdge_data_control a p s))"
  using assms by (auto simp: remove_defs wired_Unlink split: option.split)

lemma same_frame_cut_front: "same_frame s (ls.cut_front a bs s)"
  by (induction bs arbitrary: s) (auto intro: same_frame_trans [OF same_frame_cut])

lemma wired_UnlinkAll:
  assumes "wired s0 s"
  shows "UnlinkAll s a = Some (ls.cut_front a (peers s a) s)" "wired s0 (ls.cut_front a (peers s a) s)"
proof -
  note i = wired_inv [OF assms]
  show "UnlinkAll s a = Some (ls.cut_front a (peers s a) s)" using i by (simp add: UnlinkAll_eq)
  show "wired s0 (ls.cut_front a (peers s a) s)"
    using assms i ls.cut_front_inv [of s a "peers s a"] single_source_cut_front [of s a "peers s a"]
      same_frame_trans [OF _ same_frame_cut_front]
    by (auto simp: wired_def anchor_inv_def)
qed

lemma wired_run_unlink_all [wiring]: "wired s0 s \<Longrightarrow> run_rets (wired s0) (run_unlink_all a s)"
  by (simp add: run_unlink_all_def wired_UnlinkAll)

lemma wired_link:
  assumes "wired s0 s"
  shows "class_of s0 a = Some OutDataAnchor \<Longrightarrow> class_of s0 b = Some InDataAnchor \<Longrightarrow>
      wired s0 (fst (OutData_LinkTo_InData s a (Some b)))"
    "class_of s0 a = Some OutDataAnchor \<Longrightarrow> class_of s0 b = Some InControlAnchor \<Longrightarrow>
      wired s0 (fst (OutData_LinkTo_InControl s a (Some b)))"
    "class_of s0 a = Some OutControlAnchor \<Longrightarrow> class_of s0 b = Some InDataAnchor \<Longrightarrow>
      wired s0 (fst (OutControl_LinkTo_InData s a (Some b)))"
    "class_of s0 a = Some OutControlAnchor \<Longrightarrow> class_of s0 b = Some InControlAnchor \<Longrightarrow>
      wired s0 (fst (OutControl_LinkTo_InControl s a (Some b)))"
    "class_of s0 a = Some InDataAnchor \<Longrightarrow> class_of s0 b = Some OutDataAnchor \<Longrightarrow>
      wired s0 (fst (InData_LinkFrom s a (Some b)))"
proof -
  have p: "same_frame s0 (push_link x y s)" for x y
    using assms by (auto simp: wired_def intro: same_frame_trans)
  have c: "class_of s = class_of s0" using assms by (auto simp: wired_def same_frame_eqs)
  note i = anchor_inv_link_ops [OF wired_inv [OF assms, THEN conjunct1]]
  show "class_of s0 a = Some OutDataAnchor \<Longrightarrow> class_of s0 b = Some InDataAnchor \<Longrightarrow>
      wired s0 (fst (OutData_LinkTo_InData s a (Some b)))"
    using i(2) [of a b] p assms by (auto simp: wired_def c link_op_defs)
  show "class_of s0 a = Some OutDataAnchor \<Longrightarrow> class_of s0 b = Some InControlAnchor \<Longrightarrow>
      wired s0 (fst (OutData_LinkTo_InControl s a (Some b)))"
    using i(3) [of a b] p assms by (auto simp: wired_def c link_op_defs)
  show "class_of s0 a = Some OutControlAnchor \<Longrightarrow> class_of s0 b = Some InDataAnchor \<Longrightarrow>
      wired s0 (fst (OutControl_LinkTo_InData s a (Some b)))"
    using i(4) [of a b] p assms by (auto simp: wired_def c link_op_defs)
  show "class_of s0 a = Some OutControlAnchor \<Longrightarrow> class_of s0 b = Some InControlAnchor \<Longrightarrow>
      wired s0 (fst (OutControl_LinkTo_InControl s a (Some b)))"
    using i(5) [of a b] p assms by (auto simp: wired_def c link_op_defs)
  show "class_of s0 a = Some InDataAnchor \<Longrightarrow> class_of s0 b = Some OutDataAnchor \<Longrightarrow>
      wired s0 (fst (InData_LinkFrom s a (Some b)))"
    using i(1) [of a b] p assms by (auto simp: wired_def c link_op_defs)
qed

text \<open>The edge operations on pointers, whose static types are the classes of what they point to.\<close>

definition typed_ptr :: "('z) anchor_store_scheme \<Rightarrow> anchor_class \<Rightarrow> ptr \<Rightarrow> bool" where
  "typed_ptr s c p \<longleftrightarrow> (\<forall>a. p = Some a \<longrightarrow> class_of s a = Some c)"

lemma typed_ptr_simps [simp]: "typed_ptr s c None" "typed_ptr s c (Some a) \<longleftrightarrow> class_of s a = Some c"
  by (simp_all add: typed_ptr_def)

lemma link_null [simp]:
  "OutData_LinkTo_InData s a None = (s, GRAPH_FAILED)" "OutData_LinkTo_InControl s a None = (s, GRAPH_FAILED)"
  "OutControl_LinkTo_InData s a None = (s, GRAPH_FAILED)" "OutControl_LinkTo_InControl s a None = (s, GRAPH_FAILED)"
  "InData_LinkFrom s a None = (s, GRAPH_FAILED)"
  by (simp_all add: link_op_defs)

lemma wired_AddEdge [wiring]:
  assumes "wired s0 s"
  shows "typed_ptr s0 OutDataAnchor p \<Longrightarrow> typed_ptr s0 InDataAnchor q \<Longrightarrow> wired s0 (fst (AddEdge_data p q s))"
    "typed_ptr s0 OutControlAnchor p \<Longrightarrow> typed_ptr s0 InControlAnchor q \<Longrightarrow> wired s0 (fst (AddEdge_control p q s))"
    "typed_ptr s0 OutDataAnchor p \<Longrightarrow> typed_ptr s0 InControlAnchor q \<Longrightarrow> wired s0 (fst (AddEdge_data_control p q s))"
  using assms by (cases p; cases q; simp add: add_defs wired_link)+

lemma wired_AddEdge_any [wiring]:
  assumes "wired s0 s"
  shows "wired s0 (fst (AddEdge_any p q s))"
proof (cases "\<exists>a b c d. p = Some a \<and> q = Some b \<and> class_of s0 a = Some c \<and> class_of s0 b = Some d")
  case True
  then obtain a b c d where e: "p = Some a" "q = Some b" "class_of s a = Some c" "class_of s b = Some d"
      "class_of s0 a = Some c" "class_of s0 b = Some d"
    using assms by auto
  show ?thesis
    unfolding e(1,2) AddEdge_any_classes [OF e(3,4)] using assms e(5,6) by (simp add: wired_link)
next
  case False
  then have "(\<forall>k. DynamicAnchorCast s k p = None) \<or> (\<forall>k. DynamicAnchorCast s k q = None)"
    using assms by (cases p; cases q) (auto simp: DynamicAnchorCast_class split: option.splits)
  then have "AddEdge_any p q s = (s, GRAPH_FAILED)"
    by (auto simp: AddEdge_any_def try_link_def Let_def split: option.split)
  then show ?thesis using assms by simp
qed

section \<open>The anchors that nodes and peers give\<close>

definition nodes_wf :: "('z) node_store_scheme \<Rightarrow> bool" where
  "nodes_wf s \<longleftrightarrow> (\<forall>n. nodes s n \<noteq> None \<longrightarrow> node_wf s n)"

named_theorems typed \<open>the classes of the anchors that queries return\<close>

lemma wired_members:
  assumes "wired s0 s"
  shows "in_data_anchors s = in_data_anchors s0" "out_data_anchors s = out_data_anchors s0"
    "GetInControlAnchor s = GetInControlAnchor s0" "GetOutControlAnchor s = GetOutControlAnchor s0"
    "GetAllInDataAnchors s = GetAllInDataAnchors s0" "GetAllOutDataAnchors s = GetAllOutDataAnchors s0"
    "GetInDataAnchor s = GetInDataAnchor s0" "GetOutDataAnchor s = GetOutDataAnchor s0"
    "GetOwnerNode s = GetOwnerNode s0" "nodes s = nodes s0"
  using assms same_frame_members [of s0 s] same_frame_eqs [of s0 s] same_frame_nodes [of s0 s]
  by (auto simp: wired_def GetAllInDataAnchors_def GetAllOutDataAnchors_def intro!: ext)

lemma node_member_typed [typed]:
  assumes "nodes_wf s"
  shows "a \<in> set (in_data_anchors s n) \<Longrightarrow> class_of s a = Some InDataAnchor"
    "a \<in> set (out_data_anchors s n) \<Longrightarrow> class_of s a = Some OutDataAnchor"
    "a \<in> set (in_data_anchors s n) \<Longrightarrow> GetOwnerNode s a = Some n"
    "a \<in> set (out_data_anchors s n) \<Longrightarrow> GetOwnerNode s a = Some n"
proof -
  have n: "nodes s n \<noteq> None" if "a \<in> set (in_data_anchors s n) \<or> a \<in> set (out_data_anchors s n)"
    using that by (cases "nodes s n") (simp_all add: in_data_anchors_def out_data_anchors_def)
  show "a \<in> set (in_data_anchors s n) \<Longrightarrow> class_of s a = Some InDataAnchor"
      "a \<in> set (in_data_anchors s n) \<Longrightarrow> GetOwnerNode s a = Some n"
    using assms n node_wfD(1) [of s n a] by (auto simp: nodes_wf_def owns_def)
  show "a \<in> set (out_data_anchors s n) \<Longrightarrow> class_of s a = Some OutDataAnchor"
      "a \<in> set (out_data_anchors s n) \<Longrightarrow> GetOwnerNode s a = Some n"
    using assms n node_wfD(2) [of s n a] by (auto simp: nodes_wf_def owns_def)
qed

lemma node_control_typed [typed]:
  assumes "nodes_wf s"
  shows "typed_ptr s InControlAnchor (GetInControlAnchor s n)"
    "typed_ptr s OutControlAnchor (GetOutControlAnchor s n)"
    "GetInControlAnchor s n = Some a \<Longrightarrow> class_of s a = Some InControlAnchor \<and> GetOwnerNode s a = Some n"
    "GetOutControlAnchor s n = Some a \<Longrightarrow> class_of s a = Some OutControlAnchor \<and> GetOwnerNode s a = Some n"
proof -
  have i: "class_of s a = Some InControlAnchor \<and> GetOwnerNode s a = Some n" if "GetInControlAnchor s n = Some a" for a
  proof -
    have "nodes s n \<noteq> None" using that by (cases "nodes s n") (simp_all add: GetInControlAnchor_def)
    then have "node_wf s n" using assms by (simp add: nodes_wf_def)
    from node_wfD(3) [OF this, of a] that show ?thesis by (simp add: owns_def)
  qed
  have o: "class_of s a = Some OutControlAnchor \<and> GetOwnerNode s a = Some n" if "GetOutControlAnchor s n = Some a" for a
  proof -
    have "nodes s n \<noteq> None" using that by (cases "nodes s n") (simp_all add: GetOutControlAnchor_def)
    then have "node_wf s n" using assms by (simp add: nodes_wf_def)
    from node_wfD(4) [OF this, of a] that show ?thesis by (simp add: owns_def)
  qed
  show "typed_ptr s InControlAnchor (GetInControlAnchor s n)"
    "typed_ptr s OutControlAnchor (GetOutControlAnchor s n)"
    "GetInControlAnchor s n = Some a \<Longrightarrow> class_of s a = Some InControlAnchor \<and> GetOwnerNode s a = Some n"
    "GetOutControlAnchor s n = Some a \<Longrightarrow> class_of s a = Some OutControlAnchor \<and> GetOwnerNode s a = Some n"
    using i o by (auto simp: typed_ptr_def)
qed

lemma node_data_typed [typed]:
  assumes "nodes_wf s"
  shows "typed_ptr s InDataAnchor (GetInDataAnchor s n i)" "typed_ptr s OutDataAnchor (GetOutDataAnchor s n i)"
proof -
  have "nat i < length (in_data_anchors s n)" if "\<not> (i < 0 \<or> int (length (in_data_anchors s n)) \<le> i)"
    using that by auto
  then show "typed_ptr s InDataAnchor (GetInDataAnchor s n i)"
    using node_member_typed(1) [OF assms, OF nth_mem] by (auto simp: typed_ptr_def GetInDataAnchor_def)
  have "nat i < length (out_data_anchors s n)" if "\<not> (i < 0 \<or> int (length (out_data_anchors s n)) \<le> i)"
    using that by auto
  then show "typed_ptr s OutDataAnchor (GetOutDataAnchor s n i)"
    using node_member_typed(2) [OF assms, OF nth_mem] by (auto simp: typed_ptr_def GetOutDataAnchor_def)
qed

lemma is_type_of_concrete:
  "is_type_of c InDataAnchor \<longleftrightarrow> c = InDataAnchor" "is_type_of c OutDataAnchor \<longleftrightarrow> c = OutDataAnchor"
  "is_type_of c InControlAnchor \<longleftrightarrow> c = InControlAnchor" "is_type_of c OutControlAnchor \<longleftrightarrow> c = OutControlAnchor"
  by (cases c; simp)+

lemma peers_typed [typed]:
  "p \<in> set (OutData_GetPeerInDataAnchors s a) \<longleftrightarrow> p \<in> set (peers s a) \<and> class_of s p = Some InDataAnchor"
  "p \<in> set (OutData_GetPeerInControlAnchors s a) \<longleftrightarrow> p \<in> set (peers s a) \<and> class_of s p = Some InControlAnchor"
  "p \<in> set (OutControl_GetPeerInControlAnchors s a) \<longleftrightarrow> p \<in> set (peers s a) \<and> class_of s p = Some InControlAnchor"
  "p \<in> set (OutControl_GetPeerInDataAnchors s a) \<longleftrightarrow> p \<in> set (peers s a) \<and> class_of s p = Some InDataAnchor"
  "p \<in> set (InControl_GetPeerOutControlAnchors s a) \<longleftrightarrow> p \<in> set (peers s a) \<and> class_of s p = Some OutControlAnchor"
  "p \<in> set (InControl_GetPeerOutDataAnchors s a) \<longleftrightarrow> p \<in> set (peers s a) \<and> class_of s p = Some OutDataAnchor"
  by (auto simp: OutData_GetPeerInDataAnchors_def OutData_GetPeerInControlAnchors_def
      OutControl_GetPeerInControlAnchors_def OutControl_GetPeerInDataAnchors_def
      InControl_GetPeerOutControlAnchors_def InControl_GetPeerOutDataAnchors_def
      peers_of_class_filter is_type_of_concrete)

lemma GetPeerOutAnchor_typed [typed]:
  "GetPeerOutAnchor s a = Some p \<Longrightarrow> p \<in> set (peers s a) \<and> class_of s p = Some OutDataAnchor"
  by (cases "peers s a")
    (auto simp: GetPeerOutAnchor_def DynamicAnchorCast_lock is_type_of_concrete split: option.splits if_splits)

end
