(* ===== verification/Isolate.thy ===== *)
theory Isolate
  imports Wiring
begin

text \<open>
  What \<^verbatim>\<open>GraphUtils::IsolateNode\<close> guarantees: it returns, it cuts every link of the
  node and no other one, and every predecessor stays connected to every successor, by a data
  edge where the map of inputs to outputs gives one and by a control edge otherwise.
\<close>

section \<open>Links that do not involve the node\<close>

definition keeps :: "nat \<Rightarrow> ('z) anchor_store_scheme \<Rightarrow> ('z) anchor_store_scheme \<Rightarrow> bool" where
  "keeps n s t \<longleftrightarrow>
     (\<forall>a b. GetOwnerNode s a \<noteq> Some n \<longrightarrow> GetOwnerNode s b \<noteq> Some n \<longrightarrow>
        b \<in> set (peers s a) \<longrightarrow> b \<in> set (peers t a))"

lemma keeps_refl [simp]: "keeps n s s"
  by (simp add: keeps_def)

lemma keeps_trans: "keeps n s t \<Longrightarrow> GetOwnerNode t = GetOwnerNode s \<Longrightarrow> keeps n t u \<Longrightarrow> keeps n s u"
  by (simp add: keeps_def)

lemma keeps_push: "joinable s a b \<Longrightarrow> keeps n s (push_link a b s)"
  by (auto simp: keeps_def peers_push_link)

lemma keeps_cut:
  assumes "link_inv s" "b \<in> set (peers s a)" "GetOwnerNode s a = Some n \<or> GetOwnerNode s b = Some n"
  shows "keeps n s (cut_link a b s)"
  using assms by (auto simp: keeps_def ls.peers_cut intro!: in_set_remove1 [THEN iffD2])

lemma keeps_cut_front:
  "link_inv s \<Longrightarrow> GetOwnerNode s a = Some n \<Longrightarrow> keeps n s (ls.cut_front a (peers s a) s)"
  by (auto simp: keeps_def ls.cut_front_peers)

lemma keeps_Unlink:
  assumes "link_inv s" "GetOwnerNode s a = Some n \<or> (\<exists>b. p = Some b \<and> GetOwnerNode s b = Some n)"
  shows "keeps n s (fst (Unlink s a p))"
  using Unlink_result [OF assms(1), of a p] assms keeps_cut by fastforce

lemma keeps_LinkFrom:
  assumes "link_inv s" "joinable s a b"
  shows "keeps n s (fst (InData_LinkFrom s a (Some b)))"
  using keeps_push [OF assms(2), of n] by (simp add: InData_LinkFrom_def)

section \<open>The recorded data edges\<close>

definition feeds :: "('z) anchor_store_scheme \<Rightarrow> ptr \<Rightarrow> ptr \<Rightarrow> bool" where
  "feeds s x y \<longleftrightarrow>
     (\<exists>a b. GetOwnerNode s a = x \<and> GetOwnerNode s b = y \<and> class_of s a = Some OutDataAnchor \<and>
        b \<in> set (peers s a))"

definition tracked :: "nat \<Rightarrow> io_pairs \<Rightarrow> ('z) anchor_store_scheme \<Rightarrow> bool" where
  "tracked n io s \<longleftrightarrow> (\<forall>x y. (x, y) \<in> set io \<longrightarrow> x \<noteq> Some n \<longrightarrow> y \<noteq> Some n \<longrightarrow> feeds s x y)"

definition isolating :: "nat \<Rightarrow> ('z) anchor_store_scheme \<Rightarrow> ('z) anchor_store_scheme \<times> io_pairs \<Rightarrow> bool" where
  "isolating n s0 = (\<lambda>(s, io). wired s0 s \<and> keeps n s0 s \<and> tracked n io s)"

lemma wired_owner: "wired s0 s \<Longrightarrow> GetOwnerNode s = GetOwnerNode s0"
  using same_frame_eqs(3) [of s0 s] by (simp add: wired_def)

lemma wired_joinable: "wired s0 s \<Longrightarrow> joinable s = joinable s0"
  using same_frame_joinable [of s0 s] by (simp add: wired_def)

lemma wired_classes: "wired s0 s \<Longrightarrow> class_of s = class_of s0"
  by (rule ext) simp

lemma tracked_keeps:
  assumes "tracked n io s" "keeps n s t" "wired s0 s" "wired s0 t"
  shows "tracked n io t"
  unfolding tracked_def
proof (intro allI impI)
  fix x y
  assume n: "(x, y) \<in> set io" "x \<noteq> Some n" "y \<noteq> Some n"
  then obtain a b where ab: "GetOwnerNode s a = x" "GetOwnerNode s b = y"
      "class_of s a = Some OutDataAnchor" "b \<in> set (peers s a)"
    using assms(1) unfolding tracked_def feeds_def by blast
  have "b \<in> set (peers t a)" using assms(2) ab n(2,3) unfolding keeps_def by blast
  moreover have "GetOwnerNode t = GetOwnerNode s" "class_of t = class_of s"
    using assms(3,4) by (simp_all add: wired_owner wired_classes)
  ultimately show "feeds t x y" using ab unfolding feeds_def by auto
qed

lemma isolating_step:
  assumes "isolating n s0 (s, io)" "wired s0 t" "keeps n s t"
  shows "isolating n s0 (t, io)"
  using assms tracked_keeps [of n io s t s0] keeps_trans [of n s0 s t]
  by (auto simp: isolating_def wired_owner)

lemma isolating_Unlink:
  assumes "isolating n s0 (s, io)"
    and "GetOwnerNode s0 a = Some n \<or> (\<exists>b. p = Some b \<and> GetOwnerNode s0 b = Some n)"
  shows "isolating n s0 (fst (Unlink s a p), io)"
proof -
  have w: "wired s0 s" using assms(1) by (simp add: isolating_def)
  have "keeps n s (fst (Unlink s a p))"
    using assms(2) wired_inv [OF w] wired_owner [OF w] by (intro keeps_Unlink) simp_all
  then show ?thesis using isolating_step [OF assms(1)] wired_Unlink [OF w] by blast
qed

lemma isolating_relink_one:
  assumes i: "isolating n s0 (s, io)"
    and c: "class_of s0 peer = Some InDataAnchor" "class_of s0 new_out = Some OutDataAnchor"
    and o: "GetOwnerNode s0 old_out = Some n"
  shows "isolating n s0 (fst (relink_one new_out old_out peer (s, io)))"
proof -
  obtain s1 st1 where 1: "Unlink s peer (Some old_out) = (s1, st1)" by fastforce
  have i1: "isolating n s0 (s1, io)"
    using isolating_Unlink [OF i, of peer "Some old_out"] o 1 by simp
  then have w1: "wired s0 s1" by (simp add: isolating_def)
  obtain s2 st2 where 2: "InData_LinkFrom s1 peer (Some new_out) = (s2, st2)" by fastforce
  have j: "joinable s1 peer new_out"
    using c w1 by (simp add: joinable_def is_in_def is_out_def)
  have w2: "wired s0 s2" using wired_link(5) [OF w1, of peer new_out] c 2 by simp
  have k2: "keeps n s1 s2" using keeps_LinkFrom [OF conjunct2 [OF wired_inv [OF w1]] j, of n] 2 by simp
  have i2: "isolating n s0 (s2, io)" by (rule isolating_step [OF i1 w2 k2])
  have "feeds s2 (GetOwnerNode s2 new_out) (GetOwnerNode s2 peer)" if "st2 = GRAPH_SUCCESS"
  proof -
    have "s2 = push_link peer new_out s1"
      using 2 that by (simp add: InData_LinkFrom_def split: if_splits)
    then have "peer \<in> set (peers s2 new_out)" using joinable_neq [OF j] by (simp add: peers_push_link [OF j])
    moreover have "class_of s2 new_out = Some OutDataAnchor" using w2 c by simp
    ultimately show ?thesis unfolding feeds_def by blast
  qed
  with i2 have "isolating n s0 (s2, io @ [(GetOwnerNode s2 new_out, GetOwnerNode s2 peer)])"
    if "st2 = GRAPH_SUCCESS"
    using that by (auto simp: isolating_def tracked_def)
  with i1 i2 show ?thesis by (simp add: relink_one_def 1 2)
qed

lemma isolating_ReplaceOutDataAnchor:
  assumes i: "isolating n s0 (s, io)"
    and c: "class_of s0 new_out = Some OutDataAnchor" and o: "GetOwnerNode s0 old_out = Some n"
  shows "isolating n s0 (fst (ReplaceOutDataAnchor (Some new_out) (Some old_out) (s, io)))"
proof -
  have w: "wired s0 s" using i by (simp add: isolating_def)
  show ?thesis
    unfolding ReplaceOutDataAnchor_def option.case prod.case
  proof (rule each_keeps [where P = "isolating n s0", OF i])
    fix peer sio
    assume "peer \<in> set (OutData_GetPeerInDataAnchors (fst (s, io)) old_out)" "isolating n s0 sio"
    then show "isolating n s0 (fst (relink_one new_out old_out peer sio))"
      using c o w by (cases sio) (simp add: isolating_relink_one peers_typed)
  qed
qed

lemma isolating_UnlinkAll:
  assumes i: "isolating n s0 (s, io)" and o: "GetOwnerNode s0 a = Some n"
  shows "isolating n s0 (ls.cut_front a (peers s a) s, io)"
proof -
  have w: "wired s0 s" using i by (simp add: isolating_def)
  show ?thesis
    using wired_UnlinkAll(2) [OF w, of a] keeps_cut_front [of s a n] wired_inv [OF w] o wired_owner [OF w]
    by (intro isolating_step [OF i]) simp_all
qed

lemma isolating_relink_output:
  assumes i: "isolating n s0 sio" and k: "k < length outs"
    and outs: "\<forall>a\<in>set outs. GetOwnerNode s0 a = Some n"
    and ins: "\<forall>a\<in>set ins. GetOwnerNode s0 a = Some n"
  shows "run_rets (isolating n s0) (relink_output ins outs io_map k sio)"
proof -
  obtain s io where sio: "sio = (s, io)" by fastforce
  have isl: "isolating n s0 (s, io)" using i sio by simp
  then have w: "wired s0 s" by (simp add: isolating_def)
  have o: "GetOwnerNode s0 (outs ! k) = Some n" using outs k by simp
  define idx where "idx = (if k < length io_map then io_map ! k else -1)"
  consider "idx < 0" | "idx \<ge> int (length ins)" "\<not> idx < 0" | "\<not> idx < 0" "\<not> idx \<ge> int (length ins)" by blast
  then show ?thesis
  proof cases
    case 1
    then show ?thesis
      using isolating_UnlinkAll [OF isl o] wired_UnlinkAll(1) [OF w, of "outs ! k"]
      by (simp add: relink_output_def sio Let_def idx_def)
  next
    case 2
    then show ?thesis using isl by (simp add: relink_output_def sio Let_def idx_def)
  next
    case 3
    then have "nat idx < length ins" by auto
    then have oi: "GetOwnerNode s0 (ins ! nat idx) = Some n" using ins by simp
    show ?thesis
    proof (cases "GetPeerOutAnchor s (ins ! nat idx)")
      case None
      then show ?thesis using 3 isl by (simp add: relink_output_def sio Let_def idx_def [symmetric])
    next
      case (Some peer_out)
      obtain s1 st where u: "Unlink s peer_out (Some (ins ! nat idx)) = (s1, st)" by fastforce
      have i1: "isolating n s0 (s1, io)"
        using isolating_Unlink [OF isl, of peer_out "Some (ins ! nat idx)"] oi u by simp
      have c: "class_of s0 peer_out = Some OutDataAnchor"
        using GetPeerOutAnchor_typed [OF Some] w by simp
      have "isolating n s0 (fst (ReplaceOutDataAnchor (Some peer_out) (Some (outs ! k)) (s1, io)))"
        by (rule isolating_ReplaceOutDataAnchor [OF i1 c o])
      then have "run_rets (isolating n s0)
          (run_or_failed (lift_run (ReplaceOutDataAnchor (Some peer_out) (Some (outs ! k)) (s1, io))))"
        by (intro run_rets_failed run_rets_lift)
      then show ?thesis
        using 3 i1 by (simp add: relink_output_def sio Let_def idx_def [symmetric] Some u)
    qed
  qed
qed

lemma isolating_run_unlink:
  assumes "isolating n s0 (s, io)" "GetOwnerNode s0 a = Some n"
  shows "run_rets (\<lambda>s. isolating n s0 (s, io)) (run_unlink_all a s)"
proof -
  have w: "wired s0 s" using assms by (simp add: isolating_def)
  show ?thesis using wired_UnlinkAll(1) [OF w, of a] isolating_UnlinkAll [OF assms]
    by (simp add: run_unlink_all_def)
qed

lemma isolating_RelinkDataIO:
  assumes wf: "nodes_wf s" and inv: "anchor_inv s"
  shows "run_rets (isolating n s) (RelinkDataIO (Some n) io_map (s, []))"
proof -
  have i0: "isolating n s (s, [])"
    using inv by (simp add: isolating_def wired_refl tracked_def)
  have outs: "\<forall>a\<in>set (GetAllOutDataAnchors s n). GetOwnerNode s a = Some n"
    and ins: "\<forall>a\<in>set (GetAllInDataAnchors s n). GetOwnerNode s a = Some n"
    using node_member_typed(3,4) [OF wf] by (simp_all add: GetAllOutDataAnchors_def GetAllInDataAnchors_def)
  have loop: "run_rets (isolating n s)
      (run_each (relink_output (GetAllInDataAnchors s n) (GetAllOutDataAnchors s n) io_map)
        [0..<length (GetAllOutDataAnchors s n)] (s, []))"
    using i0 by (rule run_rets_each) (simp add: isolating_relink_output outs ins)
  have tail: "run_rets (isolating n s)
      (case run_each run_unlink_all (GetAllInDataAnchors s1 n) s1 of
         Ret s2 st \<Rightarrow> Ret (s2, io1) st | Throw s2 \<Rightarrow> Throw (s2, io1) | Crash \<Rightarrow> Crash | Hang \<Rightarrow> Hang)"
    if i1: "isolating n s (s1, io1)" for s1 io1
  proof -
    have "GetAllInDataAnchors s1 = GetAllInDataAnchors s"
      using i1 by (simp add: isolating_def wired_members)
    then have "run_rets (\<lambda>s1. isolating n s (s1, io1)) (run_each run_unlink_all (GetAllInDataAnchors s1 n) s1)"
      using ins i1 by (intro run_rets_each isolating_run_unlink) simp_all
    then show ?thesis by (auto simp: run_rets_iff)
  qed
  show ?thesis
    using i0 unfolding RelinkDataIO_def
    by (auto simp: Let_def intro!: run_rets_then [OF loop] tail)
qed

section \<open>The control edges\<close>

definition grows :: "('z) anchor_store_scheme \<Rightarrow> ('z) anchor_store_scheme \<Rightarrow> bool" where
  "grows s t \<longleftrightarrow> (\<forall>a b. b \<in> set (peers s a) \<longrightarrow> b \<in> set (peers t a))"

lemma grows_refl [simp]: "grows s s"
  by (simp add: grows_def)

lemma grows_keeps: "grows s t \<Longrightarrow> keeps n s t"
  by (simp add: grows_def keeps_def)

definition ctrl_linked :: "('z) node_store_scheme \<Rightarrow> nat \<Rightarrow> nat \<Rightarrow> bool" where
  "ctrl_linked s x y \<longleftrightarrow>
     (\<exists>c d. GetOutControlAnchor s x = Some c \<and> GetInControlAnchor s y = Some d \<and> d \<in> set (peers s c))"

definition settled :: "io_pairs \<Rightarrow> ('z) node_store_scheme \<Rightarrow> nat \<Rightarrow> nat \<Rightarrow> bool" where
  "settled io s x y \<longleftrightarrow> x = y \<or> (Some x, Some y) \<in> set io \<or> ctrl_linked s x y"

lemma settled_grows:
  assumes "settled io s x y" "grows s t" "wired s0 s" "wired s0 t"
  shows "settled io t x y"
  using assms wired_members(3,4) [OF assms(3)] wired_members(3,4) [OF assms(4)]
  by (auto simp: settled_def ctrl_linked_def grows_def)

lemma IsLinkedWith_iff:
  assumes "link_inv s" "anchors s d \<noteq> None"
  shows "IsLinkedWith s c (Some d) \<longleftrightarrow> d \<in> set (peers s c)"
  using Equal_find [OF link_inv_ident [OF assms(1)] assms(2)]
  by (simp add: IsLinkedWith_def find_index_None)

lemma relink_control_step:
  assumes w: "wired s0 s" and wf: "nodes_wf s0"
  shows "wired s0 (fst (relink_control io x y s)) \<and> grows s (fst (relink_control io x y s)) \<and>
    (snd (relink_control io x y s) = GRAPH_SUCCESS \<longrightarrow> settled io (fst (relink_control io x y s)) x y)"
proof (cases "(Some x, Some y) \<in> set io \<or> GetOutControlAnchor s x = None")
  case True
  then show ?thesis using w by (auto simp: relink_control_def settled_def)
next
  case False
  then obtain c where c: "GetOutControlAnchor s x = Some c" and io: "(Some x, Some y) \<notin> set io" by auto
  have cc: "class_of s0 c = Some OutControlAnchor"
    using node_control_typed(4) [OF wf, of x c] c wired_members(4) [OF w] by simp
  show ?thesis
  proof (cases "GetInControlAnchor s y")
    case None
    have "\<not> IsLinkedWith s c None"
      by (simp add: IsLinkedWith_def find_index_None [THEN iffD2])
    then show ?thesis using c io w None
      by (auto simp: relink_control_def settled_def add_defs)
  next
    case (Some d)
    have cd: "class_of s0 d = Some InControlAnchor"
      using node_control_typed(3) [OF wf, of y d] Some wired_members(3) [OF w] by simp
    then have "class_of s d = Some InControlAnchor" using w by simp
    then have d: "anchors s d \<noteq> None" by (auto simp: class_of_def)
    note l = IsLinkedWith_iff [OF conjunct2 [OF wired_inv [OF w]] d, of c]
    have j: "joinable s c d"
      using cc cd by (simp add: wired_joinable [OF w] joinable_def is_in_def is_out_def)
    have add: "AddEdge_control (Some c) (Some d) s = (push_link c d s, GRAPH_SUCCESS)"
      by (simp add: add_defs link_op_defs)
    have g: "grows s (push_link c d s)" "d \<in> set (peers (push_link c d s) c)"
      using joinable_neq [OF j] by (auto simp: grows_def peers_push_link [OF j])
    have wp: "wired s0 (push_link c d s)"
      using wired_AddEdge(2) [OF w, of "Some c" "Some d"] cc cd add by simp
    have m: "GetOutControlAnchor (push_link c d s) = GetOutControlAnchor s"
        "GetInControlAnchor (push_link c d s) = GetInControlAnchor s"
      using wired_members(3,4) [OF w] wired_members(3,4) [OF wp] by simp_all
    show ?thesis
      using c io Some l add g wp w m by (auto simp: relink_control_def settled_def ctrl_linked_def)
  qed
qed

lemma RelinkControlNodeIfNeed_settles:
  fixes io :: io_pairs and ins outs :: "nat list"
  assumes w: "wired s0 s" and wf: "nodes_wf s0"
  defines "r \<equiv> RelinkControlNodeIfNeed (ins, outs) io s"
  shows "wired s0 (fst r) \<and> grows s (fst r) \<and>
    (snd r = GRAPH_SUCCESS \<longrightarrow> (\<forall>x\<in>set ins. \<forall>y\<in>set outs. settled io (fst r) x y))"
proof -
  define P where "P u \<longleftrightarrow> wired s0 u \<and> grows s u" for u
  have grow: "grows s u \<Longrightarrow> grows u v \<Longrightarrow> grows s v" for u v by (simp add: grows_def)
  have inner: "P u \<Longrightarrow> P (fst (relink_control io x y u))" for x y u
    using relink_control_step [OF _ wf, of u io x y] grow unfolding P_def by blast
  have settle: "P u \<Longrightarrow> snd (relink_control io x y u) = GRAPH_SUCCESS \<Longrightarrow>
      settled io (fst (relink_control io x y u)) x y" for x y u
    using relink_control_step [OF _ wf, of u io x y] unfolding P_def by blast
  have stay: "P u \<Longrightarrow> settled io u x y \<Longrightarrow> settled io (fst (relink_control io x z u)) x y" for x y z u
    using relink_control_step [OF _ wf, of u io x z] settled_grows [of io u x y _ s0] unfolding P_def by blast
  have outer: "P u \<Longrightarrow> P (fst (each (relink_control io x) outs u)) \<and> grows u (fst (each (relink_control io x) outs u))" for x u
  proof -
    assume u: "P u"
    have "P (fst (each (relink_control io x) outs u)) \<and> grows u (fst (each (relink_control io x) outs u))"
      by (rule each_keeps [where P = "\<lambda>v. P v \<and> grows u v"])
        (use u inner relink_control_step [OF _ wf] in \<open>auto simp: P_def grows_def\<close>)
    then show ?thesis .
  qed
  have "P (fst r)"
    unfolding r_def RelinkControlNodeIfNeed_def fst_conv snd_conv
    by (rule each_keeps [where P = P]) (use w outer in \<open>auto simp: P_def\<close>)
  moreover have "\<forall>x\<in>set ins. \<forall>y\<in>set outs. settled io (fst r) x y" if "snd r = GRAPH_SUCCESS"
  proof -
    have "P (fst r) \<and> (\<forall>x\<in>set ins. \<forall>y\<in>set outs. settled io (fst r) x y) \<and>
        (\<forall>x. (\<forall>y\<in>set outs. settled io s x y) \<longrightarrow> (\<forall>y\<in>set outs. settled io (fst r) x y))"
      unfolding r_def RelinkControlNodeIfNeed_def fst_conv snd_conv
    proof (rule each_all [where Q = "\<lambda>x u. \<forall>y\<in>set outs. settled io u x y"])
      show "snd (each (\<lambda>in_node. each (relink_control io in_node) outs) ins s) = GRAPH_SUCCESS"
        using that by (simp add: r_def RelinkControlNodeIfNeed_def)
      show "P s" using w by (simp add: P_def)
      fix x u assume u: "P u" "snd (each (relink_control io x) outs u) = GRAPH_SUCCESS"
      have "P (fst (each (relink_control io x) outs u)) \<and>
          (\<forall>y\<in>set outs. settled io (fst (each (relink_control io x) outs u)) x y) \<and>
          (\<forall>y. settled io u x y \<longrightarrow> settled io (fst (each (relink_control io x) outs u)) x y)"
        by (rule each_all [where P = P and Q = "\<lambda>y v. settled io v x y", OF u(2,1)])
          (use inner settle stay in blast)+
      then show "P (fst (each (relink_control io x) outs u)) \<and>
          (\<forall>y\<in>set outs. settled io (fst (each (relink_control io x) outs u)) x y)" by blast
    next
      fix x z u assume u: "P u" "\<forall>y\<in>set outs. settled io u x y"
      then show "\<forall>y\<in>set outs. settled io (fst (each (relink_control io z) outs u)) x y"
        using outer [OF u(1), of z] settled_grows [of io u x _ _ s0] unfolding P_def by blast
    qed
    then show ?thesis by blast
  qed
  ultimately show ?thesis by (simp add: P_def)
qed

section \<open>Cutting what is left\<close>

lemma run_unlink_each:
  assumes "wired s0 s"
  shows "\<exists>t. run_each run_unlink_all as s = Ret t GRAPH_SUCCESS \<and> wired s0 t \<and>
    (\<forall>a. a \<in> set as \<or> peers s a = [] \<longrightarrow> peers t a = []) \<and>
    ((\<forall>a\<in>set as. GetOwnerNode s0 a = Some n) \<longrightarrow> keeps n s t)"
  using assms
proof (induction as arbitrary: s)
  case (Cons a as)
  let ?t = "ls.cut_front a (peers s a) s"
  have w: "wired s0 ?t" and u: "UnlinkAll s a = Some ?t" using wired_UnlinkAll [OF Cons.prems] by blast+
  have l: "link_inv s" using wired_inv [OF Cons.prems] by blast
  have e: "x = a \<or> peers s x = [] \<Longrightarrow> peers ?t x = []" for x by (auto simp: ls.cut_front_peers [OF l])
  have k: "GetOwnerNode s0 a = Some n \<Longrightarrow> keeps n s ?t"
    using keeps_cut_front [OF l, of a n] wired_owner [OF Cons.prems] by simp
  from Cons.IH [OF w] obtain t where t: "run_each run_unlink_all as ?t = Ret t GRAPH_SUCCESS" "wired s0 t"
      "\<forall>x. x \<in> set as \<or> peers ?t x = [] \<longrightarrow> peers t x = []"
      "(\<forall>x\<in>set as. GetOwnerNode s0 x = Some n) \<longrightarrow> keeps n ?t t" by blast
  have "keeps n s t" if "\<forall>x\<in>set (a # as). GetOwnerNode s0 x = Some n"
    using keeps_trans [of n s ?t t] k t(4) that wired_owner [OF Cons.prems] wired_owner [OF w] by simp
  moreover have "run_each run_unlink_all (a # as) s = Ret t GRAPH_SUCCESS"
    using t(1) by (simp add: run_unlink_all_def [of a s] u)
  moreover have "\<forall>x. x \<in> set (a # as) \<or> peers s x = [] \<longrightarrow> peers t x = []" using t(3) e by auto
  ultimately show ?case using t(2) by blast
qed simp

section \<open>The whole operation\<close>

lemma cast_Anchor: "DynamicAnchorCast s Anchor (Some a) = (if class_of s a = None then None else Some a)"
  by (cases "class_of s a"; simp add: DynamicAnchorCast_class; cases "the (class_of s a)"; simp)

lemma cast_all: "set (List.map_filter (\<lambda>a. if class_of s a = None then None else Some a) xs) = {a \<in> set xs. class_of s a \<noteq> None}"
  by (induction xs) (auto simp: map_filter_simps)

lemma optional_anchor:
  "a \<in> set (case p of None \<Rightarrow> [] | Some c \<Rightarrow>
     if P c then (case (if class_of s c = None then None else Some c) of None \<Rightarrow> [] | Some x \<Rightarrow> [x]) else []) \<longleftrightarrow>
   p = Some a \<and> P a \<and> class_of s a \<noteq> None"
proof (cases p)
  case (Some c)
  show ?thesis
    unfolding Some option.case by (cases "P c"; cases "class_of s c = None") (simp only: if_True if_False option.case; auto)+
qed (simp only: option.case; simp)

lemma in_GetAllOutAnchors:
  "a \<in> set (GetAllOutAnchors s n) \<longleftrightarrow> class_of s a \<noteq> None \<and>
     (a \<in> set (out_data_anchors s n) \<or>
      (GetOutControlAnchor s n = Some a \<and>
        (length (OutControl_GetPeerInControlAnchors s a) > 0 \<or> length (OutControl_GetPeerInDataAnchors s a) > 0)))"
  unfolding GetAllOutAnchors_def set_append Un_iff cast_Anchor cast_all optional_anchor by blast

lemma in_GetAllInAnchors:
  "a \<in> set (GetAllInAnchors s n) \<longleftrightarrow> class_of s a \<noteq> None \<and>
     (a \<in> set (in_data_anchors s n) \<or>
      (GetInControlAnchor s n = Some a \<and>
        (length (InControl_GetPeerOutControlAnchors s a) > 0 \<or> length (InControl_GetPeerOutDataAnchors s a) > 0)))"
  unfolding GetAllInAnchors_def set_append Un_iff cast_Anchor cast_all optional_anchor by blast

text \<open>The control anchor that is left out has no peers.\<close>

lemma all_out_anchors:
  assumes "link_inv s" "nodes_wf s" "a \<in> set (out_anchors s n)"
  shows "a \<in> set (GetAllOutAnchors s n) \<or> peers s a = []"
proof (cases "peers s a")
  case (Cons p ps)
  then have j: "joinable s a p" using link_inv_joinable [OF assms(1), of p a] by simp
  then have "class_of s a \<noteq> None" by (auto simp: joinable_def split: option.splits)
  moreover have "a \<in> set (out_data_anchors s n) \<or> GetOutControlAnchor s n = Some a"
    using assms(3) unfolding out_anchors_def set_append Un_iff set_opt_list .
  moreover have "length (OutControl_GetPeerInControlAnchors s a) > 0 \<or> length (OutControl_GetPeerInDataAnchors s a) > 0"
    if "GetOutControlAnchor s n = Some a"
  proof -
    have "class_of s a = Some OutControlAnchor" using node_control_typed(4) [OF assms(2) that] by blast
    then have "class_of s p = Some InControlAnchor \<or> class_of s p = Some InDataAnchor"
      using j by (auto simp: joinable_def is_in_def is_out_def split: option.splits)
    then have "p \<in> set (OutControl_GetPeerInControlAnchors s a) \<or> p \<in> set (OutControl_GetPeerInDataAnchors s a)"
      using Cons by (simp add: peers_typed)
    then show ?thesis by (auto simp: length_pos_if_in_set)
  qed
  ultimately show ?thesis unfolding in_GetAllOutAnchors by blast
qed simp

lemma all_in_anchors:
  assumes "link_inv s" "nodes_wf s" "a \<in> set (in_anchors s n)"
  shows "a \<in> set (GetAllInAnchors s n) \<or> peers s a = []"
proof (cases "peers s a")
  case (Cons p ps)
  then have j: "joinable s a p" using link_inv_joinable [OF assms(1), of p a] by simp
  then have "class_of s a \<noteq> None" by (auto simp: joinable_def split: option.splits)
  moreover have "a \<in> set (in_data_anchors s n) \<or> GetInControlAnchor s n = Some a"
    using assms(3) unfolding in_anchors_def set_append Un_iff set_opt_list .
  moreover have "length (InControl_GetPeerOutControlAnchors s a) > 0 \<or> length (InControl_GetPeerOutDataAnchors s a) > 0"
    if "GetInControlAnchor s n = Some a"
  proof -
    have "class_of s a = Some InControlAnchor" using node_control_typed(3) [OF assms(2) that] by blast
    then have "class_of s p = Some OutControlAnchor \<or> class_of s p = Some OutDataAnchor"
      using j by (auto simp: joinable_def is_in_def is_out_def split: option.splits)
    then have "p \<in> set (InControl_GetPeerOutControlAnchors s a) \<or> p \<in> set (InControl_GetPeerOutDataAnchors s a)"
      using Cons by (simp add: peers_typed)
    then show ?thesis by (auto simp: length_pos_if_in_set)
  qed
  ultimately show ?thesis unfolding in_GetAllInAnchors by blast
qed simp

lemma all_anchors_owned:
  assumes "nodes_wf s" "a \<in> set (GetAllOutAnchors s n) \<or> a \<in> set (GetAllInAnchors s n)"
  shows "GetOwnerNode s a = Some n"
  using assms(2) node_member_typed(3,4) [OF assms(1), of a n] node_control_typed(3,4) [OF assms(1), of n a]
  unfolding in_GetAllOutAnchors in_GetAllInAnchors by blast

lemma nodes_wf_wired:
  assumes "wired s0 s"
  shows "nodes_wf s = nodes_wf s0"
  using same_frame_node_wf [of s0 s] same_frame_nodes [of s0 s] assms by (simp add: nodes_wf_def wired_def)

lemma wired_anchor_lists:
  assumes "wired s0 s"
  shows "in_anchors s n = in_anchors s0 n" "out_anchors s n = out_anchors s0 n"
  using assms by (simp_all add: in_anchors_def out_anchors_def wired_members)

lemma NodeUtils_UnlinkAll_isolates:
  assumes w: "wired s0 s" and wf: "nodes_wf s0"
  shows "\<exists>t. NodeUtils_UnlinkAll n s = Ret t GRAPH_SUCCESS \<and> wired s0 t \<and> keeps n s t \<and>
    (\<forall>a \<in> set (in_anchors s0 n) \<union> set (out_anchors s0 n). peers t a = [])"
proof -
  have wfs: "nodes_wf s" using wf nodes_wf_wired [OF w] by simp
  have o: "\<forall>a\<in>set (GetAllOutAnchors s n). GetOwnerNode s0 a = Some n"
    using all_anchors_owned [OF wfs] wired_owner [OF w] by auto
  from run_unlink_each [OF w, of "GetAllOutAnchors s n" n] o obtain t1 where
    t1: "run_each run_unlink_all (GetAllOutAnchors s n) s = Ret t1 GRAPH_SUCCESS" "wired s0 t1"
      "\<forall>a. a \<in> set (GetAllOutAnchors s n) \<or> peers s a = [] \<longrightarrow> peers t1 a = []" "keeps n s t1" by blast
  have wf1: "nodes_wf t1" using wf nodes_wf_wired [OF t1(2)] by simp
  have i: "\<forall>a\<in>set (GetAllInAnchors t1 n). GetOwnerNode s0 a = Some n"
    using all_anchors_owned [OF wf1] wired_owner [OF t1(2)] by auto
  from run_unlink_each [OF t1(2), of "GetAllInAnchors t1 n" n] i obtain t where
    t: "run_each run_unlink_all (GetAllInAnchors t1 n) t1 = Ret t GRAPH_SUCCESS" "wired s0 t"
      "\<forall>a. a \<in> set (GetAllInAnchors t1 n) \<or> peers t1 a = [] \<longrightarrow> peers t a = []" "keeps n t1 t" by blast
  have "NodeUtils_UnlinkAll n s = Ret t GRAPH_SUCCESS" by (simp add: NodeUtils_UnlinkAll_def t1 t)
  moreover have "keeps n s t"
    using keeps_trans [OF t1(4) _ t(4)] wired_owner [OF w] wired_owner [OF t1(2)] by simp
  moreover have "peers t a = []" if "a \<in> set (out_anchors s0 n)" for a
    using all_out_anchors [OF conjunct2 [OF wired_inv [OF w]] wfs, of a n] that t1(3) t(3)
      wired_anchor_lists [OF w] by auto
  moreover have "peers t a = []" if "a \<in> set (in_anchors s0 n)" for a
    using all_in_anchors [OF conjunct2 [OF wired_inv [OF t1(2)]] wf1, of a n] that t(3)
      wired_anchor_lists [OF t1(2)] by auto
  ultimately show ?thesis using t(2) by blast
qed

text \<open>Two nodes are connected when an output of the first feeds an input of the second.\<close>

definition connected :: "('z) anchor_store_scheme \<Rightarrow> nat \<Rightarrow> nat \<Rightarrow> bool" where
  "connected s x y \<longleftrightarrow>
     (\<exists>a b. GetOwnerNode s a = Some x \<and> GetOwnerNode s b = Some y \<and> b \<in> set (peers s a) \<and>
        (class_of s a = Some OutDataAnchor \<or> class_of s a = Some OutControlAnchor))"

lemma settled_connected:
  assumes "settled io s x y" "tracked n io s" "keeps n s t" "wired s0 s" "wired s0 t" "nodes_wf s0"
    "x \<noteq> n" "y \<noteq> n" "x \<noteq> y"
  shows "connected t x y"
proof -
  have "\<exists>a b. GetOwnerNode s a = Some x \<and> GetOwnerNode s b = Some y \<and> b \<in> set (peers s a) \<and>
      (class_of s a = Some OutDataAnchor \<or> class_of s a = Some OutControlAnchor)"
  proof (cases "(Some x, Some y) \<in> set io")
    case True
    then show ?thesis using assms(2,7,8) unfolding tracked_def feeds_def by blast
  next
    case False
    then have "ctrl_linked s x y" using assms(1,9) by (simp add: settled_def)
    then obtain c d where cd: "GetOutControlAnchor s x = Some c" "GetInControlAnchor s y = Some d" "d \<in> set (peers s c)"
      by (auto simp: ctrl_linked_def)
    have wf: "nodes_wf s" using assms(6) nodes_wf_wired [OF assms(4)] by simp
    show ?thesis
      using node_control_typed(4) [OF wf cd(1)] node_control_typed(3) [OF wf cd(2)] cd(3) by blast
  qed
  then obtain a b where ab: "GetOwnerNode s a = Some x" "GetOwnerNode s b = Some y" "b \<in> set (peers s a)"
      "class_of s a = Some OutDataAnchor \<or> class_of s a = Some OutControlAnchor" by blast
  then have "b \<in> set (peers t a)" using assms(3,7,8) by (simp add: keeps_def)
  then show ?thesis
    using ab assms(4,5) unfolding connected_def by (auto simp: wired_owner)
qed

lemma IsolateNode_isolates:
  assumes inv: "anchor_inv s" and wf: "nodes_wf s" and iter: "\<And>xs. set (iter xs) = set xs"
  shows "\<exists>t st. GraphUtils_IsolateNode iter (Some n) io_map s = Ret t st \<and> same_frame s t \<and> anchor_inv t \<and>
    (st = GRAPH_SUCCESS \<longrightarrow>
       (\<forall>a \<in> set (in_anchors s n) \<union> set (out_anchors s n). peers t a = []) \<and> keeps n s t \<and>
       (\<forall>x\<in>set (GetInNodes s n). \<forall>y\<in>set (GetOutNodes s n). x \<noteq> n \<longrightarrow> y \<noteq> n \<longrightarrow> x \<noteq> y \<longrightarrow> connected t x y))"
proof -
  obtain s1 io st1 where r: "RelinkDataIO (Some n) io_map (s, []) = Ret (s1, io) st1" and i: "isolating n s (s1, io)"
    using isolating_RelinkDataIO [OF wf inv, of n io_map] by (auto simp: run_rets_iff)
  have w1: "wired s s1" "keeps n s s1" "tracked n io s1" using i by (simp_all add: isolating_def)
  define ins outs where "ins = iter (remdups (GetInNodes s n))" and "outs = iter (remdups (GetOutNodes s n))"
  obtain s2 st2 where c: "RelinkControlNodeIfNeed (ins, outs) io s1 = (s2, st2)" by fastforce
  have w2: "wired s s2" "grows s1 s2" and settle: "st2 = GRAPH_SUCCESS \<Longrightarrow> \<forall>x\<in>set ins. \<forall>y\<in>set outs. settled io s2 x y"
    using RelinkControlNodeIfNeed_settles [OF w1(1) wf, of ins outs io] c by simp_all
  obtain t where t: "NodeUtils_UnlinkAll n s2 = Ret t GRAPH_SUCCESS" "wired s t" "keeps n s2 t"
      "\<forall>a \<in> set (in_anchors s n) \<union> set (out_anchors s n). peers t a = []"
    using NodeUtils_UnlinkAll_isolates [OF w2(1) wf, of n] by blast
  have run: "GraphUtils_IsolateNode iter (Some n) io_map s =
      (if st1 \<noteq> GRAPH_SUCCESS then Ret s1 st1 else if st2 \<noteq> GRAPH_SUCCESS then Ret s2 st2 else Ret t GRAPH_SUCCESS)"
    by (simp add: GraphUtils_IsolateNode_def GetFullConnectIONodes_def ins_def [symmetric]
        outs_def [symmetric] r c t lift_run_def)
  have k12: "keeps n s1 s2" by (rule grows_keeps [OF w2(2)])
  have kt: "keeps n s t"
    using keeps_trans [OF keeps_trans [OF w1(2) _ k12] _ t(3)] by (simp add: wired_owner [OF w1(1)] wired_owner [OF w2(1)])
  have "connected t x y"
    if "st2 = GRAPH_SUCCESS" "x \<in> set (GetInNodes s n)" "y \<in> set (GetOutNodes s n)" "x \<noteq> n" "y \<noteq> n" "x \<noteq> y" for x y
  proof -
    have "settled io s2 x y" using settle that by (simp add: ins_def outs_def iter)
    moreover have "tracked n io s2" by (rule tracked_keeps [OF w1(3) k12 w1(1) w2(1)])
    ultimately show ?thesis using t(3) w2(1) t(2) wf that(4-6) by (rule settled_connected)
  qed
  then show ?thesis
    using run w1(1) w2(1) t(2,4) kt by (cases "st1 = GRAPH_SUCCESS"; cases "st2 = GRAPH_SUCCESS") (auto simp: wired_def)
qed

end
