(* ===== verification/Rewire_Steps.thy ===== *)
theory Rewire_Steps
  imports Isolate
begin

text \<open>
  Every operation of EdgeOps, GraphStore and GraphRewire that changes edges keeps a store wired:
  links stay symmetric and typed, an input keeps a single data source, and nothing but peers
  changes. One lemma per operation, from the sequencing rules and the typing facts of Wiring.
\<close>

section \<open>Sequences\<close>

lemma wired_each:
  "wired s0 s \<Longrightarrow> (\<And>x s. x \<in> set xs \<Longrightarrow> wired s0 s \<Longrightarrow> wired s0 (fst (f x s))) \<Longrightarrow> wired s0 (fst (each f xs s))"
  by (rule each_keeps)

lemma wired_and_then:
  "wired s0 (fst r) \<Longrightarrow> (\<And>s. wired s0 s \<Longrightarrow> wired s0 (fst (f s))) \<Longrightarrow> wired s0 (fst (and_then r f))"
  by (rule and_then_keeps)

lemma wired_fst: "wired s0 s \<Longrightarrow> wired s0 (fst (s, st))"
  by simp

text \<open>Peers of a class, seen from any wired store.\<close>

lemma wired_peers_typed:
  assumes "wired s0 s"
  shows "p \<in> set (OutData_GetPeerInDataAnchors s a) \<Longrightarrow> class_of s0 p = Some InDataAnchor"
    "p \<in> set (OutData_GetPeerInControlAnchors s a) \<Longrightarrow> class_of s0 p = Some InControlAnchor"
    "p \<in> set (OutControl_GetPeerInControlAnchors s a) \<Longrightarrow> class_of s0 p = Some InControlAnchor"
    "p \<in> set (OutControl_GetPeerInDataAnchors s a) \<Longrightarrow> class_of s0 p = Some InDataAnchor"
    "p \<in> set (InControl_GetPeerOutControlAnchors s a) \<Longrightarrow> class_of s0 p = Some OutControlAnchor"
    "p \<in> set (InControl_GetPeerOutDataAnchors s a) \<Longrightarrow> class_of s0 p = Some OutDataAnchor"
    "GetPeerOutAnchor s b = Some p \<Longrightarrow> class_of s0 p = Some OutDataAnchor"
  using assms by (auto simp: peers_typed dest: GetPeerOutAnchor_typed)

lemma wired_node_typed:
  assumes "nodes_wf s0" "wired s0 s"
  shows "a \<in> set (GetAllInDataAnchors s n) \<Longrightarrow> class_of s0 a = Some InDataAnchor"
    "a \<in> set (GetAllOutDataAnchors s n) \<Longrightarrow> class_of s0 a = Some OutDataAnchor"
    "typed_ptr s0 OutControlAnchor (GetOutControlAnchor s n)"
    "typed_ptr s0 InControlAnchor (GetInControlAnchor s n)"
    "GetOutControlAnchor s n = Some c \<Longrightarrow> class_of s0 c = Some OutControlAnchor"
    "GetInControlAnchor s n = Some c \<Longrightarrow> class_of s0 c = Some InControlAnchor"
    "typed_ptr s0 InDataAnchor (GetInDataAnchor s n i)"
    "typed_ptr s0 OutDataAnchor (GetOutDataAnchor s n i)"
  unfolding wired_members(3-8) [OF assms(2)]
  using node_member_typed(1,2) [OF assms(1), of a n] node_control_typed [OF assms(1)]
    node_data_typed [OF assms(1)]
  by (simp_all add: GetAllInDataAnchors_def GetAllOutDataAnchors_def)

section \<open>Isolating and removing nodes of a compute graph\<close>

lemma wired_moves:
  assumes "wired s0 s"
  shows "class_of s0 b = Some OutDataAnchor \<Longrightarrow> class_of s0 c = Some InDataAnchor \<Longrightarrow> wired s0 (fst (move_data a b c s))"
    "class_of s0 b = Some OutDataAnchor \<Longrightarrow> class_of s0 c = Some InControlAnchor \<Longrightarrow> wired s0 (fst (move_data_control a b c s))"
    "class_of s0 b = Some OutControlAnchor \<Longrightarrow> class_of s0 c = Some InControlAnchor \<Longrightarrow> wired s0 (fst (move_control a b c s))"
    "class_of s0 b = Some OutControlAnchor \<Longrightarrow> class_of s0 c = Some InControlAnchor \<Longrightarrow> wired s0 (fst (move_data_to_control a b c s))"
  using assms
  by (auto simp: move_data_def move_data_control_def move_control_def move_data_to_control_def
      intro!: wired_and_then wired_RemoveEdge wired_AddEdge)

text \<open>Moving all peers of one class from an anchor to another.\<close>

lemma wired_move_peers:
  assumes "wired s0 s"
  shows "class_of s0 b = Some OutDataAnchor \<Longrightarrow>
      wired s0 (fst (each (move_data a b) (OutData_GetPeerInDataAnchors s a) s))"
    "class_of s0 b = Some OutDataAnchor \<Longrightarrow>
      wired s0 (fst (each (move_data_control a b) (OutData_GetPeerInControlAnchors s a) s))"
    "class_of s0 b = Some OutControlAnchor \<Longrightarrow>
      wired s0 (fst (each (move_control a b) (OutControl_GetPeerInControlAnchors s a) s))"
    "class_of s0 b = Some OutControlAnchor \<Longrightarrow>
      wired s0 (fst (each (move_data_to_control a b) (OutData_GetPeerInControlAnchors s a) s))"
  by (rule wired_each [OF assms], rule wired_moves, assumption, assumption,
      erule wired_peers_typed [OF assms])+

lemma wired_isolate_out_anchor:
  assumes "wired s0 s" "class_of s0 pre = Some OutDataAnchor"
  shows "wired s0 (fst (isolate_out_anchor pre out s))"
  unfolding isolate_out_anchor_def
  by (rule wired_and_then [OF wired_move_peers(1) [OF assms] wired_move_peers(2) [OF _ assms(2)]])

lemma wired_owner_out_control:
  assumes "nodes_wf s0" "wired s0 s" "owner_out_control s a = Some c"
  shows "class_of s0 c = Some OutControlAnchor"
  using assms wired_node_typed(5) [OF assms(1,2)]
  by (cases "GetOwnerNode s a") (auto simp: owner_out_control_def)

lemma wired_isolate_in_anchor:
  assumes "nodes_wf s0" "wired s0 s"
  shows "wired s0 (fst (isolate_in_anchor n a s))"
proof (cases "GetPeerOutAnchor s a")
  case (Some pre)
  have pre: "class_of s0 pre = Some OutDataAnchor" using wired_peers_typed(7) [OF assms(2) Some] .
  have "wired s0 (fst (case GetOutControlAnchor u n of
          None \<Rightarrow> (u, GRAPH_PARAM_INVALID)
        | Some out_ctrl \<Rightarrow> (case owner_out_control u pre of
              None \<Rightarrow> (u, GRAPH_PARAM_INVALID)
            | Some pre_ctrl \<Rightarrow>
                each (move_control out_ctrl pre_ctrl) (OutControl_GetPeerInControlAnchors u out_ctrl) u)))"
    if "wired s0 u" for u
    using that wired_move_peers(3) [OF that] wired_owner_out_control [OF assms(1) that]
    by (auto split: option.split)
  note tail = this
  show ?thesis
    unfolding isolate_in_anchor_def Some option.case
  proof (rule wired_and_then)
    show "wired s0 (fst (RemoveEdge_data (Some pre) (Some a) s))" using assms(2) by (rule wired_RemoveEdge)
    fix u assume u: "wired s0 u"
    have "wired s0 (fst (each (isolate_out_anchor pre) (GetAllOutDataAnchors u n) u))"
      using u by (rule wired_each) (rule wired_isolate_out_anchor, assumption, rule pre)
    from wired_and_then [OF this tail] u
    show "wired s0 (fst (if (case GetOwnerNode u pre of None \<Rightarrow> False | Some m \<Rightarrow> is_const_type (GetType u m))
        then (u, GRAPH_SUCCESS)
        else and_then (each (isolate_out_anchor pre) (GetAllOutDataAnchors u n) u)
          (\<lambda>s2. case GetOutControlAnchor s2 n of None \<Rightarrow> (s2, GRAPH_PARAM_INVALID)
           | Some out_ctrl \<Rightarrow> (case owner_out_control s2 pre of None \<Rightarrow> (s2, GRAPH_PARAM_INVALID)
              | Some pre_ctrl \<Rightarrow>
                  each (move_control out_ctrl pre_ctrl) (OutControl_GetPeerInControlAnchors s2 out_ctrl) s2))))"
      by simp
  qed
qed (simp add: isolate_in_anchor_def assms)

lemma wired_isolate_control:
  assumes "nodes_wf s0" "wired s0 s"
  shows "class_of s0 pre = Some OutControlAnchor \<Longrightarrow> wired s0 (fst (isolate_in_control_peer n c pre s))"
    "class_of s0 d = Some OutDataAnchor \<Longrightarrow> wired s0 (fst (isolate_in_control_data ns c d s))"
    "wired s0 (fst (RemoveExtraOutEdge p s))"
proof -
  show "wired s0 (fst (isolate_in_control_peer n c pre s))" if pre: "class_of s0 pre = Some OutControlAnchor"
    unfolding isolate_in_control_peer_def
  proof (rule wired_and_then)
    show "wired s0 (fst (RemoveEdge_control (Some pre) (Some c) s))" using assms(2) by (rule wired_RemoveEdge)
    fix u assume u: "wired s0 u"
    have "wired s0 (fst (each (\<lambda>out s. each (move_data_to_control out pre) (OutData_GetPeerInControlAnchors s out) s)
        (GetAllOutDataAnchors u n) u))"
      using u by (rule wired_each) (rule wired_move_peers, assumption, rule pre)
    then show "wired s0 (fst (and_then
         (each (\<lambda>out s. each (move_data_to_control out pre) (OutData_GetPeerInControlAnchors s out) s)
            (GetAllOutDataAnchors u n) u)
         (\<lambda>s2. case GetOutControlAnchor s2 n of None \<Rightarrow> (s2, GRAPH_SUCCESS)
           | Some out_ctrl \<Rightarrow>
               each (move_control out_ctrl pre) (OutControl_GetPeerInControlAnchors s2 out_ctrl) s2)))"
      by (rule wired_and_then) (auto intro: wired_move_peers(3) pre split: option.split)
  qed
  show "wired s0 (fst (isolate_in_control_data ns c d s))" if d: "class_of s0 d = Some OutDataAnchor"
    unfolding isolate_in_control_data_def
  proof (rule wired_and_then)
    show "wired s0 (fst (RemoveEdge_data_control (Some d) (Some c) s))" using assms(2) by (rule wired_RemoveEdge)
    fix u assume u: "wired s0 u"
    then show "wired s0 (fst (each (\<lambda>m s. AddEdge_data_control (Some d) (GetInControlAnchor s m) s) ns u))"
      by (rule wired_each) (simp add: wired_AddEdge wired_node_typed(4) [OF assms(1)] d)
  qed
  have "wired s0 (fst (and_then
       (each (\<lambda>dst. RemoveEdge_data (Some out) (Some dst)) (OutData_GetPeerInDataAnchors u out) u)
       (\<lambda>s1. each (\<lambda>dst. RemoveEdge_data_control (Some out) (Some dst)) (OutData_GetPeerInControlAnchors s1 out) s1)))"
    if "wired s0 u" for u out
    by (rule wired_and_then; rule wired_each, (rule that | assumption), erule wired_RemoveEdge)
  note out = this
  show "wired s0 (fst (RemoveExtraOutEdge p s))"
  proof (cases p)
    case (Some m)
    show ?thesis
      unfolding RemoveExtraOutEdge_def Some option.case
    proof (rule wired_and_then)
      show "wired s0 (fst (each (\<lambda>out s. and_then
           (each (\<lambda>dst. RemoveEdge_data (Some out) (Some dst)) (OutData_GetPeerInDataAnchors s out) s)
           (\<lambda>s1. each (\<lambda>dst. RemoveEdge_data_control (Some out) (Some dst)) (OutData_GetPeerInControlAnchors s1 out) s1))
           (GetAllOutDataAnchors s m) s))"
        using assms(2) by (rule wired_each) (erule out)
      fix u assume u: "wired s0 u"
      have "wired s0 (fst (each (\<lambda>dst. RemoveEdge_control (Some c) (Some dst)) ps u))" for c ps
        using u by (rule wired_each) (erule wired_RemoveEdge)
      then show "wired s0 (fst (case GetOutControlAnchor u m of None \<Rightarrow> (u, GRAPH_SUCCESS)
          | Some out_ctrl \<Rightarrow> each (\<lambda>dst. RemoveEdge_control (Some out_ctrl) (Some dst))
              (OutControl_GetPeerInControlAnchors u out_ctrl) u))"
        using u by (simp split: option.split)
    qed
  qed (simp add: RemoveExtraOutEdge_def assms)
qed

lemma wired_ComputeGraph_IsolateNode:
  assumes "nodes_wf s0" "wired s0 s"
  shows "wired s0 (fst (ComputeGraph_IsolateNode p s))"
proof (cases p)
  case (Some n)
  have c: "wired s0 (fst (and_then
       (each (isolate_in_control_peer n c) (InControl_GetPeerOutControlAnchors u c) u)
       (\<lambda>s2. and_then (each (isolate_in_control_data ns c) (InControl_GetPeerOutDataAnchors s2 c) s2)
          (RemoveExtraOutEdge p))))" if u: "wired s0 u" for u c ns
  proof (rule wired_and_then)
    show "wired s0 (fst (each (isolate_in_control_peer n c) (InControl_GetPeerOutControlAnchors u c) u))"
      using u by (rule wired_each)
        (rule wired_isolate_control(1) [OF assms(1)], assumption, erule wired_peers_typed(5) [OF u])
    fix v assume v: "wired s0 v"
    have "wired s0 (fst (each (isolate_in_control_data ns c) (InControl_GetPeerOutDataAnchors v c) v))"
      using v by (rule wired_each)
        (rule wired_isolate_control(2) [OF assms(1)], assumption, erule wired_peers_typed(6) [OF v])
    then show "wired s0 (fst (and_then (each (isolate_in_control_data ns c) (InControl_GetPeerOutDataAnchors v c) v)
          (RemoveExtraOutEdge p)))"
      by (rule wired_and_then) (rule wired_isolate_control(3) [OF assms(1)])
  qed
  have "wired s0 (fst (each (isolate_in_anchor n) (GetAllInDataAnchors s n) s))"
    using assms(2) by (rule wired_each) (erule wired_isolate_in_anchor [OF assms(1)])
  then show ?thesis
    unfolding ComputeGraph_IsolateNode_def Some option.case Let_def
    by (rule wired_and_then) (simp add: c [unfolded Some] split: option.split)
qed (simp add: ComputeGraph_IsolateNode_def assms)

section \<open>Replacing anchors\<close>

lemma wired_relink_one:
  assumes "wired s0 s" "class_of s0 new_out = Some OutDataAnchor" "class_of s0 peer = Some InDataAnchor"
  shows "wired s0 (fst (fst (relink_one new_out old_out peer (s, io))))"
proof (cases "Unlink s peer (Some old_out)")
  case (Pair s1 st)
  have 1: "wired s0 s1" using wired_Unlink [OF assms(1), of peer "Some old_out"] Pair by simp
  obtain s2 st2 where 2: "InData_LinkFrom s1 peer (Some new_out) = (s2, st2)" by fastforce
  have "wired s0 s2" using wired_link(5) [OF 1 assms(3,2)] 2 by simp
  with 1 show ?thesis by (simp add: relink_one_def Pair 2)
qed

lemma wired_ReplaceOutDataAnchor:
  assumes "wired s0 s" "typed_ptr s0 OutDataAnchor new_out"
  shows "wired s0 (fst (fst (ReplaceOutDataAnchor new_out old_out (s, io))))"
proof (cases "new_out = None \<or> old_out = None")
  case False
  then obtain new old where e: "new_out = Some new" "old_out = Some old" by auto
  have "wired s0 (fst (fst (each (relink_one new old) (OutData_GetPeerInDataAnchors s old) (s, io))))"
  proof (rule each_keeps [where P = "\<lambda>sio. wired s0 (fst sio)"])
    fix x :: nat and sio :: "'a anchor_store_scheme \<times> io_pairs"
    assume "x \<in> set (OutData_GetPeerInDataAnchors s old)" "wired s0 (fst sio)"
    then show "wired s0 (fst (fst (relink_one new old x sio)))"
      using wired_relink_one [of s0 "fst sio" new x old "snd sio"] assms wired_peers_typed(1) [OF assms(1)]
      by (simp add: e)
  qed (simp add: assms)
  then show ?thesis by (simp add: ReplaceOutDataAnchor_def e)
qed (use assms in \<open>auto simp: ReplaceOutDataAnchor_def split: option.split\<close>)

lemma wired_replace_at:
  assumes "wired s0 s"
  shows "\<forall>a\<in>set new_outs. class_of s0 a = Some OutDataAnchor \<Longrightarrow> i < length new_outs \<Longrightarrow>
      run_ok (wired s0) (replace_out_at new_outs old_outs outputs_map i s)"
    "\<forall>a\<in>set new_ins. class_of s0 a = Some InDataAnchor \<Longrightarrow> i < length new_ins \<Longrightarrow>
      run_ok (wired s0) (replace_in_at new_ins old_ins inputs_map i s)"
proof -
  show "run_ok (wired s0) (replace_out_at new_outs old_outs outputs_map i s)"
    if "\<forall>a\<in>set new_outs. class_of s0 a = Some OutDataAnchor" "i < length new_outs"
    using that assms wired_ReplaceOutDataAnchor [OF assms, of "Some (new_outs ! i)"
        "Some (old_outs ! nat (outputs_map ! i))" "[]"]
    by (auto simp: replace_out_at_def split: prod.split)
  show "run_ok (wired s0) (replace_in_at new_ins old_ins inputs_map i s)"
    if new: "\<forall>a\<in>set new_ins. class_of s0 a = Some InDataAnchor" "i < length new_ins"
  proof -
    have "wired s0 (fst (and_then (or_failed (Unlink s pre (Some old)))
          (\<lambda>s1. or_failed (OutData_LinkTo_InData s1 pre (Some (new_ins ! i))))))"
      if "GetPeerOutAnchor s old = Some pre" for pre old
      using wired_peers_typed(7) [OF assms that] new assms
      by (intro wired_and_then) (auto intro: wired_Unlink wired_link(1))
    then show ?thesis
      using assms by (auto simp: replace_in_at_def Let_def intro!: run_ok_lift split: option.split)
  qed
qed

lemma wired_ReplaceDataAnchors:
  assumes "wired s0 s"
  shows "\<forall>a\<in>set new_outs. class_of s0 a = Some OutDataAnchor \<Longrightarrow>
      run_ok (wired s0) (ReplaceOutDataAnchors new_outs old_outs outputs_map s)"
    "\<forall>a\<in>set new_ins. class_of s0 a = Some InDataAnchor \<Longrightarrow>
      run_ok (wired s0) (ReplaceInDataAnchors new_ins old_ins inputs_map s)"
  using assms
  by (auto simp: ReplaceOutDataAnchors_def ReplaceInDataAnchors_def intro!: run_ok_each wired_replace_at)

lemma wired_copy_control:
  assumes "wired s0 s"
  shows "wired s0 (fst (copy_control_in a ps p s))" "wired s0 (fst (copy_control_out a ps p s))"
  using assms by (simp_all add: copy_control_in_def copy_control_out_def wired_AddEdge_any)

lemma wired_ReplaceControlAnchors:
  assumes "wired s0 s"
  shows "wired s0 (fst (ReplaceControlAnchors new_nd old_nd s))"
proof -
  have copy: "wired s0 (fst (each (copy_control_in a ps) xs u))" "wired s0 (fst (each (copy_control_out a ps) xs u))"
    if "wired s0 u" for a ps xs u
    using that by (auto intro: wired_each wired_copy_control)
  show ?thesis
    using assms unfolding ReplaceControlAnchors_def
    by (auto intro!: wired_and_then copy split: option.split)
qed

lemma wired_ReplaceNodeAnchors:
  assumes "nodes_wf s0" "wired s0 s"
  shows "run_ok (wired s0) (ReplaceNodeDataAnchors new_nd old_nd inputs_map outputs_map s)"
    "run_ok (wired s0) (ReplaceNodeAnchors new_nd old_nd inputs_map outputs_map s)"
proof -
  show data: "run_ok (wired s0) (ReplaceNodeDataAnchors new_nd old_nd inputs_map outputs_map s)"
    using assms unfolding ReplaceNodeDataAnchors_def
    by (auto intro!: run_ok_then run_ok_failed wired_ReplaceDataAnchors
        simp: wired_node_typed(1,2) [OF assms(1)] split: option.split)
  show "run_ok (wired s0) (ReplaceNodeAnchors new_nd old_nd inputs_map outputs_map s)"
    using assms data unfolding ReplaceNodeAnchors_def
    by (auto intro!: run_ok_then run_ok_failed run_ok_lift wired_ReplaceControlAnchors)
qed

section \<open>Inserting, copying and moving\<close>

lemma wired_move_control_to:
  assumes "wired s0 s" "typed_ptr s0 OutControlAnchor p" "class_of s0 peer = Some InControlAnchor"
  shows "run_ok (wired s0) (move_control_to c p peer s)"
proof -
  have "wired s0 (fst (and_then (RemoveEdge_control (Some c) (Some peer) s) (AddEdge_control p (Some peer))))"
    using assms by (intro wired_and_then wired_RemoveEdge wired_AddEdge) simp_all
  then show ?thesis by (auto simp: move_control_to_def split: prod.split)
qed

lemma wired_insert_before_dst:
  assumes "nodes_wf s0" "wired s0 s" "typed_ptr s0 InDataAnchor dst"
  shows "run_ok (wired s0) (insert_before_dst src src_node n c flag k dst s)"
proof -
  have "run_ok (wired s0) (run_then (lift_run (or_failed (AddEdge_data (GetOutDataAnchor u n k) dst u)))
          (\<lambda>s2. if \<not> flag then Ret s2 GRAPH_SUCCESS
             else run_each (move_control_to c (GetOutControlAnchor s2 n)) (OutControl_GetPeerInControlAnchors s2 c) s2))"
    if u: "wired s0 u" for u
  proof (rule run_ok_then)
    show "run_ok (wired s0) (lift_run (or_failed (AddEdge_data (GetOutDataAnchor u n k) dst u)))"
      using wired_AddEdge(1) [OF u wired_node_typed(8) [OF assms(1) u] assms(3)] by (intro run_ok_lift) simp
    fix v assume v: "wired s0 v"
    have "run_ok (wired s0) (run_each (move_control_to c (GetOutControlAnchor v n)) (OutControl_GetPeerInControlAnchors v c) v)"
      using v by (rule run_ok_each) (rule wired_move_control_to, assumption,
          rule wired_node_typed(3) [OF assms(1) v], erule wired_peers_typed(3) [OF v])
    then show "run_ok (wired s0) (if \<not> flag then Ret v GRAPH_SUCCESS
         else run_each (move_control_to c (GetOutControlAnchor v n)) (OutControl_GetPeerInControlAnchors v c) v)"
      using v by simp
  qed
  from this [OF wired_RemoveEdge(1) [OF assms(2), of "Some src" dst]] show ?thesis
    using assms(2) by (cases dst) (simp_all add: insert_before_dst_def Let_def split: option.split)
qed

lemma wired_InsertNodeAfter:
  assumes "nodes_wf s0" "wired s0 s" "typed_ptr s0 OutDataAnchor src" "\<forall>d\<in>set dsts. typed_ptr s0 InDataAnchor d"
  shows "run_ok (wired s0) (InsertNodeAfter original_type src dsts n i j s)"
proof (cases "src = None \<or> n = None")
  case False
  then obtain a ins where e: "src = Some a" "n = Some ins" by auto
  have "run_ok (wired s0) (run_each (insert_before_dst a src_node ins c flag k) dsts u)"
    if "wired s0 u" for u src_node c flag k
    using that assms(4) by (auto intro!: run_ok_each wired_insert_before_dst [OF assms(1)])
  moreover have "wired s0 (fst (AddEdge_data (Some a) (GetInDataAnchor s ins (sint i)) s))"
    using wired_AddEdge(1) [OF assms(2)] assms(3) wired_node_typed(7) [OF assms(1,2)] by (simp add: e)
  ultimately show ?thesis
    using assms(2) by (auto simp: InsertNodeAfter_def e Let_def intro!: run_ok_then run_ok_lift split: option.split)
qed (use assms in \<open>auto simp: InsertNodeAfter_def split: option.split\<close>)

lemma wired_CopyCtrlEdges:
  assumes "nodes_wf s0" "wired s0 s"
  shows "wired s0 (fst (CopyInCtrlEdges p q s))" "wired s0 (fst (CopyOutCtrlEdges p q s))"
proof -
  note t = wired_node_typed(3,4) [OF assms(1)]
  have i: "wired s0 (fst (copy_in_ctrl ns d x u))" if "wired s0 u" "typed_ptr s0 InControlAnchor d" for ns d x u
    using that t by (simp add: copy_in_ctrl_def wired_AddEdge)
  have o: "wired s0 (fst (copy_out_ctrl ns d x u))" if "wired s0 u" "typed_ptr s0 OutControlAnchor d" for ns d x u
    using that t by (simp add: copy_out_ctrl_def wired_AddEdge)
  show "wired s0 (fst (CopyInCtrlEdges p q s))"
    using assms(2) t [OF assms(2)] unfolding CopyInCtrlEdges_def
    by (auto intro!: wired_each i split: option.split)
  show "wired s0 (fst (CopyOutCtrlEdges p q s))"
    using assms(2) t [OF assms(2)] unfolding CopyOutCtrlEdges_def
    by (auto intro!: wired_each o split: option.split)
qed

lemma wired_MoveCtrlEdges:
  assumes "nodes_wf s0" "wired s0 s"
  shows "run_ok (wired s0) (MoveInCtrlEdges p q s)" "run_ok (wired s0) (MoveOutCtrlEdges p q s)"
proof -
  have u: "run_ok (wired s0) (case r of None \<Rightarrow> Ret u GRAPH_PARAM_INVALID | Some c \<Rightarrow> run_unlink_all c u)"
    if "wired s0 u" for r u
    using that run_rets_ok [OF wired_run_unlink_all [OF that]] by (simp split: option.split)
  show "run_ok (wired s0) (MoveInCtrlEdges p q s)" "run_ok (wired s0) (MoveOutCtrlEdges p q s)"
    using assms wired_CopyCtrlEdges [OF assms]
    by (auto simp: MoveInCtrlEdges_def MoveOutCtrlEdges_def intro!: run_ok_then run_ok_lift u split: option.split)
qed

lemma wired_CopyInDataEdges:
  assumes "nodes_wf s0" "wired s0 s"
  shows "run_ok (wired s0) (CopyInDataEdges p q s)"
proof -
  have "run_ok (wired s0) (copy_in_data n a u)" if u: "wired s0 u" for n a u
  proof -
    have "typed_ptr s0 OutDataAnchor (GetPeerOutAnchor u a)"
      using wired_peers_typed(7) [OF u] by (auto simp: typed_ptr_def)
    then have "wired s0 (fst (AddEdge_data (GetPeerOutAnchor u a) (GetInDataAnchor u n (GetIdx u a)) u))"
      using wired_AddEdge(1) [OF u] wired_node_typed(7) [OF assms(1) u] by simp
    then show ?thesis by (auto simp: copy_in_data_def split: prod.split)
  qed
  then show ?thesis
    using assms(2) by (auto simp: CopyInDataEdges_def intro!: run_ok_each split: option.split)
qed

section \<open>Moving the outputs of a node\<close>

lemma wired_fold:
  "wired s0 s \<Longrightarrow> (\<And>x s. x \<in> set xs \<Longrightarrow> wired s0 s \<Longrightarrow> wired s0 (f x s)) \<Longrightarrow> wired s0 (fold f xs s)"
  by (rule fold_keeps)

lemma wired_move_out_anchor:
  assumes "wired s0 s" "class_of s0 new = Some OutDataAnchor"
  shows "wired s0 (move_out_anchor (origin, new) s)"
proof -
  have 1: "wired s0 (move_out_data origin new p u)" if "wired s0 u" "class_of s0 p = Some InDataAnchor" for p u
    unfolding move_out_data_def using that assms(2) by (intro wired_and_then wired_Unlink wired_link(1)) simp_all
  have 2: "wired s0 (move_out_data_control origin new p u)" if "wired s0 u" "class_of s0 p = Some InControlAnchor" for p u
    unfolding move_out_data_control_def using that assms(2) by (intro wired_and_then wired_Unlink wired_link(2)) simp_all
  have "wired s0 (fold (move_out_data origin new) (OutData_GetPeerInDataAnchors s origin) s)"
    using assms(1) by (rule wired_fold) (erule 1, erule wired_peers_typed(1) [OF assms(1)])
  note u = this
  have "wired s0 (fold (move_out_data_control origin new) (OutData_GetPeerInControlAnchors u origin) u)"
    if u: "wired s0 u" for u
    using u by (rule wired_fold) (erule 2, erule wired_peers_typed(2) [OF u])
  from this [OF u] show ?thesis by (simp add: move_out_anchor_def Let_def)
qed

lemma wired_MoveOutputEdges:
  assumes "nodes_wf s0" "wired s0 s"
  shows "run_ok (wired s0) (MoveOutputEdges p q s)"
proof (cases "p = None \<or> q = None")
  case False
  then obtain od nw where e: "p = Some od" "q = Some nw" by auto
  have outs: "wired s0 (fold move_out_anchor (zip (GetAllOutDataAnchors s od) (GetAllOutDataAnchors s nw)) s)"
    using assms(2) by (rule wired_fold)
      (auto dest!: set_zip_rightD intro!: wired_move_out_anchor wired_node_typed(2) [OF assms])
  have ctrl: "wired s0 (fold (\<lambda>peer s. fst (OutControl_LinkTo_InControl s c (Some peer)))
      (OutControl_GetPeerInControlAnchors u d) u)"
    "wired s0 (fold (\<lambda>peer s. fst (OutControl_LinkTo_InData s c (Some peer)))
      (OutControl_GetPeerInDataAnchors u d) u)"
    if u: "wired s0 u" "class_of s0 c = Some OutControlAnchor" for u c d
    by (rule wired_fold [OF u(1)], rule wired_link(3,4), assumption, rule u(2), erule wired_peers_typed [OF u(1)])+
  have "run_ok (wired s0) (case (GetOutControlAnchor u od, GetOutControlAnchor u nw) of
      (Some origin_ctrl, Some new_ctrl) \<Rightarrow>
        (let s2 = fold (\<lambda>peer s. fst (OutControl_LinkTo_InControl s new_ctrl (Some peer)))
                    (OutControl_GetPeerInControlAnchors u origin_ctrl) u;
             s3 = fold (\<lambda>peer s. fst (OutControl_LinkTo_InData s new_ctrl (Some peer)))
                    (OutControl_GetPeerInDataAnchors s2 origin_ctrl) s2
         in run_unlink_all origin_ctrl s3)
    | _ \<Rightarrow> Ret u GRAPH_PARAM_INVALID)" if u: "wired s0 u" for u
    using u ctrl wired_node_typed(5) [OF assms(1) u]
    by (auto simp: Let_def intro!: run_rets_ok wired_run_unlink_all split: option.split)
  from this [OF outs] show ?thesis
    using assms(2) by (simp add: MoveOutputEdges_def e Let_def)
qed (use assms in \<open>auto simp: MoveOutputEdges_def split: option.split\<close>)

end
