(* ===== verification/TopoSort_Properties.thy ===== *)
theory TopoSort_Properties
  imports TopoSort_Correct
begin

text \<open>
  The properties of topological sorting and of the event reordering, with witnesses on small
  concrete graphs.
\<close>

section \<open>Concrete graphs\<close>

definition demo_op :: "string \<Rightarrow> string \<Rightarrow> nat \<Rightarrow> nat \<Rightarrow> op_desc" where
  "demo_op nm t i k = \<lparr>op_name = nm, op_type = t, op_id = 0, op_inputs = i, op_outputs = k,
     op_subgraphs = [], op_alias = None, op_parent_index = None\<rparr>"

definition demo_node :: "string \<Rightarrow> string \<Rightarrow> nat list \<Rightarrow> nat list \<Rightarrow> nat \<Rightarrow> nat \<Rightarrow> node" where
  "demo_node nm t ins outs ic oc =
     (new_node (Some (demo_op nm t (length ins) (length outs))) (Some 100))
       \<lparr>n_in_data := ins, n_out_data := outs, n_in_control := Some ic, n_out_control := Some oc,
        n_has_init := True\<rparr>"

definition linked_anchor :: "anchor_class \<Rightarrow> nat \<Rightarrow> int \<Rightarrow> nat list \<Rightarrow> anchor" where
  "linked_anchor c n i ps = (new_anchor c n i)\<lparr>a_peers := ps\<rparr>"

text \<open>A data node whose output feeds two nodes, given by their names.\<close>

definition fork_anchors :: "nat \<Rightarrow> anchor option" where
  "fork_anchors =
     [0 \<mapsto> linked_anchor OutDataAnchor 10 0 [3, 6], 1 \<mapsto> linked_anchor InControlAnchor 10 (-1) [],
      2 \<mapsto> linked_anchor OutControlAnchor 10 (-1) [], 3 \<mapsto> linked_anchor InDataAnchor 11 0 [0],
      4 \<mapsto> linked_anchor InControlAnchor 11 (-1) [], 5 \<mapsto> linked_anchor OutControlAnchor 11 (-1) [],
      6 \<mapsto> linked_anchor InDataAnchor 12 0 [0], 7 \<mapsto> linked_anchor InControlAnchor 12 (-1) [],
      8 \<mapsto> linked_anchor OutControlAnchor 12 (-1) []]"

definition fork_nodes :: "string \<Rightarrow> string \<Rightarrow> nat \<Rightarrow> node option" where
  "fork_nodes nm1 nm2 =
     [10 \<mapsto> demo_node ''d'' DATA [] [0] 1 2, 11 \<mapsto> demo_node nm1 ''Relu'' [3] [] 4 5,
      12 \<mapsto> demo_node nm2 ''Relu'' [6] [] 7 8]"

definition fork_store :: "string \<Rightarrow> string \<Rightarrow> graph_store" where
  "fork_store nm1 nm2 =
     \<lparr>anchors = fork_anchors, nodes = fork_nodes nm1 nm2, next_addr = 13,
      graphs = [100 \<mapsto> (new_graph ''g'')\<lparr>g_nodes := [10, 11, 12], g_direct_nodes_size := 3\<rparr>]\<rparr>"

lemmas fork_defs = fork_store_def fork_anchors_def fork_nodes_def linked_anchor_def new_anchor_def
  demo_node_def new_node_def demo_op_def

lemma fork_peers [simp]:
  "peers (fork_store p q) a = (if a = 0 then [3, 6] else if a = 3 \<or> a = 6 then [0] else [])"
  by (simp add: peers_def fork_defs)

lemma fork_class [simp]:
  "class_of (fork_store p q) a =
     (if a = 0 then Some OutDataAnchor else if a = 3 \<or> a = 6 then Some InDataAnchor
      else if a = 1 \<or> a = 4 \<or> a = 7 then Some InControlAnchor
      else if a = 2 \<or> a = 5 \<or> a = 8 then Some OutControlAnchor else None)"
  by (simp add: class_of_def fork_defs)

lemma fork_owner [simp]:
  "GetOwnerNode (fork_store p q) a =
     (if a \<le> 2 then Some 10 else if a \<le> 5 then Some 11 else if a \<le> 8 then Some 12 else None)"
  by (auto simp: GetOwnerNode_def fork_defs)

lemma fork_graph_nodes [simp]: "graph_nodes (fork_store p q) 100 = [10, 11, 12]"
  by (simp add: graph_nodes_def fork_store_def)

lemma fork_members [simp]:
  "in_data_anchors (fork_store p q) n = (if n = 11 then [3] else if n = 12 then [6] else [])"
  "out_data_anchors (fork_store p q) n = (if n = 10 then [0] else [])"
  "GetInControlAnchor (fork_store p q) n =
     (if n = 10 then Some 1 else if n = 11 then Some 4 else if n = 12 then Some 7 else None)"
  "GetOutControlAnchor (fork_store p q) n =
     (if n = 10 then Some 2 else if n = 11 then Some 5 else if n = 12 then Some 8 else None)"
  "GetName (fork_store p q) n = (if n = 10 then ''d'' else if n = 11 then p else if n = 12 then q else [])"
  "GetType (fork_store p q) n = (if n = 10 then DATA else if n = 11 \<or> n = 12 then ''Relu'' else [])"
  "GetOpDesc (fork_store p q) n = None \<longleftrightarrow> n \<noteq> 10 \<and> n \<noteq> 11 \<and> n \<noteq> 12"
  by (simp_all add: in_data_anchors_def out_data_anchors_def GetInControlAnchor_def
      GetOutControlAnchor_def GetName_def GetType_def GetOpDesc_def fork_defs)

lemma fork_link_inv: "link_inv (fork_store p q)"
proof -
  have "\<forall>a c. class_of (fork_store p q) a = Some c \<longrightarrow> is_in c \<or> is_out c"
    by (simp add: is_in_def is_out_def)
  moreover have "\<forall>a b k. key_of (fork_store p q) a = Some k \<longrightarrow> key_of (fork_store p q) b = Some k \<longrightarrow> a = b"
    by (auto simp: key_of_def fork_defs anchor_key_def split: if_splits)
  ultimately have "ident_wf (fork_store p q)" unfolding ident_wf_def by blast
  then show ?thesis
    by (auto simp: link_inv_def joinable_def is_in_def is_out_def)
qed

lemma le_cases:
  fixes a :: nat
  shows "a \<le> 2 \<longleftrightarrow> a = 0 \<or> a = 1 \<or> a = 2"
    "a \<le> 5 \<longleftrightarrow> a = 0 \<or> a = 1 \<or> a = 2 \<or> a = 3 \<or> a = 4 \<or> a = 5"
    "a \<le> 8 \<longleftrightarrow> a = 0 \<or> a = 1 \<or> a = 2 \<or> a = 3 \<or> a = 4 \<or> a = 5 \<or> a = 6 \<or> a = 7 \<or> a = 8"
  by auto

lemma fork_node_wf: "n = 10 \<or> n = 11 \<or> n = 12 \<Longrightarrow> node_wf (fork_store p q) n"
  unfolding node_wf_def owns_def by (elim disjE) (auto simp: le_cases split: if_splits)

lemma fork_back_edge: "\<not> from_next_iteration (fork_store p q) a"
  by (simp add: from_next_iteration_def GetPeerOutAnchor_def DynamicAnchorCast_lock
      is_next_iteration_def)

lemma fork_degree: "GetInEdgeSize (fork_store p q) n = (if n = 11 \<or> n = 12 then 1 else 0)"
  by (simp add: GetInEdgeSize_def GetAllInDataAnchors_def GetPeerAnchorsSize_def fork_back_edge)

lemma fork_ok: "graph_ok (fork_store p q) 100"
  unfolding graph_ok_def closed_inputs_def no_back_edges_def in_anchors_def
  by (simp add: fork_link_inv fork_node_wf fork_back_edge fork_degree)

lemma fork_depends: "depends (fork_store p q) 100 = {(10, 11), (10, 12)}"
  unfolding depends_def out_anchors_def in_anchors_def by (auto split: if_splits)

lemma fork_acyclic: "acyclic (depends (fork_store p q) 100)"
proof -
  have "depends (fork_store p q) 100 \<subseteq> less_than" by (auto simp: fork_depends)
  then show ?thesis using wf_less_than wf_subset wf_acyclic by blast
qed

lemma fork_count: "count_ok (fork_store p q) 100"
  by (simp add: count_ok_def GetDirectNodesSize_def) (simp add: fork_store_def)

section \<open>Properties\<close>

text \<open> C1: on a well-formed graph (consistent links, nodes that own their anchors, inputs from
  the graph itself, no back edges, in-degrees that fit 32 bits, and for the breadth-first
  order distinct names) that passes the isolated-node check, \<^verbatim>\<open>TopologicalSortingGraph\<close>
  returns, and succeeds exactly when the graph has no cycle. On success the graph's node list
  is a permutation in topological order, the counter of the list is right, the ids are the
  positions, the graph is valid and nothing else changes; on failure nothing changes. \<close>

theorem topological_sorting_correct:
  assumes "graph_ok s g" and "count_ok s g"
    and "\<not> (verify_isolated run_mode \<and> (\<exists>n\<in>set (graph_nodes s g). isolated s n))"
    and "IsUseBFS run_mode \<Longrightarrow> inj_on (GetName s) (set (graph_nodes s g))"
  shows "if acyclic (depends s g)
    then \<exists>t ys. TopologicalSortingGraph g run_mode reverse s = Some (t, GRAPH_SUCCESS) \<and>
      sort_installed g ys s t \<and> mset ys = mset (graph_nodes s g) \<and> topo_order (depends s g) ys
    else TopologicalSortingGraph g run_mode reverse s = Some (s, GRAPH_FAILED)"
  using assms by (rule TopologicalSortingGraph_sorts)

lemma topological_sorting_correct_witness:
  "\<exists>t ys. TopologicalSortingGraph 100 (Some ''1'') False (fork_store ''a'' ''b'') = Some (t, GRAPH_SUCCESS) \<and>
     sort_installed 100 ys (fork_store ''a'' ''b'') t \<and> mset ys = mset [10, 11, 12] \<and>
     topo_order (depends (fork_store ''a'' ''b'') 100) ys"
  using topological_sorting_correct [of "fork_store ''a'' ''b''" 100 "Some ''1''" False]
    fork_ok fork_count fork_acyclic
  by (simp add: isolated_def fork_degree is_data_type_def)

text \<open> C15: in prediction mode a node without any edge that is no data node makes the sorting
  fail, whatever the rest of the graph looks like, and nothing changes. \<close>

theorem isolated_node_rejected:
  assumes "\<forall>n\<in>set (graph_nodes s g). GetOpDesc s n \<noteq> None"
    and "verify_isolated run_mode" and "n \<in> set (graph_nodes s g)" and "isolated s n"
  shows "TopologicalSortingGraph g run_mode reverse s = Some (s, GRAPH_FAILED)"
proof -
  have "SortNodes s g run_mode = None"
    using SortNodes_spec [OF assms(1), of run_mode] assms(2-4) by (auto split: option.splits)
  then show ?thesis
    by (simp add: TopologicalSortingGraph_def BFSTopologicalSorting_def DFSTopologicalSorting_def)
qed

lemma isolated_node_rejected_witness:
  "TopologicalSortingGraph 100 (Some ''0'') False
      (upd_graph 100 (g_nodes_update (\<lambda>_. [20])) ((fork_store ''a'' ''b'')\<lparr>nodes :=
         [20 \<mapsto> demo_node ''r'' ''Relu'' [] [] 21 22]\<rparr>)) =
    Some (upd_graph 100 (g_nodes_update (\<lambda>_. [20])) ((fork_store ''a'' ''b'')\<lparr>nodes :=
         [20 \<mapsto> demo_node ''r'' ''Relu'' [] [] 21 22]\<rparr>), GRAPH_FAILED)"
  (is "_ = Some (?s, _)")
proof (rule isolated_node_rejected [where n = 20])
  have n: "graph_nodes ?s 100 = [20]" by (simp add: fork_store_def)
  show "20 \<in> set (graph_nodes ?s 100)" "\<forall>n\<in>set (graph_nodes ?s 100). GetOpDesc ?s n \<noteq> None"
    unfolding n by (simp_all add: GetOpDesc_def demo_node_def new_node_def)
  show "verify_isolated (Some ''0'')"
    by (simp add: verify_isolated_def run_mode_code_def TRAIN_def strtol_def parse_int_def Ltrim_def
        is_space_def is_digit_def digit_val_def Let_def)
  have "peers ?s a = peers (fork_store ''a'' ''b'') a" for a
    by (simp add: peers_def upd_graph_def)
  then show "isolated ?s 20"
    by (simp add: isolated_def GetInEdgeSize_def GetOutEdgeSize_def GetAllInDataAnchors_def
        GetAllOutDataAnchors_def in_data_anchors_def out_data_anchors_def GetInControlAnchor_def
        GetOutControlAnchor_def GetPeerAnchorsSize_def GetPeerAnchors_def GetType_def GetOpDesc_def
        demo_node_def new_node_def demo_op_def is_data_type_def UINT64_MAX_def)
qed

text \<open> the breadth-first order collects the ready nodes in a map keyed by name, so two
  ready nodes of one name lose one of them: the sorting then reports a closed loop in a graph
  that has none, and that the depth-first order sorts. \<close>

lemma fork_peers_of_class [simp]:
  "peers_of_class (fork_store p q) t a =
     filter (\<lambda>b. \<exists>c. class_of (fork_store p q) b = Some c \<and> is_type_of c t) (peers (fork_store p q) a)"
  by (rule peers_of_class_filter)

lemma fork_targets:
  "out_targets (fork_store p q) n = (if n = 10 then [3, 6] else [])"
  by (simp add: out_targets_def GetAllOutDataAnchors_def OutData_GetPeerInDataAnchors_def
      OutData_GetPeerInControlAnchors_def live_peers_all fork_link_inv)

lemma fork_sort_nodes:
  "SortNodes (fork_store p q) 100 (Some ''1'') =
     Some ([10], (\<lambda>_. None)(10 \<mapsto> 0, 11 \<mapsto> 1, 12 \<mapsto> 1))"
  by (simp add: SortNodes_def GetDirectNode_def fork_degree is_data_type_def verify_isolated_def
      run_mode_code_def TRAIN_def strtol_def parse_int_def Ltrim_def is_space_def is_digit_def
      digit_val_def Let_def inputs_order_def order_index_def)
     (simp add: fork_store_def new_graph_def)

lemma fork_same_name_bfs:
  "BFSTopologicalSorting (fork_store ''x'' ''x'') 100 (Some ''1'') = Some ([10, 11], GRAPH_SUCCESS)"
  unfolding BFSTopologicalSorting_def fork_sort_nodes
  by (simp add: bfs_loop.simps [of "fork_store ''x'' ''x''"] CollectBreadthOutNode_def fork_targets
      relax_named.simps(2) map_emplace_def)

theorem same_name_breaks_breadth_first:
  "acyclic (depends (fork_store ''x'' ''x'') 100) \<and>
   TopologicalSortingGraph 100 (Some ''1'') False (fork_store ''x'' ''x'') =
     Some (fork_store ''x'' ''x'', GRAPH_FAILED) \<and>
   (\<exists>t. TopologicalSortingGraph 100 None False (fork_store ''x'' ''x'') = Some (t, GRAPH_SUCCESS))"
proof (intro conjI)
  show "acyclic (depends (fork_store ''x'' ''x'') 100)" by (rule fork_acyclic)
  have "IsUseBFS (Some ''1'')"
    by (simp add: IsUseBFS_def run_mode_code_def TRAIN_def strtol_def parse_int_def Ltrim_def
        is_space_def is_digit_def digit_val_def Let_def)
  then show "TopologicalSortingGraph 100 (Some ''1'') False (fork_store ''x'' ''x'') =
      Some (fork_store ''x'' ''x'', GRAPH_FAILED)"
    using fork_count [of "''x''" "''x''"]
    by (simp add: TopologicalSortingGraph_def fork_same_name_bfs count_ok_def)
  show "\<exists>t. TopologicalSortingGraph 100 None False (fork_store ''x'' ''x'') = Some (t, GRAPH_SUCCESS)"
    using TopologicalSortingGraph_sorts [of "fork_store ''x'' ''x''" 100 None False]
      fork_ok fork_count fork_acyclic
    by (simp add: verify_isolated_def IsUseBFS_def) blast
qed

text \<open> The exchange sort that should put the inputs into the user's order compares against
  an index it does not update after a swap: three inputs added as b, c, a with the designated
  order a, b, c come out as a, c, b. \<close>

definition inputs_store :: graph_store where
  "inputs_store =
     \<lparr>anchors = (\<lambda>_. None),
      nodes = [10 \<mapsto> demo_node ''b'' DATA [] [] 0 1, 11 \<mapsto> demo_node ''c'' DATA [] [] 2 3,
        12 \<mapsto> demo_node ''a'' DATA [] [] 4 5], next_addr = 13,
      graphs = [100 \<mapsto> (new_graph ''g'')\<lparr>g_nodes := [10, 11, 12], g_direct_nodes_size := 3,
        g_inputs_order := [''a'', ''b'', ''c'']\<rparr>]\<rparr>"

lemma inputs_store_simps [simp]:
  "graph_nodes inputs_store 100 = [10, 11, 12]" "inputs_order inputs_store 100 = [''a'', ''b'', ''c'']"
  "peers inputs_store a = []" "in_data_anchors inputs_store n = []" "out_data_anchors inputs_store n = []"
  "GetName inputs_store n =
     (if n = 10 then ''b'' else if n = 11 then ''c'' else if n = 12 then ''a'' else [])"
  "GetOpDesc inputs_store n = None \<longleftrightarrow> n \<noteq> 10 \<and> n \<noteq> 11 \<and> n \<noteq> 12"
  "GetType inputs_store n = (if n = 10 \<or> n = 11 \<or> n = 12 then DATA else [])"
  by (simp_all add: inputs_store_def graph_nodes_def inputs_order_def peers_def in_data_anchors_def
      out_data_anchors_def GetName_def GetType_def GetOpDesc_def demo_node_def new_node_def demo_op_def)

lemma inputs_degree: "GetInEdgeSize inputs_store n = 0"
  by (simp add: GetInEdgeSize_def GetAllInDataAnchors_def GetPeerAnchorsSize_def split: option.split)

lemma inputs_sort_nodes:
  "SortNodes inputs_store 100 None = Some ([10, 11, 12], (\<lambda>_. None)(10 \<mapsto> 0, 11 \<mapsto> 0, 12 \<mapsto> 0))"
  by (simp add: SortNodes_def GetDirectNode_def inputs_degree is_data_type_def order_index_def
      list_swap_def numeral_3_eq_3 numeral_2_eq_2 Let_def)

lemma inputs_dfs:
  "DFSTopologicalSorting inputs_store 100 None False = Some ([12, 11, 10], GRAPH_SUCCESS)"
proof -
  have "dfs_control inputs_store False n (m, st) = Some (m, st)" for n m st
    by (auto simp: dfs_control_def GetPeerAnchors_def live_peers_def stack_push_def map_filter_simps
        split: option.split)
  then show ?thesis
    unfolding DFSTopologicalSorting_def inputs_sort_nodes
    by (simp add: dfs_loop.simps [of inputs_store] GetAllOutDataAnchors_def)
qed

theorem input_order_not_kept:
  "inputs_order inputs_store 100 = [''a'', ''b'', ''c''] \<and>
   (\<exists>t. TopologicalSortingGraph 100 None False inputs_store = Some (t, GRAPH_SUCCESS) \<and>
     map (GetName inputs_store) (graph_nodes t 100) = [''a'', ''c'', ''b''])"
proof -
  have c: "count_ok inputs_store 100"
    by (simp add: count_ok_def GetDirectNodesSize_def) (simp add: inputs_store_def)
  have "\<exists>t. TopologicalSortingGraph 100 None False inputs_store = Some (t, GRAPH_SUCCESS) \<and>
      sort_installed 100 [12, 11, 10] inputs_store t"
    using TopologicalSortingGraph_installs [OF c, of "[12, 11, 10]" None False] inputs_dfs
    by (simp add: IsUseBFS_def)
  then show ?thesis by (auto simp: sort_installed_def)
qed

section \<open>Event nodes\<close>

lemma mset_insert_before: "mset (insert_before d n xs) = add_mset n (mset xs)"
  unfolding insert_before_def using mset_insert_at [of _ xs n] by (auto split: option.split)

lemma mset_insert_after: "mset (insert_after d n xs) = add_mset n (mset xs)"
  unfolding insert_after_def using mset_insert_at [of _ xs n] by (auto split: option.split)

lemma reorder_one_mset:
  assumes "n \<in> set l"
  shows "reorder_recv s n l = Some l' \<Longrightarrow> mset l' = mset l"
    "reorder_send s n l = Some l' \<Longrightarrow> mset l' = mset l"
  using assms
  by (auto simp: reorder_recv_def reorder_send_def mset_insert_before mset_insert_after
      split: if_splits list.splits)

lemma reorder_events_mset:
  "reorder_events s ns l = Some l' \<Longrightarrow> set ns \<subseteq> set l \<Longrightarrow> mset l' = mset l"
proof (induction s ns l rule: reorder_events.induct)
  case (2 s n ns l)
  show ?case
  proof (cases "GetOpDesc s n = None")
    case False
    then obtain l1 l2 where l: "reorder_recv s n l = Some l1" "reorder_send s n l1 = Some l2"
      "reorder_events s ns l2 = Some l'"
      using 2(3) by (auto simp: bind_eq_Some_conv)
    have m1: "mset l1 = mset l"
      by (rule reorder_one_mset(1) [OF _ l(1)]) (use 2(4) in simp)
    have s1: "set l1 = set l" using m1 by (rule mset_eq_setD)
    have m2: "mset l2 = mset l1"
      by (rule reorder_one_mset(2) [OF _ l(2)]) (use s1 2(4) in simp)
    have "set l2 = set l" using mset_eq_setD [OF m2] s1 by simp
    then have "mset l' = mset l2" using 2(2) [OF False l(1,2,3)] 2(4) by auto
    with m1 m2 show ?thesis by simp
  qed (use 2 in simp)
qed simp

lemma GetOpDesc_frame [simp]:
  "GetOpDesc (upd_graph g f s) n = GetOpDesc s n" "GetOpDesc (PushBackToNodeList g m s) n = GetOpDesc s n"
  by (simp_all add: GetOpDesc_def PushBackToNodeList_def)

lemma renumber_nodes_Cons:
  "GetOpDesc s n \<noteq> None \<Longrightarrow>
     renumber_nodes g i (n # ns) s = renumber_nodes g (i + 1) ns (PushBackToNodeList g n (SetId n i s))"
  by auto

declare renumber_nodes.simps(2) [simp del]

lemma op_id_of_push_SetId:
  "op_id_of (PushBackToNodeList g n (SetId n i s)) m = op_id_of (SetId n i s) m"
  by (simp add: op_id_of_def)

lemma renumber_nodes_graphs:
  "\<forall>n\<in>set ns. GetOpDesc s n \<noteq> None \<Longrightarrow>
     graphs (renumber_nodes g i ns s) h =
      (if h = g then map_option (\<lambda>x. x\<lparr>g_nodes := g_nodes x @ ns,
         g_direct_nodes_size := g_direct_nodes_size x + length ns\<rparr>) (graphs s g) else graphs s h)"
proof (induction ns arbitrary: i s)
  case (Cons n ns)
  let ?s = "PushBackToNodeList g n (SetId n i s)"
  have op: "\<forall>m\<in>set ns. GetOpDesc ?s m \<noteq> None" "GetOpDesc s n \<noteq> None" using Cons.prems by simp_all
  show ?case
    unfolding renumber_nodes_Cons [OF op(2)] Cons.IH [OF op(1)]
    by (simp add: PushBackToNodeList_def SetId_def option.map_comp comp_def)
qed (simp add: option.map_ident)

lemma renumber_nodes_other:
  "\<forall>n\<in>set ns. GetOpDesc s n \<noteq> None \<Longrightarrow> m \<notin> set ns \<Longrightarrow> op_id_of (renumber_nodes g i ns s) m = op_id_of s m"
proof (induction ns arbitrary: i s)
  case (Cons n ns)
  let ?s = "PushBackToNodeList g n (SetId n i s)"
  have "\<forall>m\<in>set ns. GetOpDesc ?s m \<noteq> None" "GetOpDesc s n \<noteq> None" using Cons.prems by simp_all
  then have "op_id_of (renumber_nodes g i (n # ns) s) m = op_id_of ?s m"
    using Cons.IH [of ?s] Cons.prems by (simp add: renumber_nodes_Cons)
  then show ?case using Cons.prems by (simp add: op_id_of_push_SetId op_id_of_SetId)
qed simp

lemma renumber_nodes_position:
  "\<forall>n\<in>set ns. GetOpDesc s n \<noteq> None \<Longrightarrow> distinct ns \<Longrightarrow> k < length ns \<Longrightarrow>
     op_id_of (renumber_nodes g i ns s) (ns ! k) = Some (i + int k)"
proof (induction ns arbitrary: i s k)
  case (Cons n ns)
  let ?s = "PushBackToNodeList g n (SetId n i s)"
  have op: "\<forall>m\<in>set ns. GetOpDesc ?s m \<noteq> None" "GetOpDesc s n \<noteq> None" using Cons.prems by simp_all
  then have eq: "renumber_nodes g i (n # ns) s = renumber_nodes g (i + 1) ns ?s"
    by (simp add: renumber_nodes_Cons)
  show ?case
  proof (cases k)
    case 0
    have "op_id_of (renumber_nodes g (i + 1) ns ?s) n = op_id_of ?s n"
      using op Cons.prems by (intro renumber_nodes_other) simp_all
    then show ?thesis using op 0 by (simp add: eq op_id_of_push_SetId op_id_of_SetId)
  next
    case (Suc j)
    then show ?thesis using Cons.IH [OF op(1)] Cons.prems by (simp add: eq)
  qed
qed simp

text \<open> C16: \<^verbatim>\<open>InsertEventNodes\<close>, when no event node lacks its control edge, only permutes
  the nodes of the graph: afterwards the list holds the same nodes, its counter is right and
  the ids are the positions. \<close>

theorem insert_event_nodes_permutes:
  assumes "InsertEventNodes g s = Some (t, st)" and "graphs s g \<noteq> None"
    and "distinct (graph_nodes s g)" and "\<forall>n\<in>set (graph_nodes s g). GetOpDesc s n \<noteq> None"
  shows "st = GRAPH_SUCCESS \<and> mset (graph_nodes t g) = mset (graph_nodes s g) \<and> count_ok t g \<and>
    (\<forall>k<length (graph_nodes t g). op_id_of t (graph_nodes t g ! k) = Some (int k))"
proof -
  obtain x where x: "graphs s g = Some x" using assms(2) by blast
  obtain l where l: "reorder_events s (graph_nodes s g) (graph_nodes s g) = Some l"
    and t: "t = renumber_nodes g 0 l (ClearNodeList g (upd_graph g (g_nodes_update (\<lambda>_. l)) s))"
    and st: "st = GRAPH_SUCCESS"
    using assms(1) x
    by (auto simp: InsertEventNodes_def ReorderEventNodes_def GetDirectNode_def)
  have ml: "mset l = mset (graph_nodes s g)" using l by (rule reorder_events_mset) simp
  then have d: "distinct l" and sl: "set l = set (graph_nodes s g)"
    using assms(3) mset_eq_imp_distinct_iff mset_eq_setD by blast+
  let ?s1 = "ClearNodeList g (upd_graph g (g_nodes_update (\<lambda>_. l)) s)"
  have op: "\<forall>n\<in>set l. GetOpDesc ?s1 n \<noteq> None"
    using assms(4) sl by (simp add: ClearNodeList_def)
  note r = renumber_nodes_position [OF op d]
  have g: "graphs t g = Some (x\<lparr>g_nodes := l, g_direct_nodes_size := length l\<rparr>)"
    unfolding t renumber_nodes_graphs [OF op] using x by (simp add: ClearNodeList_def)
  then have nodes: "graph_nodes t g = l" by (simp add: graph_nodes_def)
  have "count_ok t g" using g by (simp add: count_ok_def nodes GetDirectNodesSize_def)
  moreover have "op_id_of t (l ! k) = Some (int k)" if "k < length l" for k
    unfolding t using r [OF that] by simp
  ultimately show ?thesis using st ml by (simp add: nodes)
qed

lemma insert_event_nodes_permutes_witness:
  "\<exists>t. InsertEventNodes 100 (fork_store ''a'' ''b'') = Some (t, GRAPH_SUCCESS) \<and>
     mset (graph_nodes t 100) = mset [10, 11, 12]"
proof -
  have "\<exists>t st. InsertEventNodes 100 (fork_store ''a'' ''b'') = Some (t, st)"
    by (simp add: InsertEventNodes_def ReorderEventNodes_def GetDirectNode_def reorder_recv_def
        reorder_send_def)
  then obtain t st where t: "InsertEventNodes 100 (fork_store ''a'' ''b'') = Some (t, st)" by blast
  have "graphs (fork_store ''a'' ''b'') 100 \<noteq> None" by (simp add: fork_store_def)
  from insert_event_nodes_permutes [OF t this] t show ?thesis by simp
qed

end
