(* ===== verification/Graph_Inv.thy ===== *)
theory Graph_Inv
  imports Rewire_Steps TopoSort_Properties
begin

text \<open>
  The invariant of the whole store: consistent links, well-formed nodes whose data anchors are
  numbered by position, fresh addresses above the allocator, and node counters that match their
  lists. This theory shows how creating nodes, changing attributes and changing graphs keep it.
\<close>

section \<open>The invariant\<close>

definition placed :: "('z) node_store_scheme \<Rightarrow> bool" where
  "placed s \<longleftrightarrow>
     (\<forall>n i. (i < length (in_data_anchors s n) \<longrightarrow> GetIdx s (in_data_anchors s n ! i) = int i) \<and>
            (i < length (out_data_anchors s n) \<longrightarrow> GetIdx s (out_data_anchors s n ! i) = int i))"

definition fresh_above :: "('z) node_store_scheme \<Rightarrow> bool" where
  "fresh_above s \<longleftrightarrow>
     (\<forall>a. next_addr s \<le> a \<longrightarrow> anchors s a = None \<and> nodes s a = None) \<and>
     (\<forall>a n. GetOwnerNode s a = Some n \<longrightarrow> n < next_addr s)"

definition counted :: "('z) graph_store_scheme \<Rightarrow> bool" where
  "counted s \<longleftrightarrow> (\<forall>g x. graphs s g = Some x \<longrightarrow> g_direct_nodes_size x = length (g_nodes x))"

definition node_inv :: "('z) node_store_scheme \<Rightarrow> bool" where
  "node_inv s \<longleftrightarrow> anchor_inv s \<and> nodes_wf s \<and> placed s \<and> fresh_above s"

definition graph_inv :: "('z) graph_store_scheme \<Rightarrow> bool" where
  "graph_inv s \<longleftrightarrow> node_inv s \<and> counted s"

lemma node_invD:
  assumes "node_inv s"
  shows "anchor_inv s" "nodes_wf s" "placed s" "fresh_above s"
  using assms by (simp_all add: node_inv_def)

section \<open>Changing edges\<close>

lemma node_inv_wired:
  fixes s t :: "('z) node_store_scheme"
  assumes "node_inv s" "wired s t"
  shows "node_inv t"
proof -
  have f: "same_frame s t" "anchor_inv t" using assms(2) by (simp_all add: wired_def)
  note m = same_frame_members [OF f(1)] same_frame_eqs [OF f(1)]
  have "nodes_wf t" using nodes_wf_wired [OF assms(2)] node_invD(2) [OF assms(1)] by simp
  moreover have "placed t" using node_invD(3) [OF assms(1)] unfolding placed_def m .
  moreover have "fresh_above t"
    using node_invD(4) [OF assms(1)]
    unfolding fresh_above_def m same_frame_addr [OF f(1)] same_frame_nodes [OF f(1)] .
  ultimately show ?thesis using f by (simp add: node_inv_def)
qed

lemma graph_inv_wired:
  assumes "graph_inv s" "wired s t"
  shows "graph_inv t"
  using assms node_inv_wired [of s t] same_frame_graphs [of s t]
  by (simp add: graph_inv_def counted_def wired_def)

lemma wired_start: "node_inv s \<Longrightarrow> wired s s"
  by (simp add: node_invD wired_refl)

section \<open>Changing attributes of nodes\<close>

text \<open>What the invariant sees of a node.\<close>

definition node_shape :: "node \<Rightarrow> nat list \<times> nat list \<times> ptr \<times> ptr \<times> bool" where
  "node_shape x = (n_in_data x, n_out_data x, n_in_control x, n_out_control x, n_op x \<noteq> None)"

definition same_shape :: "('z) node_store_scheme \<Rightarrow> ('z) node_store_scheme \<Rightarrow> bool" where
  "same_shape s t \<longleftrightarrow> anchors t = anchors s \<and> next_addr t = next_addr s \<and>
     (\<forall>n. map_option node_shape (nodes t n) = map_option node_shape (nodes s n))"

lemma same_shape_refl [simp]: "same_shape s s"
  by (simp add: same_shape_def)

lemma same_shape_trans: "same_shape s t \<Longrightarrow> same_shape t u \<Longrightarrow> same_shape s u"
  by (simp add: same_shape_def)

lemma same_shape_upd:
  "(\<And>x. node_shape (f x) = node_shape x) \<Longrightarrow> same_shape s (upd_node n f s)"
  by (simp add: same_shape_def upd_node_def option.map_comp comp_def)

lemma anchors_only:
  assumes "anchors t = anchors s"
  shows "class_of t = class_of s" "GetOwnerNode t = GetOwnerNode s" "GetIdx t = GetIdx s"
    "peers t = peers s" "key_of t = key_of s" "joinable t = joinable s" "anchor_inv t = anchor_inv s"
proof -
  show e: "class_of t = class_of s" "GetOwnerNode t = GetOwnerNode s" "GetIdx t = GetIdx s"
      "peers t = peers s" "key_of t = key_of s"
    by (intro ext, simp add: assms class_of_def GetOwnerNode_def GetIdx_def peers_def key_of_def)+
  show j: "joinable t = joinable s"
    by (intro ext) (simp add: joinable_def e)
  show "anchor_inv t = anchor_inv s"
    by (simp add: anchor_inv_def link_inv_def single_source_def ident_wf_def e j)
qed

lemma same_shape_members:
  assumes "same_shape s t"
  shows "in_data_anchors t = in_data_anchors s" "out_data_anchors t = out_data_anchors s"
    "GetInControlAnchor t = GetInControlAnchor s" "GetOutControlAnchor t = GetOutControlAnchor s"
    "nodes t n = None \<longleftrightarrow> nodes s n = None" "GetOpDesc t n = None \<longleftrightarrow> GetOpDesc s n = None"
proof -
  have x: "map_option node_shape (nodes t m) = map_option node_shape (nodes s m)" for m
    using assms by (simp add: same_shape_def)
  have e: "in_data_anchors t m = in_data_anchors s m \<and> out_data_anchors t m = out_data_anchors s m \<and>
      GetInControlAnchor t m = GetInControlAnchor s m \<and> GetOutControlAnchor t m = GetOutControlAnchor s m \<and>
      (nodes t m = None \<longleftrightarrow> nodes s m = None) \<and> (GetOpDesc t m = None \<longleftrightarrow> GetOpDesc s m = None)" for m
    using x [of m]
    by (cases "nodes s m"; cases "nodes t m")
      (auto simp: node_shape_def in_data_anchors_def out_data_anchors_def GetInControlAnchor_def
        GetOutControlAnchor_def GetOpDesc_def)
  show "in_data_anchors t = in_data_anchors s" "out_data_anchors t = out_data_anchors s"
    "GetInControlAnchor t = GetInControlAnchor s" "GetOutControlAnchor t = GetOutControlAnchor s"
    "nodes t n = None \<longleftrightarrow> nodes s n = None" "GetOpDesc t n = None \<longleftrightarrow> GetOpDesc s n = None"
    using e by auto
qed

lemma node_inv_shape:
  assumes "node_inv s" "same_shape s t"
  shows "node_inv t"
proof -
  have a: "anchors t = anchors s" "next_addr t = next_addr s" using assms(2) by (simp_all add: same_shape_def)
  note e = anchors_only [OF a(1)] same_shape_members [OF assms(2)] a
  show ?thesis
    using assms(1)
    unfolding node_inv_def nodes_wf_def node_wf_def owns_def placed_def fresh_above_def e .
qed

section \<open>Changing graphs\<close>

text \<open>An operation is \<open>tidy\<close> when it changes attributes of nodes and graphs only, and keeps the
  counters of the node lists.\<close>

definition tidy :: "('z) graph_store_scheme \<Rightarrow> ('z) graph_store_scheme \<Rightarrow> bool" where
  "tidy s t \<longleftrightarrow> same_shape s t \<and> (counted s \<longrightarrow> counted t)"

lemma tidy_refl [simp]: "tidy s s"
  by (simp add: tidy_def)

lemma tidy_trans: "tidy s t \<Longrightarrow> tidy t u \<Longrightarrow> tidy s u"
  using same_shape_trans [of s t u] by (auto simp: tidy_def)

lemma graph_inv_tidy: "graph_inv s \<Longrightarrow> tidy s t \<Longrightarrow> graph_inv t"
  using node_inv_shape [of s t] by (auto simp: graph_inv_def tidy_def)

definition keeps_count :: "(compute_graph \<Rightarrow> compute_graph) \<Rightarrow> bool" where
  "keeps_count f \<longleftrightarrow> (\<forall>x. g_direct_nodes_size x = length (g_nodes x) \<longrightarrow>
     g_direct_nodes_size (f x) = length (g_nodes (f x)))"

lemma tidy_upd_graph: "keeps_count f \<Longrightarrow> tidy s (upd_graph g f s)"
  by (auto simp: tidy_def same_shape_def upd_graph_def counted_def keeps_count_def)

lemma tidy_upd_node: "(\<And>x. node_shape (f x) = node_shape x) \<Longrightarrow> tidy s (upd_node n f s)"
  using same_shape_upd [of f s n] by (simp add: tidy_def counted_def upd_node_def)

named_theorems tidy \<open>operations that are tidy\<close>

lemma tidy_node_attrs [tidy]:
  "tidy s (SetHostNode n b s)" "tidy s (SetId n i s)" "tidy s (SetParentIndex n k s)"
  "tidy s (fst (SetOwnerComputeGraph n g s))" "tidy s (fst (SetAnyOwnerComputeGraph n g s))"
  "tidy s (fst (SetAllAnchorStatus p s))"
  by (auto simp: SetHostNode_def SetId_def SetParentIndex_def SetOwnerComputeGraph_def
      SetAnyOwnerComputeGraph_def SetAllAnchorStatus_def node_shape_def intro!: tidy_upd_node split: option.split)

lemma tidy_UpdateOpDesc [tidy]: "tidy s (fst (UpdateOpDesc n d s))"
proof (cases "nodes s n")
  case (Some x)
  have "tidy s (upd_node n (n_op_update (\<lambda>_. Some d')) s)" if "n_op x \<noteq> None" for d'
    using that Some by (auto simp: tidy_def same_shape_def counted_def upd_node_def node_shape_def)
  then show ?thesis using Some by (auto simp: UpdateOpDesc_def GetOpDesc_def split: option.split)
qed (simp add: UpdateOpDesc_def GetOpDesc_def)

lemma tidy_node_list [tidy]:
  "tidy s (InsertToNodeList g i n s)" "tidy s (PushBackToNodeList g n s)" "tidy s (ClearNodeList g s)"
  by (auto simp: InsertToNodeList_def PushBackToNodeList_def ClearNodeList_def keeps_count_def
      intro!: tidy_upd_graph)

lemma tidy_graph_attrs [tidy]:
  "tidy s (upd_graph g (g_input_nodes_update f1) s)" "tidy s (upd_graph g (g_output_nodes_info_update f2) s)"
  "tidy s (upd_graph g (g_out_nodes_map_update f3) s)" "tidy s (upd_graph g (g_sub_graph_update f4) s)"
  "tidy s (upd_graph g (g_is_valid_flag_update f5) s)" "tidy s (upd_graph g (g_parent_graph_update f6) s)"
  "tidy s (upd_graph g (g_parent_node_update f7) s)" "tidy s (upd_graph g (g_names_to_subgraph_update f8) s)"
  by (auto simp: keeps_count_def intro!: tidy_upd_graph)

text \<open>Erasing is counted right because the position comes from a search in the list.\<close>

lemma tidy_erase:
  assumes "find_node_pos s g n = Some i"
  shows "tidy s (EraseFromNodeList g i s)"
proof (cases "graphs s g")
  case (Some x)
  then have "i < length (g_nodes x)"
    using find_index_Some [of "\<lambda>m. m = n" "g_nodes x" i] assms by (simp add: find_node_pos_def graph_nodes_def)
  then show ?thesis
    using Some by (auto simp: tidy_def same_shape_def EraseFromNodeList_def upd_graph_def counted_def erase_at_def)
qed (use assms in \<open>simp add: find_node_pos_def graph_nodes_def\<close>)

lemma tidy_fold: "(\<And>x s. x \<in> set xs \<Longrightarrow> tidy s (f x s)) \<Longrightarrow> tidy s (fold f xs s)"
  by (induction xs arbitrary: s) (auto intro: tidy_trans)

lemma tidy_AddNode [tidy]:
  "tidy s (snd (AddNode g p s))" "tidy s (snd (AddNodeFront g p s))"
  by (auto simp: AddNode_def AddNodeFront_def Let_def intro!: tidy split: option.split
      intro: tidy_trans [OF tidy_node_attrs(1)] tidy_trans [OF tidy_trans [OF tidy_node_attrs(1) tidy_node_attrs(2)]])

lemma tidy_AddIONode [tidy]:
  "tidy s (snd (AddInputNode g p s))" "tidy s (snd (AddOutputNodeByIndex g p i s))"
  "tidy s (snd (AddOutputNode g p s))"
proof -
  show "tidy s (snd (AddInputNode g p s))"
    by (auto simp: AddInputNode_def Let_def tidy split: option.split prod.split
        intro: tidy_trans [OF tidy_graph_attrs(1)] dest!: arg_cong [where f = snd] intro!: tidy)
  show o: "tidy s (snd (AddOutputNodeByIndex g p i s))" for i
  proof (cases p)
    case (Some n)
    have *: "tidy s (snd (if n \<notin> set (graph_nodes u g)
        then (case AddNode g (Some n) u of (r, s2) \<Rightarrow> (if r = None then None else Some m, s2)) else (Some m, u)))"
      if "tidy s u" for u m
      using tidy_trans [OF that tidy_AddNode(1) [of u g "Some n"]] that by (simp add: case_prod_unfold)
    have "tidy s (snd (AddOutputNodeByIndex g (Some n) i s))" if "GetOpDesc s n \<noteq> None"
      unfolding AddOutputNodeByIndex_def option.case Let_def if_not_P [OF that]
      by (rule *) (simp add: tidy)
    then show ?thesis by (cases "GetOpDesc s n = None") (simp_all add: Some AddOutputNodeByIndex_def)
  qed (simp add: AddOutputNodeByIndex_def)
  show "tidy s (snd (AddOutputNode g p s))" unfolding AddOutputNode_def by (rule o)
qed

lemma tidy_RemoveIONode [tidy]:
  "tidy s (fst (RemoveInputNode g p s))" "tidy s (fst (RemoveOutputNode g p s))"
  "tidy s (fst (RemoveJustNode g p s))" "tidy s (fst (RemoveJustNode_ptr q p s))"
  by (auto simp: RemoveInputNode_def RemoveOutputNode_def RemoveJustNode_def RemoveJustNode_ptr_def Let_def tidy tidy_erase
      split: option.split)

lemma tidy_subgraphs [tidy]:
  "tidy s (snd (AddSubGraph g p s))" "tidy s (fst (AddSubgraph g name p s))"
  "tidy s (RemoveSubgraph g name s)" "tidy s (SetParentGraph g p s)" "tidy s (SetParentNode g p s)"
  by (auto simp: AddSubGraph_def AddSubgraph_def RemoveSubgraph_def Let_def
      SetParentGraph_def SetParentNode_def keeps_count_def tidy split: option.split
      intro!: tidy_upd_graph)

lemma tidy_subgraphs_own [tidy]:
  "tidy s (fst (AddSubgraph_own g p s))" "tidy s (RemoveSubgraph_own g p s)"
  by (auto simp: AddSubgraph_own_def RemoveSubgraph_own_def tidy split: option.split)

lemma tidy_AppendInputNode [tidy]: "tidy s (fst (AppendInputNode g p s))"
proof -
  obtain q s1 where e: "AddInputNode g p s = (q, s1)" by fastforce
  have 1: "tidy s s1" using tidy_AddIONode(1) [of s g p] by (simp add: e)
  show ?thesis
    using 1 by (auto simp: AppendInputNode_def e keeps_count_def split: option.split
        intro!: tidy_trans [OF 1] tidy_upd_graph)
qed

lemma tidy_RemoveSubGraph [tidy]: "tidy s (fst (RemoveSubGraph g p s))"
proof (cases p)
  case (Some h)
  have 1: "tidy s (upd_graph g (\<lambda>x. x\<lparr>g_names_to_subgraph := (g_names_to_subgraph x)(graph_name s h := None)\<rparr>) s)"
    by (rule tidy_upd_graph) (simp add: keeps_count_def)
  from tidy_trans [OF 1 tidy_graph_attrs(4)] 1 show ?thesis
    by (simp add: RemoveSubGraph_def Some Let_def split: option.split)
qed (simp add: RemoveSubGraph_def)

lemma tidy_mapping [tidy]:
  "tidy s (fst (UpdateInputMapping g m s))" "tidy s (SetUserDefOutput g name s)"
  by (auto simp: UpdateInputMapping_def SetUserDefOutput_def update_input_index_def tidy
      intro!: tidy_fold split: option.split)

section \<open>Sorting and reordering\<close>

lemma tidy_set_ids [tidy]: "tidy s (set_ids i ns s)"
  by (induction ns arbitrary: i s) (auto intro: tidy_trans [OF tidy_node_attrs(2)])

lemma tidy_TopologicalSortingGraph:
  assumes "TopologicalSortingGraph g run_mode reverse s = Some (t, st)"
  shows "tidy s t"
proof -
  obtain ns where "t = s \<or> t = upd_graph g (g_is_valid_flag_update (\<lambda>_. True))
      (fold (PushBackToNodeList g) ns (set_ids 0 ns (ClearNodeList g s)))"
    using assms by (auto simp: TopologicalSortingGraph_def Let_def bind_eq_Some_conv split: if_splits)
  moreover have "tidy s (upd_graph g (g_is_valid_flag_update (\<lambda>_. True))
      (fold (PushBackToNodeList g) ns (set_ids 0 ns (ClearNodeList g s))))"
    by (rule tidy_trans [OF tidy_trans [OF tidy_trans [OF tidy_node_list(3) tidy_set_ids] tidy_fold]
          tidy_graph_attrs(5)]) (rule tidy)
  ultimately show ?thesis by auto
qed

lemma tidy_sort_graphs: "sort_graphs gs run_mode s = Some (t, st) \<Longrightarrow> tidy s t"
proof (induction gs arbitrary: s)
  case (Cons g gs)
  then obtain s1 st1 where "TopologicalSortingGraph g run_mode False s = Some (s1, st1)"
      "t = s1 \<or> sort_graphs gs run_mode s1 = Some (t, st)"
    by (auto simp: bind_eq_Some_conv split: if_splits)
  then show ?case using Cons.IH tidy_TopologicalSortingGraph tidy_trans by blast
qed simp

lemma tidy_TopologicalSorting:
  assumes "TopologicalSorting g run_mode s = Some (t, st)"
  shows "tidy s t"
proof -
  obtain s1 st1 where 1: "TopologicalSortingGraph g run_mode False s = Some (s1, st1)"
    using assms by (auto simp: TopologicalSorting_def bind_eq_Some_conv)
  have t1: "tidy s s1" by (rule tidy_TopologicalSortingGraph [OF 1])
  have "t = s1 \<or> (\<exists>s2 st2. sort_graphs (sub_graphs s1 g) run_mode s1 = Some (s2, st2) \<and>
      (t = s2 \<or> (\<exists>ns f. t = set_ids 0 ns s2 \<or> t = upd_graph g (g_sub_graph_update f) (set_ids 0 ns s2))))"
    using assms 1
    by (auto simp: TopologicalSorting_def Let_def bind_eq_Some_conv split: if_splits)
  then show ?thesis
  proof (elim disjE exE conjE)
    fix s2 st2 ns f
    assume 2: "sort_graphs (sub_graphs s1 g) run_mode s1 = Some (s2, st2)"
    note t2 = tidy_trans [OF t1 tidy_sort_graphs [OF 2]]
    show "tidy s t" if "t = s2" using t2 that by simp
    show "tidy s t" if "t = set_ids 0 ns s2" using tidy_trans [OF t2 tidy_set_ids] that by simp
    show "tidy s t" if "t = upd_graph g (g_sub_graph_update f) (set_ids 0 ns s2)"
      using tidy_trans [OF tidy_trans [OF t2 tidy_set_ids] tidy_graph_attrs(4)] that by simp
  qed (use t1 in simp)
qed

lemma tidy_ReorderEventNodes:
  assumes "ReorderEventNodes g s = Some t"
  shows "tidy s t"
proof -
  obtain l where l: "reorder_events s (graph_nodes s g) (graph_nodes s g) = Some l"
      and t: "t = upd_graph g (g_nodes_update (\<lambda>_. l)) s"
    using assms by (auto simp: ReorderEventNodes_def GetDirectNode_def)
  have "length l = length (graph_nodes s g)" using reorder_events_mset [OF l] mset_eq_length by blast
  then show ?thesis
    unfolding t by (auto simp: tidy_def same_shape_def upd_graph_def counted_def graph_nodes_def)
qed

lemma tidy_renumber_nodes: "tidy s (renumber_nodes g i ns s)"
proof (induction ns arbitrary: i s)
  case (Cons n ns)
  have "tidy s (PushBackToNodeList g n (SetId n i s))"
    using tidy_trans [OF tidy_node_attrs(2) tidy_node_list(2)] .
  then show ?case
    using Cons.IH [of s "i + 1"] tidy_trans [OF _ Cons.IH]
    by (cases "GetOpDesc s n = None") (simp_all add: renumber_nodes.simps(2))
qed simp

lemma tidy_InsertEventNodes:
  assumes "InsertEventNodes g s = Some (t, st)"
  shows "tidy s t"
proof -
  obtain s1 where 1: "ReorderEventNodes g s = Some s1"
      and t: "t = renumber_nodes g 0 (graph_nodes s1 g) (ClearNodeList g s1)"
    using assms by (auto simp: InsertEventNodes_def)
  show ?thesis
    unfolding t by (rule tidy_trans [OF tidy_trans [OF tidy_ReorderEventNodes [OF 1] tidy_node_list(3)]
          tidy_renumber_nodes])
qed

lemma tidy_reorder_graphs: "reorder_graphs gs s = Some t \<Longrightarrow> tidy s t"
proof (induction gs arbitrary: s)
  case (Cons g gs)
  then obtain s1 where "ReorderEventNodes g s = Some s1" "reorder_graphs gs s1 = Some t"
    by (auto simp: bind_eq_Some_conv)
  then show ?case using Cons.IH tidy_ReorderEventNodes tidy_trans by blast
qed simp

lemma tidy_InsertGraphEvents:
  assumes "InsertGraphEvents g s = Some (t, st)"
  shows "tidy s t"
proof -
  obtain s1 s2 ns where 1: "ReorderEventNodes g s = Some s1" "reorder_graphs (sub_graphs s1 g) s1 = Some s2"
      and t: "t = set_ids 0 ns s2"
    using assms by (auto simp: InsertGraphEvents_def bind_eq_Some_conv)
  show ?thesis
    unfolding t by (rule tidy_trans [OF tidy_trans [OF tidy_ReorderEventNodes [OF 1(1)]
          tidy_reorder_graphs [OF 1(2)]] tidy_set_ids])
qed

end
