(* ===== verification/Graph_Steps.thy ===== *)
theory Graph_Steps
  imports Graph_Inv
begin

text \<open>
  Creating nodes and anchors keeps the store's invariant, and with the operations of
  Rewire_Steps and Graph_Inv every state a program can reach through them has it.
\<close>

section \<open>Creating an anchor\<close>

text \<open>One step of \<^verbatim>\<open>Node::Init\<close>: a new anchor, stored in the member of its class.\<close>

definition attach_member :: "anchor_class \<Rightarrow> nat \<Rightarrow> node \<Rightarrow> node" where
  "attach_member c a x =
     (case c of
        InDataAnchor \<Rightarrow> n_in_data_update (\<lambda>as. as @ [a]) x
      | OutDataAnchor \<Rightarrow> n_out_data_update (\<lambda>as. as @ [a]) x
      | InControlAnchor \<Rightarrow> n_in_control_update (\<lambda>_. Some a) x
      | OutControlAnchor \<Rightarrow> n_out_control_update (\<lambda>_. Some a) x
      | _ \<Rightarrow> x)"

definition attach :: "anchor_class \<Rightarrow> nat \<Rightarrow> int \<Rightarrow> ('z) node_store_scheme \<Rightarrow> ('z) node_store_scheme" where
  "attach c n i s = upd_node n (attach_member c (next_addr s)) (snd (alloc_anchor c n i s))"

text \<open>What makes the new anchor's identity new: the next free index, or no control anchor yet.\<close>

definition attachable :: "anchor_class \<Rightarrow> nat \<Rightarrow> int \<Rightarrow> ('z) node_store_scheme \<Rightarrow> bool" where
  "attachable c n i s \<longleftrightarrow> nodes s n \<noteq> None \<and>
     (c = InDataAnchor \<and> i = int (length (in_data_anchors s n)) \<or>
      c = OutDataAnchor \<and> i = int (length (out_data_anchors s n)) \<or>
      c = InControlAnchor \<and> GetInControlAnchor s n = None \<or>
      c = OutControlAnchor \<and> GetOutControlAnchor s n = None)"

lemma key_of_owned:
  assumes "key_of s b = Some (anchor_key (new_anchor c n i))"
  shows "owns s c n b \<and> (c = InDataAnchor \<or> c = OutDataAnchor \<longrightarrow> GetIdx s b = i)"
  using assms
  by (auto simp: key_of_def anchor_key_def new_anchor_def owns_def class_of_def GetOwnerNode_def GetIdx_def
      split: if_splits option.splits)

lemma attachable_fresh:
  assumes "node_inv s" "attachable c n i s"
  shows "key_of s b \<noteq> Some (anchor_key (new_anchor c n i))"
proof
  assume "key_of s b = Some (anchor_key (new_anchor c n i))"
  from key_of_owned [OF this] have o: "owns s c n b" and x: "c = InDataAnchor \<or> c = OutDataAnchor \<Longrightarrow> GetIdx s b = i"
    by simp_all
  have wf: "node_wf s n" using node_invD(2) [OF assms(1)] assms(2) by (simp add: nodes_wf_def attachable_def)
  have p: "placed s" by (rule node_invD(3) [OF assms(1)])
  have "\<exists>k<length as. as ! k = b" if "b \<in> set as" for as using that by (simp add: in_set_conv_nth)
  then show False
    using assms(2) o x p node_wfD(1-4) [OF wf, of b]
    by (fastforce simp: attachable_def placed_def)
qed

lemma attach_fields:
  "anchors (attach c n i s) = (anchors s)(next_addr s \<mapsto> new_anchor c n i)"
  "next_addr (attach c n i s) = Suc (next_addr s)"
  "nodes (attach c n i s) = (nodes s)(n := map_option (attach_member c (next_addr s)) (nodes s n))"
  by (simp_all add: attach_def alloc_anchor_def add_anchor_def upd_node_def)

lemma attach_anchors:
  "class_of (attach c n i s) = (class_of s)(next_addr s \<mapsto> c)"
  "GetOwnerNode (attach c n i s) b = (if b = next_addr s then Some n else GetOwnerNode s b)"
  "GetIdx (attach c n i s) b = (if b = next_addr s then i else GetIdx s b)"
  by (auto simp: class_of_def GetOwnerNode_def GetIdx_def attach_fields new_anchor_def)

lemma attach_members:
  assumes "nodes s n \<noteq> None"
  shows "in_data_anchors (attach c n i s) m =
      in_data_anchors s m @ (if m = n \<and> c = InDataAnchor then [next_addr s] else [])"
    "out_data_anchors (attach c n i s) m =
      out_data_anchors s m @ (if m = n \<and> c = OutDataAnchor then [next_addr s] else [])"
    "GetInControlAnchor (attach c n i s) m =
      (if m = n \<and> c = InControlAnchor then Some (next_addr s) else GetInControlAnchor s m)"
    "GetOutControlAnchor (attach c n i s) m =
      (if m = n \<and> c = OutControlAnchor then Some (next_addr s) else GetOutControlAnchor s m)"
    "GetOpDesc (attach c n i s) m = GetOpDesc s m"
    "nodes (attach c n i s) m = None \<longleftrightarrow> nodes s m = None"
  using assms
  by (cases c; force simp: in_data_anchors_def out_data_anchors_def GetInControlAnchor_def
      GetOutControlAnchor_def GetOpDesc_def attach_fields attach_member_def split: option.split)+

lemma attach_owns:
  "owns (attach c n i s) d m b \<longleftrightarrow> (if b = next_addr s then d = c \<and> m = n else owns s d m b)"
  by (auto simp: owns_def attach_anchors)

lemma attach_node_wf:
  assumes inv: "node_inv s" and a: "attachable c n i s" and m: "nodes s m \<noteq> None"
  shows "node_wf (attach c n i s) m"
proof -
  have wf: "node_wf s m" using node_invD(2) [OF inv] m by (simp add: nodes_wf_def)
  have f: "anchors s (next_addr s) = None" using node_invD(4) [OF inv] by (simp add: fresh_above_def)
  have no: "\<not> owns s d m (next_addr s)" for d by (simp add: owns_def class_of_def f)
  note w = node_wfD [OF wf]
  have n: "nodes s n \<noteq> None" using a by (simp add: attachable_def)
  have ctrl: "m = n \<Longrightarrow> c = InControlAnchor \<Longrightarrow> \<not> owns s InControlAnchor m b"
    "m = n \<Longrightarrow> c = OutControlAnchor \<Longrightarrow> \<not> owns s OutControlAnchor m b" for b
    using a w(3,4) [of b] by (auto simp: attachable_def)
  have out: "next_addr s \<notin> set (in_data_anchors s m)" "next_addr s \<notin> set (out_data_anchors s m)"
    "GetInControlAnchor s m \<noteq> Some (next_addr s)" "GetOutControlAnchor s m \<noteq> Some (next_addr s)"
    using w no by blast+
  show ?thesis
    unfolding node_wf_def attach_members [OF n] attach_owns
  proof (intro conjI allI)
    fix b
    show "b \<in> set (in_data_anchors s m @ (if m = n \<and> c = InDataAnchor then [next_addr s] else [])) \<longleftrightarrow>
        (if b = next_addr s then InDataAnchor = c \<and> m = n else owns s InDataAnchor m b)"
      using w(1) [of b] out(1) by auto
    show "b \<in> set (out_data_anchors s m @ (if m = n \<and> c = OutDataAnchor then [next_addr s] else [])) \<longleftrightarrow>
        (if b = next_addr s then OutDataAnchor = c \<and> m = n else owns s OutDataAnchor m b)"
      using w(2) [of b] out(2) by auto
    show "(if m = n \<and> c = InControlAnchor then Some (next_addr s) else GetInControlAnchor s m) = Some b \<longleftrightarrow>
        (if b = next_addr s then InControlAnchor = c \<and> m = n else owns s InControlAnchor m b)"
      using w(3) [of b] out(3) ctrl(1) [of b] by auto
    show "(if m = n \<and> c = OutControlAnchor then Some (next_addr s) else GetOutControlAnchor s m) = Some b \<longleftrightarrow>
        (if b = next_addr s then OutControlAnchor = c \<and> m = n else owns s OutControlAnchor m b)"
      using w(4) [of b] out(4) ctrl(2) [of b] by auto
  qed (use w(5-7) out in auto)
qed

lemma attach_inv:
  assumes inv: "node_inv s" and a: "attachable c n i s"
  shows "node_inv (attach c n i s)"
proof -
  have f: "anchors s (next_addr s) = None" and up: "fresh_above s" and n: "nodes s n \<noteq> None"
    using node_invD(4) [OF inv] a by (simp_all add: fresh_above_def attachable_def)
  have c: "is_in c \<or> is_out c" using a by (auto simp: attachable_def is_in_def is_out_def)
  have "anchor_inv (add_anchor (next_addr s) c n i s)"
    by (rule anchor_inv_add [OF node_invD(1) [OF inv] f c]) (rule attachable_fresh [OF inv a])
  then have "anchor_inv (attach c n i s)"
    using anchors_only(7) [of "attach c n i s" "add_anchor (next_addr s) c n i s"]
    by (simp add: attach_fields add_anchor_def)
  moreover have "nodes_wf (attach c n i s)"
    using attach_node_wf [OF inv a] attach_members(6) [OF n] by (simp add: nodes_wf_def)
  moreover have "placed (attach c n i s)"
  proof -
    have "x \<in> set (in_data_anchors s m) \<or> x \<in> set (out_data_anchors s m) \<Longrightarrow> x \<noteq> next_addr s" for x m
      using node_member_typed(1,2) [OF node_invD(2) [OF inv], of x m] f by (auto simp: class_of_def)
    then have "k < length (in_data_anchors s m) \<Longrightarrow> in_data_anchors s m ! k \<noteq> next_addr s"
      "k < length (out_data_anchors s m) \<Longrightarrow> out_data_anchors s m ! k \<noteq> next_addr s" for k m
      using nth_mem by metis+
    then show ?thesis
      using node_invD(3) [OF inv] a
      by (auto simp: placed_def attach_members [OF n] attach_anchors nth_append attachable_def less_Suc_eq
          split: if_splits)
  qed
  moreover have "fresh_above (attach c n i s)"
  proof -
    have "n < next_addr s" using up n by (auto simp: fresh_above_def not_less [symmetric])
    then show ?thesis using up by (auto simp: fresh_above_def attach_fields attach_anchors less_Suc_eq)
  qed
  ultimately show ?thesis by (simp add: node_inv_def)
qed

section \<open>Creating a node\<close>

lemma attach_member_eqs:
  "attach_member InDataAnchor a = n_in_data_update (\<lambda>as. as @ [a])"
  "attach_member OutDataAnchor a = n_out_data_update (\<lambda>as. as @ [a])"
  "attach_member InControlAnchor a = n_in_control_update (\<lambda>_. Some a)"
  "attach_member OutControlAnchor a = n_out_control_update (\<lambda>_. Some a)"
  by (simp_all add: attach_member_def fun_eq_iff)

lemma init_data_attach:
  "init_in_data n is s = fold (attach InDataAnchor n) is s"
  "init_out_data n is s = fold (attach OutDataAnchor n) is s"
  by (induction "is" arbitrary: s) (simp_all add: attach_def alloc_anchor_def attach_member_eqs)

lemma attach_both:
  "upd_node n (n_out_control_update (\<lambda>_. Some (fst (alloc_anchor OutControlAnchor n j t))))
     (upd_node n (n_in_control_update (\<lambda>_. Some (fst (alloc_anchor InControlAnchor n i s))))
       (snd (alloc_anchor OutControlAnchor n j t))) =
   attach OutControlAnchor n j (attach InControlAnchor n i s)"
  if "t = snd (alloc_anchor InControlAnchor n i s)"
  unfolding that
  by (simp add: attach_def alloc_anchor_def attach_member_eqs add_anchor_def upd_node_def option.map_comp comp_def)

text \<open>What the loops of \<^verbatim>\<open>Init\<close> do to the node they initialise.\<close>

lemma attach_data_loop:
  assumes inv: "node_inv s" and n: "nodes s n \<noteq> None"
    and c: "c = InDataAnchor \<and> in_data_anchors s n = [] \<or> c = OutDataAnchor \<and> out_data_anchors s n = []"
  shows "node_inv (fold (attach c n) (map int [0..<k]) s) \<and>
    nodes (fold (attach c n) (map int [0..<k]) s) n \<noteq> None \<and>
    length ((if c = InDataAnchor then in_data_anchors else out_data_anchors)
      (fold (attach c n) (map int [0..<k]) s) n) = k \<and>
    (c = InDataAnchor \<longrightarrow> out_data_anchors (fold (attach c n) (map int [0..<k]) s) n = out_data_anchors s n) \<and>
    GetInControlAnchor (fold (attach c n) (map int [0..<k]) s) n = GetInControlAnchor s n \<and>
    GetOutControlAnchor (fold (attach c n) (map int [0..<k]) s) n = GetOutControlAnchor s n"
proof (induction k)
  case 0
  then show ?case using assms by auto
next
  case (Suc k)
  let ?t = "fold (attach c n) (map int [0..<k]) s"
  have t: "nodes ?t n \<noteq> None" using Suc by simp
  have "attachable c n (int k) ?t" using Suc c by (auto simp: attachable_def)
  then have "node_inv (attach c n (int k) ?t)" using Suc attach_inv by blast
  then show ?case using Suc c by (auto simp: attach_members)
qed

lemma attach_controls:
  assumes "node_inv s" "nodes s n \<noteq> None" "GetInControlAnchor s n = None" "GetOutControlAnchor s n = None"
  shows "node_inv (attach OutControlAnchor n j (attach InControlAnchor n i s))"
proof -
  have 1: "node_inv (attach InControlAnchor n i s)"
    using assms by (intro attach_inv) (simp_all add: attachable_def)
  show ?thesis
    using assms by (intro attach_inv [OF 1]) (simp add: attachable_def attach_members)
qed

lemma Init_attach:
  assumes "nodes s n = Some x" "\<not> n_has_init x" "n_op x = Some op"
  shows "fst (Init n s) = upd_node n (n_has_init_update (\<lambda>_. True))
    (attach OutControlAnchor n (-1) (attach InControlAnchor n (-1)
      (fold (attach OutDataAnchor n) (map int [0..<op_outputs op])
        (fold (attach InDataAnchor n) (map int [0..<op_inputs op]) s))))"
  using assms
  by (simp add: Init_def init_data_attach Let_def case_prod_unfold attach_both)

lemma Init_inv:
  assumes "node_inv s" "nodes s n = Some x" "\<not> n_has_init x" "n_op x = Some op"
    "n_in_data x = []" "n_out_data x = []" "n_in_control x = None" "n_out_control x = None"
  shows "node_inv (fst (Init n s))"
proof -
  let ?s1 = "fold (attach InDataAnchor n) (map int [0..<op_inputs op]) s"
  let ?s2 = "fold (attach OutDataAnchor n) (map int [0..<op_outputs op]) ?s1"
  have e: "nodes s n \<noteq> None" "in_data_anchors s n = []" "out_data_anchors s n = []"
    "GetInControlAnchor s n = None" "GetOutControlAnchor s n = None"
    using assms by (simp_all add: in_data_anchors_def out_data_anchors_def GetInControlAnchor_def GetOutControlAnchor_def)
  note 1 = attach_data_loop [OF assms(1) e(1), of InDataAnchor "op_inputs op"]
  note 2 = attach_data_loop [of ?s1 n OutDataAnchor "op_outputs op"]
  have "node_inv ?s2 \<and> nodes ?s2 n \<noteq> None \<and> GetInControlAnchor ?s2 n = None \<and> GetOutControlAnchor ?s2 n = None"
    using 1 2 e by simp
  then have "node_inv (attach OutControlAnchor n (-1) (attach InControlAnchor n (-1) ?s2))"
    by (intro attach_controls) simp_all
  then show ?thesis
    unfolding Init_attach [OF assms(2-4)]
    by (rule node_inv_shape) (rule same_shape_upd, simp add: node_shape_def)
qed

lemma new_node_inv:
  assumes inv: "node_inv s"
  shows "node_inv (s\<lparr>nodes := (nodes s)(next_addr s \<mapsto> new_node (Some op) g), next_addr := Suc (next_addr s)\<rparr>)"
    (is "node_inv ?t")
proof -
  have up: "fresh_above s" by (rule node_invD(4) [OF inv])
  have old: "nodes s (next_addr s) = None" using up by (simp add: fresh_above_def)
  have own: "GetOwnerNode s a \<noteq> Some (next_addr s)" for a using up by (auto simp: fresh_above_def)
  have a: "anchors ?t = anchors s" by simp
  note e = anchors_only [OF a]
  have m: "in_data_anchors ?t n = in_data_anchors s n" "out_data_anchors ?t n = out_data_anchors s n"
    "GetInControlAnchor ?t n = GetInControlAnchor s n" "GetOutControlAnchor ?t n = GetOutControlAnchor s n" for n
    using old by (simp_all add: in_data_anchors_def out_data_anchors_def GetInControlAnchor_def
        GetOutControlAnchor_def new_node_def)
  have "node_wf ?t n" if "nodes ?t n \<noteq> None" for n
  proof (cases "n = next_addr s")
    case True
    have "in_data_anchors s n = []" "out_data_anchors s n = []" "GetInControlAnchor s n = None" "GetOutControlAnchor s n = None"
      using old True by (simp_all add: in_data_anchors_def out_data_anchors_def GetInControlAnchor_def GetOutControlAnchor_def)
    moreover have "GetOpDesc ?t n \<noteq> None" using True by (simp add: GetOpDesc_def new_node_def)
    ultimately show ?thesis using own True by (simp add: node_wf_def m owns_def e)
  next
    case False
    then have "node_wf s n" using that node_invD(2) [OF inv] by (simp add: nodes_wf_def)
    moreover have "GetOpDesc ?t n = GetOpDesc s n" using False by (simp add: GetOpDesc_def)
    ultimately show ?thesis by (simp add: node_wf_def m owns_def e)
  qed
  moreover have "placed ?t" using node_invD(3) [OF inv] by (simp add: placed_def m e)
  moreover have "fresh_above ?t" using up by (auto simp: fresh_above_def e less_Suc_eq)
  ultimately show ?thesis using node_invD(1) [OF inv] by (simp add: node_inv_def nodes_wf_def e)
qed

lemma graphs_of_upd_node [simp]: "graphs (upd_node n f s) = graphs s"
  by (simp add: upd_node_def)

lemma graphs_fold_attach [simp]: "graphs (fold (attach c n) is s) = graphs s"
  by (induction "is" arbitrary: s) (simp_all add: attach_def alloc_anchor_def add_anchor_def)

lemma graphs_attach [simp]: "graphs (attach c n i s) = graphs s"
  by (simp add: attach_def alloc_anchor_def add_anchor_def)

lemma alloc_node_inv:
  assumes "graph_inv s"
  shows "graph_inv (snd (alloc_node g op s))"
proof -
  let ?s = "s\<lparr>nodes := (nodes s)(next_addr s \<mapsto> new_node (Some op) (Some g)), next_addr := Suc (next_addr s)\<rparr>"
  have x: "nodes ?s (next_addr s) = Some (new_node (Some op) (Some g))" by simp
  have "node_inv (fst (Init (next_addr s) ?s))"
    using assms by (intro Init_inv [OF new_node_inv x]) (simp_all add: graph_inv_def new_node_def)
  moreover have "graphs (fst (Init (next_addr s) ?s)) = graphs s"
    using Init_attach [OF x, of op] by (simp add: new_node_def)
  ultimately show ?thesis
    using assms by (simp add: graph_inv_def counted_def alloc_node_def Let_def)
qed

lemma AddNode_op_inv:
  assumes "graph_inv s"
  shows "graph_inv (snd (AddNode_op g op s))" "graph_inv (snd (AddNodeFront_op g op s))"
    "graph_inv (snd (AddNode_op_id g op i s))"
proof -
  note a = alloc_node_inv [OF assms]
  show "graph_inv (snd (AddNode_op g op s))" "graph_inv (snd (AddNodeFront_op g op s))"
    using assms graph_inv_tidy [OF a tidy_AddNode(1)] graph_inv_tidy [OF a tidy_AddNode(2)]
    by (simp_all add: AddNode_op_def AddNodeFront_op_def case_prod_unfold Let_def split: option.split)
  show "graph_inv (snd (AddNode_op_id g op i s))"
    using assms graph_inv_tidy [OF graph_inv_tidy [OF a tidy_node_attrs(1)] tidy_node_list(2)]
    by (simp add: AddNode_op_id_def case_prod_unfold Let_def split: option.split)
qed

lemma AddLinkFromForParse_inv:
  assumes inv: "graph_inv s" and n: "nodes s n \<noteq> None"
  shows "graph_inv (fst (AddLinkFromForParse n p s))"
proof (cases "\<exists>m. p = Some m \<and> length (out_data_anchors s m) = 1")
  case True
  then obtain m where m: "p = Some m" "length (out_data_anchors s m) = 1" by blast
  let ?k = "int (length (in_data_anchors s n))"
  let ?t = "attach InDataAnchor n ?k s"
  have ni: "node_inv s" using inv by (simp add: graph_inv_def)
  have t: "node_inv ?t" by (rule attach_inv [OF ni]) (simp add: attachable_def n)
  have "out_data_anchors s m ! 0 \<in> set (out_data_anchors s m)" using m(2) by (intro nth_mem) simp
  then have o: "class_of ?t (out_data_anchors s m ! 0) = Some OutDataAnchor"
    using node_member_typed(2) [OF node_invD(2) [OF t], of _ m] by (simp add: attach_members [OF n])
  have "class_of ?t (next_addr s) = Some InDataAnchor" by (simp add: attach_anchors)
  then have w: "wired ?t (fst (OutData_LinkTo_InData ?t (out_data_anchors s m ! 0) (Some (next_addr s))))"
    using wired_link(1) [OF wired_start [OF t] o] by blast
  have "graph_inv ?t" using t inv by (simp add: graph_inv_def counted_def)
  from graph_inv_wired [OF this w] show ?thesis
    by (simp add: AddLinkFromForParse_def m case_prod_unfold Let_def attach_def alloc_anchor_def attach_member_eqs)
qed (use inv in \<open>auto simp: AddLinkFromForParse_def Let_def split: option.split\<close>)

section \<open>Composite removals\<close>

lemma graph_inv_each:
  "graph_inv s \<Longrightarrow> (\<And>x s. x \<in> set xs \<Longrightarrow> graph_inv s \<Longrightarrow> graph_inv (fst (f x s))) \<Longrightarrow> graph_inv (fst (each f xs s))"
  by (rule each_keeps)

lemma graph_inv_start:
  assumes "graph_inv s"
  shows "wired s s" "nodes_wf s" "anchor_inv s"
  using assms by (simp_all add: graph_inv_def wired_start node_invD)

lemma graph_inv_RemoveConstInput:
  assumes "graph_inv s"
  shows "graph_inv (fst (RemoveConstInput g p s))"
proof -
  have "graph_inv (fst (remove_const_input_at g a u))" if u: "graph_inv u" for a u
  proof -
    have e: "graph_inv (erase_node g m v)" if "graph_inv v" for m v
      using that graph_inv_tidy [OF that tidy_erase] by (simp add: erase_node_def split: option.split)
    have "graph_inv (fst (and_then (or_failed (RemoveEdge_data (Some b) (Some a) u))
        (\<lambda>s1. (if GetOutNodes s1 m = [] then erase_node g m s1 else s1, GRAPH_SUCCESS))))" for b m
    proof (rule and_then_keeps)
      show "graph_inv (fst (or_failed (RemoveEdge_data (Some b) (Some a) u)))"
        using graph_inv_wired [OF u wired_RemoveEdge(1) [OF graph_inv_start(1) [OF u]]] by simp
    qed (simp add: e)
    then show ?thesis using u by (simp add: remove_const_input_at_def split: option.split)
  qed
  then show ?thesis
    using assms by (auto simp: RemoveConstInput_def intro!: graph_inv_each split: option.split)
qed

lemma graph_inv_RemoveNode:
  assumes "graph_inv s"
  shows "graph_inv (fst (RemoveNode g p s))"
proof (cases p)
  case (Some n)
  let ?s3 = "fst (RemoveOutputNode g p (fst (RemoveInputNode g p (fst (RemoveConstInput g p s)))))"
  have 3: "graph_inv ?s3"
    using graph_inv_tidy [OF graph_inv_tidy [OF graph_inv_RemoveConstInput [OF assms] tidy_RemoveIONode(1)]
        tidy_RemoveIONode(2)] .
  have 4: "graph_inv (fst (ComputeGraph_IsolateNode p ?s3))"
    using graph_inv_wired [OF 3 wired_ComputeGraph_IsolateNode [OF graph_inv_start(2,1) [OF 3]]] .
  then show ?thesis
    using graph_inv_tidy [OF 4 tidy_erase]
    by (auto simp: RemoveNode_def Some Let_def case_prod_unfold split: option.split)
qed (simp add: RemoveNode_def assms)

section \<open>Insertion into a link\<close>

lemma same_frame_ReplacePeer:
  assumes "link_inv s" "anchors s old \<noteq> None" "first \<noteq> old"
  shows "same_frame s (fst (ReplacePeer s this (Some old) (Some first) (Some second)))"
proof (cases "old \<in> set (peers s this)")
  case True
  note j = joinable_neq [OF link_inv_joinable [OF assms(1) True]]
  show ?thesis by (simp add: ReplacePeer_eq [OF assms(1) True assms(3) j] same_frame_upd_peers_left)
next
  case False
  with assms show ?thesis by (simp add: ReplacePeer_unlinked link_inv_ident)
qed

lemma wired_InsertNodeBetween:
  fixes s :: "('z) node_store_scheme"
  assumes w: "wired s s" and wf: "nodes_wf s"
    and typed: "typed_ptr s OutDataAnchor p" "typed_ptr s InDataAnchor q"
    and free: "\<And>n a. i = Some n \<Longrightarrow> GetInDataAnchor s n 0 = Some a \<Longrightarrow> peers s a = []"
  shows "wired s (fst (InsertNodeBetweenDataAnchors p q i s))"
proof (cases "\<exists>a b n x y. p = Some a \<and> q = Some b \<and> i = Some n \<and> GetInDataAnchor s n 0 = Some x \<and>
    GetOutDataAnchor s n 0 = Some y")
  case True
  then obtain a b n x y where e: "p = Some a" "q = Some b" "i = Some n" "GetInDataAnchor s n 0 = Some x"
      "GetOutDataAnchor s n 0 = Some y" by blast
  have c: "class_of s a = Some OutDataAnchor" "class_of s b = Some InDataAnchor"
      "class_of s x = Some InDataAnchor" "class_of s y = Some OutDataAnchor" "peers s x = []"
    using typed free e node_data_typed [OF wf, of n 0] by auto
  have inv: "anchor_inv s" "link_inv s" using wired_inv [OF w] by auto
  let ?t = "fst (ReplacePeer s a (Some b) (Some x) (Some y))"
  have "anchor_inv ?t"
    using anchor_step_inv [OF anchor_step.replace inv(1)] c by blast
  moreover have "same_frame s ?t"
  proof (cases "x = b")
    case True
    then have "b \<notin> set (peers s a)" using c(5) link_inv_sym [OF inv(2), of b a] by auto
    moreover have "anchors s b \<noteq> None" using c(2) by (auto simp: class_of_def)
    ultimately show ?thesis
      using ReplacePeer_unlinked [OF link_inv_ident [OF inv(2)], of b a x y] by simp
  next
    case False
    with inv c(2) show ?thesis by (intro same_frame_ReplacePeer) (auto simp: class_of_def)
  qed
  ultimately show ?thesis by (simp add: wired_def InsertNodeBetweenDataAnchors_def e)
next
  case False
  then have "fst (InsertNodeBetweenDataAnchors p q i s) = s"
    by (auto simp: InsertNodeBetweenDataAnchors_def split: option.splits)
  with w show ?thesis by simp
qed

text \<open>The premise is exact.\<close>

lemma InsertNodeBetween_single_source:
  fixes s :: "('z) node_store_scheme"
  assumes inv: "anchor_inv s" and wf: "nodes_wf s"
    and linked: "class_of s a = Some OutDataAnchor" "class_of s b = Some InDataAnchor" "b \<in> set (peers s a)"
    and n: "GetInDataAnchor s n 0 = Some x" "GetOutDataAnchor s n 0 = Some y" "x \<noteq> b"
  shows "single_source (fst (InsertNodeBetweenDataAnchors (Some a) (Some b) (Some n) s)) \<longleftrightarrow> peers s x = []"
proof -
  have "class_of s x = Some InDataAnchor" "class_of s y = Some OutDataAnchor"
    using n node_data_typed [OF wf, of n 0] by auto
  with single_source_ReplacePeer [of s b a x y] inv linked n show ?thesis
    by (simp add: anchor_inv_def InsertNodeBetweenDataAnchors_def)
qed

section \<open>Erasing an input\<close>

lemma SetIdx_GetOwnerNode: "GetOwnerNode (SetIdx a i s) = GetOwnerNode s"
  by (rule ext) (simp add: GetOwnerNode_def SetIdx_def split: option.split)

lemma renumber_from_frame:
  fixes s :: "('z) node_store_scheme"
  shows "class_of (renumber_from i as s) = class_of s" "GetOwnerNode (renumber_from i as s) = GetOwnerNode s"
    "nodes (renumber_from i as s) = nodes s"
proof -
  have "class_of (renumber_from i as s) = class_of s \<and> GetOwnerNode (renumber_from i as s) = GetOwnerNode s \<and>
      nodes (renumber_from i as s) = nodes s"
    by (induction as arbitrary: i s) (simp_all add: SetIdx_frame SetIdx_GetOwnerNode, simp add: SetIdx_def)
  then show "class_of (renumber_from i as s) = class_of s" "GetOwnerNode (renumber_from i as s) = GetOwnerNode s"
    "nodes (renumber_from i as s) = nodes s" by auto
qed

text \<open>The erased anchor still names its node as owner.\<close>

lemma ClearInDataAnchor_breaks:
  fixes s :: "('z) node_store_scheme"
  assumes wf: "node_wf s n" and a: "a \<in> set (in_data_anchors s n)"
  shows "\<not> node_wf (fst (ClearInDataAnchor (Some n) (Some a) s)) n"
proof -
  obtain i where i: "find_index (\<lambda>x. x = a) (in_data_anchors s n) = Some i"
    using find_index_eq_ex [OF a] by blast
  obtain nd where nd: "nodes s n = Some nd"
    using a by (cases "nodes s n") (simp_all add: in_data_anchors_def)
  let ?s1 = "upd_node n (n_in_data_update (erase_at i)) s"
  let ?t = "fst (ClearInDataAnchor (Some n) (Some a) s)"
  have t: "?t = renumber_from (int i) (drop i (in_data_anchors ?s1 n)) ?s1"
    by (simp add: ClearInDataAnchor_def i Let_def)
  have "anchors ?s1 = anchors s" by (simp add: upd_node_def)
  note e = anchors_only(1,2) [OF this]
  have "in_data_anchors ?t n = remove1 a (in_data_anchors s n)"
    using erase_find_eq [OF i] nd
    by (simp add: t in_data_anchors_def renumber_from_frame upd_node_def)
  then have "a \<notin> set (in_data_anchors ?t n)" using wf by (simp add: node_wf_def)
  moreover have "owns ?t InDataAnchor n a"
    using wf a by (simp add: t owns_def renumber_from_frame e node_wf_def)
  ultimately show ?thesis unfolding node_wf_def by blast
qed

section \<open>Formats and states of anchors\<close>

lemma graph_inv_relabel:
  assumes inv: "graph_inv s"
    and f: "\<And>x. a_class (f x) = a_class x" "\<And>x. a_owner (f x) = a_owner x" "\<And>x. a_idx (f x) = a_idx x"
      "\<And>x. a_peers (f x) = a_peers x"
  shows "graph_inv (s\<lparr>anchors := (anchors s)(a := map_option f (anchors s a))\<rparr>)" (is "graph_inv ?t")
proof -
  have k: "anchor_key (f x) = anchor_key x" for x by (simp add: anchor_key_def f)
  have e: "class_of ?t = class_of s" "GetOwnerNode ?t = GetOwnerNode s" "GetIdx ?t = GetIdx s"
      "peers ?t = peers s" "key_of ?t = key_of s"
    by (intro ext, simp add: class_of_def GetOwnerNode_def GetIdx_def peers_def key_of_def f k
        option.map_comp comp_def split: option.split)+
  have e': "anchors ?t b = None \<longleftrightarrow> anchors s b = None" for b by simp
  have j: "joinable ?t = joinable s" by (intro ext) (simp add: joinable_def e)
  have m: "in_data_anchors ?t = in_data_anchors s" "out_data_anchors ?t = out_data_anchors s"
      "GetInControlAnchor ?t = GetInControlAnchor s" "GetOutControlAnchor ?t = GetOutControlAnchor s"
      "GetOpDesc ?t = GetOpDesc s" "nodes ?t = nodes s" "next_addr ?t = next_addr s" "graphs ?t = graphs s"
    by (intro ext, simp add: in_data_anchors_def out_data_anchors_def GetInControlAnchor_def
        GetOutControlAnchor_def GetOpDesc_def split: option.split)+ simp_all
  show ?thesis
    using inv
    unfolding graph_inv_def node_inv_def anchor_inv_def link_inv_def single_source_def ident_wf_def
      nodes_wf_def node_wf_def owns_def placed_def fresh_above_def counted_def e e' j m .
qed

lemma graph_inv_labels:
  assumes "graph_inv s"
  shows "graph_inv (fst (SetFormat s p f))" "graph_inv (fst (SetStatus s p st))"
  using assms graph_inv_relabel [OF assms]
  by (auto simp: SetFormat_def SetStatus_def split: option.split)

lemma graph_inv_AddEdge_format:
  assumes inv: "graph_inv s" and typed: "typed_ptr s OutDataAnchor p" "typed_ptr s InDataAnchor q"
  shows "graph_inv (fst (AddEdge_format p f q k s))"
proof (cases p)
  case (Some a)
  have 1: "graph_inv (fst (OutData_LinkTo_InData s a q))"
    using inv typed Some graph_inv_wired [OF inv wired_link(1) [OF graph_inv_start(1) [OF inv]]]
    by (cases q) auto
  have "graph_inv (fst (and_then (SetFormat u p f) (\<lambda>s2. SetFormat s2 q k)))" if "graph_inv u" for u
    by (rule and_then_keeps) (simp_all add: graph_inv_labels that)
  from 1 this [OF 1] show ?thesis by (simp add: AddEdge_format_def Some case_prod_unfold)
qed (simp add: AddEdge_format_def inv)

section \<open>The operations as a step relation\<close>

text \<open>The state a run ends in, by returning or throwing.\<close>

definition run_state :: "'s run \<Rightarrow> 's option" where
  "run_state r = (case r of Ret s st \<Rightarrow> Some s | Throw s \<Rightarrow> Some s | Crash \<Rightarrow> None | Hang \<Rightarrow> None)"

lemma run_ok_state: "run_ok P r \<Longrightarrow> run_state r = Some t \<Longrightarrow> P t"
  by (cases r) (simp_all add: run_state_def)

text \<open>
  A state changes by one of the operations below, with any arguments of the pointer types its
  signature demands. One rule has a premise of its own: \<^verbatim>\<open>InsertNodeBetweenDataAnchors\<close>
  needs an inserted node whose first input is free, which the code does not check (lemma
  \<open>InsertNodeBetween_single_source\<close>). \<^verbatim>\<open>ClearInDataAnchor\<close> is not among the
  steps: it leaves an anchor behind that its node no longer lists (lemma
  \<open>ClearInDataAnchor_breaks\<close>).
\<close>

inductive edge_step :: "graph_store \<Rightarrow> graph_store \<Rightarrow> bool" where
  add_data: "typed_ptr s OutDataAnchor p \<Longrightarrow> typed_ptr s InDataAnchor q \<Longrightarrow> edge_step s (fst (AddEdge_data p q s))"
| add_control: "typed_ptr s OutControlAnchor p \<Longrightarrow> typed_ptr s InControlAnchor q \<Longrightarrow>
     edge_step s (fst (AddEdge_control p q s))"
| add_data_control: "typed_ptr s OutDataAnchor p \<Longrightarrow> typed_ptr s InControlAnchor q \<Longrightarrow>
     edge_step s (fst (AddEdge_data_control p q s))"
| add_any: "edge_step s (fst (AddEdge_any p q s))"
| insert_between: "typed_ptr s OutDataAnchor p \<Longrightarrow> typed_ptr s InDataAnchor q \<Longrightarrow>
     (\<And>n a. i = Some n \<Longrightarrow> GetInDataAnchor s n 0 = Some a \<Longrightarrow> peers s a = []) \<Longrightarrow>
     edge_step s (fst (InsertNodeBetweenDataAnchors p q i s))"
| remove_data: "edge_step s (fst (RemoveEdge_data p q s))"
| remove_any: "edge_step s (fst (RemoveEdge_any p q s))"
| remove_control: "edge_step s (fst (RemoveEdge_control p q s))"
| remove_data_control: "edge_step s (fst (RemoveEdge_data_control p q s))"
| replace_dst_data: "typed_ptr s OutDataAnchor p \<Longrightarrow> typed_ptr s InDataAnchor q \<Longrightarrow>
     edge_step s (fst (ReplaceEdgeDst_data p old q s))"
| replace_dst_control: "typed_ptr s OutControlAnchor p \<Longrightarrow> typed_ptr s InControlAnchor q \<Longrightarrow>
     edge_step s (fst (ReplaceEdgeDst_control p old q s))"
| isolate_in_graph: "edge_step s (fst (ComputeGraph_IsolateNode p s))"
| remove_extra_out: "edge_step s (fst (RemoveExtraOutEdge p s))"
| unlink_all: "run_state (NodeUtils_UnlinkAll n s) = Some t \<Longrightarrow> edge_step s t"
| isolate: "(\<And>xs. set (iter xs) = set xs) \<Longrightarrow> run_state (GraphUtils_IsolateNode iter p io_map s) = Some t \<Longrightarrow>
     edge_step s t"
| isolate_one_io: "(\<And>xs. set (iter xs) = set xs) \<Longrightarrow> run_state (IsolateNodeOneIO iter p s) = Some t \<Longrightarrow>
     edge_step s t"
| insert_after: "typed_ptr s OutDataAnchor p \<Longrightarrow> \<forall>d\<in>set dsts. typed_ptr s InDataAnchor d \<Longrightarrow>
     run_state (InsertNodeAfter original_type p dsts n i j s) = Some t \<Longrightarrow> edge_step s t"
| replace_anchors: "run_state (ReplaceNodeAnchors p q inputs_map outputs_map s) = Some t \<Longrightarrow> edge_step s t"
| replace_data_anchors: "run_state (ReplaceNodeDataAnchors p q inputs_map outputs_map s) = Some t \<Longrightarrow> edge_step s t"
| copy_in_ctrl_edges: "edge_step s (fst (CopyInCtrlEdges p q s))"
| copy_out_ctrl_edges: "edge_step s (fst (CopyOutCtrlEdges p q s))"
| move_in_ctrl_edges: "run_state (MoveInCtrlEdges p q s) = Some t \<Longrightarrow> edge_step s t"
| move_out_ctrl_edges: "run_state (MoveOutCtrlEdges p q s) = Some t \<Longrightarrow> edge_step s t"
| copy_in_data_edges: "run_state (CopyInDataEdges p q s) = Some t \<Longrightarrow> edge_step s t"
| move_output_edges: "run_state (MoveOutputEdges p q s) = Some t \<Longrightarrow> edge_step s t"

text \<open>Attributes of nodes and graphs, subgraphs, sorting and the event nodes.\<close>

inductive attr_step :: "graph_store \<Rightarrow> graph_store \<Rightarrow> bool" where
  add_node: "attr_step s (snd (AddNode g p s))"
| add_node_front: "attr_step s (snd (AddNodeFront g p s))"
| add_input: "attr_step s (snd (AddInputNode g p s))"
| add_output: "attr_step s (snd (AddOutputNodeByIndex g p i s))"
| add_first_output: "attr_step s (snd (AddOutputNode g p s))"
| append_input: "attr_step s (fst (AppendInputNode g p s))"
| remove_just_ptr: "attr_step s (fst (RemoveJustNode_ptr q p s))"
| remove_input: "attr_step s (fst (RemoveInputNode g p s))"
| remove_output: "attr_step s (fst (RemoveOutputNode g p s))"
| remove_just: "attr_step s (fst (RemoveJustNode g p s))"
| update_desc: "attr_step s (fst (UpdateOpDesc n d s))"
| set_owner: "attr_step s (fst (SetOwnerComputeGraph n p s))"
| set_any_owner: "attr_step s (fst (SetAnyOwnerComputeGraph n p s))"
| set_status: "attr_step s (fst (SetAllAnchorStatus p s))"
| add_subgraph_obsolete: "attr_step s (snd (AddSubGraph g p s))"
| remove_subgraph_obsolete: "attr_step s (fst (RemoveSubGraph g p s))"
| add_subgraph: "attr_step s (fst (AddSubgraph g name p s))"
| remove_subgraph: "attr_step s (RemoveSubgraph g name s)"
| add_subgraph_own: "attr_step s (fst (AddSubgraph_own g p s))"
| remove_subgraph_own: "attr_step s (RemoveSubgraph_own g p s)"
| set_parent_graph: "attr_step s (SetParentGraph g p s)"
| set_parent_node: "attr_step s (SetParentNode g p s)"
| update_mapping: "attr_step s (fst (UpdateInputMapping g m s))"
| set_output: "attr_step s (SetUserDefOutput g name s)"
| sort_graph: "TopologicalSortingGraph g run_mode reverse s = Some (t, st) \<Longrightarrow> attr_step s t"
| sort_all: "TopologicalSorting g run_mode s = Some (t, st) \<Longrightarrow> attr_step s t"
| insert_events: "InsertEventNodes g s = Some (t, st) \<Longrightarrow> attr_step s t"
| insert_graph_events: "InsertGraphEvents g s = Some (t, st) \<Longrightarrow> attr_step s t"

inductive graph_step :: "graph_store \<Rightarrow> graph_store \<Rightarrow> bool" where
  create_graph: "graphs s g = None \<Longrightarrow> graph_step s (s\<lparr>graphs := (graphs s)(g \<mapsto> new_graph name)\<rparr>)"
| add_node_op: "graph_step s (snd (AddNode_op g op s))"
| add_node_front_op: "graph_step s (snd (AddNodeFront_op g op s))"
| add_node_op_id: "graph_step s (snd (AddNode_op_id g op i s))"
| add_link_for_parse: "nodes s n \<noteq> None \<Longrightarrow> graph_step s (fst (AddLinkFromForParse n p s))"
| remove_const: "graph_step s (fst (RemoveConstInput g p s))"
| remove_node: "graph_step s (fst (RemoveNode g p s))"
| add_edge_format: "typed_ptr s OutDataAnchor p \<Longrightarrow> typed_ptr s InDataAnchor q \<Longrightarrow>
     graph_step s (fst (AddEdge_format p f q k s))"
| anchor_format: "graph_step s (fst (SetFormat s p f))"
| anchor_status: "graph_step s (fst (SetStatus s p st))"
| edges: "edge_step s t \<Longrightarrow> graph_step s t"
| attributes: "attr_step s t \<Longrightarrow> graph_step s t"

inductive graph_reachable :: "graph_store \<Rightarrow> bool" where
  start: "graph_reachable \<lparr>anchors = \<lambda>_. None, nodes = \<lambda>_. None, next_addr = 0, graphs = \<lambda>_. None\<rparr>"
| step: "graph_reachable s \<Longrightarrow> graph_step s t \<Longrightarrow> graph_reachable t"

lemma wired_ReplaceEdgeDst:
  assumes "wired s0 s"
  shows "typed_ptr s0 OutDataAnchor p \<Longrightarrow> typed_ptr s0 InDataAnchor q \<Longrightarrow> wired s0 (fst (ReplaceEdgeDst_data p old q s))"
    "typed_ptr s0 OutControlAnchor p \<Longrightarrow> typed_ptr s0 InControlAnchor q \<Longrightarrow> wired s0 (fst (ReplaceEdgeDst_control p old q s))"
  using assms
  by (auto simp: ReplaceEdgeDst_data_def ReplaceEdgeDst_control_def intro!: wired_and_then wired_RemoveEdge wired_AddEdge)

lemma edge_step_wired:
  assumes "edge_step s t" "nodes_wf s" "wired s s"
  shows "wired s t"
  using assms
proof (induction rule: edge_step.induct)
  case (unlink_all n s t)
  then show ?case using NodeUtils_UnlinkAll_isolates [of s s n] by (auto simp: run_state_def)
next
  case (isolate iter p io_map s t)
  show ?case
  proof (cases p)
    case (Some n)
    then show ?thesis
      using isolate IsolateNode_isolates [of s iter n io_map] wired_inv [OF isolate.prems(2)]
      by (auto simp: run_state_def wired_def)
  qed (use isolate in \<open>simp add: GraphUtils_IsolateNode_def run_state_def\<close>)
next
  case (isolate_one_io iter p s t)
  show ?case
  proof (cases p)
    case (Some n)
    then show ?thesis
      using isolate_one_io IsolateNode_isolates [of s iter n "[0]"] wired_inv [OF isolate_one_io.prems(2)]
      by (auto simp: run_state_def wired_def IsolateNodeOneIO_def split: if_splits)
  qed (use isolate_one_io in \<open>simp add: IsolateNodeOneIO_def run_state_def\<close>)
next
  case (insert_between s p q i)
  then show ?case by (blast intro: wired_InsertNodeBetween)
next
  case (insert_after s p dsts original_type n i j t)
  then show ?case by (blast intro: run_ok_state wired_InsertNodeAfter)
next
  case (remove_extra_out s p)
  then show ?case by (blast intro: wired_isolate_control(3))
next
  case (isolate_in_graph s p)
  then show ?case by (blast intro: wired_ComputeGraph_IsolateNode)
qed (blast intro: run_ok_state wired_AddEdge wired_AddEdge_any wired_RemoveEdge wired_ReplaceEdgeDst
    wired_ReplaceNodeAnchors wired_CopyCtrlEdges wired_MoveCtrlEdges wired_CopyInDataEdges wired_MoveOutputEdges)+

lemma attr_step_tidy: "attr_step s t \<Longrightarrow> tidy s t"
  by (induction rule: attr_step.induct)
    (blast intro: tidy tidy_TopologicalSortingGraph tidy_TopologicalSorting tidy_InsertEventNodes
      tidy_InsertGraphEvents)+

lemma graph_step_inv: "graph_step s t \<Longrightarrow> graph_inv s \<Longrightarrow> graph_inv t"
proof (induction rule: graph_step.induct)
  case (create_graph s g name)
  let ?t = "s\<lparr>graphs := (graphs s)(g \<mapsto> new_graph name)\<rparr>"
  have "same_shape s ?t" by (simp add: same_shape_def)
  with create_graph show ?case
    using node_inv_shape [of s ?t] by (auto simp: graph_inv_def counted_def new_graph_def)
next
  case (edges s t)
  then show ?case using edge_step_wired graph_inv_start graph_inv_wired by blast
next
  case (attributes s t)
  then show ?case using attr_step_tidy graph_inv_tidy by blast
qed (auto intro: AddNode_op_inv AddLinkFromForParse_inv graph_inv_RemoveConstInput graph_inv_RemoveNode
    graph_inv_AddEdge_format graph_inv_labels)

lemma graph_reachable_inv: "graph_reachable s \<Longrightarrow> graph_inv s"
proof (induction rule: graph_reachable.induct)
  case start
  let ?s = "\<lparr>anchors = \<lambda>_. None, nodes = \<lambda>_. None, next_addr = 0, graphs = \<lambda>_. None\<rparr> :: graph_store"
  have "anchor_inv ?s"
    by (simp add: anchor_inv_def link_inv_def single_source_def ident_wf_def class_of_def key_of_def peers_def)
  then show ?case
    by (simp add: graph_inv_def node_inv_def nodes_wf_def placed_def fresh_above_def counted_def
        in_data_anchors_def out_data_anchors_def GetOwnerNode_def)
next
  case (step s t)
  then show ?case by (blast intro: graph_step_inv)
qed

end
