(* ===== verification/Graph_Properties.thy ===== *)
theory Graph_Properties
  imports Graph_Steps
begin

text \<open>
  The properties of the compute graph and of rewiring, with witnesses on small concrete graphs.
\<close>

section \<open>A concrete graph\<close>

text \<open>Three nodes in a chain of data edges.\<close>

definition chain_anchors :: "nat \<Rightarrow> anchor option" where
  "chain_anchors =
     [0 \<mapsto> linked_anchor OutDataAnchor 10 0 [3], 1 \<mapsto> linked_anchor InControlAnchor 10 (-1) [],
      2 \<mapsto> linked_anchor OutControlAnchor 10 (-1) [], 3 \<mapsto> linked_anchor InDataAnchor 11 0 [0],
      4 \<mapsto> linked_anchor OutDataAnchor 11 0 [7], 5 \<mapsto> linked_anchor InControlAnchor 11 (-1) [],
      6 \<mapsto> linked_anchor OutControlAnchor 11 (-1) [], 7 \<mapsto> linked_anchor InDataAnchor 12 0 [4],
      8 \<mapsto> linked_anchor InControlAnchor 12 (-1) [], 9 \<mapsto> linked_anchor OutControlAnchor 12 (-1) []]"

definition chain_nodes :: "nat \<Rightarrow> node option" where
  "chain_nodes =
     [10 \<mapsto> demo_node ''d'' DATA [] [0] 1 2, 11 \<mapsto> demo_node ''r'' ''Relu'' [3] [4] 5 6,
      12 \<mapsto> demo_node ''o'' NETOUTPUT [7] [] 8 9]"

definition chain_store :: graph_store where
  "chain_store =
     \<lparr>anchors = chain_anchors, nodes = chain_nodes, next_addr = 13,
      graphs = [100 \<mapsto> (new_graph ''g'')\<lparr>g_nodes := [10, 11, 12], g_direct_nodes_size := 3\<rparr>]\<rparr>"

lemmas chain_defs = chain_store_def chain_anchors_def chain_nodes_def linked_anchor_def new_anchor_def
  demo_node_def new_node_def demo_op_def

lemma chain_peers [simp]:
  "peers chain_store a = (if a = 0 then [3] else if a = 3 then [0] else if a = 4 then [7] else if a = 7 then [4] else [])"
  by (simp add: peers_def chain_defs)

lemma chain_class [simp]:
  "class_of chain_store a =
     (if a = 0 \<or> a = 4 then Some OutDataAnchor else if a = 3 \<or> a = 7 then Some InDataAnchor
      else if a = 1 \<or> a = 5 \<or> a = 8 then Some InControlAnchor
      else if a = 2 \<or> a = 6 \<or> a = 9 then Some OutControlAnchor else None)"
  by (simp add: class_of_def chain_defs)

lemma chain_owner [simp]:
  "GetOwnerNode chain_store a =
     (if a \<le> 2 then Some 10 else if a \<le> 6 then Some 11 else if a \<le> 9 then Some 12 else None)"
  by (auto simp: GetOwnerNode_def chain_defs)

lemma chain_members [simp]:
  "in_data_anchors chain_store n = (if n = 11 then [3] else if n = 12 then [7] else [])"
  "out_data_anchors chain_store n = (if n = 10 then [0] else if n = 11 then [4] else [])"
  "GetInControlAnchor chain_store n =
     (if n = 10 then Some 1 else if n = 11 then Some 5 else if n = 12 then Some 8 else None)"
  "GetOutControlAnchor chain_store n =
     (if n = 10 then Some 2 else if n = 11 then Some 6 else if n = 12 then Some 9 else None)"
  "GetOpDesc chain_store n = None \<longleftrightarrow> n \<noteq> 10 \<and> n \<noteq> 11 \<and> n \<noteq> 12"
  "nodes chain_store n = None \<longleftrightarrow> n \<noteq> 10 \<and> n \<noteq> 11 \<and> n \<noteq> 12"
  by (simp_all add: in_data_anchors_def out_data_anchors_def GetInControlAnchor_def
      GetOutControlAnchor_def GetOpDesc_def chain_defs)

lemma chain_anchor_inv: "anchor_inv chain_store"
proof -
  have "\<forall>a c. class_of chain_store a = Some c \<longrightarrow> is_in c \<or> is_out c"
    by (simp add: is_in_def is_out_def)
  moreover have "\<forall>a b k. key_of chain_store a = Some k \<longrightarrow> key_of chain_store b = Some k \<longrightarrow> a = b"
    by (auto simp: key_of_def chain_defs anchor_key_def split: if_splits)
  ultimately have "ident_wf chain_store" unfolding ident_wf_def by blast
  then show ?thesis
    by (auto simp: anchor_inv_def single_source_def link_inv_def joinable_def is_in_def is_out_def)
qed

lemma chain_nodes_wf: "nodes_wf chain_store"
proof -
  have "node_wf chain_store 10" "node_wf chain_store 11" "node_wf chain_store 12"
    unfolding node_wf_def owns_def by (auto split: if_splits)
  then show ?thesis by (auto simp: nodes_wf_def)
qed

lemma chain_in_out: "GetInNodes chain_store 11 = [10]" "GetOutNodes chain_store 11 = [12]"
  by (simp_all add: GetInNodes_def GetOutNodes_def owners_def opt_anchors_def GetPeerOutAnchor_def
      DynamicAnchorCast_lock OutData_GetPeerInDataAnchors_def OutControl_GetPeerInControlAnchors_def
      peers_of_class_filter map_filter_simps)

section \<open>Rewiring\<close>

text \<open> C4: isolating a node with \<^verbatim>\<open>GraphUtils::IsolateNode\<close> always returns on a store with
  consistent links and well-formed nodes, whatever the map and the order in which the sets of
  nodes are traversed. Only links change and they stay consistent; on success no anchor of the
  node has a peer, every link between other nodes is kept, and each predecessor is connected
  with each successor. \<close>

theorem isolate_node_reconnects:
  assumes "anchor_inv s" "nodes_wf s" "\<And>xs. set (iter xs) = set xs"
  shows "\<exists>t st. GraphUtils_IsolateNode iter (Some n) io_map s = Ret t st \<and> same_frame s t \<and> anchor_inv t \<and>
    (st = GRAPH_SUCCESS \<longrightarrow>
       (\<forall>a \<in> set (in_anchors s n) \<union> set (out_anchors s n). peers t a = []) \<and> keeps n s t \<and>
       (\<forall>x\<in>set (GetInNodes s n). \<forall>y\<in>set (GetOutNodes s n). x \<noteq> n \<longrightarrow> y \<noteq> n \<longrightarrow> x \<noteq> y \<longrightarrow> connected t x y))"
  using assms by (rule IsolateNode_isolates)

lemma isolate_node_reconnects_witness:
  "\<exists>t st. GraphUtils_IsolateNode id (Some 11) [0] chain_store = Ret t st \<and> anchor_inv t \<and>
     (st = GRAPH_SUCCESS \<longrightarrow> peers t 3 = [] \<and> peers t 4 = [] \<and> connected t 10 12)"
proof -
  have "in_anchors chain_store 11 = [3, 5]" "out_anchors chain_store 11 = [4, 6]"
    by (simp_all add: in_anchors_def out_anchors_def)
  then show ?thesis
    using isolate_node_reconnects [OF chain_anchor_inv chain_nodes_wf, of id 11 "[0]"]
    by (auto simp: chain_in_out)
qed

text \<open> C6: every state reached from the empty store by the operations that \<open>graph_step\<close>
  lists is consistent. They are: creating graphs; adding nodes by description or by pointer,
  at the front, with an id, as inputs or outputs; removing nodes, inputs, outputs and
  constant inputs; adding, removing and replacing edges of every kind, anchor formats and states;
  isolating nodes and unlinking them; \<^verbatim>\<open>InsertNodeAfter\<close>; replacing the anchors of a
  node; copying and moving control, data and output edges; owners, parents and subgraphs,
  descriptions, the input mapping, the sorting and the event nodes; and
  \<^verbatim>\<open>InsertNodeBetweenDataAnchors\<close> under the condition that the first input of the
  inserted node is free. Consistent means: links are symmetric, typed and joined at both ends
  equally often, an input has one data source, every node owns exactly the anchors it lists,
  numbered by their position, addresses of existing objects lie below the allocator's, and the
  counter of every graph is the length of its node list. Two public operations are not
  covered, and the theorem says why: in such a state \<^verbatim>\<open>InsertNodeBetweenDataAnchors\<close> on
  a link, with a node whose first input is another anchor that is not free, gives that input
  a second data source; and \<^verbatim>\<open>ClearInDataAnchor\<close> of an input of a node leaves the node
  with an anchor that it owns and does not list. Destruction of objects is not covered. \<close>

theorem reachable_graphs_consistent:
  assumes "graph_reachable s"
  shows "link_inv s \<and> single_source s \<and> (\<forall>n. nodes s n \<noteq> None \<longrightarrow> node_wf s n) \<and> placed s \<and>
    fresh_above s \<and> (\<forall>g x. graphs s g = Some x \<longrightarrow> g_direct_nodes_size x = length (g_nodes x)) \<and>
    (\<forall>a b n x y. class_of s a = Some OutDataAnchor \<longrightarrow> class_of s b = Some InDataAnchor \<longrightarrow>
       b \<in> set (peers s a) \<longrightarrow> GetInDataAnchor s n 0 = Some x \<longrightarrow> GetOutDataAnchor s n 0 = Some y \<longrightarrow>
       x \<noteq> b \<longrightarrow>
       (single_source (fst (InsertNodeBetweenDataAnchors (Some a) (Some b) (Some n) s)) \<longleftrightarrow> peers s x = [])) \<and>
    (\<forall>n a. a \<in> set (in_data_anchors s n) \<longrightarrow>
       \<not> node_wf (fst (ClearInDataAnchor (Some n) (Some a) s)) n)"
proof -
  have inv: "anchor_inv s" "nodes_wf s" "placed s" "fresh_above s" "counted s"
    using graph_reachable_inv [OF assms] by (simp_all add: graph_inv_def node_inv_def)
  have "node_wf s n" if "a \<in> set (in_data_anchors s n)" for a n
    using that inv(2) by (cases "nodes s n") (simp_all add: nodes_wf_def in_data_anchors_def)
  then show ?thesis
    using inv ClearInDataAnchor_breaks [of s] InsertNodeBetween_single_source [OF inv(1,2)]
    by (simp add: anchor_inv_def nodes_wf_def counted_def)
qed

definition empty_graph_store :: graph_store where
  "empty_graph_store = \<lparr>anchors = \<lambda>_. None, nodes = \<lambda>_. None, next_addr = 0, graphs = \<lambda>_. None\<rparr>"

definition reached_store :: graph_store where
  "reached_store =
     (let s0 = empty_graph_store\<lparr>graphs := (graphs empty_graph_store)(7 \<mapsto> new_graph ''g'')\<rparr>;
          s1 = snd (AddNode_op 7 (Some (demo_op ''d'' DATA 0 1)) s0);
          s2 = snd (AddNode_op 7 (Some (demo_op ''o'' NETOUTPUT 1 0)) s1)
      in fst (AddEdge_any (GetOutDataAnchor s2 0 0) (GetInDataAnchor s2 4 0) s2))"

lemma reached_store_reachable: "graph_reachable reached_store"
proof -
  let ?s0 = "empty_graph_store\<lparr>graphs := (graphs empty_graph_store)(7 \<mapsto> new_graph ''g'')\<rparr>"
  have "graph_reachable empty_graph_store"
    unfolding empty_graph_store_def by (rule graph_reachable.start)
  moreover have "graph_step empty_graph_store ?s0"
    by (rule graph_step.create_graph) (simp add: empty_graph_store_def)
  ultimately have "graph_reachable ?s0" by (rule graph_reachable.step)
  from graph_reachable.step [OF graph_reachable.step [OF graph_reachable.step [OF this add_node_op] add_node_op]
      graph_step.edges [OF edge_step.add_any]]
  show ?thesis by (simp add: reached_store_def Let_def)
qed

lemmas reached_store_eval = reached_store_def Let_def empty_graph_store_def AddNode_op_def alloc_node_def
  Init_def new_node_def demo_op_def alloc_anchor_def add_anchor_def new_anchor_def upd_node_def AddNode_def
  GetOpDesc_def SetHostNode_def SetId_def PushBackToNodeList_def upd_graph_def GetDirectNodesSize_def
  new_graph_def is_valid_flag_def GetOutDataAnchor_def GetInDataAnchor_def in_data_anchors_def
  out_data_anchors_def AddEdge_any_def try_link_def link_op_defs DynamicAnchorCast_def peers_def
  push_link_def upd_peers_def

lemma reachable_graphs_consistent_witness:
  "link_inv reached_store \<and> node_wf reached_store 0 \<and> peers reached_store 1 = [5]"
proof -
  have "peers reached_store 1 = [5]" "nodes reached_store 0 \<noteq> None"
    by (simp_all add: reached_store_eval eval_nat_numeral)
  then show ?thesis using reachable_graphs_consistent [OF reached_store_reachable] by simp
qed

section \<open>Parents and subgraphs\<close>

text \<open>The chain of parents of a graph.\<close>

definition parent_rel :: "('z) graph_store_scheme \<Rightarrow> (nat \<times> nat) set" where
  "parent_rel s = {(parent, g). GetParentGraph s g = Some parent}"

lemma parent_step:
  "FindRootGraph_loop s g = (case GetParentGraph s g of None \<Rightarrow> Some g | Some p \<Rightarrow> FindRootGraph_loop s p)"
  by (subst FindRootGraph_loop.simps) simp

lemma root_reached:
  assumes "(root, g) \<in> (parent_rel s)\<^sup>*" "GetParentGraph s root = None"
  shows "FindRootGraph_loop s g = Some root \<and> GetSubgraph s g name = Some (names_to_subgraph s root name)"
  using assms
proof (induction rule: rtrancl_induct)
  case base
  then show ?case by (simp add: FindRootGraph_loop.simps GetSubgraph.simps)
next
  case (step p g)
  then have "GetParentGraph s g = Some p" by (simp add: parent_rel_def)
  with step show ?case by (simp add: parent_step [of s g] GetSubgraph.simps [of s g])
qed

lemma root_returned:
  assumes "FindRootGraph_loop s g = Some root"
  shows "(root, g) \<in> (parent_rel s)\<^sup>* \<and> GetParentGraph s root = None"
proof (rule FindRootGraph_loop.raw_induct [OF _ assms])
  fix loop :: "'a graph_store_scheme \<Rightarrow> nat \<Rightarrow> nat option" and s g root
  assume ih: "\<And>s g root. loop s g = Some root \<Longrightarrow> (root, g) \<in> (parent_rel s)\<^sup>* \<and> GetParentGraph s root = None"
    and r: "(case GetParentGraph s g of None \<Rightarrow> Some g | Some parent \<Rightarrow> loop s parent) = Some root"
  show "(root, g) \<in> (parent_rel s)\<^sup>* \<and> GetParentGraph s root = None"
  proof (cases "GetParentGraph s g")
    case (Some p)
    with ih [of s p root] r have "(root, p) \<in> (parent_rel s)\<^sup>*" "GetParentGraph s root = None" by simp_all
    moreover have "(p, g) \<in> parent_rel s" using Some by (simp add: parent_rel_def)
    ultimately show ?thesis by (auto intro: rtrancl_into_rtrancl)
  qed (use r in simp)
qed

lemma subgraph_returned:
  assumes "GetSubgraph s g name = Some r"
  shows "\<exists>root. FindRootGraph_loop s g = Some root"
proof (rule GetSubgraph.raw_induct [OF _ assms])
  fix get :: "'a graph_store_scheme \<Rightarrow> nat \<Rightarrow> string \<Rightarrow> ptr option" and s g name r
  assume ih: "\<And>s g name r. get s g name = Some r \<Longrightarrow> \<exists>root. FindRootGraph_loop s g = Some root"
    and r: "(case GetParentGraph s g of None \<Rightarrow> Some (names_to_subgraph s g name)
      | Some parent \<Rightarrow> get s parent name) = Some r"
  show "\<exists>root. FindRootGraph_loop s g = Some root"
    using ih r by (cases "GetParentGraph s g") (auto simp: parent_step [of s g])
qed

lemma FindRootGraph_loop_iff:
  "FindRootGraph_loop s g = Some root \<longleftrightarrow> (root, g) \<in> (parent_rel s)\<^sup>* \<and> GetParentGraph s root = None"
  using root_reached root_returned by blast

text \<open> C22: finding the root graph, and looking up a subgraph by name, return exactly when the
  chain of parents ends: the result is then the graph at its end, or what that graph stores
  under the name. On a cycle of parents neither returns. \<close>

theorem root_lookup_returns:
  "(FindRootGraph s (Some g) = Some (Some root) \<longleftrightarrow> (root, g) \<in> (parent_rel s)\<^sup>* \<and> GetParentGraph s root = None) \<and>
   (FindRootGraph s (Some g) = None \<longleftrightarrow> (\<nexists>r. (r, g) \<in> (parent_rel s)\<^sup>* \<and> GetParentGraph s r = None)) \<and>
   GetSubgraph s g name = map_option (\<lambda>r. names_to_subgraph s r name) (FindRootGraph_loop s g)"
proof (intro conjI)
  show "GetSubgraph s g name = map_option (\<lambda>r. names_to_subgraph s r name) (FindRootGraph_loop s g)"
  proof (cases "FindRootGraph_loop s g")
    case None
    then have "GetSubgraph s g name = None" using subgraph_returned [of s g name] by (cases "GetSubgraph s g name") auto
    with None show ?thesis by simp
  next
    case (Some root)
    from root_reached [OF root_returned [OF Some, THEN conjunct1] root_returned [OF Some, THEN conjunct2]] Some
    show ?thesis by simp
  qed
  show "FindRootGraph s (Some g) = Some (Some root) \<longleftrightarrow> (root, g) \<in> (parent_rel s)\<^sup>* \<and> GetParentGraph s root = None"
    unfolding FindRootGraph_loop_iff [symmetric] by (simp add: FindRootGraph_def)
  show "FindRootGraph s (Some g) = None \<longleftrightarrow> (\<nexists>r. (r, g) \<in> (parent_rel s)\<^sup>* \<and> GetParentGraph s r = None)"
    unfolding FindRootGraph_loop_iff [symmetric] by (cases "FindRootGraph_loop s g") (simp_all add: FindRootGraph_def)
qed

section \<open>Node utilities\<close>

lemma nth_layer_same:
  "0 < k \<Longrightarrow> nth_layer_loop s n k cur = (case GetOutDataNodes s n of [m] \<Rightarrow> Some (Some m) | _ \<Rightarrow> None)"
proof (induction k arbitrary: cur)
  case (Suc k)
  then show ?case by (cases k) (auto split: list.splits)
qed simp

text \<open> C23: \<^verbatim>\<open>GetSingleOutputNodeOfNthLayer\<close> does not go down the layers: it asks the source node in
  every round, so every positive depth gives the direct successor of the source. \<close>

theorem nth_layer_ignores_depth:
  "0 < depth \<Longrightarrow>
     GetSingleOutputNodeOfNthLayer s (Some n) depth dst =
       (case GetOutDataNodes s n of [m] \<Rightarrow> (Some m, GRAPH_SUCCESS) | _ \<Rightarrow> (dst, GRAPH_FAILED))"
  by (auto simp: GetSingleOutputNodeOfNthLayer_def nth_layer_same split: list.split)

lemma chain_out_data: "GetOutDataNodes chain_store 10 = [11]" "GetOutDataNodes chain_store 11 = [12]"
  by (simp_all add: GetOutDataNodes_def owners_def OutData_GetPeerInDataAnchors_def peers_of_class_filter
      map_filter_simps is_type_of_concrete)

lemma nth_layer_ignores_depth_witness:
  "GetSingleOutputNodeOfNthLayer chain_store (Some 10) 2 None = (Some 11, GRAPH_SUCCESS) \<and>
   GetOutDataNodes chain_store 11 = [12]"
  using nth_layer_ignores_depth [of 2 chain_store 10 None] by (simp add: chain_out_data)

end
