(* ===== verification/Output_Names.thy ===== *)
theory Output_Names
  imports GraphStore
begin

text \<open>
  The textual form of a graph's outputs: what \<^verbatim>\<open>ComputeGraph::GetOutput\<close> prints,
  \<^verbatim>\<open>SetUserDefOutput\<close> reads back.
\<close>

section \<open>The items of the text\<close>

definition out_item :: "string \<Rightarrow> int \<Rightarrow> string" where
  "out_item nm i = nm @ '':'' @ to_string i"

definition out_items :: "(string \<times> int list) list \<Rightarrow> string list" where
  "out_items m = concat (map (\<lambda>(nm, is). map (out_item nm) is) m)"

lemma output_string_items: "output_string m = concat (map (\<lambda>x. x @ '';'') (out_items m))"
  by (induction m) (auto simp: output_string_def out_items_def out_item_def comp_def)

lemma butlast_items: "butlast (concat (map (\<lambda>x. x @ [d]) xs)) = join_with d xs"
proof (induction d xs rule: join_with.induct)
  case (3 d p q ps)
  have "concat (map (\<lambda>x. x @ [d]) (q # ps)) \<noteq> []" by simp
  then have "butlast (concat (map (\<lambda>x. x @ [d]) (p # q # ps))) =
      p @ [d] @ butlast (concat (map (\<lambda>x. x @ [d]) (q # ps)))"
    unfolding list.map(2) [of _ p] concat.simps butlast_append by simp
  with 3 show ?case by simp
qed simp_all

lemma pieces_join: "ps \<noteq> [] \<Longrightarrow> \<forall>p\<in>set ps. d \<notin> set p \<Longrightarrow> pieces d (join_with d ps) = ps"
  by (induction d ps rule: join_with.induct) (auto simp: pieces_append pieces_clean)

text \<open>A map the text can carry: in key order, no entry without an index, no index twice, no
  delimiter in a name, and the indices fit an \<^verbatim>\<open>int\<close>.\<close>

definition printable :: "(string \<times> int list) list \<Rightarrow> bool" where
  "printable m \<longleftrightarrow> keys_sorted m \<and>
     (\<forall>(nm, is)\<in>set m. is \<noteq> [] \<and> distinct is \<and> CHR '':'' \<notin> set nm \<and> CHR '';'' \<notin> set nm \<and>
        (\<forall>i\<in>set is. -(2^31) \<le> i \<and> i < 2^31))"

lemma semicolon_to_string: "CHR '';'' \<notin> set (to_string i)" "CHR '':'' \<notin> set (to_string i)"
  using to_string_chars [of "CHR '';''" i] to_string_chars [of "CHR '':''" i]
  by (auto simp: is_digit_def)

lemma add_output_item:
  assumes "CHR '':'' \<notin> set nm" "-(2^31) \<le> i" "i < 2^31"
  shows "add_output (out_item nm i) m =
    (case map_of m nm of
       None \<Rightarrow> map_put nm [i] m
     | Some is \<Rightarrow> if i \<in> set is then m else map_put nm (is @ [i]) m)"
proof -
  have "Split (out_item nm i) (CHR '':'') = [nm, to_string i]"
    using assms(1) semicolon_to_string(2)
    by (simp add: Split_pieces out_item_def pieces_append pieces_clean)
  then show ?thesis
    using assms by (simp add: add_output_def Trim_to_string stoi_to_string split: option.split)
qed

lemma map_put_last:
  "\<forall>k\<in>set (map fst m). str_less k nm \<Longrightarrow> map_put nm v m = m @ [(nm, v)]"
  "\<forall>k\<in>set (map fst m). str_less k nm \<Longrightarrow> map_put nm v (m @ [(nm, w)]) = m @ [(nm, v)]"
proof -
  have less: "str_less k nm \<Longrightarrow> k \<noteq> nm \<and> \<not> str_less nm k" for k
    using str_less_trans [of k nm k] by auto
  show "\<forall>k\<in>set (map fst m). str_less k nm \<Longrightarrow> map_put nm v m = m @ [(nm, v)]"
    "\<forall>k\<in>set (map fst m). str_less k nm \<Longrightarrow> map_put nm v (m @ [(nm, w)]) = m @ [(nm, v)]"
    by (induction m) (auto dest: less)
qed

lemma add_entry:
  assumes nm: "CHR '':'' \<notin> set nm" "\<forall>k\<in>set (map fst m). str_less k nm"
    and "distinct (done @ is)" "done \<noteq> []" "\<forall>i\<in>set is. -(2^31) \<le> i \<and> i < 2^31"
  shows "fold add_output (map (out_item nm) is) (m @ [(nm, done)]) = m @ [(nm, done @ is)]"
  using assms(3-5)
proof (induction "is" arbitrary: "done")
  case (Cons i "is")
  have "nm \<notin> set (map fst m)" using nm(2) by auto
  then have "map_of (m @ [(nm, done)]) nm = Some done"
    using map_of_eq_None_iff [of m nm] by (auto simp: map_add_def)
  then have "add_output (out_item nm i) (m @ [(nm, done)]) = m @ [(nm, done @ [i])]"
    using Cons.prems by (simp add: add_output_item [OF nm(1)] map_put_last(2) [OF nm(2)])
  then show ?case using Cons.IH [of "done @ [i]"] Cons.prems by simp
qed simp

lemma add_entries:
  assumes "printable (m0 @ m)"
  shows "fold add_output (out_items m) m0 = m0 @ m"
  using assms
proof (induction m arbitrary: m0)
  case (Cons e m)
  obtain nm i "is" where e: "e = (nm, i # is)"
    using Cons.prems by (cases e; cases "snd e") (auto simp: printable_def)
  have p: "CHR '':'' \<notin> set nm" "distinct (i # is)" "\<forall>j\<in>set (i # is). -(2^31) \<le> j \<and> j < 2^31"
    and less: "\<forall>k\<in>set (map fst m0). str_less k nm"
    using Cons.prems by (auto simp: printable_def e keys_sorted_def sorted_wrt_append)
  have "nm \<notin> set (map fst m0)" using less by auto
  then have "add_output (out_item nm i) m0 = m0 @ [(nm, [i])]"
    using map_of_eq_None_iff [of m0 nm] p less by (simp add: add_output_item map_put_last(1))
  then have "fold add_output (map (out_item nm) (i # is)) m0 = m0 @ [e]"
    using add_entry [OF p(1) less, of "[i]" "is"] p by (simp add: e)
  then have "fold add_output (out_items (e # m)) m0 = fold add_output (out_items m) (m0 @ [e])"
    by (simp add: out_items_def e)
  with Cons.IH [of "m0 @ [e]"] Cons.prems show ?case by simp
qed (simp add: out_items_def)

section \<open>The round trip\<close>

text \<open> C24: what \<^verbatim>\<open>GetOutput\<close> prints of a graph's outputs, \<^verbatim>\<open>SetUserDefOutput\<close> reads back into
  an empty map: the same names, indices and order. \<close>

theorem output_names_round_trip:
  assumes "graphs s g = Some x" "g_out_nodes_map x = m" "printable m" "m \<noteq> []"
  shows "SetUserDefOutput g (GetOutput s g) (upd_graph g (g_out_nodes_map_update (\<lambda>_. [])) s) = s"
proof -
  have items: "out_items m \<noteq> []" "\<forall>p\<in>set (out_items m). CHR '';'' \<notin> set p"
    using assms(3,4) semicolon_to_string
    by (cases m; auto simp: printable_def out_items_def out_item_def)+
  have out: "GetOutput s g = join_with (CHR '';'') (out_items m)"
    using assms(1,2) by (simp add: GetOutput_def output_string_items butlast_items)
  have "pieces (CHR '';'') (join_with (CHR '';'') (out_items m)) = out_items m"
    using items by (intro pieces_join)
  moreover have "fold add_output (out_items m) [] = m" using add_entries [of "[]" m] assms(3) by simp
  moreover have "join_with (CHR '';'') (out_items m) \<noteq> []"
  proof -
    have "[] \<notin> set (out_items m)" by (auto simp: out_items_def out_item_def)
    then show ?thesis using items(1) by (cases "out_items m"; cases "tl (out_items m)") auto
  qed
  ultimately show ?thesis
    using assms(1,2) by (simp add: SetUserDefOutput_def out Split_pieces upd_graph_def fun_upd_idem)
qed

definition outputs_store :: graph_store where
  "outputs_store =
     \<lparr>anchors = \<lambda>_. None, nodes = \<lambda>_. None, next_addr = 0,
      graphs = [0 \<mapsto> (new_graph ''g'')\<lparr>g_out_nodes_map := [(''a'', [2, 0]), (''b'', [-1])]\<rparr>]\<rparr>"

lemma output_names_round_trip_witness:
  "GetOutput outputs_store 0 = ''a:2;a:0;b:-1'' \<and>
   SetUserDefOutput 0 ''a:2;a:0;b:-1'' (upd_graph 0 (g_out_nodes_map_update (\<lambda>_. [])) outputs_store) = outputs_store"
proof -
  have p: "printable [(''a'', [2, 0]), (''b'', [-1])]" by (simp add: printable_def keys_sorted_def)
  have "char_of (50 :: nat) = CHR ''2''" "char_of (48 :: nat) = CHR ''0''" "char_of (49 :: nat) = CHR ''1''"
    by code_simp+
  then have o: "GetOutput outputs_store 0 = ''a:2;a:0;b:-1''"
    by (simp add: GetOutput_def outputs_store_def output_string_def to_string_def nat_digits.simps)
  show ?thesis
    using o output_names_round_trip [OF _ _ p, of outputs_store 0] by (simp add: outputs_store_def)
qed

end
