(* ===== verification/GraphTypes.thy ===== *)
theory GraphTypes
  imports Strings Anchors
begin

text \<open>
  The element types and memory formats of tensors: \<^verbatim>\<open>inc/external/graph/types.h\<close>,
  \<^verbatim>\<open>graph/types.cc\<close> and the tables and conversions of
  \<^verbatim>\<open>graph/utils/type_utils.cc\<close>. Error reports (\<^verbatim>\<open>ErrorManager\<close>) have no
  counterpart.
\<close>

unbundle bit_operations_syntax

section \<open>The enumerations\<close>

text \<open>
  A \<^verbatim>\<open>Format\<close> is stored in 32 bits: the primary format in the lowest byte, the sub-format in
  the two bytes above it. The named primary formats:
\<close>

type_synonym Format = "32 word"

abbreviation FORMAT_NCHW :: Format where "FORMAT_NCHW \<equiv> 0"
abbreviation FORMAT_NHWC :: Format where "FORMAT_NHWC \<equiv> 1"
abbreviation FORMAT_NC1HWC0 :: Format where "FORMAT_NC1HWC0 \<equiv> 3"
abbreviation FORMAT_FRACTAL_Z :: Format where "FORMAT_FRACTAL_Z \<equiv> 4"
abbreviation FORMAT_NC1C0HWPAD :: Format where "FORMAT_NC1C0HWPAD \<equiv> 5"
abbreviation FORMAT_NHWC1C0 :: Format where "FORMAT_NHWC1C0 \<equiv> 6"
abbreviation FORMAT_FSR_NCHW :: Format where "FORMAT_FSR_NCHW \<equiv> 7"
abbreviation FORMAT_FRACTAL_DECONV :: Format where "FORMAT_FRACTAL_DECONV \<equiv> 8"
abbreviation FORMAT_C1HWNC0 :: Format where "FORMAT_C1HWNC0 \<equiv> 9"
abbreviation FORMAT_FRACTAL_DECONV_TRANSPOSE :: Format where "FORMAT_FRACTAL_DECONV_TRANSPOSE \<equiv> 10"
abbreviation FORMAT_FRACTAL_DECONV_SP_STRIDE_TRANS :: Format where "FORMAT_FRACTAL_DECONV_SP_STRIDE_TRANS \<equiv> 11"
abbreviation FORMAT_NC1HWC0_C04 :: Format where "FORMAT_NC1HWC0_C04 \<equiv> 12"
abbreviation FORMAT_FRACTAL_Z_C04 :: Format where "FORMAT_FRACTAL_Z_C04 \<equiv> 13"
abbreviation FORMAT_CHWN :: Format where "FORMAT_CHWN \<equiv> 14"
abbreviation FORMAT_FRACTAL_DECONV_SP_STRIDE8_TRANS :: Format where "FORMAT_FRACTAL_DECONV_SP_STRIDE8_TRANS \<equiv> 15"
abbreviation FORMAT_HWCN :: Format where "FORMAT_HWCN \<equiv> 16"
abbreviation FORMAT_NC1KHKWHWC0 :: Format where "FORMAT_NC1KHKWHWC0 \<equiv> 17"
abbreviation FORMAT_BN_WEIGHT :: Format where "FORMAT_BN_WEIGHT \<equiv> 18"
abbreviation FORMAT_FILTER_HWCK :: Format where "FORMAT_FILTER_HWCK \<equiv> 19"
abbreviation FORMAT_HASHTABLE_LOOKUP_LOOKUPS :: Format where "FORMAT_HASHTABLE_LOOKUP_LOOKUPS \<equiv> 20"
abbreviation FORMAT_HASHTABLE_LOOKUP_KEYS :: Format where "FORMAT_HASHTABLE_LOOKUP_KEYS \<equiv> 21"
abbreviation FORMAT_HASHTABLE_LOOKUP_VALUE :: Format where "FORMAT_HASHTABLE_LOOKUP_VALUE \<equiv> 22"
abbreviation FORMAT_HASHTABLE_LOOKUP_OUTPUT :: Format where "FORMAT_HASHTABLE_LOOKUP_OUTPUT \<equiv> 23"
abbreviation FORMAT_HASHTABLE_LOOKUP_HITS :: Format where "FORMAT_HASHTABLE_LOOKUP_HITS \<equiv> 24"
abbreviation FORMAT_C1HWNCoC0 :: Format where "FORMAT_C1HWNCoC0 \<equiv> 25"
abbreviation FORMAT_MD :: Format where "FORMAT_MD \<equiv> 26"
abbreviation FORMAT_NDHWC :: Format where "FORMAT_NDHWC \<equiv> 27"
abbreviation FORMAT_FRACTAL_ZZ :: Format where "FORMAT_FRACTAL_ZZ \<equiv> 28"
abbreviation FORMAT_FRACTAL_NZ :: Format where "FORMAT_FRACTAL_NZ \<equiv> 29"
abbreviation FORMAT_NCDHW :: Format where "FORMAT_NCDHW \<equiv> 30"
abbreviation FORMAT_DHWCN :: Format where "FORMAT_DHWCN \<equiv> 31"
abbreviation FORMAT_NDC1HWC0 :: Format where "FORMAT_NDC1HWC0 \<equiv> 32"
abbreviation FORMAT_FRACTAL_Z_3D :: Format where "FORMAT_FRACTAL_Z_3D \<equiv> 33"
abbreviation FORMAT_CN :: Format where "FORMAT_CN \<equiv> 34"
abbreviation FORMAT_NC :: Format where "FORMAT_NC \<equiv> 35"
abbreviation FORMAT_DHWNC :: Format where "FORMAT_DHWNC \<equiv> 36"
abbreviation FORMAT_FRACTAL_Z_3D_TRANSPOSE :: Format where "FORMAT_FRACTAL_Z_3D_TRANSPOSE \<equiv> 37"
abbreviation FORMAT_FRACTAL_ZN_LSTM :: Format where "FORMAT_FRACTAL_ZN_LSTM \<equiv> 38"
abbreviation FORMAT_FRACTAL_Z_G :: Format where "FORMAT_FRACTAL_Z_G \<equiv> 39"
abbreviation FORMAT_ALL :: Format where "FORMAT_ALL \<equiv> 41"
abbreviation FORMAT_NULL :: Format where "FORMAT_NULL \<equiv> 42"
abbreviation FORMAT_END :: Format where "FORMAT_END \<equiv> 43"
abbreviation FORMAT_MAX :: Format where "FORMAT_MAX \<equiv> 255"

lemma anchor_formats [simp]: "FORMAT_ND = 2" "FORMAT_RESERVED = 40"
  by (simp_all add: FORMAT_ND_def FORMAT_RESERVED_def)

datatype DataType =
  DT_FLOAT | DT_FLOAT16 | DT_INT8 | DT_INT16 | DT_UINT16 | DT_UINT8
| DT_INT32 | DT_INT64 | DT_UINT32 | DT_UINT64 | DT_BOOL | DT_DOUBLE
| DT_STRING | DT_DUAL_SUB_INT8 | DT_DUAL_SUB_UINT8 | DT_COMPLEX64 | DT_COMPLEX128 | DT_QINT8
| DT_QINT16 | DT_QINT32 | DT_QUINT8 | DT_QUINT16 | DT_RESOURCE | DT_STRING_REF
| DT_DUAL | DT_VARIANT | DT_UNDEFINED

fun data_type_code :: "DataType \<Rightarrow> 32 word" where
  "data_type_code DT_FLOAT = 0"
| "data_type_code DT_FLOAT16 = 1"
| "data_type_code DT_INT8 = 2"
| "data_type_code DT_INT16 = 6"
| "data_type_code DT_UINT16 = 7"
| "data_type_code DT_UINT8 = 4"
| "data_type_code DT_INT32 = 3"
| "data_type_code DT_INT64 = 9"
| "data_type_code DT_UINT32 = 8"
| "data_type_code DT_UINT64 = 10"
| "data_type_code DT_BOOL = 12"
| "data_type_code DT_DOUBLE = 11"
| "data_type_code DT_STRING = 13"
| "data_type_code DT_DUAL_SUB_INT8 = 14"
| "data_type_code DT_DUAL_SUB_UINT8 = 15"
| "data_type_code DT_COMPLEX64 = 16"
| "data_type_code DT_COMPLEX128 = 17"
| "data_type_code DT_QINT8 = 18"
| "data_type_code DT_QINT16 = 19"
| "data_type_code DT_QINT32 = 20"
| "data_type_code DT_QUINT8 = 21"
| "data_type_code DT_QUINT16 = 22"
| "data_type_code DT_RESOURCE = 23"
| "data_type_code DT_STRING_REF = 24"
| "data_type_code DT_DUAL = 25"
| "data_type_code DT_VARIANT = 26"
| "data_type_code DT_UNDEFINED = 27"

definition data_type_size :: "int list" where
  "data_type_size = [4, 2, 1, 4, 1, -1, 2, 2, 4, 8, 8, 8, 1, -1, 1, 1, 8, 16, 1, 2, 4, 1, 2, -1, -1, 5, -1]"

definition GetSizeByDataType :: "DataType \<Rightarrow> int" where
  "GetSizeByDataType data_type =
     (if data_type_code data_type \<ge> data_type_code DT_UNDEFINED then -1
      else data_type_size ! unat (data_type_code data_type))"

definition format_names :: "string list" where
  "format_names = [''NCHW'', ''NHWC'', ''ND'', ''NC1HWC0'', ''FRACTAL_Z'',
      ''NC1C0HWPAD'', ''NHWC1C0'', ''FSR_NCHW'', ''FRACTAL_DECONV'', ''C1HWNC0'',
      ''FRACTAL_DECONV_TRANSPOSE'', ''FRACTAL_DECONV_SP_STRIDE_TRANS'', ''NC1HWC0_C04'', ''FRACTAL_Z_C04'', ''CHWN'',
      ''DECONV_SP_STRIDE8_TRANS'', ''HWCN'', ''NC1KHKWHWC0'', ''BN_WEIGHT'', ''FILTER_HWCK'',
      ''LOOKUP_LOOKUPS'', ''LOOKUP_KEYS'', ''LOOKUP_VALUE'', ''LOOKUP_OUTPUT'', ''LOOKUP_HITS'',
      ''C1HWNCoC0'', ''MD'', ''NDHWC'', ''UNKNOWN'', ''FRACTAL_NZ'',
      ''NCDHW'', ''DHWCN'', ''NDC1HWC0'', ''FRACTAL_Z_3D'', ''CN'',
      ''NC'', ''DHWNC'', ''FRACTAL_Z_3D_TRANSPOSE'', ''FRACTAL_ZN_LSTM'', ''FRACTAL_Z_G'',
      ''UNKNOWN'', ''UNKNOWN'', ''UNKNOWN'']"

definition GetFormatName :: "Format \<Rightarrow> string" where
  "GetFormatName format = (if format \<ge> FORMAT_END then ''UNKNOWN'' else format_names ! unat format)"

section \<open>The tables\<close>

definition kFormatToStringMap :: "(Format \<times> string) list" where
  "kFormatToStringMap = [(FORMAT_NCHW, ''NCHW''), (FORMAT_NHWC, ''NHWC''),
      (FORMAT_ND, ''ND''), (FORMAT_NC1HWC0, ''NC1HWC0''),
      (FORMAT_FRACTAL_Z, ''FRACTAL_Z''), (FORMAT_NC1C0HWPAD, ''NC1C0HWPAD''),
      (FORMAT_NHWC1C0, ''NHWC1C0''), (FORMAT_FSR_NCHW, ''FSR_NCHW''),
      (FORMAT_FRACTAL_DECONV, ''FRACTAL_DECONV''), (FORMAT_C1HWNC0, ''C1HWNC0''),
      (FORMAT_FRACTAL_DECONV_TRANSPOSE, ''FRACTAL_DECONV_TRANSPOSE''), (FORMAT_FRACTAL_DECONV_SP_STRIDE_TRANS, ''FRACTAL_DECONV_SP_STRIDE_TRANS''),
      (FORMAT_NC1HWC0_C04, ''NC1HWC0_C04''), (FORMAT_FRACTAL_Z_C04, ''FRACTAL_Z_C04''),
      (FORMAT_CHWN, ''CHWN''), (FORMAT_FRACTAL_DECONV_SP_STRIDE8_TRANS, ''DECONV_SP_STRIDE8_TRANS''),
      (FORMAT_NC1KHKWHWC0, ''NC1KHKWHWC0''), (FORMAT_BN_WEIGHT, ''BN_WEIGHT''),
      (FORMAT_FILTER_HWCK, ''FILTER_HWCK''), (FORMAT_HWCN, ''HWCN''),
      (FORMAT_HASHTABLE_LOOKUP_LOOKUPS, ''LOOKUP_LOOKUPS''), (FORMAT_HASHTABLE_LOOKUP_KEYS, ''LOOKUP_KEYS''),
      (FORMAT_HASHTABLE_LOOKUP_VALUE, ''LOOKUP_VALUE''), (FORMAT_HASHTABLE_LOOKUP_OUTPUT, ''LOOKUP_OUTPUT''),
      (FORMAT_HASHTABLE_LOOKUP_HITS, ''LOOKUP_HITS''), (FORMAT_MD, ''MD''),
      (FORMAT_NDHWC, ''NDHWC''), (FORMAT_NCDHW, ''NCDHW''),
      (FORMAT_DHWCN, ''DHWCN''), (FORMAT_DHWNC, ''DHWNC''),
      (FORMAT_NDC1HWC0, ''NDC1HWC0''), (FORMAT_FRACTAL_Z_3D, ''FRACTAL_Z_3D''),
      (FORMAT_FRACTAL_Z_3D_TRANSPOSE, ''FRACTAL_Z_3D_TRANSPOSE''), (FORMAT_C1HWNCoC0, ''C1HWNCoC0''),
      (FORMAT_FRACTAL_NZ, ''FRACTAL_NZ''), (FORMAT_CN, ''CN''),
      (FORMAT_NC, ''NC''), (FORMAT_FRACTAL_ZN_LSTM, ''FRACTAL_ZN_LSTM''),
      (FORMAT_FRACTAL_Z_G, ''FRACTAL_Z_G''), (FORMAT_RESERVED, ''FORMAT_RESERVED''),
      (FORMAT_ALL, ''ALL'')]"

definition kStringToFormatMap :: "(string \<times> Format) list" where
  "kStringToFormatMap = [(''NCHW'', FORMAT_NCHW), (''NHWC'', FORMAT_NHWC),
      (''ND'', FORMAT_ND), (''NC1HWC0'', FORMAT_NC1HWC0),
      (''FRACTAL_Z'', FORMAT_FRACTAL_Z), (''NC1C0HWPAD'', FORMAT_NC1C0HWPAD),
      (''NHWC1C0'', FORMAT_NHWC1C0), (''FSR_NCHW'', FORMAT_FSR_NCHW),
      (''FRACTAL_DECONV'', FORMAT_FRACTAL_DECONV), (''C1HWNC0'', FORMAT_C1HWNC0),
      (''FRACTAL_DECONV_TRANSPOSE'', FORMAT_FRACTAL_DECONV_TRANSPOSE), (''FRACTAL_DECONV_SP_STRIDE_TRANS'', FORMAT_FRACTAL_DECONV_SP_STRIDE_TRANS),
      (''NC1HWC0_C04'', FORMAT_NC1HWC0_C04), (''FRACTAL_Z_C04'', FORMAT_FRACTAL_Z_C04),
      (''CHWN'', FORMAT_CHWN), (''DECONV_SP_STRIDE8_TRANS'', FORMAT_FRACTAL_DECONV_SP_STRIDE8_TRANS),
      (''NC1KHKWHWC0'', FORMAT_NC1KHKWHWC0), (''BN_WEIGHT'', FORMAT_BN_WEIGHT),
      (''FILTER_HWCK'', FORMAT_FILTER_HWCK), (''HWCN'', FORMAT_HWCN),
      (''LOOKUP_LOOKUPS'', FORMAT_HASHTABLE_LOOKUP_LOOKUPS), (''LOOKUP_KEYS'', FORMAT_HASHTABLE_LOOKUP_KEYS),
      (''LOOKUP_VALUE'', FORMAT_HASHTABLE_LOOKUP_VALUE), (''LOOKUP_OUTPUT'', FORMAT_HASHTABLE_LOOKUP_OUTPUT),
      (''LOOKUP_HITS'', FORMAT_HASHTABLE_LOOKUP_HITS), (''MD'', FORMAT_MD),
      (''C1HWNCoC0'', FORMAT_C1HWNCoC0), (''FRACTAL_NZ'', FORMAT_FRACTAL_NZ),
      (''NDHWC'', FORMAT_NDHWC), (''NCDHW'', FORMAT_NCDHW),
      (''DHWCN'', FORMAT_DHWCN), (''DHWNC'', FORMAT_DHWNC),
      (''NDC1HWC0'', FORMAT_NDC1HWC0), (''FRACTAL_Z_3D'', FORMAT_FRACTAL_Z_3D),
      (''FRACTAL_Z_3D_TRANSPOSE'', FORMAT_FRACTAL_Z_3D_TRANSPOSE), (''CN'', FORMAT_CN),
      (''NC'', FORMAT_NC), (''FRACTAL_ZN_LSTM'', FORMAT_FRACTAL_ZN_LSTM),
      (''FRACTAL_Z_G'', FORMAT_FRACTAL_Z_G), (''FORMAT_RESERVED'', FORMAT_RESERVED),
      (''ALL'', FORMAT_ALL), (''NULL'', FORMAT_NULL),
      (''RESERVED'', FORMAT_RESERVED), (''UNDEFINED'', FORMAT_RESERVED)]"

definition kDataFormatMap :: "(string \<times> Format) list" where
  "kDataFormatMap = [(''NCHW'', FORMAT_NCHW), (''NHWC'', FORMAT_NHWC), (''NDHWC'', FORMAT_NDHWC),
      (''NCDHW'', FORMAT_NCDHW), (''ND'', FORMAT_ND)]"

definition kInternalFormat :: "string list" where
  "kInternalFormat = [''NC1HWC0'', ''FRACTAL_Z'', ''NC1C0HWPAD'',
      ''NHWC1C0'', ''FRACTAL_DECONV'', ''C1HWNC0'',
      ''FRACTAL_DECONV_TRANSPOSE'', ''FRACTAL_DECONV_SP_STRIDE_TRANS'', ''NC1HWC0_C04'',
      ''FRACTAL_Z_C04'', ''FRACTAL_DECONV_SP_STRIDE8_TRANS'', ''NC1KHKWHWC0'',
      ''C1HWNCoC0'', ''FRACTAL_ZZ'', ''FRACTAL_NZ'',
      ''NDC1HWC0'', ''FORMAT_FRACTAL_Z_3D'', ''FORMAT_FRACTAL_Z_3D_TRANSPOSE'',
      ''FORMAT_FRACTAL_ZN_LSTM'', ''FORMAT_FRACTAL_Z_G'']"

definition kDataTypeToStringMap :: "(DataType \<times> string) list" where
  "kDataTypeToStringMap = [(DT_UNDEFINED, ''DT_UNDEFINED''), (DT_FLOAT, ''DT_FLOAT''), (DT_FLOAT16, ''DT_FLOAT16''),
      (DT_INT8, ''DT_INT8''), (DT_INT16, ''DT_INT16''), (DT_UINT16, ''DT_UINT16''),
      (DT_UINT8, ''DT_UINT8''), (DT_INT32, ''DT_INT32''), (DT_INT64, ''DT_INT64''),
      (DT_UINT32, ''DT_UINT32''), (DT_UINT64, ''DT_UINT64''), (DT_BOOL, ''DT_BOOL''),
      (DT_DOUBLE, ''DT_DOUBLE''), (DT_DUAL, ''DT_DUAL''), (DT_DUAL_SUB_INT8, ''DT_DUAL_SUB_INT8''),
      (DT_DUAL_SUB_UINT8, ''DT_DUAL_SUB_UINT8''), (DT_COMPLEX64, ''DT_COMPLEX64''), (DT_COMPLEX128, ''DT_COMPLEX128''),
      (DT_QINT8, ''DT_QINT8''), (DT_QINT16, ''DT_QINT16''), (DT_QINT32, ''DT_QINT32''),
      (DT_QUINT8, ''DT_QUINT8''), (DT_QUINT16, ''DT_QUINT16''), (DT_RESOURCE, ''DT_RESOURCE''),
      (DT_STRING_REF, ''DT_STRING_REF''), (DT_STRING, ''DT_STRING''), (DT_VARIANT, ''DT_VARIANT'')]"

definition kStringTodataTypeMap :: "(string \<times> DataType) list" where
  "kStringTodataTypeMap = [(''DT_UNDEFINED'', DT_UNDEFINED), (''DT_FLOAT'', DT_FLOAT), (''DT_FLOAT16'', DT_FLOAT16),
      (''DT_INT8'', DT_INT8), (''DT_INT16'', DT_INT16), (''DT_UINT16'', DT_UINT16),
      (''DT_UINT8'', DT_UINT8), (''DT_INT32'', DT_INT32), (''DT_INT64'', DT_INT64),
      (''DT_UINT32'', DT_UINT32), (''DT_UINT64'', DT_UINT64), (''DT_BOOL'', DT_BOOL),
      (''DT_DOUBLE'', DT_DOUBLE), (''DT_DUAL'', DT_DUAL), (''DT_DUAL_SUB_INT8'', DT_DUAL_SUB_INT8),
      (''DT_DUAL_SUB_UINT8'', DT_DUAL_SUB_UINT8), (''DT_COMPLEX64'', DT_COMPLEX64), (''DT_COMPLEX128'', DT_COMPLEX128),
      (''DT_QINT8'', DT_QINT8), (''DT_QINT16'', DT_QINT16), (''DT_QINT32'', DT_QINT32),
      (''DT_QUINT8'', DT_QUINT8), (''DT_QUINT16'', DT_QUINT16), (''DT_RESOURCE'', DT_RESOURCE),
      (''DT_STRING_REF'', DT_STRING_REF), (''DT_STRING'', DT_STRING), (''DT_FLOAT32'', DT_FLOAT),
      (''DT_VARIANT'', DT_VARIANT)]"

definition kDataTypeToLength :: "(DataType \<times> 32 word) list" where
  "kDataTypeToLength = [(DT_BOOL, 1), (DT_INT64, 8), (DT_UINT64, 8), (DT_FLOAT, 4), (DT_INT32, 4),
      (DT_UINT32, 4), (DT_INT8, 1), (DT_UINT8, 1), (DT_INT16, 2), (DT_UINT16, 2),
      (DT_FLOAT16, 2), (DT_DOUBLE, 8), (DT_DUAL, 5), (DT_DUAL_SUB_INT8, 1), (DT_DUAL_SUB_UINT8, 1),
      (DT_COMPLEX64, 8), (DT_COMPLEX128, 16), (DT_QINT8, 1), (DT_QINT16, 2), (DT_QINT32, 4),
      (DT_QUINT8, 1), (DT_QUINT16, 2), (DT_STRING_REF, 16), (DT_STRING, 8), (DT_RESOURCE, 8),
      (DT_VARIANT, 8)]"

datatype ImplyType = BUILDIN | TVM | CUSTOM | AI_CPU | CCE | GELOCAL | HCCL | INVALID

definition kImplyTypeToString :: "(ImplyType \<times> string) list" where
  "kImplyTypeToString = [(BUILDIN, ''buildin''), (TVM, ''tvm''), (CUSTOM, ''custom''),
      (AI_CPU, ''ai_cpu''), (CCE, ''cce''), (GELOCAL, ''gelocal''), (HCCL, ''hccl''),
      (INVALID, ''invalid'')]"

datatype FrameworkType = CAFFE | MINDSPORE | TENSORFLOW | ANDROID_NN | ONNX | FRAMEWORK_RESERVED

definition kFmkTypeToString :: "(FrameworkType \<times> string) list" where
  "kFmkTypeToString = [(CAFFE, ''caffe''), (MINDSPORE, ''mindspore''), (TENSORFLOW, ''tensorflow''),
      (ANDROID_NN, ''android_nn''), (ONNX, ''onnx''), (FRAMEWORK_RESERVED, ''framework_reserved'')]"

datatype domiTensorFormat_t =
  DOMI_TENSOR_NCHW | DOMI_TENSOR_NHWC | DOMI_TENSOR_ND | DOMI_TENSOR_NC1HWC0 | DOMI_TENSOR_FRACTAL_Z
| DOMI_TENSOR_NC1C0HWPAD | DOMI_TENSOR_NHWC1C0 | DOMI_TENSOR_FSR_NCHW | DOMI_TENSOR_FRACTAL_DECONV
| DOMI_TENSOR_BN_WEIGHT | DOMI_TENSOR_CHWN | DOMI_TENSOR_FILTER_HWCK | DOMI_TENSOR_NDHWC
| DOMI_TENSOR_NCDHW | DOMI_TENSOR_DHWCN | DOMI_TENSOR_DHWNC | DOMI_TENSOR_RESERVED

definition kDomiFormatToGeFormat :: "(domiTensorFormat_t \<times> Format) list" where
  "kDomiFormatToGeFormat = [(DOMI_TENSOR_NCHW, FORMAT_NCHW), (DOMI_TENSOR_NHWC, FORMAT_NHWC),
      (DOMI_TENSOR_ND, FORMAT_ND), (DOMI_TENSOR_NC1HWC0, FORMAT_NC1HWC0),
      (DOMI_TENSOR_FRACTAL_Z, FORMAT_FRACTAL_Z), (DOMI_TENSOR_NC1C0HWPAD, FORMAT_NC1C0HWPAD),
      (DOMI_TENSOR_NHWC1C0, FORMAT_NHWC1C0), (DOMI_TENSOR_FSR_NCHW, FORMAT_FSR_NCHW),
      (DOMI_TENSOR_FRACTAL_DECONV, FORMAT_FRACTAL_DECONV), (DOMI_TENSOR_BN_WEIGHT, FORMAT_BN_WEIGHT),
      (DOMI_TENSOR_CHWN, FORMAT_CHWN), (DOMI_TENSOR_FILTER_HWCK, FORMAT_FILTER_HWCK),
      (DOMI_TENSOR_NDHWC, FORMAT_NDHWC), (DOMI_TENSOR_NCDHW, FORMAT_NCDHW),
      (DOMI_TENSOR_DHWCN, FORMAT_DHWCN), (DOMI_TENSOR_DHWNC, FORMAT_DHWNC),
      (DOMI_TENSOR_RESERVED, FORMAT_RESERVED)]"

section \<open>Primary format and sub-format\<close>

definition GetFormatFromSub :: "32 word \<Rightarrow> 32 word \<Rightarrow> Format" where
  "GetFormatFromSub primary_format sub_format =
     (primary_format AND 0xff) OR (push_bit 8 (sub_format AND 0xffff))"

definition GetPrimaryFormat :: "Format \<Rightarrow> 32 word" where
  "GetPrimaryFormat format = format AND 0xff"

definition GetSubFormat :: "Format \<Rightarrow> 32 word" where
  "GetSubFormat format = drop_bit 8 (format AND 0xffff00)"

definition HasSubFormat :: "Format \<Rightarrow> bool" where
  "HasSubFormat format \<longleftrightarrow> sint (GetSubFormat format) > 0"

section \<open>Conversions\<close>

definition ImplyTypeToSerialString :: "ImplyType \<Rightarrow> string" where
  "ImplyTypeToSerialString t =
     (case map_of kImplyTypeToString t of Some n \<Rightarrow> n | None \<Rightarrow> ''UNDEFINED'')"

definition FmkTypeToSerialString :: "FrameworkType \<Rightarrow> string" where
  "FmkTypeToSerialString t = (case map_of kFmkTypeToString t of Some n \<Rightarrow> n | None \<Rightarrow> [])"

definition IsDataTypeValid :: "DataType \<Rightarrow> bool" where
  "IsDataTypeValid dt \<longleftrightarrow> data_type_code dt \<le> data_type_code DT_UNDEFINED"

definition DataTypeToSerialString :: "DataType \<Rightarrow> string" where
  "DataTypeToSerialString data_type =
     (case map_of kDataTypeToStringMap data_type of Some n \<Rightarrow> n | None \<Rightarrow> ''UNDEFINED'')"

definition SerialStringToDataType :: "string \<Rightarrow> DataType" where
  "SerialStringToDataType str =
     (case map_of kStringTodataTypeMap str of Some t \<Rightarrow> t | None \<Rightarrow> DT_UNDEFINED)"

definition IsFormatValid :: "Format \<Rightarrow> bool" where
  "IsFormatValid format \<longleftrightarrow> GetPrimaryFormat format \<le> FORMAT_RESERVED"

text \<open>\<^verbatim>\<open>::toupper\<close> in the C locale.\<close>

definition to_upper :: "char \<Rightarrow> char" where
  "to_upper c =
     (let n = of_char c :: nat in if 97 \<le> n \<and> n \<le> 122 then char_of (n - 32) else c)"

definition IsDataTypeValid_str :: "string \<Rightarrow> bool" where
  "IsDataTypeValid_str dt \<longleftrightarrow> map_of kStringTodataTypeMap (''DT_'' @ map to_upper dt) \<noteq> None"

definition IsFormatValid_str :: "string \<Rightarrow> bool" where
  "IsFormatValid_str format \<longleftrightarrow> map_of kStringToFormatMap (map to_upper format) \<noteq> None"

definition FormatToSerialString :: "Format \<Rightarrow> string" where
  "FormatToSerialString format =
     (case map_of kFormatToStringMap (GetPrimaryFormat format) of
        Some n \<Rightarrow>
          if HasSubFormat format then n @ '':'' @ to_string (sint (GetSubFormat format)) else n
      | None \<Rightarrow> ''RESERVED'')"

definition IsInternalFormat :: "Format \<Rightarrow> bool" where
  "IsInternalFormat format \<longleftrightarrow>
     List.member kInternalFormat (FormatToSerialString (GetPrimaryFormat format))"

text \<open>\<^term>\<open>None\<close> stands for \<^verbatim>\<open>GRAPH_FAILED\<close>.\<close>

definition SplitFormatFromStr :: "string \<Rightarrow> (string \<times> int) option" where
  "SplitFormatFromStr str =
     (case find_index (\<lambda>c. c = CHR '':'') str of
        None \<Rightarrow> Some (str, 0)
      | Some split_pos \<Rightarrow>
          (let sub_format_str = drop (Suc split_pos) str
           in if \<not> list_all is_digit sub_format_str then None
              else (case stoi sub_format_str of
                      Stoi sub_format \<Rightarrow>
                        if sub_format > 0xffff then None else Some (take split_pos str, sub_format)
                    | _ \<Rightarrow> None)))"

definition parse_format :: "(string \<times> Format) list \<Rightarrow> string \<Rightarrow> Format" where
  "parse_format table str =
     (case SplitFormatFromStr str of
        None \<Rightarrow> FORMAT_RESERVED
      | Some (primary_format_str, sub_format) \<Rightarrow>
          (case map_of table primary_format_str of
             None \<Rightarrow> FORMAT_RESERVED
           | Some primary_format \<Rightarrow> GetFormatFromSub primary_format (word_of_int sub_format)))"

definition SerialStringToFormat :: "string \<Rightarrow> Format" where
  "SerialStringToFormat str = parse_format kStringToFormatMap str"

definition DataFormatToFormat :: "string \<Rightarrow> Format" where
  "DataFormatToFormat str = parse_format kDataFormatMap str"

definition DomiFormatToFormat :: "domiTensorFormat_t \<Rightarrow> Format" where
  "DomiFormatToFormat domi_format =
     (case map_of kDomiFormatToGeFormat domi_format of Some f \<Rightarrow> f | None \<Rightarrow> FORMAT_RESERVED)"

definition GetDataTypeLength :: "DataType \<Rightarrow> 32 word option" where
  "GetDataTypeLength data_type = map_of kDataTypeToLength data_type"

definition CheckUint64MulOverflow :: "64 word \<Rightarrow> 32 word \<Rightarrow> bool" where
  "CheckUint64MulOverflow a b =
     (if a = 0 then False else if ucast b \<le> (-1) div a then False else True)"

section \<open>Bit fields\<close>

lemma format_masks: "(0xff :: 32 word) = mask 8" "(0xffff :: 32 word) = mask 16"
    "(0xffff00 :: 32 word) = push_bit 8 (mask 16)" "(0xffffff :: 32 word) = mask 24"
  by (simp_all add: mask_eq_exp_minus_1 push_bit_eq_mult)

lemmas format_bits = GetFormatFromSub_def GetPrimaryFormat_def GetSubFormat_def format_masks

lemma GetPrimaryFormat_from [simp]: "GetPrimaryFormat (GetFormatFromSub p q) = p AND 0xff"
  unfolding format_bits by (rule bit_eqI) (auto simp: bit_simps)

lemma GetSubFormat_from [simp]: "GetSubFormat (GetFormatFromSub p q) = q AND 0xffff"
  unfolding format_bits by (rule bit_eqI) (auto simp: bit_simps)

lemma GetFormatFromSub_split: "GetFormatFromSub (GetPrimaryFormat f) (GetSubFormat f) = f AND 0xffffff"
  unfolding format_bits by (rule bit_eqI) (auto simp: bit_simps)

lemma GetPrimaryFormat_idem [simp]: "GetPrimaryFormat (GetPrimaryFormat f) = GetPrimaryFormat f"
  unfolding format_bits by (rule bit_eqI) (auto simp: bit_simps)

lemma GetSubFormat_mask: "GetSubFormat f AND 0xffff = GetSubFormat f"
  unfolding format_bits by (rule bit_eqI) (auto simp: bit_simps)

lemma GetSubFormat_less: "uint (GetSubFormat f) < 2 ^ 16"
proof -
  have "GetSubFormat f = take_bit 16 (GetSubFormat f)"
    using GetSubFormat_mask [of f] by (simp add: format_masks take_bit_eq_mask)
  then show ?thesis by (metis take_bit_int_less_exp unsigned_take_bit_eq)
qed

lemma sint_GetSubFormat: "sint (GetSubFormat f) = uint (GetSubFormat f)"
proof -
  have "signed_take_bit 31 (uint (GetSubFormat f)) = uint (GetSubFormat f)"
  proof (rule signed_take_bit_int_eq_self)
    show "- (2 ^ 31) \<le> uint (GetSubFormat f)" by (rule order_trans [OF _ uint_ge_0]) simp
    show "uint (GetSubFormat f) < 2 ^ 31" by (rule order_less_trans [OF GetSubFormat_less]) simp
  qed
  then show ?thesis by (simp only: sint_uint) simp
qed

lemma HasSubFormat_iff: "HasSubFormat f \<longleftrightarrow> GetSubFormat f \<noteq> 0"
proof -
  have "uint (GetSubFormat f) \<noteq> 0 \<longleftrightarrow> GetSubFormat f \<noteq> 0" by (simp add: uint_0_iff)
  then show ?thesis
    unfolding HasSubFormat_def sint_GetSubFormat using uint_ge_0 [of "GetSubFormat f"] by linarith
qed

section \<open>Reading a written format\<close>

lemma find_index_colon_append:
  "CHR '':'' \<notin> set n \<Longrightarrow> find_index (\<lambda>c. c = CHR '':'') (n @ CHR '':'' # s) = Some (length n)"
  by (induction n) auto

lemma SplitFormatFromStr_plain: "CHR '':'' \<notin> set n \<Longrightarrow> SplitFormatFromStr n = Some (n, 0)"
proof -
  assume "CHR '':'' \<notin> set n"
  then have "find_index (\<lambda>c. c = CHR '':'') n = None" by (auto simp: find_index_None)
  then show ?thesis by (simp add: SplitFormatFromStr_def)
qed

lemma SplitFormatFromStr_sub:
  assumes "CHR '':'' \<notin> set n" "0 \<le> i" "i \<le> 0xffff"
  shows "SplitFormatFromStr (n @ '':'' @ to_string i) = Some (n, i)"
proof -
  have "list_all is_digit (to_string i)"
    using assms(2) nat_digits_digits by (simp add: to_string_def)
  then show ?thesis
    using assms by (simp add: SplitFormatFromStr_def find_index_colon_append stoi_to_string)
qed

text \<open>Every format with a name has that name in the table that is read, and it has no colon.\<close>

definition name_readable :: "Format \<times> string \<Rightarrow> bool" where
  "name_readable e \<longleftrightarrow> map_of kStringToFormatMap (snd e) = Some (fst e) \<and> CHR '':'' \<notin> set (snd e)"

lemma names_readable: "list_all name_readable kFormatToStringMap"
  by code_simp

lemma named_format_readable:
  "map_of kFormatToStringMap p = Some n \<Longrightarrow>
   map_of kStringToFormatMap n = Some p \<and> CHR '':'' \<notin> set n"
  using names_readable unfolding list_all_iff name_readable_def
  by (fastforce dest: map_of_SomeD)

lemma SerialStringToFormat_written:
  assumes "map_of kFormatToStringMap (GetPrimaryFormat f) = Some n"
  shows "SerialStringToFormat (FormatToSerialString f) = f AND 0xffffff"
proof -
  note n = named_format_readable [OF assms]
  have i: "0 \<le> sint (GetSubFormat f)" "sint (GetSubFormat f) \<le> 0xffff"
    using GetSubFormat_less [of f] by (simp_all add: sint_GetSubFormat)
  have w: "word_of_int (sint (GetSubFormat f)) = GetSubFormat f" by simp
  show ?thesis
  proof (cases "HasSubFormat f")
    case True
    then have "FormatToSerialString f = n @ '':'' @ to_string (sint (GetSubFormat f))"
      by (simp add: FormatToSerialString_def assms)
    moreover have "SplitFormatFromStr (n @ '':'' @ to_string (sint (GetSubFormat f))) = Some (n, sint (GetSubFormat f))"
      using n i by (intro SplitFormatFromStr_sub) simp_all
    ultimately show ?thesis
      using n by (simp only: SerialStringToFormat_def parse_format_def option.case prod.case w
          GetFormatFromSub_split)
  next
    case False
    then have 0: "GetSubFormat f = 0" by (simp add: HasSubFormat_iff)
    have "FormatToSerialString f = n" using False by (simp add: FormatToSerialString_def assms)
    moreover have "GetFormatFromSub (GetPrimaryFormat f) (word_of_int 0) = f AND 0xffffff"
      using GetFormatFromSub_split [of f] by (simp add: 0)
    moreover have "SplitFormatFromStr n = Some (n, 0)" using n by (intro SplitFormatFromStr_plain) simp
    ultimately show ?thesis
      using n by (simp only: SerialStringToFormat_def parse_format_def option.case prod.case)
  qed
qed

lemma SerialStringToFormat_nameless:
  assumes "map_of kFormatToStringMap (GetPrimaryFormat f) = None"
  shows "SerialStringToFormat (FormatToSerialString f) = FORMAT_RESERVED"
proof -
  have "SerialStringToFormat ''RESERVED'' = FORMAT_RESERVED"
    by (simp add: SerialStringToFormat_def parse_format_def SplitFormatFromStr_plain
        kStringToFormatMap_def GetFormatFromSub_def)
  then show ?thesis by (simp add: FormatToSerialString_def assms)
qed

text \<open> C17: A format whose primary format has a name survives writing and reading: the 24 bits of
  primary format and sub-format come back, the unused highest byte is cleared.
\<close>

theorem format_round_trip:
  assumes "map_of kFormatToStringMap (GetPrimaryFormat f) \<noteq> None"
  shows "SerialStringToFormat (FormatToSerialString f) = f AND 0xffffff"
  using assms SerialStringToFormat_written by blast

theorem format_round_trip_witness:
  "SerialStringToFormat (FormatToSerialString 0x2a04) = 0x2a04 \<and>
   FormatToSerialString 0x2a04 = ''FRACTAL_Z:'' @ to_string 42"
  using format_round_trip [of "0x2a04"]
  by (simp add: GetPrimaryFormat_def kFormatToStringMap_def FormatToSerialString_def HasSubFormat_def
      GetSubFormat_def)

lemma find_index_takeWhile:
  "find_index P xs =
     (if dropWhile (\<lambda>x. \<not> P x) xs = [] then None else Some (length (takeWhile (\<lambda>x. \<not> P x) xs)))"
  by (induction xs) auto

lemma split_at_takeWhile:
  "take (length (takeWhile P xs)) xs = takeWhile P xs \<and>
   drop (Suc (length (takeWhile P xs))) xs = tl (dropWhile P xs)"
  by (induction xs) auto

lemma parse_int_digits:
  "list_all is_digit ds \<Longrightarrow> parse_int ds = (if ds = [] then None else Some (int (parse_digits 0 ds)))"
  by (cases ds)
    (use digit_not_special in \<open>auto simp: parse_int_def Ltrim_def Let_def simp del: parse_digits.simps\<close>)

lemma SplitFormatFromStr_cases:
  "SplitFormatFromStr str =
     (let name = takeWhile (\<lambda>c. c \<noteq> CHR '':'') str;
          rest = dropWhile (\<lambda>c. c \<noteq> CHR '':'') str;
          digits = tl rest
      in if rest = [] then Some (name, 0)
         else if digits \<noteq> [] \<and> list_all is_digit digits \<and> parse_digits 0 digits \<le> 0xffff
         then Some (name, int (parse_digits 0 digits)) else None)"
  by (auto simp: SplitFormatFromStr_def find_index_takeWhile split_at_takeWhile stoi_def Let_def
      parse_int_digits dropWhile_eq_Nil_conv intro!: takeWhile_eq_all_conv [THEN iffD2, symmetric]
      split: option.splits)

lemma GetFormatFromSub_0: "GetFormatFromSub p 0 = p AND 0xff"
  by (simp add: GetFormatFromSub_def)

text \<open> C18: What the reader makes of any text: nothing but a name of the table, or such a name, a
  colon and a decimal number of at most 65535, is a format; the number becomes the sub-format.
\<close>

theorem format_reader_accepts:
  "SerialStringToFormat str =
     (let name = takeWhile (\<lambda>c. c \<noteq> CHR '':'') str;
          rest = dropWhile (\<lambda>c. c \<noteq> CHR '':'') str;
          digits = tl rest;
          sub = parse_digits 0 digits
      in case map_of kStringToFormatMap name of
           None \<Rightarrow> FORMAT_RESERVED
         | Some p \<Rightarrow>
             if rest = [] then p AND 0xff
             else if digits \<noteq> [] \<and> list_all is_digit digits \<and> sub \<le> 0xffff
             then GetFormatFromSub p (of_nat sub) else FORMAT_RESERVED)"
  unfolding SerialStringToFormat_def parse_format_def SplitFormatFromStr_cases
  by (auto simp: Let_def GetFormatFromSub_0 split: option.splits)

section \<open>Element types\<close>

text \<open> Every element type survives writing and reading.
\<close>

theorem data_type_round_trip: "SerialStringToDataType (DataTypeToSerialString dt) = dt"
  by (cases dt; hypsubst; code_simp)

text \<open> The two size tables agree: the length of a type is its size wherever the size is
  known, and only the types without a size (references, strings, resources, variants) have a
  length of their own; the undefined type alone has none.
\<close>

theorem data_type_sizes_agree:
  "GetDataTypeLength dt =
     (if GetSizeByDataType dt > 0 then Some (word_of_int (GetSizeByDataType dt))
      else if dt = DT_STRING_REF then Some 16
      else if dt = DT_UNDEFINED then None else Some 8)"
  by (cases dt) (simp_all add: GetDataTypeLength_def kDataTypeToLength_def GetSizeByDataType_def
      data_type_size_def word_le_def)

text \<open> The overflow test is exact: it holds when the product does not fit in 64 bits.
\<close>

theorem mul_overflow_exact: "CheckUint64MulOverflow a b \<longleftrightarrow> 2 ^ 64 \<le> uint a * uint b"
proof (cases "a = 0")
  case False
  then have a: "0 < uint a" by (simp add: word_neq_0_conv word_less_def)
  have b: "uint (ucast b :: 64 word) = uint b"
  proof -
    have "uint b < 2 ^ 64" using uint_lt2p [of b] by simp
    then show ?thesis by (simp add: unsigned_ucast_eq take_bit_int_eq_self)
  qed
  have "CheckUint64MulOverflow a b \<longleftrightarrow> \<not> uint b \<le> (2 ^ 64 - 1) div uint a"
    using False by (simp add: CheckUint64MulOverflow_def word_le_def uint_div b unsigned_minus_1_eq_mask
        mask_eq_exp_minus_1)
  also have "\<dots> \<longleftrightarrow> \<not> uint b * uint a \<le> 2 ^ 64 - 1"
    by (simp only: le_div_iff_int [OF a])
  also have "\<dots> \<longleftrightarrow> 2 ^ 64 \<le> uint b * uint a" by linarith
  finally show ?thesis by (simp only: mult.commute)
qed (simp add: CheckUint64MulOverflow_def)

section \<open>Internal formats\<close>

text \<open>The formats whose written name is in the table.\<close>

definition internal_primaries :: "Format list" where
  "internal_primaries =
     [FORMAT_NC1HWC0, FORMAT_FRACTAL_Z, FORMAT_NC1C0HWPAD, FORMAT_NHWC1C0, FORMAT_FRACTAL_DECONV,
      FORMAT_C1HWNC0, FORMAT_FRACTAL_DECONV_TRANSPOSE, FORMAT_FRACTAL_DECONV_SP_STRIDE_TRANS,
      FORMAT_NC1HWC0_C04, FORMAT_FRACTAL_Z_C04, FORMAT_NC1KHKWHWC0, FORMAT_C1HWNCoC0,
      FORMAT_FRACTAL_NZ, FORMAT_NDC1HWC0]"

lemma internal_names:
  "list_all (\<lambda>e. List.member kInternalFormat (snd e) \<longleftrightarrow> List.member internal_primaries (fst e)) kFormatToStringMap"
  by code_simp

lemma internal_named:
  "list_all (\<lambda>p. map_of kFormatToStringMap p \<noteq> None) internal_primaries"
  by code_simp

lemma FormatToSerialString_primary:
  "FormatToSerialString (GetPrimaryFormat f) =
     (case map_of kFormatToStringMap (GetPrimaryFormat f) of Some n \<Rightarrow> n | None \<Rightarrow> ''RESERVED'')"
proof -
  have "GetSubFormat (GetPrimaryFormat f) = 0"
    unfolding format_bits by (rule bit_eqI) (auto simp: bit_simps)
  then show ?thesis by (simp add: FormatToSerialString_def HasSubFormat_iff split: option.splits)
qed

lemma IsInternalFormat_primaries:
  "IsInternalFormat f \<longleftrightarrow> List.member internal_primaries (GetPrimaryFormat f)"
proof (cases "map_of kFormatToStringMap (GetPrimaryFormat f)")
  case None
  then have "\<not> List.member internal_primaries (GetPrimaryFormat f)"
    using internal_named by (auto simp: list_all_iff)
  moreover have "\<not> List.member kInternalFormat ''RESERVED''" by (simp add: kInternalFormat_def)
  ultimately show ?thesis by (simp add: IsInternalFormat_def FormatToSerialString_primary None)
next
  case (Some n)
  then have "(GetPrimaryFormat f, n) \<in> set kFormatToStringMap" by (rule map_of_SomeD)
  then have "List.member kInternalFormat n \<longleftrightarrow> List.member internal_primaries (GetPrimaryFormat f)"
    using internal_names by (auto simp: list_all_iff)
  then show ?thesis by (simp add: IsInternalFormat_def FormatToSerialString_primary Some)
qed

text \<open> Which formats count as internal. The table spells four of them with the prefix
  \<^verbatim>\<open>FORMAT_\<close> and one as \<^verbatim>\<open>FRACTAL_DECONV_SP_STRIDE8_TRANS\<close>, unlike
  the names that are looked up, and \<^verbatim>\<open>FRACTAL_ZZ\<close> has no name: these six are missing.
\<close>

theorem internal_formats:
  "IsInternalFormat f \<longleftrightarrow>
     GetPrimaryFormat f \<in>
       {FORMAT_NC1HWC0, FORMAT_FRACTAL_Z, FORMAT_NC1C0HWPAD, FORMAT_NHWC1C0, FORMAT_FRACTAL_DECONV,
        FORMAT_C1HWNC0, FORMAT_FRACTAL_DECONV_TRANSPOSE, FORMAT_FRACTAL_DECONV_SP_STRIDE_TRANS,
        FORMAT_NC1HWC0_C04, FORMAT_FRACTAL_Z_C04, FORMAT_NC1KHKWHWC0, FORMAT_C1HWNCoC0,
        FORMAT_FRACTAL_NZ, FORMAT_NDC1HWC0}"
  by (simp add: IsInternalFormat_primaries internal_primaries_def)

lemma to_upper_C1HWNCoC0: "map to_upper ''C1HWNCoC0'' = ''C1HWNCOC0''"
  by code_simp

text \<open> Validity of a written format is tested on the text in upper case, so the one name with
  a lower-case letter is rejected in every spelling although it can be read.
\<close>

theorem mixed_case_format_invalid:
  "\<not> IsFormatValid_str ''C1HWNCoC0'' \<and> SerialStringToFormat ''C1HWNCoC0'' = FORMAT_C1HWNCoC0"
  unfolding IsFormatValid_str_def to_upper_C1HWNCoC0
  by (simp add: SerialStringToFormat_def parse_format_def SplitFormatFromStr_plain
      kStringToFormatMap_def GetFormatFromSub_def)

end
