(* ===== verification/TensorSize.thy ===== *)
theory TensorSize
  imports GraphTypes "HOL-Library.Signed_Division"
begin

text \<open>
  Tensor sizes, \<^verbatim>\<open>graph/utils/tensor_utils.cc\<close>: the number of elements for the
  dimensions and the memory format, the bytes, the padded bytes. Values of type
  \<^verbatim>\<open>int64_t\<close> are integers; every product the code forms is reduced to 64 bits, so that an
  unguarded overflow would show. Divisions truncate (\<^const>\<open>signed_divide\<close>).
\<close>

section \<open>64-bit integers and doubles\<close>

abbreviation INT64_MAX :: int where "INT64_MAX \<equiv> 2 ^ 63 - 1"
abbreviation INT64_MIN :: int where "INT64_MIN \<equiv> - (2 ^ 63)"

definition wrap64 :: "int \<Rightarrow> int" where
  "wrap64 i = signed_take_bit 63 i"

definition int64 :: "int \<Rightarrow> bool" where
  "int64 i \<longleftrightarrow> INT64_MIN \<le> i \<and> i \<le> INT64_MAX"

text \<open>
  The conversion of a non-negative 64-bit integer to a \<^verbatim>\<open>double\<close>: 53 significant bits,
  rounding to nearest, ties to even. The result is an integer.
\<close>

fun double_shift :: "nat \<Rightarrow> nat" where
  "double_shift n = (if n < 2 ^ 53 then 0 else Suc (double_shift (n div 2)))"

declare double_shift.simps [simp del]

definition to_double :: "nat \<Rightarrow> nat" where
  "to_double n =
     (let s = double_shift n; q = n div 2 ^ s; r = n mod 2 ^ s
      in if 2 * r > 2 ^ s \<or> (2 * r = 2 ^ s \<and> odd q) then (q + 1) * 2 ^ s else q * 2 ^ s)"

text \<open>
  \<^verbatim>\<open>ceil(d * 1.0 / c)\<close> where c is a power of two: dividing a double by it is exact, the
  conversion of d is the only rounding.
\<close>

definition ceil_div :: "int \<Rightarrow> int \<Rightarrow> int" where
  "ceil_div d c = - ((- int (to_double (nat d))) div c)"

section \<open>Counting elements\<close>

definition CheckMultiplyOverflowInt64 :: "int \<Rightarrow> int \<Rightarrow> bool" where
  "CheckMultiplyOverflowInt64 a b =
     (if a > 0 then
        (if b > 0 then a > INT64_MAX sdiv b else b < INT64_MIN sdiv a)
      else
        (if b > 0 then a < INT64_MIN sdiv b else a \<noteq> 0 \<and> b < INT64_MAX sdiv a))"

text \<open>\<^term>\<open>None\<close> stands for \<^verbatim>\<open>GRAPH_FAILED\<close>.\<close>

fun count_dims :: "int list \<Rightarrow> int \<Rightarrow> int option" where
  "count_dims [] element_cnt = Some element_cnt"
| "count_dims (dim # dims) element_cnt =
     (if CheckMultiplyOverflowInt64 element_cnt dim then None
      else count_dims dims (wrap64 (element_cnt * dim)))"

definition CalcElementCntByDims :: "int list \<Rightarrow> int option" where
  "CalcElementCntByDims dims = count_dims dims 1"

text \<open>A wrong number of dimensions is only a warning.\<close>

definition CalcElementCntOfFixedDims :: "int list \<Rightarrow> Format \<Rightarrow> nat \<Rightarrow> int option" where
  "CalcElementCntOfFixedDims dims format fixed_dim_size = CalcElementCntByDims dims"

definition GetDimC0 :: "DataType \<Rightarrow> int" where
  "GetDimC0 data_type =
     (if List.member [DT_INT8, DT_UINT8, DT_DUAL_SUB_UINT8, DT_DUAL_SUB_INT8, DT_BOOL, DT_QINT8] data_type
      then 32 else 16)"

definition CalcElementCntOfNc1hwc0 :: "int list \<Rightarrow> DataType \<Rightarrow> int option" where
  "CalcElementCntOfNc1hwc0 dims data_type =
     (if length dims = 5 then CalcElementCntByDims dims
      else if length dims \<noteq> 4 then None
      else let c0 = GetDimC0 data_type; c1 = ceil_div (dims ! 1) c0
           in CalcElementCntByDims [dims ! 0, c1, dims ! 2, dims ! 3, c0])"

text \<open>\<^term>\<open>env\<close> is the value of the variable \<^verbatim>\<open>PARSER_PRIORITY\<close>, if it is set.\<close>

definition CalcElementCntOfFractalZ :: "string option \<Rightarrow> int list \<Rightarrow> DataType \<Rightarrow> int option" where
  "CalcElementCntOfFractalZ env dims data_type =
     (if env = Some ''cce'' then
        (if length dims \<noteq> 4 then None
         else let c0 = GetDimC0 data_type; c1 = ceil_div (dims ! 1) c0
              in case CalcElementCntByDims [c1, dims ! 2, dims ! 3, c0] of
                   None \<Rightarrow> None
                 | Some r_count \<Rightarrow>
                     (let nc_cnt = ceil_div (dims ! 0) 16;
                          vc_cnt = r_count sdiv c0;
                          cube_elem_cnt = c0 * 16
                      in if CheckMultiplyOverflowInt64 nc_cnt vc_cnt then None
                         else let c_cnt = wrap64 (nc_cnt * vc_cnt)
                              in if CheckMultiplyOverflowInt64 c_cnt cube_elem_cnt then None
                                 else Some (wrap64 (c_cnt * cube_elem_cnt))))
      else CalcElementCntByDims dims)"

text \<open>The first dimension that is not positive decides.\<close>

fun special_dim :: "int list \<Rightarrow> int option" where
  "special_dim [] = None"
| "special_dim (dim # dims) =
     (if dim < 0 then Some (-1) else if dim = 0 then Some 0 else special_dim dims)"

definition CalcTensorElementCnt ::
    "string option \<Rightarrow> int list \<Rightarrow> Format \<Rightarrow> DataType \<Rightarrow> int option" where
  "CalcTensorElementCnt env dims format data_type =
     (case special_dim dims of
        Some element_cnt \<Rightarrow> Some element_cnt
      | None \<Rightarrow>
          if List.member [FORMAT_ND, FORMAT_MD] format then CalcElementCntByDims dims
          else if List.member [FORMAT_NCHW, FORMAT_HWCN, FORMAT_NHWC, FORMAT_CHWN] format
          then CalcElementCntOfFixedDims dims format 4
          else if format = FORMAT_C1HWNCoC0 then CalcElementCntOfFixedDims dims format 6
          else if format = FORMAT_NC1HWC0 then CalcElementCntOfNc1hwc0 dims data_type
          else if format = FORMAT_FRACTAL_Z then CalcElementCntOfFractalZ env dims data_type
          else if List.member [FORMAT_FRACTAL_NZ, FORMAT_FRACTAL_ZZ, FORMAT_NDHWC, FORMAT_NCDHW,
              FORMAT_DHWCN, FORMAT_DHWNC, FORMAT_FRACTAL_Z_3D, FORMAT_FRACTAL_Z_3D_TRANSPOSE,
              FORMAT_NDC1HWC0, FORMAT_FRACTAL_Z_C04, FORMAT_FRACTAL_ZN_LSTM, FORMAT_NC1HWC0_C04] format
          then CalcElementCntByDims dims
          else None)"

section \<open>Bytes\<close>

definition CalcTensorMemSize :: "string option \<Rightarrow> int list \<Rightarrow> Format \<Rightarrow> DataType \<Rightarrow> int option" where
  "CalcTensorMemSize env dims format data_type =
     (case GetDataTypeLength data_type of
        None \<Rightarrow> None
      | Some type_size \<Rightarrow>
          (case CalcTensorElementCnt env dims format data_type of
             None \<Rightarrow> None
           | Some element_cnt \<Rightarrow>
               if element_cnt < 0 then Some (-1)
               else if CheckMultiplyOverflowInt64 element_cnt (uint type_size) then None
               else Some (wrap64 (element_cnt * uint type_size))))"

definition GetTensorSizeInBytes :: "string option \<Rightarrow> int list \<Rightarrow> Format \<Rightarrow> DataType \<Rightarrow> int option" where
  "GetTensorSizeInBytes env dims format data_type =
     (case CalcTensorMemSize env dims format data_type of
        None \<Rightarrow> None
      | Some output_mem_size \<Rightarrow> if output_mem_size < 0 then None else Some output_mem_size)"

abbreviation kDataMemAlignSize :: int where "kDataMemAlignSize \<equiv> 32"
abbreviation kNum2 :: int where "kNum2 \<equiv> 2"

definition GetTensorMemorySizeInBytes ::
    "string option \<Rightarrow> int list \<Rightarrow> Format \<Rightarrow> DataType \<Rightarrow> int option" where
  "GetTensorMemorySizeInBytes env dims format data_type =
     (case GetTensorSizeInBytes env dims format data_type of
        None \<Rightarrow> None
      | Some size_temp \<Rightarrow>
          Some (if size_temp > INT64_MAX - kNum2 * kDataMemAlignSize then size_temp
                else wrap64 (wrap64 (size_temp + kNum2 * kDataMemAlignSize - 1) sdiv kDataMemAlignSize
                             * kDataMemAlignSize)))"

section \<open>Overflow tests are exact\<close>

lemma wrap64_id [simp]: "int64 i \<Longrightarrow> wrap64 i = i"
  unfolding wrap64_def int64_def by (rule signed_take_bit_int_eq_self) simp_all

lemma sdiv_pos: "0 \<le> n \<Longrightarrow> 0 < d \<Longrightarrow> n sdiv d = (n :: int) div d"
  by (cases "n = 0") (simp_all add: signed_divide_int_def)

lemma sdiv_neg: "0 \<le> n \<Longrightarrow> 0 < d \<Longrightarrow> (- n) sdiv d = - ((n :: int) div d)"
  by (cases "n = 0") (simp_all add: signed_divide_int_def)

lemma sdiv_neg_right: "0 \<le> n \<Longrightarrow> 0 < d \<Longrightarrow> n sdiv (- d) = - ((n :: int) div d)"
  by (cases "n = 0") (simp_all add: signed_divide_int_def)

lemma CheckMultiplyOverflowInt64_iff:
  assumes "int64 a" "int64 b"
  shows "CheckMultiplyOverflowInt64 a b \<longleftrightarrow> \<not> int64 (a * b)"
proof -
  consider "a > 0" "b > 0" | "a > 0" "b \<le> 0" | "a \<le> 0" "b > 0" | "a = 0" | "a < 0" "b \<le> 0"
    by linarith
  then show ?thesis
  proof cases
    case 1
    then have "0 < a * b" by simp
    moreover have "INT64_MIN \<le> 0" by simp
    ultimately have "INT64_MIN \<le> a * b" by linarith
    moreover have "a \<le> (2 ^ 63 - 1) div b \<longleftrightarrow> a * b \<le> 2 ^ 63 - 1" by (rule le_div_iff_int) (rule 1)
    ultimately show ?thesis
      using 1 sdiv_pos [of "2 ^ 63 - 1" b]
      by (auto simp: CheckMultiplyOverflowInt64_def int64_def not_le)
  next
    case 2
    then have "a * b \<le> 0" by (simp add: mult_nonneg_nonpos)
    moreover have "- b \<le> 2 ^ 63 div a \<longleftrightarrow> - b * a \<le> 2 ^ 63" by (rule le_div_iff_int) (rule 2)
    ultimately show ?thesis
      using 2 sdiv_neg [of "2 ^ 63" a]
      by (auto simp: CheckMultiplyOverflowInt64_def int64_def not_le mult.commute)
  next
    case 3
    then have "a * b \<le> 0" by (simp add: mult_nonpos_nonneg)
    moreover have "- a \<le> 2 ^ 63 div b \<longleftrightarrow> - a * b \<le> 2 ^ 63" by (rule le_div_iff_int) (rule 3)
    ultimately show ?thesis
      using 3 sdiv_neg [of "2 ^ 63" b]
      by (auto simp: CheckMultiplyOverflowInt64_def int64_def not_le)
  next
    case 4
    have "0 sdiv b = 0" "INT64_MIN sdiv b \<le> 0" if "b > 0"
      using that sdiv_neg [of "2 ^ 63" b] by (simp_all add: pos_imp_zdiv_nonneg_iff)
    then show ?thesis using 4 by (auto simp: CheckMultiplyOverflowInt64_def int64_def)
  next
    case 5
    then have "0 \<le> a * b" by (simp add: mult_nonpos_nonpos)
    moreover have "- b \<le> (2 ^ 63 - 1) div (- a) \<longleftrightarrow> - b * - a \<le> 2 ^ 63 - 1"
      by (rule le_div_iff_int) (use 5 in simp)
    ultimately show ?thesis
      using 5 sdiv_neg_right [of "2 ^ 63 - 1" "- a"]
      by (auto simp: CheckMultiplyOverflowInt64_def int64_def not_le mult.commute)
  qed
qed

section \<open>Element counts\<close>

lemma prod_list_pos: "\<forall>d\<in>set ds. 0 < d \<Longrightarrow> 0 < prod_list (ds :: int list)"
  by (induction ds) auto

lemma prod_list_ge: "0 < c \<Longrightarrow> \<forall>d\<in>set ds. 0 < d \<Longrightarrow> c \<le> c * prod_list (ds :: int list)"
  using prod_list_pos [of ds] by simp

lemma count_dims_pos:
  assumes "\<forall>d\<in>set ds. 0 < d \<and> int64 d" "0 < c" "int64 c"
  shows "count_dims ds c = (if c * prod_list ds \<le> INT64_MAX then Some (c * prod_list ds) else None)"
  using assms
proof (induction ds arbitrary: c)
  case Nil
  then show ?case by (simp add: int64_def)
next
  case (Cons d ds)
  then have d: "0 < d" "int64 d" and cd: "0 < c * d" by simp_all
  have o: "CheckMultiplyOverflowInt64 c d \<longleftrightarrow> \<not> int64 (c * d)"
    by (rule CheckMultiplyOverflowInt64_iff) (use Cons.prems d in simp_all)
  show ?case
  proof (cases "int64 (c * d)")
    case True
    then have "count_dims ds (c * d) =
        (if c * d * prod_list ds \<le> INT64_MAX then Some (c * d * prod_list ds) else None)"
      using Cons.prems cd by (intro Cons.IH) simp_all
    with True o show ?thesis by (simp add: mult.assoc)
  next
    case False
    then have "INT64_MAX < c * d" using cd by (simp add: int64_def)
    moreover have "c * d \<le> c * d * prod_list ds" using Cons.prems cd by (intro prod_list_ge) simp_all
    ultimately have "\<not> c * prod_list (d # ds) \<le> INT64_MAX" by (simp add: mult.assoc)
    with False o show ?thesis by simp
  qed
qed

lemma CalcElementCntByDims_pos:
  "\<forall>d\<in>set ds. 0 < d \<and> int64 d \<Longrightarrow>
   CalcElementCntByDims ds = (if prod_list ds \<le> INT64_MAX then Some (prod_list ds) else None)"
  using count_dims_pos [of ds 1] by (simp add: CalcElementCntByDims_def int64_def)

lemma special_dim_None: "special_dim ds = None \<longleftrightarrow> (\<forall>d\<in>set ds. 0 < d)"
  by (induction ds) auto

lemma special_dim_Some:
  "special_dim ds = Some c \<Longrightarrow> c = 0 \<or> c = -1"
  by (induction ds) (auto split: if_splits)

lemma GetDimC0_cases: "GetDimC0 t = 16 \<or> GetDimC0 t = 32"
  by (simp add: GetDimC0_def)

lemma to_double_small: "n < 2 ^ 53 \<Longrightarrow> to_double n = n"
  by (simp add: to_double_def double_shift.simps Let_def)

lemma ceiling_div_int: "0 < c \<Longrightarrow> - (- d div c) = (d + c - 1) div (c :: int)"
proof -
  assume c: "0 < c"
  have "(- d) div c = - ((d + c - 1) div c)"
  proof (rule int_div_pos_eq)
    show "- d = c * - ((d + c - 1) div c) + (c - 1 - (d + c - 1) mod c)"
      by (simp add: minus_mod_eq_mult_div [symmetric])
    show "0 \<le> c - 1 - (d + c - 1) mod c" using pos_mod_bound [OF c, of "d + c - 1"] by simp
    show "c - 1 - (d + c - 1) mod c < c" using pos_mod_sign [OF c, of "d + c - 1"] by simp
  qed
  then show ?thesis by simp
qed

text \<open>Below 2 to the 53 the rounded quotient is the exact one.\<close>

lemma ceil_div_small:
  assumes "0 \<le> d" "d < 2 ^ 53" "0 < c"
  shows "ceil_div d c = (d + c - 1) div c"
proof -
  have "nat d < 2 ^ 53" using assms by simp
  then have "int (to_double (nat d)) = d" using assms by (simp add: to_double_small)
  then show ?thesis using ceiling_div_int [OF assms(3)] by (simp add: ceil_div_def)
qed

section \<open>Properties\<close>

text \<open> The overflow test of two 64-bit integers, negative ones included, holds exactly when
  the product does not fit.
\<close>

theorem multiply_overflow_exact:
  assumes "int64 a" "int64 b"
  shows "CheckMultiplyOverflowInt64 a b \<longleftrightarrow> \<not> (INT64_MIN \<le> a * b \<and> a * b \<le> INT64_MAX)"
  using CheckMultiplyOverflowInt64_iff [OF assms] by (simp add: int64_def)

theorem multiply_overflow_exact_witness:
  "CheckMultiplyOverflowInt64 (- (2 ^ 32)) (2 ^ 31 + 1) \<and> \<not> CheckMultiplyOverflowInt64 (- (2 ^ 32)) (2 ^ 31)"
  using multiply_overflow_exact [of "- (2 ^ 32)" "2 ^ 31 + 1"] multiply_overflow_exact [of "- (2 ^ 32)" "2 ^ 31"]
  by (simp add: int64_def)

text \<open>The formats whose elements are counted by multiplying the dimensions.\<close>

definition by_dims_formats :: "Format list" where
  "by_dims_formats =
     [FORMAT_ND, FORMAT_MD, FORMAT_NCHW, FORMAT_HWCN, FORMAT_NHWC, FORMAT_CHWN, FORMAT_C1HWNCoC0,
      FORMAT_FRACTAL_NZ, FORMAT_FRACTAL_ZZ, FORMAT_NDHWC, FORMAT_NCDHW, FORMAT_DHWCN, FORMAT_DHWNC,
      FORMAT_FRACTAL_Z_3D, FORMAT_FRACTAL_Z_3D_TRANSPOSE, FORMAT_NDC1HWC0, FORMAT_FRACTAL_Z_C04,
      FORMAT_FRACTAL_ZN_LSTM, FORMAT_NC1HWC0_C04]"

lemma CalcTensorElementCnt_by_dims:
  assumes "List.member by_dims_formats f" "\<forall>d\<in>set dims. 0 < d"
  shows "CalcTensorElementCnt env dims f dt = CalcElementCntByDims dims"
proof -
  have "special_dim dims = None" using assms by (simp add: special_dim_None)
  then show ?thesis
    using assms(1)
    by (auto simp: CalcTensorElementCnt_def by_dims_formats_def CalcElementCntOfFixedDims_def)
qed

lemma type_size_pos: "GetDataTypeLength dt = Some len \<Longrightarrow> 0 < uint len \<and> uint len \<le> 16"
  by (cases dt) (auto simp: GetDataTypeLength_def kDataTypeToLength_def)

lemma CalcTensorMemSize_count:
  assumes "GetDataTypeLength dt = Some len" "CalcTensorElementCnt env dims f dt = Some n" "0 \<le> n" "int64 n"
  shows "CalcTensorMemSize env dims f dt =
           (if n * uint len \<le> INT64_MAX then Some (n * uint len) else None)"
proof -
  have l: "0 < uint len" "uint len \<le> 16" using type_size_pos [OF assms(1)] by simp_all
  then have 1: "CheckMultiplyOverflowInt64 n (uint len) \<longleftrightarrow> \<not> int64 (n * uint len)"
    using assms(4) by (intro CheckMultiplyOverflowInt64_iff) (simp_all add: int64_def)
  have "0 \<le> n * uint len" using assms(3) l(1) by simp
  then have 2: "int64 (n * uint len) \<longleftrightarrow> n * uint len \<le> INT64_MAX" by (simp add: int64_def)
  show ?thesis using assms 1 2 by (simp add: CalcTensorMemSize_def)
qed

text \<open> C19: For a format counted by its dimensions, all of them positive, the memory size is the
  product of the dimensions and the length of the element type; when it does not fit in 64
  bits the calculation fails, and nothing else makes it fail.
\<close>

theorem mem_size_by_dims:
  assumes "List.member by_dims_formats f" "\<forall>d\<in>set dims. 0 < d \<and> int64 d"
    "GetDataTypeLength dt = Some len"
  shows "CalcTensorMemSize env dims f dt =
           (if prod_list dims * uint len \<le> INT64_MAX then Some (prod_list dims * uint len) else None)"
proof -
  have c: "CalcTensorElementCnt env dims f dt =
      (if prod_list dims \<le> INT64_MAX then Some (prod_list dims) else None)"
    using assms by (simp add: CalcTensorElementCnt_by_dims CalcElementCntByDims_pos)
  have p: "0 < prod_list dims" using assms(2) by (intro prod_list_pos) simp
  have l: "1 \<le> uint len" using type_size_pos [OF assms(3)] by simp
  have g: "prod_list dims \<le> prod_list dims * uint len" using p l by simp
  show ?thesis
  proof (cases "prod_list dims \<le> INT64_MAX")
    case True
    then have "CalcTensorElementCnt env dims f dt = Some (prod_list dims)" using c by simp
    then show ?thesis
      by (rule CalcTensorMemSize_count [OF assms(3)]) (use True p in \<open>simp_all add: int64_def\<close>)
  next
    case False
    then have "CalcTensorMemSize env dims f dt = None"
      using c assms(3) by (simp add: CalcTensorMemSize_def)
    moreover have "\<not> prod_list dims * uint len \<le> INT64_MAX" using False g by linarith
    ultimately show ?thesis by simp
  qed
qed

theorem mem_size_by_dims_witness:
  "CalcTensorMemSize None [2, 3, 4] FORMAT_ND DT_FLOAT = Some 96 \<and>
   CalcTensorMemSize None [2 ^ 40, 2 ^ 30] FORMAT_NCHW DT_INT8 = None"
proof -
  have "CalcTensorMemSize None [2, 3, 4] FORMAT_ND DT_FLOAT = Some 96"
    by (subst mem_size_by_dims [of _ _ _ 4])
      (simp_all add: by_dims_formats_def int64_def GetDataTypeLength_def kDataTypeToLength_def)
  moreover have "CalcTensorMemSize None [2 ^ 40, 2 ^ 30] FORMAT_NCHW DT_INT8 = None"
    by (subst mem_size_by_dims [of _ _ _ 1])
      (simp_all add: by_dims_formats_def int64_def GetDataTypeLength_def kDataTypeToLength_def)
  ultimately show ?thesis by simp
qed

lemma special_dim_append:
  "\<forall>p\<in>set ps. 0 < p \<Longrightarrow> d \<le> 0 \<Longrightarrow> special_dim (ps @ d # qs) = Some (if d < 0 then -1 else 0)"
  by (induction ps) auto

text \<open> The first dimension that is not positive decides, whatever comes after it and whatever
  the format is: a negative one gives the unknown size -1, for which no size in bytes is
  returned; a zero gives size 0.
\<close>

theorem mem_size_unknown_or_empty:
  assumes "\<forall>p\<in>set ps. 0 < p" "d \<le> 0" "dt \<noteq> DT_UNDEFINED"
  shows "CalcTensorMemSize env (ps @ d # qs) f dt = Some (if d < 0 then -1 else 0) \<and>
         GetTensorSizeInBytes env (ps @ d # qs) f dt = (if d < 0 then None else Some 0)"
proof -
  obtain len where len: "GetDataTypeLength dt = Some len"
    using assms(3) by (cases dt) (auto simp: GetDataTypeLength_def kDataTypeToLength_def)
  have c: "CalcTensorElementCnt env (ps @ d # qs) f dt = Some (if d < 0 then -1 else 0)"
    using assms(1, 2) by (simp add: CalcTensorElementCnt_def special_dim_append)
  have "CalcTensorMemSize env (ps @ d # qs) f dt = Some (if d < 0 then -1 else 0)"
  proof (cases "d < 0")
    case True
    then show ?thesis using c len by (simp add: CalcTensorMemSize_def)
  next
    case False
    then show ?thesis using CalcTensorMemSize_count [OF len, of env "ps @ d # qs" f 0] c
      by (simp add: int64_def)
  qed
  then show ?thesis by (simp add: GetTensorSizeInBytes_def)
qed

theorem mem_size_unknown_or_empty_witness:
  "CalcTensorMemSize None [4, -1, 0] 99 DT_FLOAT = Some (-1) \<and>
   GetTensorSizeInBytes None [4, 0, -1] 99 DT_FLOAT = Some 0"
  using mem_size_unknown_or_empty [of "[4]" "-1" DT_FLOAT None "[0]" 99]
    mem_size_unknown_or_empty [of "[4]" 0 DT_FLOAT None "[-1]" 99] by simp

lemma blocks_cover: "0 < c \<Longrightarrow> 0 < d \<Longrightarrow> 0 < (d + c - 1) div c \<and> d \<le> (d + c - 1) div c * (c :: int)"
proof -
  assume c: "0 < c" and d: "0 < d"
  have m: "(d + c - 1) mod c < c" using c by simp
  have e: "(d + c - 1) div c * c = d + c - 1 - (d + c - 1) mod c" by (simp add: minus_mod_eq_div_mult)
  have "1 \<le> (d + c - 1) div c" using c d by (simp add: le_div_iff_int)
  then show ?thesis using m e by linarith
qed

lemma blocks_le: "0 < c \<Longrightarrow> 0 < d \<Longrightarrow> (d + c - 1) div c \<le> (d :: int)"
proof -
  assume c: "0 < c" and d: "0 < d"
  have "0 \<le> (d - 1) * (c - 1)" using c d by simp
  then have "d + c - 1 \<le> d * c" by (simp add: algebra_simps)
  then have "(d + c - 1) div c \<le> d * c div c" using c by (intro zdiv_mono1)
  then show ?thesis using c by simp
qed

lemma split_channels:
  assumes "0 < d" "d < 2 ^ 53"
  shows "ceil_div d (GetDimC0 dt) = (d + GetDimC0 dt - 1) div GetDimC0 dt"
    "0 < ceil_div d (GetDimC0 dt)" "int64 (ceil_div d (GetDimC0 dt))" "int64 (GetDimC0 dt)" "0 < GetDimC0 dt"
proof -
  show c: "0 < GetDimC0 dt" using GetDimC0_cases [of dt] by auto
  show e: "ceil_div d (GetDimC0 dt) = (d + GetDimC0 dt - 1) div GetDimC0 dt"
    using assms c by (intro ceil_div_small) simp_all
  show p: "0 < ceil_div d (GetDimC0 dt)" using blocks_cover [OF c assms(1)] e by simp
  have "ceil_div d (GetDimC0 dt) \<le> d" using blocks_le [OF c assms(1)] e by simp
  then show "int64 (ceil_div d (GetDimC0 dt))" using p assms(2) by (simp add: int64_def)
  show "int64 (GetDimC0 dt)" using GetDimC0_cases [of dt] by (auto simp: int64_def)
qed

text \<open> Four dimensions in the format NC1HWC0 count as N times the channel blocks times H times
  W times the block size, at least the number of elements, for fewer than 2 to the 53 channels.
\<close>

theorem count_nc1hwc0:
  assumes "0 < n" "0 < c" "0 < h" "0 < w" "int64 n" "c < 2 ^ 53" "int64 h" "int64 w"
  shows "CalcTensorElementCnt env [n, c, h, w] FORMAT_NC1HWC0 dt =
           (let c0 = GetDimC0 dt; cnt = n * (((c + c0 - 1) div c0) * (h * (w * c0)))
            in if cnt \<le> INT64_MAX then Some cnt else None)"
proof -
  note s = split_channels [OF assms(2, 6), of dt]
  have "special_dim [n, c, h, w] = None" using assms by simp
  then have "CalcTensorElementCnt env [n, c, h, w] FORMAT_NC1HWC0 dt =
      CalcElementCntByDims [n, ceil_div c (GetDimC0 dt), h, w, GetDimC0 dt]"
    by (simp add: CalcTensorElementCnt_def CalcElementCntOfNc1hwc0_def Let_def)
  also have "\<dots> = (if prod_list [n, ceil_div c (GetDimC0 dt), h, w, GetDimC0 dt] \<le> INT64_MAX
      then Some (prod_list [n, ceil_div c (GetDimC0 dt), h, w, GetDimC0 dt]) else None)"
    by (rule CalcElementCntByDims_pos) (use assms s in auto)
  finally show ?thesis unfolding Let_def s(1) by simp
qed

theorem count_nc1hwc0_witness:
  "CalcTensorElementCnt None [1, 20, 7, 7] FORMAT_NC1HWC0 DT_FLOAT16 = Some 1568"
  using count_nc1hwc0 [of 1 20 7 7 None DT_FLOAT16] by (simp add: int64_def GetDimC0_def)

text \<open> With more channels the division in floating point loses elements: 2 to the 53 plus 1
  channels are counted as 2 to the 53 elements, although every block has 16.
\<close>

theorem count_nc1hwc0_rounds:
  "CalcTensorElementCnt env [1, 2 ^ 53 + 1, 1, 1] FORMAT_NC1HWC0 DT_FLOAT = Some (2 ^ 53)"
proof -
  have "double_shift (2 ^ 53 + 1) = 1" by (simp add: double_shift.simps)
  then have "to_double (2 ^ 53 + 1) = 2 ^ 53" by (simp add: to_double_def)
  then have "ceil_div (2 ^ 53 + 1) 16 = 2 ^ 49" by (simp add: ceil_div_def)
  moreover have "CalcElementCntByDims [1, 2 ^ 49, 1, 1, 16] = Some (2 ^ 53)"
    by (subst CalcElementCntByDims_pos) (simp_all add: int64_def)
  ultimately show ?thesis
    by (simp add: CalcTensorElementCnt_def CalcElementCntOfNc1hwc0_def GetDimC0_def)
qed

text \<open> C20: FRACTAL_Z arranged for the old parser (\<^verbatim>\<open>PARSER_PRIORITY=cce\<close>): 16 by
  \<^verbatim>\<open>c0\<close> elements for every block of 16 in N, block in C, and position in H and W; too
  large a count fails although the intermediate products are tested one by one.
\<close>

theorem count_fractal_z:
  assumes "0 < n" "0 < c" "0 < h" "0 < w" "n < 2 ^ 53" "c < 2 ^ 53" "int64 h" "int64 w"
  shows "CalcTensorElementCnt (Some ''cce'') [n, c, h, w] FORMAT_FRACTAL_Z dt =
           (let c0 = GetDimC0 dt; cnt = ((n + 15) div 16) * (((c + c0 - 1) div c0) * (h * w)) * (c0 * 16)
            in if cnt \<le> INT64_MAX then Some cnt else None)"
proof -
  note s = split_channels [OF assms(2, 6), of dt]
  define c0 where "c0 = GetDimC0 dt"
  define c1 where "c1 = ceil_div c c0"
  define v where "v = c1 * (h * w)"
  define k where "k = (n + 15) div 16"
  have k: "ceil_div n 16 = k" using assms(1, 5) ceil_div_small [of n 16] by (simp add: k_def)
  have kp: "0 < k" "int64 k"
    using blocks_cover [of 16 n] blocks_le [of 16 n] assms(1, 5) by (simp_all add: k_def int64_def add.commute)
  have c0: "c0 = 16 \<or> c0 = 32" unfolding c0_def by (rule GetDimC0_cases)
  have vp: "0 < v" using s assms by (simp add: v_def c1_def c0_def)
  have sp: "special_dim [n, c, h, w] = None" using assms by simp
  have r: "CalcElementCntByDims [c1, h, w, c0] = (if v * c0 \<le> INT64_MAX then Some (v * c0) else None)"
  proof -
    have "prod_list [c1, h, w, c0] = v * c0" by (simp add: v_def)
    moreover have "\<forall>d\<in>set [c1, h, w, c0]. 0 < d \<and> int64 d" using assms s by (simp add: c1_def c0_def)
    ultimately show ?thesis by (simp only: CalcElementCntByDims_pos)
  qed
  have total: "CalcTensorElementCnt (Some ''cce'') [n, c, h, w] FORMAT_FRACTAL_Z dt =
      (if k * v * (c0 * 16) \<le> INT64_MAX then Some (k * v * (c0 * 16)) else None)"
  proof -
    have kv: "0 < k * v" using kp vp by simp
    have le1: "v * c0 \<le> k * v * (c0 * 16)"
    proof -
      have "v * c0 * 1 \<le> v * c0 * (k * 16)" using kp vp c0 by (intro mult_left_mono) auto
      then show ?thesis by (simp add: algebra_simps)
    qed
    have le2: "k * v \<le> k * v * (c0 * 16)" using kv c0 by auto
    have o1: "CheckMultiplyOverflowInt64 k v \<longleftrightarrow> \<not> k * v \<le> INT64_MAX" if "v * c0 \<le> INT64_MAX"
    proof -
      have "int64 v" using that vp c0 by (auto simp: int64_def)
      then have "CheckMultiplyOverflowInt64 k v \<longleftrightarrow> \<not> int64 (k * v)"
        using kp by (intro CheckMultiplyOverflowInt64_iff) simp_all
      moreover have "INT64_MIN \<le> k * v" by (rule order_trans [of _ 0]) (use kv in simp_all)
      ultimately show ?thesis unfolding int64_def by blast
    qed
    have o2: "CheckMultiplyOverflowInt64 (k * v) (c0 * 16) \<longleftrightarrow> \<not> k * v * (c0 * 16) \<le> INT64_MAX"
      if "k * v \<le> INT64_MAX"
    proof -
      have "CheckMultiplyOverflowInt64 (k * v) (c0 * 16) \<longleftrightarrow> \<not> int64 (k * v * (c0 * 16))"
        using that kv c0 by (intro CheckMultiplyOverflowInt64_iff) (auto simp: int64_def)
      moreover have "INT64_MIN \<le> k * v * (c0 * 16)" by (rule order_trans [of _ 0]) (use kv c0 in auto)
      ultimately show ?thesis unfolding int64_def by blast
    qed
    have d: "v * c0 sdiv c0 = v" using vp c0 by (auto simp: sdiv_pos)
    have w: "wrap64 x = x" if "0 \<le> x" "x \<le> INT64_MAX" for x
      using that by (intro wrap64_id) (simp add: int64_def)
    have "CalcTensorElementCnt (Some ''cce'') [n, c, h, w] FORMAT_FRACTAL_Z dt =
        CalcElementCntOfFractalZ (Some ''cce'') [n, c, h, w] dt"
      using sp by (simp add: CalcTensorElementCnt_def)
    also have "\<dots> = (case CalcElementCntByDims [c1, h, w, c0] of None \<Rightarrow> None
       | Some r_count \<Rightarrow>
           (if CheckMultiplyOverflowInt64 k (r_count sdiv c0) then None
            else if CheckMultiplyOverflowInt64 (wrap64 (k * (r_count sdiv c0))) (c0 * 16) then None
            else Some (wrap64 (wrap64 (k * (r_count sdiv c0)) * (c0 * 16)))))"
      by (simp add: CalcElementCntOfFractalZ_def Let_def k c1_def c0_def cong: option.case_cong if_cong)
    also have "\<dots> = (if k * v * (c0 * 16) \<le> INT64_MAX then Some (k * v * (c0 * 16)) else None)"
    proof (cases "v * c0 \<le> INT64_MAX")
      case False
      then have "\<not> k * v * (c0 * 16) \<le> INT64_MAX" using le1 by linarith
      with False show ?thesis by (simp only: r if_False option.case)
    next
      case a: True
      show ?thesis
      proof (cases "k * v \<le> INT64_MAX")
        case False
        then have "\<not> k * v * (c0 * 16) \<le> INT64_MAX" using le2 by linarith
        with False a show ?thesis by (simp only: r if_True option.case d o1) simp
      next
        case b: True
        then have "wrap64 (k * v) = k * v" using kv by (intro w) simp_all
        moreover have "0 \<le> k * v * (c0 * 16)" using kv c0 by auto
        ultimately show ?thesis using a b
          by (simp only: r if_True option.case d o1 o2 not_True_eq_False if_False) (simp add: w)
      qed
    qed
    finally show ?thesis .
  qed
  then show ?thesis
    unfolding Let_def v_def k_def c1_def c0_def s(1) .
qed

theorem count_fractal_z_witness:
  "CalcTensorElementCnt (Some ''cce'') [17, 3, 2, 2] FORMAT_FRACTAL_Z DT_FLOAT16 = Some 2048"
  using count_fractal_z [of 17 3 2 2 DT_FLOAT16] by (simp add: int64_def GetDimC0_def)

text \<open> A format with a sub-format is never supported: the switch compares the whole format,
  not its primary part, so that for instance a grouped FRACTAL_Z tensor has no size.
\<close>

theorem sub_format_unsupported:
  assumes "HasSubFormat f" "\<forall>d\<in>set dims. 0 < d"
  shows "CalcTensorElementCnt env dims f dt = None"
proof -
  have "f \<noteq> g" if "GetSubFormat g = 0" for g using assms(1) that by (auto simp: HasSubFormat_iff)
  then have "f \<noteq> 0" "f \<noteq> 1" "f \<noteq> 2" "f \<noteq> 3" "f \<noteq> 4" "f \<noteq> 12" "f \<noteq> 13" "f \<noteq> 14" "f \<noteq> 16" "f \<noteq> 25" "f \<noteq> 26"
    "f \<noteq> 27" "f \<noteq> 28" "f \<noteq> 29" "f \<noteq> 30" "f \<noteq> 31" "f \<noteq> 32" "f \<noteq> 33" "f \<noteq> 36" "f \<noteq> 37" "f \<noteq> 38"
    by (simp_all add: GetSubFormat_def)
  moreover have "special_dim dims = None" using assms(2) by (simp add: special_dim_None)
  ultimately show ?thesis by (simp add: CalcTensorElementCnt_def)
qed

theorem sub_format_unsupported_witness:
  "CalcTensorElementCnt None [16, 16, 1, 1] (GetFormatFromSub FORMAT_FRACTAL_Z 2) DT_FLOAT16 = None"
  by (rule sub_format_unsupported)
    (simp_all add: HasSubFormat_def GetSubFormat_def GetFormatFromSub_def)

text \<open> C21: The size of a tensor in memory is a multiple of 32 bytes with at least 32 and fewer
  than 64 bytes more than the tensor has; the padding is not to 64 bytes. Only sizes within 64
  bytes of the largest integer are returned as they are.
\<close>

theorem memory_size_padding:
  assumes "GetTensorSizeInBytes env dims f dt = Some s" "s \<le> INT64_MAX - 64"
  shows "\<exists>m. GetTensorMemorySizeInBytes env dims f dt = Some m \<and> 32 dvd m \<and> s + 32 \<le> m \<and> m < s + 64"
proof -
  have s: "0 \<le> s" using assms(1) by (auto simp: GetTensorSizeInBytes_def split: option.splits if_splits)
  define m where "m = (s + 63) div 32 * 32"
  have e: "m = s + 63 - (s + 63) mod 32" by (simp add: m_def minus_mod_eq_div_mult)
  have b: "0 \<le> (s + 63) mod 32" "(s + 63) mod 32 < 32" by simp_all
  have 1: "int64 (s + 63)" "int64 m" using s assms(2) e b by (auto simp: int64_def)
  have 2: "(s + 63) sdiv 32 = (s + 63) div 32" using s by (intro sdiv_pos) simp_all
  have "GetTensorMemorySizeInBytes env dims f dt = Some m"
    using assms 1 2 by (simp add: GetTensorMemorySizeInBytes_def m_def add.commute)
  moreover have "32 dvd m" by (simp add: m_def)
  moreover have "s + 32 \<le> m" "m < s + 64" using e b by linarith+
  ultimately show ?thesis by blast
qed

theorem memory_size_padding_witness:
  "\<exists>m. GetTensorMemorySizeInBytes None [9] FORMAT_ND DT_FLOAT = Some m \<and> 32 dvd m \<and> 36 + 32 \<le> m \<and> m < 36 + (64::int)"
proof -
  have "CalcTensorMemSize None [9] FORMAT_ND DT_FLOAT = Some 36"
    by (subst CalcTensorMemSize_count [of _ 4 _ _ _ 9])
      (simp_all add: GetDataTypeLength_def kDataTypeToLength_def CalcTensorElementCnt_by_dims
        by_dims_formats_def CalcElementCntByDims_pos int64_def)
  then have "GetTensorSizeInBytes None [9] FORMAT_ND DT_FLOAT = Some 36"
    by (simp add: GetTensorSizeInBytes_def)
  then show ?thesis by (rule memory_size_padding) simp
qed

end
