(* ===== verification/AttrValues.thy ===== *)
theory AttrValues
  imports Prelude "HOL-Library.AList"
begin

text \<open>
  Attributes, \<^verbatim>\<open>graph/ge_attr_value.cc\<close> and \<^verbatim>\<open>graph/detail/attributes_holder.cc\<close>:
  the tagged values of \<^verbatim>\<open>AttrDef\<close> (\<^verbatim>\<open>proto/ge_ir.proto\<close>), their checked setters and
  getters, and the maps from names to values that tensors, operators and graphs carry. The
  messages nested in a value (tensors, tensor descriptions, graphs, named attributes) are only
  copied here, so their type is a parameter \<open>'m\<close>. An out parameter is an argument that the
  result pairs with the returned flag.
\<close>

section \<open>Values\<close>

datatype list_value_type =
  VT_LIST_NONE | VT_LIST_STRING | VT_LIST_INT | VT_LIST_FLOAT | VT_LIST_BOOL | VT_LIST_BYTES
| VT_LIST_TENSOR_DESC | VT_LIST_TENSOR | VT_LIST_GRAPH | VT_LIST_NAMED_ATTRS | VT_LIST_DATA_TYPE

record 'm list_value =
  lv_s :: "string list"
  lv_i :: "64 word list"
  lv_f :: "32 word list"
  lv_b :: "bool list"
  lv_bt :: "string list"
  lv_td :: "'m list"
  lv_t :: "'m list"
  lv_g :: "'m list"
  lv_na :: "'m list"
  lv_dt :: "64 word list"
  lv_val_type :: list_value_type

text \<open>A float is its 32-bit pattern; bytes are a char list.\<close>

datatype 'm attr_def =
  Value_not_set
| AttrS string | AttrI "64 word" | AttrF "32 word" | AttrB bool | AttrBt string
| AttrList "'m list_value" | AttrFunc 'm | AttrTd 'm | AttrT 'm | AttrG 'm
| AttrListListInt "64 word list list" | AttrDt "64 word"

datatype value_case =
  VALUE_NOT_SET | kS | kI | kF | kB | kBt | kList | kFunc | kTd | kT | kG | kListListInt | kDt

fun value_case_of :: "'m attr_def \<Rightarrow> value_case" where
  "value_case_of Value_not_set = VALUE_NOT_SET"
| "value_case_of (AttrS _) = kS"
| "value_case_of (AttrI _) = kI"
| "value_case_of (AttrF _) = kF"
| "value_case_of (AttrB _) = kB"
| "value_case_of (AttrBt _) = kBt"
| "value_case_of (AttrList _) = kList"
| "value_case_of (AttrFunc _) = kFunc"
| "value_case_of (AttrTd _) = kTd"
| "value_case_of (AttrT _) = kT"
| "value_case_of (AttrG _) = kG"
| "value_case_of (AttrListListInt _) = kListListInt"
| "value_case_of (AttrDt _) = kDt"

definition empty_list_value :: "'m list_value" where
  "empty_list_value =
     \<lparr>lv_s = [], lv_i = [], lv_f = [], lv_b = [], lv_bt = [], lv_td = [], lv_t = [], lv_g = [],
      lv_na = [], lv_dt = [], lv_val_type = VT_LIST_NONE\<rparr>"

text \<open>\<^verbatim>\<open>mutable_list()\<close>: the list, which becomes the value if another one was set.\<close>

definition mutable_list :: "'m attr_def \<Rightarrow> 'm list_value" where
  "mutable_list d = (case d of AttrList l \<Rightarrow> l | _ \<Rightarrow> empty_list_value)"

text \<open>The kinds of values \<^verbatim>\<open>GeAttrValue\<close> tells apart.\<close>

datatype value_type =
  VT_NONE | VT_STRING | VT_FLOAT | VT_BOOL | VT_INT | VT_TENSOR_DESC | VT_TENSOR | VT_BYTES | VT_GRAPH
| VT_NAMED_ATTRS | VT_LIST_LIST_INT | VT_DATA_TYPE | VT_LIST_OF list_value_type

definition attr_val_one_type_map :: "(value_case \<times> value_type) list" where
  "attr_val_one_type_map =
     [(kI, VT_INT), (kF, VT_FLOAT), (kB, VT_BOOL), (kS, VT_STRING), (kT, VT_TENSOR), (kTd, VT_TENSOR_DESC),
      (kG, VT_GRAPH), (kBt, VT_BYTES), (kFunc, VT_NAMED_ATTRS), (kListListInt, VT_LIST_LIST_INT),
      (kDt, VT_DATA_TYPE)]"

definition attr_val_list_type_map :: "(list_value_type \<times> value_type) list" where
  "attr_val_list_type_map =
     map (\<lambda>t. (t, VT_LIST_OF t))
       [VT_LIST_INT, VT_LIST_FLOAT, VT_LIST_BOOL, VT_LIST_STRING, VT_LIST_TENSOR, VT_LIST_TENSOR_DESC,
        VT_LIST_GRAPH, VT_LIST_BYTES, VT_LIST_NAMED_ATTRS, VT_LIST_DATA_TYPE]"

definition GetValueType :: "'m attr_def \<Rightarrow> value_type" where
  "GetValueType d =
     (case (case d of AttrList l \<Rightarrow> map_of attr_val_list_type_map (lv_val_type l)
            | _ \<Rightarrow> map_of attr_val_one_type_map (value_case_of d)) of
        Some t \<Rightarrow> t | None \<Rightarrow> VT_NONE)"

definition IsEmpty :: "'m attr_def \<Rightarrow> bool" where
  "IsEmpty d \<longleftrightarrow> GetValueType d = VT_NONE"

section \<open>Type checks\<close>

definition GetValueCheckType :: "'m attr_def \<Rightarrow> value_case \<Rightarrow> bool" where
  "GetValueCheckType attr_def proto_case \<longleftrightarrow> value_case_of attr_def = proto_case"

definition GetValueCheckListType :: "'m attr_def \<Rightarrow> list_value_type \<Rightarrow> ('m list_value \<Rightarrow> bool) \<Rightarrow> bool" where
  "GetValueCheckListType attr_def proto_list_case item_check_fun =
     (case attr_def of
        AttrList l \<Rightarrow>
          if lv_val_type l = VT_LIST_NONE then item_check_fun l else lv_val_type l = proto_list_case
      | _ \<Rightarrow> False)"

definition SetValueCheckType :: "'m attr_def \<Rightarrow> value_case \<Rightarrow> bool" where
  "SetValueCheckType attr_def proto_case \<longleftrightarrow>
     value_case_of attr_def = VALUE_NOT_SET \<or> value_case_of attr_def = proto_case"

definition SetValueCheckAndSetListType :: "'m attr_def \<Rightarrow> list_value_type \<Rightarrow> 'm attr_def \<times> bool" where
  "SetValueCheckAndSetListType attr_def proto_list_case =
     (if value_case_of attr_def \<noteq> VALUE_NOT_SET \<and> value_case_of attr_def \<noteq> kList then (attr_def, False)
      else
        (let l = mutable_list attr_def
         in if lv_val_type l \<noteq> VT_LIST_NONE \<and> lv_val_type l \<noteq> proto_list_case then (AttrList l, False)
            else (AttrList (l\<lparr>lv_val_type := proto_list_case\<rparr>), True)))"

section \<open>Setting a value\<close>

text \<open>The macros \<^verbatim>\<open>ATTR_VALUE_IMP_SET_ONE\<close> and \<^verbatim>\<open>ATTR_VALUE_IMP_SET_LIST\<close>.\<close>

definition set_one :: "'m attr_def \<Rightarrow> 'm attr_def \<Rightarrow> 'm attr_def \<times> bool" where
  "set_one v attr_def =
     (if \<not> SetValueCheckType attr_def (value_case_of v) then (attr_def, False) else (v, True))"

definition set_list :: "list_value_type \<Rightarrow> ('m list_value \<Rightarrow> 'm list_value) \<Rightarrow> 'm attr_def \<Rightarrow> 'm attr_def \<times> bool" where
  "set_list proto_list_case fill attr_def =
     (case SetValueCheckAndSetListType attr_def proto_list_case of
        (d, ok) \<Rightarrow> if \<not> ok then (d, False) else (AttrList (fill (mutable_list d)), True))"

definition SetValue_int :: "64 word \<Rightarrow> 'm attr_def \<Rightarrow> 'm attr_def \<times> bool" where
  "SetValue_int v = set_one (AttrI v)"

definition SetValue_float :: "32 word \<Rightarrow> 'm attr_def \<Rightarrow> 'm attr_def \<times> bool" where
  "SetValue_float v = set_one (AttrF v)"

definition SetValue_str :: "string \<Rightarrow> 'm attr_def \<Rightarrow> 'm attr_def \<times> bool" where
  "SetValue_str v = set_one (AttrS v)"

definition SetValue_bool :: "bool \<Rightarrow> 'm attr_def \<Rightarrow> 'm attr_def \<times> bool" where
  "SetValue_bool v = set_one (AttrB v)"

definition SetValue_bytes :: "string \<Rightarrow> 'm attr_def \<Rightarrow> 'm attr_def \<times> bool" where
  "SetValue_bytes v = set_one (AttrBt v)"

definition SetValue_data_type :: "32 word \<Rightarrow> 'm attr_def \<Rightarrow> 'm attr_def \<times> bool" where
  "SetValue_data_type v = set_one (AttrDt (ucast v))"

definition SetValue_list_list_int :: "64 word list list \<Rightarrow> 'm attr_def \<Rightarrow> 'm attr_def \<times> bool" where
  "SetValue_list_list_int v = set_one (AttrListListInt v)"

text \<open>Values that wrap a message, which is null in the argument \<^term>\<open>None\<close>.\<close>

definition set_message :: "('m \<Rightarrow> 'm attr_def) \<Rightarrow> 'm option \<Rightarrow> 'm attr_def \<Rightarrow> 'm attr_def \<times> bool" where
  "set_message wrap v attr_def =
     (case v of
        None \<Rightarrow> (attr_def, False)
      | Some x \<Rightarrow> if \<not> SetValueCheckType attr_def (value_case_of (wrap x)) then (attr_def, False) else (wrap x, True))"

definition SetValue_tensor_desc :: "'m option \<Rightarrow> 'm attr_def \<Rightarrow> 'm attr_def \<times> bool" where
  "SetValue_tensor_desc = set_message AttrTd"

definition SetValue_tensor :: "'m option \<Rightarrow> 'm attr_def \<Rightarrow> 'm attr_def \<times> bool" where
  "SetValue_tensor = set_message AttrT"

definition SetValue_named_attrs :: "'m option \<Rightarrow> 'm attr_def \<Rightarrow> 'm attr_def \<times> bool" where
  "SetValue_named_attrs = set_message AttrFunc"

text \<open>
  A graph is serialised into the message, by \<open>serialize\<close>, which may find an older graph in it; a
  failure leaves no value.
\<close>

definition SetValue_graph ::
    "('g \<Rightarrow> 'm option \<Rightarrow> 'm option) \<Rightarrow> 'g \<Rightarrow> 'm attr_def \<Rightarrow> 'm attr_def \<times> bool" where
  "SetValue_graph serialize v attr_def =
     (if \<not> SetValueCheckType attr_def kG then (attr_def, False)
      else (case serialize v (case attr_def of AttrG m \<Rightarrow> Some m | _ \<Rightarrow> None) of
              None \<Rightarrow> (Value_not_set, False) | Some m \<Rightarrow> (AttrG m, True)))"

definition SetValue_list_int :: "64 word list \<Rightarrow> 'm attr_def \<Rightarrow> 'm attr_def \<times> bool" where
  "SetValue_list_int v = set_list VT_LIST_INT (lv_i_update (\<lambda>_. v))"

definition SetValue_list_int32 :: "32 word list \<Rightarrow> 'm attr_def \<Rightarrow> 'm attr_def \<times> bool" where
  "SetValue_list_int32 v = set_list VT_LIST_INT (lv_i_update (\<lambda>_. map scast v))"

definition SetValue_list_uint32 :: "32 word list \<Rightarrow> 'm attr_def \<Rightarrow> 'm attr_def \<times> bool" where
  "SetValue_list_uint32 v = set_list VT_LIST_INT (lv_i_update (\<lambda>_. map ucast v))"

definition SetValue_list_float :: "32 word list \<Rightarrow> 'm attr_def \<Rightarrow> 'm attr_def \<times> bool" where
  "SetValue_list_float v = set_list VT_LIST_FLOAT (lv_f_update (\<lambda>_. v))"

definition SetValue_list_str :: "string list \<Rightarrow> 'm attr_def \<Rightarrow> 'm attr_def \<times> bool" where
  "SetValue_list_str v = set_list VT_LIST_STRING (lv_s_update (\<lambda>_. v))"

definition SetValue_list_bool :: "bool list \<Rightarrow> 'm attr_def \<Rightarrow> 'm attr_def \<times> bool" where
  "SetValue_list_bool v = set_list VT_LIST_BOOL (lv_b_update (\<lambda>_. v))"

definition SetValue_list_bytes :: "string list \<Rightarrow> 'm attr_def \<Rightarrow> 'm attr_def \<times> bool" where
  "SetValue_list_bytes v = set_list VT_LIST_BYTES (lv_bt_update (\<lambda>_. v))"

definition SetValue_list_data_type :: "32 word list \<Rightarrow> 'm attr_def \<Rightarrow> 'm attr_def \<times> bool" where
  "SetValue_list_data_type v = set_list VT_LIST_DATA_TYPE (lv_dt_update (\<lambda>_. map ucast v))"

text \<open>A null message among the items clears the value.\<close>

definition set_message_list ::
    "list_value_type \<Rightarrow> ('m list \<Rightarrow> 'm list_value \<Rightarrow> 'm list_value) \<Rightarrow> 'm option list \<Rightarrow> 'm attr_def \<Rightarrow> 'm attr_def \<times> bool" where
  "set_message_list proto_list_case fill v attr_def =
     (case SetValueCheckAndSetListType attr_def proto_list_case of
        (d, ok) \<Rightarrow>
          if \<not> ok then (d, False)
          else if list_ex (\<lambda>x. x = None) v then (Value_not_set, False)
          else (AttrList (fill (map the v) (mutable_list d)), True))"

definition SetValue_list_tensor_desc :: "'m option list \<Rightarrow> 'm attr_def \<Rightarrow> 'm attr_def \<times> bool" where
  "SetValue_list_tensor_desc = set_message_list VT_LIST_TENSOR_DESC (\<lambda>v. lv_td_update (\<lambda>_. v))"

definition SetValue_list_tensor :: "'m option list \<Rightarrow> 'm attr_def \<Rightarrow> 'm attr_def \<times> bool" where
  "SetValue_list_tensor = set_message_list VT_LIST_TENSOR (\<lambda>v. lv_t_update (\<lambda>_. v))"

definition SetValue_list_named_attrs :: "'m option list \<Rightarrow> 'm attr_def \<Rightarrow> 'm attr_def \<times> bool" where
  "SetValue_list_named_attrs = set_message_list VT_LIST_NAMED_ATTRS (\<lambda>v. lv_na_update (\<lambda>_. v))"

definition SetValue_list_graph ::
    "('g \<Rightarrow> 'm option \<Rightarrow> 'm option) \<Rightarrow> 'g list \<Rightarrow> 'm attr_def \<Rightarrow> 'm attr_def \<times> bool" where
  "SetValue_list_graph serialize v =
     set_message_list VT_LIST_GRAPH (\<lambda>v. lv_g_update (\<lambda>_. v)) (map (\<lambda>g. serialize g None) v)"

section \<open>Getting a value\<close>

text \<open>The macros \<^verbatim>\<open>ATTR_VALUE_IMP_GET_ONE\<close> and \<^verbatim>\<open>ATTR_VALUE_IMP_GET_LIST\<close>; a
  failing getter of a single value leaves the out parameter as it was, one of a list has cleared
  it.\<close>

definition get_one :: "value_case \<Rightarrow> ('m attr_def \<Rightarrow> 'v) \<Rightarrow> 'm attr_def \<Rightarrow> 'v \<Rightarrow> 'v \<times> bool" where
  "get_one proto_case item d v = (if \<not> GetValueCheckType d proto_case then (v, False) else (item d, True))"

definition get_list :: "list_value_type \<Rightarrow> ('m list_value \<Rightarrow> 'v list) \<Rightarrow> 'm attr_def \<Rightarrow> 'v list \<Rightarrow> 'v list \<times> bool" where
  "get_list proto_list_case items d v =
     (if \<not> GetValueCheckListType d proto_list_case (\<lambda>l. items l \<noteq> []) then ([], False)
      else (items (mutable_list d), True))"

text \<open>The two getters that do not clear: they append.\<close>

definition get_list_append :: "list_value_type \<Rightarrow> ('m list_value \<Rightarrow> 'v list) \<Rightarrow> 'm attr_def \<Rightarrow> 'v list \<Rightarrow> 'v list \<times> bool" where
  "get_list_append proto_list_case items d v =
     (if \<not> GetValueCheckListType d proto_list_case (\<lambda>l. items l \<noteq> []) then (v, False)
      else (v @ items (mutable_list d), True))"

fun attr_s where "attr_s (AttrS v) = v" | "attr_s _ = []"
fun attr_i where "attr_i (AttrI v) = v" | "attr_i _ = 0"
fun attr_f where "attr_f (AttrF v) = v" | "attr_f _ = 0"
fun attr_b where "attr_b (AttrB v) = v" | "attr_b _ = False"
fun attr_bt where "attr_bt (AttrBt v) = v" | "attr_bt _ = []"
fun attr_dt where "attr_dt (AttrDt v) = v" | "attr_dt _ = 0"
fun attr_list_list_int where "attr_list_list_int (AttrListListInt v) = v" | "attr_list_list_int _ = []"

fun attr_message :: "'m attr_def \<Rightarrow> 'm option" where
  "attr_message (AttrTd x) = Some x"
| "attr_message (AttrT x) = Some x"
| "attr_message (AttrFunc x) = Some x"
| "attr_message (AttrG x) = Some x"
| "attr_message _ = None"

definition GetValue_int :: "'m attr_def \<Rightarrow> 64 word \<Rightarrow> 64 word \<times> bool" where
  "GetValue_int = get_one kI attr_i"

definition GetValue_float :: "'m attr_def \<Rightarrow> 32 word \<Rightarrow> 32 word \<times> bool" where
  "GetValue_float = get_one kF attr_f"

definition GetValue_str :: "'m attr_def \<Rightarrow> string \<Rightarrow> string \<times> bool" where
  "GetValue_str = get_one kS attr_s"

definition GetValue_bool :: "'m attr_def \<Rightarrow> bool \<Rightarrow> bool \<times> bool" where
  "GetValue_bool = get_one kB attr_b"

definition GetValue_bytes :: "'m attr_def \<Rightarrow> string \<Rightarrow> string \<times> bool" where
  "GetValue_bytes = get_one kBt attr_bt"

definition GetValue_data_type :: "'m attr_def \<Rightarrow> 32 word \<Rightarrow> 32 word \<times> bool" where
  "GetValue_data_type = get_one kDt (\<lambda>d. ucast (attr_dt d))"

text \<open>Clears the list of lists first.\<close>

definition GetValue_list_list_int :: "'m attr_def \<Rightarrow> 64 word list list \<Rightarrow> 64 word list list \<times> bool" where
  "GetValue_list_list_int d v = get_one kListListInt attr_list_list_int d []"

definition get_message :: "value_case \<Rightarrow> 'm attr_def \<Rightarrow> 'm \<Rightarrow> 'm \<times> bool" where
  "get_message proto_case d v =
     (if \<not> GetValueCheckType d proto_case then (v, False)
      else (case attr_message d of None \<Rightarrow> (v, False) | Some x \<Rightarrow> (x, True)))"

definition GetValue_tensor_desc :: "'m attr_def \<Rightarrow> 'm \<Rightarrow> 'm \<times> bool" where
  "GetValue_tensor_desc = get_message kTd"

definition GetValue_tensor :: "'m attr_def \<Rightarrow> 'm \<Rightarrow> 'm \<times> bool" where
  "GetValue_tensor = get_message kT"

definition GetValue_named_attrs :: "'m attr_def \<Rightarrow> 'm \<Rightarrow> 'm \<times> bool" where
  "GetValue_named_attrs = get_message kFunc"

definition GetValue_graph :: "('m \<Rightarrow> 'g option) \<Rightarrow> 'm attr_def \<Rightarrow> 'g \<Rightarrow> 'g \<times> bool" where
  "GetValue_graph unserialize d v =
     (if \<not> GetValueCheckType d kG then (v, False)
      else (case Option.bind (attr_message d) unserialize of None \<Rightarrow> (v, False) | Some g \<Rightarrow> (g, True)))"

definition GetValue_list_int :: "'m attr_def \<Rightarrow> 64 word list \<Rightarrow> 64 word list \<times> bool" where
  "GetValue_list_int = get_list VT_LIST_INT lv_i"

definition GetValue_list_float :: "'m attr_def \<Rightarrow> 32 word list \<Rightarrow> 32 word list \<times> bool" where
  "GetValue_list_float = get_list VT_LIST_FLOAT lv_f"

definition GetValue_list_str :: "'m attr_def \<Rightarrow> string list \<Rightarrow> string list \<times> bool" where
  "GetValue_list_str = get_list VT_LIST_STRING lv_s"

definition GetValue_list_bool :: "'m attr_def \<Rightarrow> bool list \<Rightarrow> bool list \<times> bool" where
  "GetValue_list_bool = get_list VT_LIST_BOOL lv_b"

definition GetValue_list_bytes :: "'m attr_def \<Rightarrow> string list \<Rightarrow> string list \<times> bool" where
  "GetValue_list_bytes = get_list VT_LIST_BYTES lv_bt"

definition GetValue_list_tensor :: "'m attr_def \<Rightarrow> 'm list \<Rightarrow> 'm list \<times> bool" where
  "GetValue_list_tensor = get_list VT_LIST_TENSOR lv_t"

definition GetValue_list_named_attrs :: "'m attr_def \<Rightarrow> 'm list \<Rightarrow> 'm list \<times> bool" where
  "GetValue_list_named_attrs = get_list VT_LIST_NAMED_ATTRS lv_na"

definition GetValue_list_tensor_desc :: "'m attr_def \<Rightarrow> 'm list \<Rightarrow> 'm list \<times> bool" where
  "GetValue_list_tensor_desc = get_list_append VT_LIST_TENSOR_DESC lv_td"

definition GetValue_list_data_type :: "'m attr_def \<Rightarrow> 32 word list \<Rightarrow> 32 word list \<times> bool" where
  "GetValue_list_data_type = get_list_append VT_LIST_DATA_TYPE (\<lambda>l. map ucast (lv_dt l))"

text \<open>The graphs read before the first that does not parse are kept.\<close>

fun unserialize_graphs :: "('m \<Rightarrow> 'g option) \<Rightarrow> 'm list \<Rightarrow> 'g list \<Rightarrow> 'g list \<times> bool" where
  "unserialize_graphs unserialize [] v = (v, True)"
| "unserialize_graphs unserialize (m # ms) v =
     (case unserialize m of None \<Rightarrow> (v, False) | Some g \<Rightarrow> unserialize_graphs unserialize ms (v @ [g]))"

definition GetValue_list_graph :: "('m \<Rightarrow> 'g option) \<Rightarrow> 'm attr_def \<Rightarrow> 'g list \<Rightarrow> 'g list \<times> bool" where
  "GetValue_list_graph unserialize d v =
     (if \<not> GetValueCheckListType d VT_LIST_GRAPH (\<lambda>l. lv_g l \<noteq> []) then ([], False)
      else unserialize_graphs unserialize (lv_g (mutable_list d)) [])"

section \<open>Holders of attributes\<close>

text \<open>The map of attributes, an unordered map, and the names of required ones.\<close>

record 'm attr_holder =
  attr_map :: "(string \<times> 'm attr_def) list"
  requiredAttrs :: "string list"

definition CopyAttrsFrom :: "('m, 'y) attr_holder_scheme \<Rightarrow> ('m, 'z) attr_holder_scheme \<Rightarrow> ('m, 'z) attr_holder_scheme" where
  "CopyAttrsFrom holder h = h\<lparr>attr_map := attr_map holder\<rparr>"

definition SetAttr :: "string \<Rightarrow> 'm attr_def \<Rightarrow> ('m, 'z) attr_holder_scheme \<Rightarrow> ('m, 'z) attr_holder_scheme \<times> graphStatus" where
  "SetAttr name value h =
     (if IsEmpty value then (h, GRAPH_FAILED)
      else if (case map_of (attr_map h) name of
                 None \<Rightarrow> False
               | Some d \<Rightarrow> value_case_of d \<noteq> VALUE_NOT_SET \<and> value_case_of d \<noteq> value_case_of value)
           then (h, GRAPH_FAILED)
           else (h\<lparr>attr_map := AList.update name value (attr_map h)\<rparr>, GRAPH_SUCCESS))"

definition HasAttr :: "('m, 'z) attr_holder_scheme \<Rightarrow> string \<Rightarrow> bool" where
  "HasAttr h name \<longleftrightarrow> map_of (attr_map h) name \<noteq> None \<or> List.member (requiredAttrs h) name"

definition AddRequiredAttr :: "string \<Rightarrow> ('m, 'z) attr_holder_scheme \<Rightarrow> ('m, 'z) attr_holder_scheme \<times> graphStatus" where
  "AddRequiredAttr name h =
     (if HasAttr h name then (h, GRAPH_FAILED)
      else (h\<lparr>requiredAttrs := requiredAttrs h @ [name]\<rparr>, GRAPH_SUCCESS))"

definition GetAttr :: "('m, 'z) attr_holder_scheme \<Rightarrow> string \<Rightarrow> 'm attr_def \<Rightarrow> 'm attr_def \<times> graphStatus" where
  "GetAttr h name value =
     (case map_of (attr_map h) name of None \<Rightarrow> (value, GRAPH_FAILED) | Some d \<Rightarrow> (d, GRAPH_SUCCESS))"

definition DelAttr :: "string \<Rightarrow> ('m, 'z) attr_holder_scheme \<Rightarrow> ('m, 'z) attr_holder_scheme \<times> graphStatus" where
  "DelAttr name h =
     (case map_of (attr_map h) name of
        None \<Rightarrow> (h, GRAPH_FAILED)
      | Some _ \<Rightarrow> (h\<lparr>attr_map := AList.delete name (attr_map h)\<rparr>, GRAPH_SUCCESS))"

definition GetAllAttrs :: "('m, 'z) attr_holder_scheme \<Rightarrow> (string \<times> 'm attr_def) list" where
  "GetAllAttrs h = attr_map h"

definition GetAllAttrNames :: "('m, 'z) attr_holder_scheme \<Rightarrow> string set" where
  "GetAllAttrNames h = set (map fst (attr_map h)) \<union> set (requiredAttrs h)"

section \<open>Attributes by name\<close>

text \<open>
  \<^verbatim>\<open>AttrUtils::Set...\<close> gets or adds the entry before it sets the value, so a failing call
  may leave an entry without a value.
\<close>

definition MutableAttrMapItem :: "string \<Rightarrow> ('m, 'z) attr_holder_scheme \<Rightarrow> 'm attr_def" where
  "MutableAttrMapItem name h = (case map_of (attr_map h) name of None \<Rightarrow> Value_not_set | Some d \<Rightarrow> d)"

definition attr_set :: "('m attr_def \<Rightarrow> 'm attr_def \<times> bool) \<Rightarrow> string \<Rightarrow> ('m, 'z) attr_holder_scheme \<Rightarrow> ('m, 'z) attr_holder_scheme \<times> bool" where
  "attr_set set_value name h =
     (case set_value (MutableAttrMapItem name h) of
        (d, ok) \<Rightarrow> (h\<lparr>attr_map := AList.update name d (attr_map h)\<rparr>, ok))"

definition attr_get :: "('m attr_def \<Rightarrow> 'v \<Rightarrow> 'v \<times> bool) \<Rightarrow> string \<Rightarrow> ('m, 'z) attr_holder_scheme \<Rightarrow> 'v \<Rightarrow> 'v \<times> bool" where
  "attr_get get_value name h v =
     (case map_of (attr_map h) name of None \<Rightarrow> (v, False) | Some d \<Rightarrow> get_value d v)"

end
