(* ===== verification/AttrUtils.thy ===== *)
theory AttrUtils
  imports AttrValues "HOL-Library.List_Lexorder" "HOL-Library.Char_ord"
begin

text \<open>
  \<^verbatim>\<open>AttrUtils\<close> of \<^verbatim>\<open>graph/ge_attr_value.cc\<close>: the setters and getters by name and kind, the
  narrowing getters, operator lists carried as serialised bytes and the textual form of all
  attributes. The locale \<open>attr_kind\<close> is the contract between a setter and a getter of one kind.
\<close>

section \<open>Setters and getters of one kind\<close>

definition AttrUtils_HasAttr :: "('m, 'z) attr_holder_scheme option \<Rightarrow> string \<Rightarrow> bool" where
  "AttrUtils_HasAttr obj name = (case obj of None \<Rightarrow> False | Some h \<Rightarrow> HasAttr h name)"

definition SetInt :: "string \<Rightarrow> 64 word \<Rightarrow> ('m, 'z) attr_holder_scheme \<Rightarrow> ('m, 'z) attr_holder_scheme \<times> bool" where
  "SetInt name v = attr_set (SetValue_int v) name"

definition GetInt :: "('m, 'z) attr_holder_scheme \<Rightarrow> string \<Rightarrow> 64 word \<Rightarrow> 64 word \<times> bool" where
  "GetInt h name = attr_get GetValue_int name h"

definition SetFloat :: "string \<Rightarrow> 32 word \<Rightarrow> ('m, 'z) attr_holder_scheme \<Rightarrow> ('m, 'z) attr_holder_scheme \<times> bool" where
  "SetFloat name v = attr_set (SetValue_float v) name"

definition GetFloat :: "('m, 'z) attr_holder_scheme \<Rightarrow> string \<Rightarrow> 32 word \<Rightarrow> 32 word \<times> bool" where
  "GetFloat h name = attr_get GetValue_float name h"

definition SetBool :: "string \<Rightarrow> bool \<Rightarrow> ('m, 'z) attr_holder_scheme \<Rightarrow> ('m, 'z) attr_holder_scheme \<times> bool" where
  "SetBool name v = attr_set (SetValue_bool v) name"

definition GetBool :: "('m, 'z) attr_holder_scheme \<Rightarrow> string \<Rightarrow> bool \<Rightarrow> bool \<times> bool" where
  "GetBool h name = attr_get GetValue_bool name h"

definition SetStr :: "string \<Rightarrow> string \<Rightarrow> ('m, 'z) attr_holder_scheme \<Rightarrow> ('m, 'z) attr_holder_scheme \<times> bool" where
  "SetStr name v = attr_set (SetValue_str v) name"

definition GetStr :: "('m, 'z) attr_holder_scheme \<Rightarrow> string \<Rightarrow> string \<Rightarrow> string \<times> bool" where
  "GetStr h name = attr_get GetValue_str name h"

definition SetBytes :: "string \<Rightarrow> string \<Rightarrow> ('m, 'z) attr_holder_scheme \<Rightarrow> ('m, 'z) attr_holder_scheme \<times> bool" where
  "SetBytes name v = attr_set (SetValue_bytes v) name"

definition GetBytes :: "('m, 'z) attr_holder_scheme \<Rightarrow> string \<Rightarrow> string \<Rightarrow> string \<times> bool" where
  "GetBytes h name = attr_get GetValue_bytes name h"

definition SetAttrDataType :: "string \<Rightarrow> 32 word \<Rightarrow> ('m, 'z) attr_holder_scheme \<Rightarrow> ('m, 'z) attr_holder_scheme \<times> bool" where
  "SetAttrDataType name v = attr_set (SetValue_data_type v) name"

definition GetAttrDataType :: "('m, 'z) attr_holder_scheme \<Rightarrow> string \<Rightarrow> 32 word \<Rightarrow> 32 word \<times> bool" where
  "GetAttrDataType h name = attr_get GetValue_data_type name h"

definition SetListListInt :: "string \<Rightarrow> 64 word list list \<Rightarrow> ('m, 'z) attr_holder_scheme \<Rightarrow> ('m, 'z) attr_holder_scheme \<times> bool" where
  "SetListListInt name v = attr_set (SetValue_list_list_int v) name"

definition GetListListInt :: "('m, 'z) attr_holder_scheme \<Rightarrow> string \<Rightarrow> 64 word list list \<Rightarrow> 64 word list list \<times> bool" where
  "GetListListInt h name = attr_get GetValue_list_list_int name h"

definition SetListInt :: "string \<Rightarrow> 64 word list \<Rightarrow> ('m, 'z) attr_holder_scheme \<Rightarrow> ('m, 'z) attr_holder_scheme \<times> bool" where
  "SetListInt name v = attr_set (SetValue_list_int v) name"

definition GetListInt :: "('m, 'z) attr_holder_scheme \<Rightarrow> string \<Rightarrow> 64 word list \<Rightarrow> 64 word list \<times> bool" where
  "GetListInt h name = attr_get GetValue_list_int name h"

definition SetListInt_int32 :: "string \<Rightarrow> 32 word list \<Rightarrow> ('m, 'z) attr_holder_scheme \<Rightarrow> ('m, 'z) attr_holder_scheme \<times> bool" where
  "SetListInt_int32 name v = attr_set (SetValue_list_int32 v) name"

definition SetListInt_uint32 :: "string \<Rightarrow> 32 word list \<Rightarrow> ('m, 'z) attr_holder_scheme \<Rightarrow> ('m, 'z) attr_holder_scheme \<times> bool" where
  "SetListInt_uint32 name v = attr_set (SetValue_list_uint32 v) name"

definition SetListFloat :: "string \<Rightarrow> 32 word list \<Rightarrow> ('m, 'z) attr_holder_scheme \<Rightarrow> ('m, 'z) attr_holder_scheme \<times> bool" where
  "SetListFloat name v = attr_set (SetValue_list_float v) name"

definition GetListFloat :: "('m, 'z) attr_holder_scheme \<Rightarrow> string \<Rightarrow> 32 word list \<Rightarrow> 32 word list \<times> bool" where
  "GetListFloat h name = attr_get GetValue_list_float name h"

definition SetListBool :: "string \<Rightarrow> bool list \<Rightarrow> ('m, 'z) attr_holder_scheme \<Rightarrow> ('m, 'z) attr_holder_scheme \<times> bool" where
  "SetListBool name v = attr_set (SetValue_list_bool v) name"

definition GetListBool :: "('m, 'z) attr_holder_scheme \<Rightarrow> string \<Rightarrow> bool list \<Rightarrow> bool list \<times> bool" where
  "GetListBool h name = attr_get GetValue_list_bool name h"

definition SetListStr :: "string \<Rightarrow> string list \<Rightarrow> ('m, 'z) attr_holder_scheme \<Rightarrow> ('m, 'z) attr_holder_scheme \<times> bool" where
  "SetListStr name v = attr_set (SetValue_list_str v) name"

definition GetListStr :: "('m, 'z) attr_holder_scheme \<Rightarrow> string \<Rightarrow> string list \<Rightarrow> string list \<times> bool" where
  "GetListStr h name = attr_get GetValue_list_str name h"

definition SetListBytes :: "string \<Rightarrow> string list \<Rightarrow> ('m, 'z) attr_holder_scheme \<Rightarrow> ('m, 'z) attr_holder_scheme \<times> bool" where
  "SetListBytes name v = attr_set (SetValue_list_bytes v) name"

definition GetListBytes :: "('m, 'z) attr_holder_scheme \<Rightarrow> string \<Rightarrow> string list \<Rightarrow> string list \<times> bool" where
  "GetListBytes h name = attr_get GetValue_list_bytes name h"

definition SetListDataType :: "string \<Rightarrow> 32 word list \<Rightarrow> ('m, 'z) attr_holder_scheme \<Rightarrow> ('m, 'z) attr_holder_scheme \<times> bool" where
  "SetListDataType name v = attr_set (SetValue_list_data_type v) name"

definition GetListDataType :: "('m, 'z) attr_holder_scheme \<Rightarrow> string \<Rightarrow> 32 word list \<Rightarrow> 32 word list \<times> bool" where
  "GetListDataType h name = attr_get GetValue_list_data_type name h"

text \<open>Kinds that wrap a message.\<close>

definition SetTensorDesc :: "string \<Rightarrow> 'm option \<Rightarrow> ('m, 'z) attr_holder_scheme \<Rightarrow> ('m, 'z) attr_holder_scheme \<times> bool" where
  "SetTensorDesc name v = attr_set (SetValue_tensor_desc v) name"

definition GetTensorDesc :: "('m, 'z) attr_holder_scheme \<Rightarrow> string \<Rightarrow> 'm \<Rightarrow> 'm \<times> bool" where
  "GetTensorDesc h name = attr_get GetValue_tensor_desc name h"

definition SetTensor :: "string \<Rightarrow> 'm option \<Rightarrow> ('m, 'z) attr_holder_scheme \<Rightarrow> ('m, 'z) attr_holder_scheme \<times> bool" where
  "SetTensor name v = attr_set (SetValue_tensor v) name"

text \<open>The constant getter goes through a local pointer, which starts null.\<close>

definition GetTensor :: "('m, 'z) attr_holder_scheme \<Rightarrow> string \<Rightarrow> 'm \<Rightarrow> 'm \<times> bool" where
  "GetTensor h name v =
     (case map_of (attr_map h) name of
        None \<Rightarrow> (v, False)
      | Some d \<Rightarrow> (case GetValue_tensor d v of (tensor, ok) \<Rightarrow> if \<not> ok then (v, False) else (tensor, True)))"

definition AttrUtils_MutableTensor :: "('m, 'z) attr_holder_scheme \<Rightarrow> string \<Rightarrow> 'm \<Rightarrow> 'm \<times> bool" where
  "AttrUtils_MutableTensor h name v =
     (case map_of (attr_map h) name of None \<Rightarrow> (v, False) | Some d \<Rightarrow> GetValue_tensor d v)"

definition SetNamedAttrs :: "string \<Rightarrow> 'm option \<Rightarrow> ('m, 'z) attr_holder_scheme \<Rightarrow> ('m, 'z) attr_holder_scheme \<times> bool" where
  "SetNamedAttrs name v = attr_set (SetValue_named_attrs v) name"

definition GetNamedAttrs :: "('m, 'z) attr_holder_scheme \<Rightarrow> string \<Rightarrow> 'm \<Rightarrow> 'm \<times> bool" where
  "GetNamedAttrs h name = attr_get GetValue_named_attrs name h"

definition SetGraph :: "('g \<Rightarrow> 'm option \<Rightarrow> 'm option) \<Rightarrow> string \<Rightarrow> 'g \<Rightarrow> ('m, 'z) attr_holder_scheme \<Rightarrow> ('m, 'z) attr_holder_scheme \<times> bool" where
  "SetGraph serialize name v = attr_set (SetValue_graph serialize v) name"

definition GetGraph :: "('m \<Rightarrow> 'g option) \<Rightarrow> ('m, 'z) attr_holder_scheme \<Rightarrow> string \<Rightarrow> 'g \<Rightarrow> 'g \<times> bool" where
  "GetGraph unserialize h name = attr_get (GetValue_graph unserialize) name h"

definition SetListTensorDesc :: "string \<Rightarrow> 'm option list \<Rightarrow> ('m, 'z) attr_holder_scheme \<Rightarrow> ('m, 'z) attr_holder_scheme \<times> bool" where
  "SetListTensorDesc name v = attr_set (SetValue_list_tensor_desc v) name"

definition GetListTensorDesc :: "('m, 'z) attr_holder_scheme \<Rightarrow> string \<Rightarrow> 'm list \<Rightarrow> 'm list \<times> bool" where
  "GetListTensorDesc h name = attr_get GetValue_list_tensor_desc name h"

definition SetListTensor :: "string \<Rightarrow> 'm option list \<Rightarrow> ('m, 'z) attr_holder_scheme \<Rightarrow> ('m, 'z) attr_holder_scheme \<times> bool" where
  "SetListTensor name v = attr_set (SetValue_list_tensor v) name"

definition GetListTensor :: "('m, 'z) attr_holder_scheme \<Rightarrow> string \<Rightarrow> 'm list \<Rightarrow> 'm list \<times> bool" where
  "GetListTensor h name v =
     (case map_of (attr_map h) name of
        None \<Rightarrow> ([], False)
      | Some d \<Rightarrow> (case GetValue_list_tensor d [] of (tensor, ok) \<Rightarrow> if \<not> ok then ([], False) else (tensor, True)))"

definition MutableListTensor :: "('m, 'z) attr_holder_scheme \<Rightarrow> string \<Rightarrow> 'm list \<Rightarrow> 'm list \<times> bool" where
  "MutableListTensor h name v =
     (case map_of (attr_map h) name of None \<Rightarrow> ([], False) | Some d \<Rightarrow> GetValue_list_tensor d [])"

definition SetListNamedAttrs :: "string \<Rightarrow> 'm option list \<Rightarrow> ('m, 'z) attr_holder_scheme \<Rightarrow> ('m, 'z) attr_holder_scheme \<times> bool" where
  "SetListNamedAttrs name v = attr_set (SetValue_list_named_attrs v) name"

definition GetListNamedAttrs :: "('m, 'z) attr_holder_scheme \<Rightarrow> string \<Rightarrow> 'm list \<Rightarrow> 'm list \<times> bool" where
  "GetListNamedAttrs h name = attr_get GetValue_list_named_attrs name h"

definition SetListGraph :: "('g \<Rightarrow> 'm option \<Rightarrow> 'm option) \<Rightarrow> string \<Rightarrow> 'g list \<Rightarrow> ('m, 'z) attr_holder_scheme \<Rightarrow> ('m, 'z) attr_holder_scheme \<times> bool" where
  "SetListGraph serialize name v = attr_set (SetValue_list_graph serialize v) name"

definition GetListGraph :: "('m \<Rightarrow> 'g option) \<Rightarrow> ('m, 'z) attr_holder_scheme \<Rightarrow> string \<Rightarrow> 'g list \<Rightarrow> 'g list \<times> bool" where
  "GetListGraph unserialize h name = attr_get (GetValue_list_graph unserialize) name h"

section \<open>Narrowing getters\<close>

text \<open>The integers are read as signed 64-bit values and tested against the maximum only.\<close>

definition INT32_MAX :: int where "INT32_MAX = 2147483647"
definition UINT32_MAX :: int where "UINT32_MAX = 4294967295"

definition GetInt_int32 :: "('m, 'z) attr_holder_scheme \<Rightarrow> string \<Rightarrow> 32 word \<Rightarrow> 32 word \<times> bool" where
  "GetInt_int32 h name v =
     (case GetInt h name 0 of (int64_val, ok) \<Rightarrow>
        if \<not> ok then (v, False)
        else if INT32_MAX < sint int64_val then (v, False) else (ucast int64_val, True))"

definition GetInt_uint32 :: "('m, 'z) attr_holder_scheme \<Rightarrow> string \<Rightarrow> 32 word \<Rightarrow> 32 word \<times> bool" where
  "GetInt_uint32 h name v =
     (case GetInt h name 0 of (int64_val, ok) \<Rightarrow>
        if \<not> ok then (v, False)
        else if UINT32_MAX < sint int64_val then (v, False) else (ucast int64_val, True))"

definition GetListInt_int32 :: "('m, 'z) attr_holder_scheme \<Rightarrow> string \<Rightarrow> 32 word list \<Rightarrow> 32 word list \<times> bool" where
  "GetListInt_int32 h name v =
     (case GetListInt h name [] of (int64_list, ok) \<Rightarrow>
        if \<not> ok then ([], False)
        else if list_ex (\<lambda>x. INT32_MAX < sint x) int64_list then ([], False) else (map ucast int64_list, True))"

definition GetListInt_uint32 :: "('m, 'z) attr_holder_scheme \<Rightarrow> string \<Rightarrow> 32 word list \<Rightarrow> 32 word list \<times> bool" where
  "GetListInt_uint32 h name v =
     (case GetListInt h name [] of (int64_list, ok) \<Rightarrow>
        if \<not> ok then ([], False)
        else if list_ex (\<lambda>x. UINT32_MAX < sint x) int64_list then ([], False) else (map ucast int64_list, True))"

section \<open>Operators as bytes\<close>

text \<open>
  Bytes that are moved in, or read through, instead of copied. A buffer without a message ends
  the loop, which keeps what it has stored.
\<close>

definition SetZeroCopyBytes :: "string \<Rightarrow> string option \<Rightarrow> ('m, 'z) attr_holder_scheme \<Rightarrow> ('m, 'z) attr_holder_scheme \<times> bool" where
  "SetZeroCopyBytes name buffer =
     attr_set (\<lambda>d. if \<not> SetValueCheckType d kBt then (d, False)
                   else (case buffer of None \<Rightarrow> (d, False) | Some b \<Rightarrow> (AttrBt b, True))) name"

definition GetZeroCopyBytes :: "('m, 'z) attr_holder_scheme \<Rightarrow> string \<Rightarrow> string \<Rightarrow> string \<times> bool" where
  "GetZeroCopyBytes h name = attr_get (get_one kBt attr_bt) name h"

fun add_bytes :: "string option list \<Rightarrow> 'm list_value \<Rightarrow> 'm list_value \<times> bool" where
  "add_bytes [] l = (l, True)"
| "add_bytes (None # bs) l = (l, False)"
| "add_bytes (Some b # bs) l = add_bytes bs (l\<lparr>lv_bt := lv_bt l @ [b]\<rparr>)"

definition SetZeroCopyListBytes :: "string \<Rightarrow> string option list \<Rightarrow> ('m, 'z) attr_holder_scheme \<Rightarrow> ('m, 'z) attr_holder_scheme \<times> bool" where
  "SetZeroCopyListBytes name list_buffer =
     attr_set (\<lambda>d. case SetValueCheckAndSetListType d VT_LIST_BYTES of (d, ok) \<Rightarrow>
                     if \<not> ok then (d, False)
                     else (case add_bytes list_buffer ((mutable_list d)\<lparr>lv_bt := []\<rparr>) of
                             (l, ok) \<Rightarrow> (AttrList l, ok))) name"

definition GetZeroCopyListBytes :: "('m, 'z) attr_holder_scheme \<Rightarrow> string \<Rightarrow> string list \<Rightarrow> string list \<times> bool" where
  "GetZeroCopyListBytes h name v =
     (case map_of (attr_map h) name of None \<Rightarrow> ([], False) | Some d \<Rightarrow> get_list VT_LIST_BYTES lv_bt d [])"

text \<open>\<open>serialize\<close> and \<open>unserialize\<close> are those of \<^verbatim>\<open>ModelSerialize\<close>.\<close>

definition SetListOpDesc :: "('o \<Rightarrow> string) \<Rightarrow> string \<Rightarrow> 'o list \<Rightarrow> ('m, 'z) attr_holder_scheme \<Rightarrow> ('m, 'z) attr_holder_scheme \<times> bool" where
  "SetListOpDesc serialize name v h =
     (if list_ex (\<lambda>x. serialize x = []) v then (h, False)
      else SetZeroCopyListBytes name (map (\<lambda>x. Some (serialize x)) v) h)"

definition GetListOpDesc :: "(string \<Rightarrow> 'o) \<Rightarrow> ('m, 'z) attr_holder_scheme \<Rightarrow> string \<Rightarrow> 'o list \<Rightarrow> 'o list \<times> bool" where
  "GetListOpDesc unserialize h name v =
     (case GetZeroCopyListBytes h name [] of (bytes_vals, ok) \<Rightarrow>
        if \<not> ok then ([], False) else (map unserialize bytes_vals, True))"

section \<open>All attributes as a string\<close>

text \<open>Ordered by name; \<open>serialize\<close> is \<^verbatim>\<open>SerializeAsString\<close> of the value.\<close>

definition ordered_attrs :: "('m attr_def \<Rightarrow> string) \<Rightarrow> ('m, 'z) attr_holder_scheme \<Rightarrow> (string \<times> string) list" where
  "ordered_attrs serialize h = sort_key fst (map (\<lambda>(name, d). (name, serialize d)) (attr_map h))"

definition attr_str :: "string \<times> string \<Rightarrow> string" where
  "attr_str attr = fst attr @ '':'' @ snd attr @ '';''"

definition GetAllAttrsStr :: "('m attr_def \<Rightarrow> string) \<Rightarrow> ('m, 'z) attr_holder_scheme option \<Rightarrow> string" where
  "GetAllAttrsStr serialize obj =
     (case obj of None \<Rightarrow> '''' | Some h \<Rightarrow> concat (map attr_str (ordered_attrs serialize h)))"

definition GetAttrsStrAfterRid :: "('m attr_def \<Rightarrow> string) \<Rightarrow> ('m, 'z) attr_holder_scheme option \<Rightarrow> string set \<Rightarrow> string" where
  "GetAttrsStrAfterRid serialize obj un_compute_attrs =
     (case obj of
        None \<Rightarrow> ''''
      | Some h \<Rightarrow>
          concat (map attr_str (filter (\<lambda>attr. fst attr \<notin> un_compute_attrs) (ordered_attrs serialize h))))"

end
