(* ===== verification/TensorDescs.thy ===== *)
theory TensorDescs
  imports AttrUtils GraphTypes
begin

text \<open>
  Shapes and tensor descriptions, \<^verbatim>\<open>graph/ge_tensor.cc\<close>: \<^verbatim>\<open>GeShape\<close>,
  \<^verbatim>\<open>GeTensorDesc\<close> and the fields that \<^verbatim>\<open>TensorUtils\<close> reads and writes. A
  description is the message \<^verbatim>\<open>TensorDescriptor\<close> of \<^verbatim>\<open>proto/ge_ir.proto\<close>, whose attributes
  make it a holder of attributes; it is never without its message here, so the null tests of the
  code have no counterpart. Indices are below \<open>2 ^ 31\<close>, where the code's cast to \<^verbatim>\<open>int\<close> keeps
  them.
\<close>

section \<open>Shapes\<close>

type_synonym GeShape = "64 word list"

abbreviation UNKNOWN_DIM :: "64 word" where "UNKNOWN_DIM \<equiv> - 1"
abbreviation UNKNOWN_DIM_NUM :: "64 word" where "UNKNOWN_DIM_NUM \<equiv> - 2"

definition GetDimNum :: "GeShape \<Rightarrow> nat" where
  "GetDimNum s = (if list_ex (\<lambda>i. i = UNKNOWN_DIM_NUM) s then 0 else length s)"

definition GetDim :: "GeShape \<Rightarrow> nat \<Rightarrow> 64 word" where
  "GetDim s idx = (if idx < length s then s ! idx else 0)"

definition SetDim :: "nat \<Rightarrow> 64 word \<Rightarrow> GeShape \<Rightarrow> GeShape \<times> graphStatus" where
  "SetDim idx value s =
     (if s = [] then (s, GRAPH_FAILED)
      else if length s \<le> idx then (s, GRAPH_FAILED)
      else (s[idx := value], GRAPH_SUCCESS))"

definition GetDims :: "GeShape \<Rightarrow> 64 word list" where
  "GetDims s = s"

definition GeShape_ToString :: "GeShape \<Rightarrow> string" where
  "GeShape_ToString s = join_with (CHR '','') (map (\<lambda>i. to_string (sint i)) s)"

text \<open>The product wraps.\<close>

fun shape_size :: "64 word list \<Rightarrow> 64 word \<Rightarrow> 64 word" where
  "shape_size [] res = res"
| "shape_size (i # s) res =
     (if i = UNKNOWN_DIM \<or> i = UNKNOWN_DIM_NUM then UNKNOWN_DIM else shape_size s (res * i))"

definition GetShapeSize :: "GeShape \<Rightarrow> 64 word" where
  "GetShapeSize s = (if s = [] then 0 else shape_size s 1)"

definition IsUnknownShape :: "GeShape \<Rightarrow> bool" where
  "IsUnknownShape s \<longleftrightarrow> list_ex (\<lambda>i. sint i < 0) s"

definition IsScalar :: "GeShape \<Rightarrow> bool" where
  "IsScalar s \<longleftrightarrow> s = []"

section \<open>Descriptions\<close>

record 'm ge_tensor_desc = "'m attr_holder" +
  td_name :: string
  td_dtype :: nat
  td_shape :: GeShape
  td_layout :: string
  td_has_out_attr :: bool
  td_size :: "64 word"
  td_weight_size :: "64 word"
  td_reuse_input :: bool
  td_output_tensor :: bool
  td_device_type :: string
  td_input_tensor :: bool
  td_real_dim_cnt :: "64 word"
  td_reuse_input_index :: "64 word"
  td_data_offset :: "64 word"
  td_cmps_size :: "64 word"
  td_cmps_tab :: string
  td_cmps_tab_offset :: "64 word"

text \<open>The message with every field at its default.\<close>

definition empty_descriptor :: "'m ge_tensor_desc" where
  "empty_descriptor =
     \<lparr>attr_map = [], requiredAttrs = [], td_name = [], td_dtype = 0, td_shape = [], td_layout = [],
      td_has_out_attr = False, td_size = 0, td_weight_size = 0, td_reuse_input = False,
      td_output_tensor = False, td_device_type = [], td_input_tensor = False, td_real_dim_cnt = 0,
      td_reuse_input_index = 0, td_data_offset = 0, td_cmps_size = 0, td_cmps_tab = [],
      td_cmps_tab_offset = 0\<rparr>"

text \<open>The numbers of the element types in the message.\<close>

fun proto_DataType :: "DataType \<Rightarrow> nat" where
  "proto_DataType DT_UNDEFINED = 0" | "proto_DataType DT_FLOAT = 1" | "proto_DataType DT_FLOAT16 = 2"
| "proto_DataType DT_INT8 = 3" | "proto_DataType DT_UINT8 = 4" | "proto_DataType DT_INT16 = 5"
| "proto_DataType DT_UINT16 = 6" | "proto_DataType DT_INT32 = 7" | "proto_DataType DT_INT64 = 8"
| "proto_DataType DT_UINT32 = 9" | "proto_DataType DT_UINT64 = 10" | "proto_DataType DT_BOOL = 11"
| "proto_DataType DT_DOUBLE = 12" | "proto_DataType DT_STRING = 13" | "proto_DataType DT_DUAL_SUB_INT8 = 14"
| "proto_DataType DT_DUAL_SUB_UINT8 = 15" | "proto_DataType DT_COMPLEX64 = 16"
| "proto_DataType DT_COMPLEX128 = 17" | "proto_DataType DT_QINT8 = 18" | "proto_DataType DT_QINT16 = 19"
| "proto_DataType DT_QINT32 = 20" | "proto_DataType DT_QUINT8 = 21" | "proto_DataType DT_QUINT16 = 22"
| "proto_DataType DT_RESOURCE = 23" | "proto_DataType DT_STRING_REF = 24" | "proto_DataType DT_DUAL = 25"
| "proto_DataType DT_VARIANT = 26"

definition kKeyDataTypeSelfDefined :: string where
  "kKeyDataTypeSelfDefined = ''__tensor_desc_data_type__''"

definition kDataTypeMap :: "(DataType \<times> nat) list" where
  "kDataTypeMap =
     map (\<lambda>t. (t, proto_DataType t))
       [DT_FLOAT, DT_FLOAT16, DT_INT8, DT_INT32, DT_UINT8, DT_INT16, DT_UINT16, DT_UINT32, DT_INT64,
        DT_UINT64, DT_DOUBLE, DT_BOOL, DT_STRING, DT_DUAL_SUB_INT8, DT_DUAL_SUB_UINT8, DT_COMPLEX64,
        DT_COMPLEX128, DT_QINT8, DT_QINT16, DT_QINT32, DT_QUINT8, DT_QUINT16, DT_RESOURCE, DT_STRING_REF,
        DT_DUAL, DT_VARIANT, DT_UNDEFINED]"

definition kDataTypeSelfDefinedMap :: "(DataType \<times> 64 word) list" where
  "kDataTypeSelfDefinedMap =
     [(DT_DUAL_SUB_INT8, 14), (DT_DUAL_SUB_UINT8, 15), (DT_COMPLEX64, 16), (DT_COMPLEX128, 17), (DT_QINT8, 18),
      (DT_QINT16, 19), (DT_QINT32, 20), (DT_QUINT8, 21), (DT_QUINT16, 22), (DT_DUAL, 13)]"

text \<open>The first key with a value.\<close>

fun first_key :: "('k \<times> 'v) list \<Rightarrow> 'v \<Rightarrow> 'k option" where
  "first_key [] v = None"
| "first_key ((k, w) # m) v = (if w = v then Some k else first_key m v)"

definition SetDataType :: "DataType \<Rightarrow> ('m, 'z) ge_tensor_desc_scheme \<Rightarrow> ('m, 'z) ge_tensor_desc_scheme" where
  "SetDataType dataType td =
     (let td = td\<lparr>attr_map := AList.delete kKeyDataTypeSelfDefined (attr_map td)\<rparr>
      in case map_of kDataTypeMap dataType of
           Some dt \<Rightarrow> td\<lparr>td_dtype := dt\<rparr>
         | None \<Rightarrow>
             (case map_of kDataTypeSelfDefinedMap dataType of
                Some i \<Rightarrow> td\<lparr>attr_map := AList.update kKeyDataTypeSelfDefined (AttrI i) (attr_map td)\<rparr>
              | None \<Rightarrow> td))"

definition GetDataType :: "('m, 'z) ge_tensor_desc_scheme \<Rightarrow> DataType" where
  "GetDataType td =
     (case (case map_of (attr_map td) kKeyDataTypeSelfDefined of
              Some d \<Rightarrow> first_key kDataTypeSelfDefinedMap (attr_i d)
            | None \<Rightarrow> first_key kDataTypeMap (td_dtype td)) of
        Some t \<Rightarrow> t | None \<Rightarrow> DT_UNDEFINED)"

definition TensorDesc_GetFormat :: "('m, 'z) ge_tensor_desc_scheme \<Rightarrow> Format" where
  "TensorDesc_GetFormat td = SerialStringToFormat (td_layout td)"

definition TensorDesc_SetFormat :: "Format \<Rightarrow> ('m, 'z) ge_tensor_desc_scheme \<Rightarrow> ('m, 'z) ge_tensor_desc_scheme" where
  "TensorDesc_SetFormat format td = td\<lparr>td_layout := FormatToSerialString format\<rparr>"

definition TensorDesc_SetName :: "string \<Rightarrow> ('m, 'z) ge_tensor_desc_scheme \<Rightarrow> ('m, 'z) ge_tensor_desc_scheme" where
  "TensorDesc_SetName name td = td\<lparr>td_name := name\<rparr>"

definition TensorDesc_GetName :: "('m, 'z) ge_tensor_desc_scheme \<Rightarrow> string" where
  "TensorDesc_GetName td = td_name td"

definition GetShape :: "('m, 'z) ge_tensor_desc_scheme \<Rightarrow> GeShape" where
  "GetShape td = td_shape td"

definition SetShape :: "GeShape \<Rightarrow> ('m, 'z) ge_tensor_desc_scheme \<Rightarrow> ('m, 'z) ge_tensor_desc_scheme" where
  "SetShape shape td = td\<lparr>td_shape := shape\<rparr>"

definition SetUnknownDimNumShape :: "('m, 'z) ge_tensor_desc_scheme \<Rightarrow> ('m, 'z) ge_tensor_desc_scheme" where
  "SetUnknownDimNumShape = SetShape [UNKNOWN_DIM_NUM]"

definition TensorDesc_Update :: "GeShape \<Rightarrow> Format \<Rightarrow> DataType \<Rightarrow> ('m, 'z) ge_tensor_desc_scheme \<Rightarrow> ('m, 'z) ge_tensor_desc_scheme" where
  "TensorDesc_Update shape format dt td = SetDataType dt (TensorDesc_SetFormat format (SetShape shape td))"

section \<open>Fields kept as attributes\<close>

definition TENSOR_UTILS_SHAPE_RANGE :: string where "TENSOR_UTILS_SHAPE_RANGE = ''shape_range''"
definition TENSOR_UTILS_ORIGIN_SHAPE :: string where "TENSOR_UTILS_ORIGIN_SHAPE = ''origin_shape''"
definition TENSOR_UTILS_ORIGIN_FORMAT :: string where "TENSOR_UTILS_ORIGIN_FORMAT = ''origin_format''"
definition TENSOR_UTILS_ORIGIN_DATA_TYPE :: string where "TENSOR_UTILS_ORIGIN_DATA_TYPE = ''origin_data_type''"
definition TENSOR_UTILS_REF_PORT_INDEX :: string where "TENSOR_UTILS_REF_PORT_INDEX = ''ref_port_index''"
definition TENSOR_UTILS_RC :: string where "TENSOR_UTILS_RC = ''rc''"

lemmas tensor_utils_keys = TENSOR_UTILS_SHAPE_RANGE_def TENSOR_UTILS_ORIGIN_SHAPE_def
  TENSOR_UTILS_ORIGIN_FORMAT_def TENSOR_UTILS_ORIGIN_DATA_TYPE_def TENSOR_UTILS_REF_PORT_INDEX_def
  TENSOR_UTILS_RC_def kKeyDataTypeSelfDefined_def

definition SetShapeRange ::
    "(64 word \<times> 64 word) list \<Rightarrow> ('m, 'z) ge_tensor_desc_scheme \<Rightarrow> ('m, 'z) ge_tensor_desc_scheme \<times> graphStatus" where
  "SetShapeRange pairs td =
     (case SetListListInt TENSOR_UTILS_SHAPE_RANGE (map (\<lambda>(a, b). [a, b]) pairs) td of
        (td, ret) \<Rightarrow> (td, if ret then GRAPH_SUCCESS else GRAPH_FAILED))"

text \<open>The pairs are appended to the out parameter.\<close>

fun read_pairs :: "64 word list list \<Rightarrow> (64 word \<times> 64 word) list \<Rightarrow> (64 word \<times> 64 word) list \<times> graphStatus" where
  "read_pairs [] pairs = (pairs, GRAPH_SUCCESS)"
| "read_pairs (ele # shape_range) pairs =
     (if length ele \<noteq> 2 then (pairs, GRAPH_FAILED)
      else read_pairs shape_range (pairs @ [(ele ! 0, ele ! 1)]))"

definition GetShapeRange ::
    "('m, 'z) ge_tensor_desc_scheme \<Rightarrow> (64 word \<times> 64 word) list \<Rightarrow> (64 word \<times> 64 word) list \<times> graphStatus" where
  "GetShapeRange td pairs = read_pairs (fst (GetListListInt td TENSOR_UTILS_SHAPE_RANGE [])) pairs"

definition GetOriginShape :: "('m, 'z) ge_tensor_desc_scheme \<Rightarrow> GeShape" where
  "GetOriginShape td =
     (case GetListInt td TENSOR_UTILS_ORIGIN_SHAPE [] of (s, ok) \<Rightarrow> if \<not> ok then [] else s)"

definition SetOriginShape :: "GeShape \<Rightarrow> ('m, 'z) ge_tensor_desc_scheme \<Rightarrow> ('m, 'z) ge_tensor_desc_scheme" where
  "SetOriginShape origin_shape td = fst (SetListInt TENSOR_UTILS_ORIGIN_SHAPE (GetDims origin_shape) td)"

definition GetOriginFormat :: "('m, 'z) ge_tensor_desc_scheme \<Rightarrow> Format" where
  "GetOriginFormat td =
     (case GetStr td TENSOR_UTILS_ORIGIN_FORMAT [] of (s, ok) \<Rightarrow>
        if \<not> ok then FORMAT_RESERVED
        else if s = ''RESERVED'' then FORMAT_RESERVED
        else SerialStringToFormat s)"

definition SetOriginFormat :: "Format \<Rightarrow> ('m, 'z) ge_tensor_desc_scheme \<Rightarrow> ('m, 'z) ge_tensor_desc_scheme" where
  "SetOriginFormat origin_format td =
     fst (SetStr TENSOR_UTILS_ORIGIN_FORMAT
            (if origin_format \<noteq> FORMAT_RESERVED then FormatToSerialString origin_format else ''RESERVED'') td)"

definition SetOriginDataType :: "DataType \<Rightarrow> ('m, 'z) ge_tensor_desc_scheme \<Rightarrow> ('m, 'z) ge_tensor_desc_scheme" where
  "SetOriginDataType origin_data_type td =
     fst (SetStr TENSOR_UTILS_ORIGIN_DATA_TYPE
            (if origin_data_type \<noteq> DT_UNDEFINED then DataTypeToSerialString origin_data_type else ''RESERVED'') td)"

definition GetOriginDataType :: "('m, 'z) ge_tensor_desc_scheme \<Rightarrow> DataType" where
  "GetOriginDataType td =
     (case GetStr td TENSOR_UTILS_ORIGIN_DATA_TYPE [] of (s, ok) \<Rightarrow>
        if \<not> ok then DT_UNDEFINED
        else if s = ''RESERVED'' then DT_UNDEFINED
        else SerialStringToDataType s)"

definition GetRefPortIndex :: "('m, 'z) ge_tensor_desc_scheme \<Rightarrow> 32 word list" where
  "GetRefPortIndex td = fst (GetListInt_uint32 td TENSOR_UTILS_REF_PORT_INDEX [])"

definition SetRefPortByIndex :: "32 word list \<Rightarrow> ('m, 'z) ge_tensor_desc_scheme \<Rightarrow> ('m, 'z) ge_tensor_desc_scheme" where
  "SetRefPortByIndex index td = fst (SetListInt_uint32 TENSOR_UTILS_REF_PORT_INDEX index td)"

definition TensorDesc_IsValid :: "('m, 'z) ge_tensor_desc_scheme \<Rightarrow> graphStatus" where
  "TensorDesc_IsValid td =
     (if GetDataType td = DT_UNDEFINED \<and> TensorDesc_GetFormat td = FORMAT_RESERVED then GRAPH_PARAM_INVALID
      else GRAPH_SUCCESS)"

section \<open>Fields read and written by \<^verbatim>\<open>TensorUtils\<close>\<close>

text \<open>
  The fields of 64 bits that are set from, or read as, 32 bits are widened without sign and cut
  to the low half. An out parameter is returned with the status.
\<close>

definition TensorUtils_GetSize :: "('m, 'z) ge_tensor_desc_scheme \<Rightarrow> 64 word \<times> graphStatus" where
  "TensorUtils_GetSize td = (td_size td, GRAPH_SUCCESS)"

definition TensorUtils_SetSize :: "64 word \<Rightarrow> ('m, 'z) ge_tensor_desc_scheme \<Rightarrow> ('m, 'z) ge_tensor_desc_scheme" where
  "TensorUtils_SetSize bytes td = td\<lparr>td_size := bytes\<rparr>"

definition GetWeightSize :: "('m, 'z) ge_tensor_desc_scheme \<Rightarrow> 32 word" where
  "GetWeightSize td = ucast (td_weight_size td)"

definition SetWeightSize :: "32 word \<Rightarrow> ('m, 'z) ge_tensor_desc_scheme \<Rightarrow> ('m, 'z) ge_tensor_desc_scheme" where
  "SetWeightSize bytes td = td\<lparr>td_weight_size := ucast bytes\<rparr>"

definition GetReuseInput :: "('m, 'z) ge_tensor_desc_scheme \<Rightarrow> bool \<times> graphStatus" where
  "GetReuseInput td = (td_reuse_input td, GRAPH_SUCCESS)"

definition SetReuseInput :: "bool \<Rightarrow> ('m, 'z) ge_tensor_desc_scheme \<Rightarrow> ('m, 'z) ge_tensor_desc_scheme" where
  "SetReuseInput flag td = td\<lparr>td_reuse_input := flag\<rparr>"

definition GetOutputTensor :: "('m, 'z) ge_tensor_desc_scheme \<Rightarrow> bool \<times> graphStatus" where
  "GetOutputTensor td = (td_output_tensor td, GRAPH_SUCCESS)"

definition SetOutputTensor :: "bool \<Rightarrow> ('m, 'z) ge_tensor_desc_scheme \<Rightarrow> ('m, 'z) ge_tensor_desc_scheme" where
  "SetOutputTensor flag td = td\<lparr>td_output_tensor := flag\<rparr>"

datatype DeviceType = NPU | CPU

definition device_to_str_map :: "(DeviceType \<times> string) list" where
  "device_to_str_map = [(NPU, ''NPU''), (CPU, ''CPU'')]"

definition str_to_device_map :: "(string \<times> DeviceType) list" where
  "str_to_device_map = [(''NPU'', NPU), (''CPU'', CPU)]"

text \<open>An unknown name is entered into the map with the value 0.\<close>

definition GetDeviceType :: "('m, 'z) ge_tensor_desc_scheme \<Rightarrow> DeviceType \<times> graphStatus" where
  "GetDeviceType td =
     (case map_of str_to_device_map (td_device_type td) of Some t \<Rightarrow> t | None \<Rightarrow> NPU, GRAPH_SUCCESS)"

definition SetDeviceType :: "DeviceType \<Rightarrow> ('m, 'z) ge_tensor_desc_scheme \<Rightarrow> ('m, 'z) ge_tensor_desc_scheme" where
  "SetDeviceType type td =
     td\<lparr>td_device_type := (case map_of device_to_str_map type of Some s \<Rightarrow> s | None \<Rightarrow> [])\<rparr>"

definition GetInputTensor :: "('m, 'z) ge_tensor_desc_scheme \<Rightarrow> bool \<times> graphStatus" where
  "GetInputTensor td = (td_input_tensor td, GRAPH_SUCCESS)"

definition SetInputTensor :: "bool \<Rightarrow> ('m, 'z) ge_tensor_desc_scheme \<Rightarrow> ('m, 'z) ge_tensor_desc_scheme" where
  "SetInputTensor flag td = td\<lparr>td_input_tensor := flag\<rparr>"

definition GetRealDimCnt :: "('m, 'z) ge_tensor_desc_scheme \<Rightarrow> 32 word \<times> graphStatus" where
  "GetRealDimCnt td = (ucast (td_real_dim_cnt td), GRAPH_SUCCESS)"

definition SetRealDimCnt :: "32 word \<Rightarrow> ('m, 'z) ge_tensor_desc_scheme \<Rightarrow> ('m, 'z) ge_tensor_desc_scheme" where
  "SetRealDimCnt cnt td = td\<lparr>td_real_dim_cnt := ucast cnt\<rparr>"

definition GetReuseInputIndex :: "('m, 'z) ge_tensor_desc_scheme \<Rightarrow> 32 word \<times> graphStatus" where
  "GetReuseInputIndex td = (ucast (td_reuse_input_index td), GRAPH_SUCCESS)"

definition SetReuseInputIndex :: "32 word \<Rightarrow> ('m, 'z) ge_tensor_desc_scheme \<Rightarrow> ('m, 'z) ge_tensor_desc_scheme" where
  "SetReuseInputIndex idx td = td\<lparr>td_reuse_input_index := ucast idx\<rparr>"

definition GetDataOffset :: "('m, 'z) ge_tensor_desc_scheme \<Rightarrow> 64 word \<times> graphStatus" where
  "GetDataOffset td = (td_data_offset td, GRAPH_SUCCESS)"

definition SetDataOffset :: "64 word \<Rightarrow> ('m, 'z) ge_tensor_desc_scheme \<Rightarrow> ('m, 'z) ge_tensor_desc_scheme" where
  "SetDataOffset offset td = td\<lparr>td_data_offset := offset\<rparr>"

definition GetCmpsSize :: "('m, 'z) ge_tensor_desc_scheme \<Rightarrow> 32 word \<times> graphStatus" where
  "GetCmpsSize td = (ucast (td_cmps_size td), GRAPH_SUCCESS)"

definition SetCmpsSize :: "32 word \<Rightarrow> ('m, 'z) ge_tensor_desc_scheme \<Rightarrow> ('m, 'z) ge_tensor_desc_scheme" where
  "SetCmpsSize cmp_size td = td\<lparr>td_cmps_size := ucast cmp_size\<rparr>"

definition GetCmpsTab :: "('m, 'z) ge_tensor_desc_scheme \<Rightarrow> string \<times> graphStatus" where
  "GetCmpsTab td = (td_cmps_tab td, GRAPH_SUCCESS)"

definition SetCmpsTab :: "string option \<Rightarrow> ('m, 'z) ge_tensor_desc_scheme \<Rightarrow> ('m, 'z) ge_tensor_desc_scheme" where
  "SetCmpsTab bytes td = (case bytes of None \<Rightarrow> td | Some str \<Rightarrow> td\<lparr>td_cmps_tab := str\<rparr>)"

definition GetCmpsTabOffset :: "('m, 'z) ge_tensor_desc_scheme \<Rightarrow> 64 word \<times> graphStatus" where
  "GetCmpsTabOffset td = (td_cmps_tab_offset td, GRAPH_SUCCESS)"

definition SetCmpsTabOffset :: "64 word \<Rightarrow> ('m, 'z) ge_tensor_desc_scheme \<Rightarrow> ('m, 'z) ge_tensor_desc_scheme" where
  "SetCmpsTabOffset tab_offset td = td\<lparr>td_cmps_tab_offset := tab_offset\<rparr>"

definition GetRC :: "('m, 'z) ge_tensor_desc_scheme \<Rightarrow> 32 word \<Rightarrow> 32 word \<times> graphStatus" where
  "GetRC td rc =
     (case GetInt_uint32 td TENSOR_UTILS_RC rc of (rc, ok) \<Rightarrow> (rc, if ok then GRAPH_SUCCESS else GRAPH_FAILED))"

definition SetRC :: "32 word \<Rightarrow> ('m, 'z) ge_tensor_desc_scheme \<Rightarrow> ('m, 'z) ge_tensor_desc_scheme" where
  "SetRC rc td = fst (SetInt TENSOR_UTILS_RC (ucast rc) td)"

text \<open>
  The address of a weight, relative to \<open>base\<close>: a null base gives null (\<^term>\<open>0\<close>), and offset 0
  means that the data \<open>own_data\<close> is still with the tensor.
\<close>

definition GetWeightAddr :: "('m, 'z) ge_tensor_desc_scheme \<Rightarrow> 64 word \<Rightarrow> 64 word \<Rightarrow> 64 word" where
  "GetWeightAddr td own_data base =
     (if base = 0 then 0
      else case GetDataOffset td of (weight_data_offset, st) \<Rightarrow>
        if st \<noteq> GRAPH_SUCCESS then 0
        else if weight_data_offset = 0 then own_data
        else base + weight_data_offset)"

section \<open>Construction and comparison\<close>

definition TensorDesc_Init :: "('m, 'z) ge_tensor_desc_scheme \<Rightarrow> ('m, 'z) ge_tensor_desc_scheme" where
  "TensorDesc_Init td = (SetDeviceType NPU (SetOriginFormat FORMAT_ND (TensorDesc_SetFormat FORMAT_ND td)))\<lparr>td_has_out_attr := True\<rparr>"

definition GeTensorDesc_default :: "'m ge_tensor_desc" where
  "GeTensorDesc_default = TensorDesc_Init (SetDataType DT_FLOAT empty_descriptor)"

definition GeTensorDesc_of :: "GeShape \<Rightarrow> Format \<Rightarrow> DataType \<Rightarrow> 'm ge_tensor_desc" where
  "GeTensorDesc_of shape format dt = SetShape shape (SetDataType dt (TensorDesc_SetFormat format GeTensorDesc_default))"

text \<open>A message of an older version keeps these fields as attributes.\<close>

definition GeTensorDesc_of_proto :: "('m, 'z) ge_tensor_desc_scheme \<Rightarrow> ('m, 'z) ge_tensor_desc_scheme" where
  "GeTensorDesc_of_proto td =
     (if td_has_out_attr td then td
      else td\<lparr>td_has_out_attr := True,
         td_size := fst (GetInt td ''size'' 0),
         td_weight_size := fst (GetInt td ''weight_size'' 0),
         td_reuse_input := fst (GetBool td ''reuse_input'' False),
         td_output_tensor := fst (GetBool td ''output_tensor'' False),
         td_device_type := fst (GetStr td ''device_type'' ''NPU''),
         td_input_tensor := fst (GetBool td ''input_tensor'' False),
         td_real_dim_cnt := fst (GetInt td ''real_dim_cnt'' 0),
         td_reuse_input_index := fst (GetInt td ''reuse_input_index'' 0),
         td_data_offset := fst (GetInt td ''data_offset'' 0),
         td_cmps_size := fst (GetInt td ''cmps_size'' 0),
         td_cmps_tab := fst (GetStr td ''cmps_tab'' []),
         td_cmps_tab_offset := fst (GetInt td ''cmps_tab_offset'' 0)\<rparr>)"

text \<open>
  \<^verbatim>\<open>ToString\<close> of \<^verbatim>\<open>graph/utils/ge_ir_utils.h\<close>: the last two characters are cut
  off before the bracket is closed; of an empty list there is only one, and all are kept.
\<close>

definition dims_ToString :: "64 word list \<Rightarrow> string" where
  "dims_ToString dims =
     (let ss = ''['' @ concat (map (\<lambda>x. to_string (sint x) @ '', '') dims)
      in (if length ss < 2 then ss else take (length ss - 2) ss) @ '']'')"

definition GeTensorDescAttrsAreEqual :: "('m, 'z) ge_tensor_desc_scheme \<Rightarrow> ('n, 'y) ge_tensor_desc_scheme \<Rightarrow> bool" where
  "GeTensorDescAttrsAreEqual td r \<longleftrightarrow>
     td_name td = td_name r \<and> td_dtype td = td_dtype r \<and> dims_ToString (td_shape td) = dims_ToString (td_shape r) \<and>
     td_layout td = td_layout r \<and> td_has_out_attr td = td_has_out_attr r \<and> td_size td = td_size r \<and>
     td_weight_size td = td_weight_size r \<and> td_reuse_input td = td_reuse_input r \<and>
     td_output_tensor td = td_output_tensor r \<and> td_device_type td = td_device_type r \<and>
     td_input_tensor td = td_input_tensor r \<and> td_real_dim_cnt td = td_real_dim_cnt r \<and>
     td_reuse_input_index td = td_reuse_input_index r \<and> td_data_offset td = td_data_offset r \<and>
     td_cmps_size td = td_cmps_size r \<and> td_cmps_tab td = td_cmps_tab r \<and>
     td_cmps_tab_offset td = td_cmps_tab_offset r"

end
