(* ===== verification/TensorStore.thy ===== *)
theory TensorStore
  imports TensorDescs
begin

text \<open>
  The bytes of tensors: \<^verbatim>\<open>graph/aligned_ptr.cc\<close> and \<^verbatim>\<open>TensorData\<close> of
  \<^verbatim>\<open>graph/ge_tensor.cc\<close>. Copies of a \<^verbatim>\<open>TensorData\<close> share one buffer, so the buffers
  are kept in a store. The allocators and \<^verbatim>\<open>memcpy_s\<close> are parameters.
\<close>

section \<open>Aligned memory\<close>

text \<open>
  \<open>new_array\<close> gives the address of an allocation of so many bytes. The result is the aligned
  address, \<^term>\<open>0\<close> for null.
\<close>

definition aligned_alloc_size :: "64 word \<Rightarrow> 64 word \<Rightarrow> 64 word" where
  "aligned_alloc_size buffer_size alignment =
     (if 0 < alignment then buffer_size + alignment - 1 else buffer_size)"

definition AlignedPtr_addr :: "(64 word \<Rightarrow> 64 word option) \<Rightarrow> 64 word \<Rightarrow> 64 word \<Rightarrow> 64 word" where
  "AlignedPtr_addr new_array buffer_size alignment =
     (let alloc_size = aligned_alloc_size buffer_size alignment
      in if buffer_size = 0 \<or> alloc_size < buffer_size then 0
         else (case new_array alloc_size of
                 None \<Rightarrow> 0
               | Some base \<Rightarrow>
                   if alignment = 0 then base
                   else (let offset = alignment - 1 in (base + offset) AND NOT offset)))"

definition kAlignmentBytes :: "64 word" where
  "kAlignmentBytes = 16"

section \<open>Tensor data\<close>

text \<open>
  An object of class \<^verbatim>\<open>AlignedPtr\<close> has a number; its buffer is absent when its own allocation
  failed, so that its address is null.
\<close>

record buffer_store =
  buffers :: "nat \<Rightarrow> 8 word list option"
  next_buffer :: nat

record tensor_data =
  aligned_ptr :: "nat option"
  data_length :: nat

datatype data_ptr = Null_data | Invalid_data | Buffer_data nat

definition TensorData_empty :: tensor_data where
  "TensorData_empty = \<lparr>aligned_ptr = None, data_length = 0\<rparr>"

definition TensorData_clear :: "tensor_data \<Rightarrow> tensor_data" where
  "TensorData_clear d = d\<lparr>aligned_ptr := None, data_length := 0\<rparr>"

definition AlignedPtr_Get :: "buffer_store \<Rightarrow> nat \<Rightarrow> data_ptr" where
  "AlignedPtr_Get st p = (case buffers st p of None \<Rightarrow> Null_data | Some _ \<Rightarrow> Buffer_data p)"

text \<open>
  \<open>make_shared\<close> gives, for a size, no object, an object without memory, or an object whose buffer
  has some initial bytes.
\<close>

definition MallocAlignedPtr ::
    "(nat \<Rightarrow> 8 word list option option) \<Rightarrow> nat \<Rightarrow> buffer_store \<Rightarrow> tensor_data \<Rightarrow> buffer_store \<times> tensor_data \<times> data_ptr" where
  "MallocAlignedPtr make_shared n st d =
     (if n = 0 then (st, TensorData_clear d, Invalid_data)
      else
        (let d = (if data_length d \<noteq> n then d\<lparr>aligned_ptr := None\<rparr> else d);
             d = d\<lparr>data_length := n\<rparr>
         in case aligned_ptr d of
              Some p \<Rightarrow> (st, d, AlignedPtr_Get st p)
            | None \<Rightarrow>
                (case make_shared n of
                   None \<Rightarrow> (st, d, Null_data)
                 | Some buf \<Rightarrow>
                     (let p = next_buffer st;
                          st = st\<lparr>buffers := (buffers st)(p := buf), next_buffer := Suc p\<rparr>
                      in (st, d\<lparr>aligned_ptr := Some p\<rparr>, AlignedPtr_Get st p)))))"

text \<open>Copying \<open>n\<close> bytes at one offset of both blocks.\<close>

definition copy_at :: "nat \<Rightarrow> nat \<Rightarrow> 8 word list \<Rightarrow> 8 word list \<Rightarrow> 8 word list" where
  "copy_at off n src dst = take off dst @ take n (drop off src) @ drop (off + n) dst"

text \<open>
  The loop that copies at most \<^verbatim>\<open>SECUREC_MEM_MAX_LEN\<close> bytes (\<open>max_len\<close>, a positive constant)
  at a time; \<open>memcpy_ok\<close> tells for which sizes of the block and of the copy \<^verbatim>\<open>memcpy_s\<close>
  succeeds.
\<close>

function copy_loop ::
    "(nat \<Rightarrow> nat \<Rightarrow> bool) \<Rightarrow> nat \<Rightarrow> 8 word list \<Rightarrow> nat \<Rightarrow> nat \<Rightarrow> 8 word list \<Rightarrow> 8 word list \<times> graphStatus" where
  "copy_loop memcpy_ok max_len src off remain dst =
     (if 0 < max_len \<and> max_len < remain then
        if \<not> memcpy_ok max_len max_len then (dst, GRAPH_FAILED)
        else copy_loop memcpy_ok max_len src (off + max_len) (remain - max_len) (copy_at off max_len src dst)
      else if \<not> memcpy_ok remain remain then (dst, GRAPH_FAILED)
      else (copy_at off remain src dst, GRAPH_SUCCESS))"
  by auto
termination by (relation "measure (\<lambda>(ok, max_len, src, off, remain, dst). remain)") auto

declare copy_loop.simps [simp del]

text \<open>\<open>src\<close> is \<^term>\<open>None\<close> for a null address, and holds the \<open>n\<close> bytes otherwise.\<close>

definition TensorData_SetData ::
    "(nat \<Rightarrow> 8 word list option option) \<Rightarrow> (nat \<Rightarrow> nat \<Rightarrow> bool) \<Rightarrow> nat \<Rightarrow> 8 word list option \<Rightarrow> nat \<Rightarrow>
     buffer_store \<Rightarrow> tensor_data \<Rightarrow> buffer_store \<times> tensor_data \<times> graphStatus" where
  "TensorData_SetData make_shared memcpy_ok max_len src n st d =
     (if n = 0 then (st, TensorData_clear d, GRAPH_SUCCESS)
      else case src of
        None \<Rightarrow> (st, d, GRAPH_SUCCESS)
      | Some bytes \<Rightarrow>
          (case MallocAlignedPtr make_shared n st d of (st, d, p) \<Rightarrow>
             (case p of
                Buffer_data b \<Rightarrow>
                  (case copy_loop memcpy_ok max_len bytes 0 n (the (buffers st b)) of
                     (dst, status) \<Rightarrow> (st\<lparr>buffers := (buffers st)(b := Some dst)\<rparr>, d, status))
              | _ \<Rightarrow> (st, d, GRAPH_FAILED))))"

definition TensorData_SetData_vector ::
    "(nat \<Rightarrow> 8 word list option option) \<Rightarrow> (nat \<Rightarrow> nat \<Rightarrow> bool) \<Rightarrow> nat \<Rightarrow> 8 word list \<Rightarrow>
     buffer_store \<Rightarrow> tensor_data \<Rightarrow> buffer_store \<times> tensor_data \<times> graphStatus" where
  "TensorData_SetData_vector make_shared memcpy_ok max_len bytes =
     TensorData_SetData make_shared memcpy_ok max_len (Some bytes) (length bytes)"

text \<open>Without a copy.\<close>

definition TensorData_SetData_aligned :: "nat option \<Rightarrow> nat \<Rightarrow> tensor_data \<Rightarrow> tensor_data" where
  "TensorData_SetData_aligned ptr n d = d\<lparr>aligned_ptr := ptr, data_length := n\<rparr>"

definition TensorData_GetSize :: "tensor_data \<Rightarrow> nat" where
  "TensorData_GetSize d = data_length d"

definition TensorData_GetData :: "buffer_store \<Rightarrow> tensor_data \<Rightarrow> data_ptr" where
  "TensorData_GetData st d =
     (if data_length d = 0 then Invalid_data
      else case aligned_ptr d of None \<Rightarrow> Null_data | Some p \<Rightarrow> AlignedPtr_Get st p)"

text \<open>\<open>d[index]\<close>; \<^term>\<open>None\<close> for a read at a null address.\<close>

definition TensorData_at :: "buffer_store \<Rightarrow> tensor_data \<Rightarrow> nat \<Rightarrow> 8 word option" where
  "TensorData_at st d index =
     (case aligned_ptr d of
        Some p \<Rightarrow>
          if index < data_length d then
            (case buffers st p of Some b \<Rightarrow> if index < length b then Some (b ! index) else None | None \<Rightarrow> None)
          else Some 0xff
      | None \<Rightarrow> Some 0xff)"

section \<open>Tensors\<close>

text \<open>A tensor that owns its data (one made from a message refers to the message instead).\<close>

record 'm ge_tensor =
  tensor_desc :: "'m ge_tensor_desc"
  tensor_data :: tensor_data

definition GeTensor_default :: "'m ge_tensor" where
  "GeTensor_default = \<lparr>tensor_desc = GeTensorDesc_default, tensor_data = TensorData_empty\<rparr>"

definition GeTensor_of ::
    "(nat \<Rightarrow> 8 word list option option) \<Rightarrow> (nat \<Rightarrow> nat \<Rightarrow> bool) \<Rightarrow> nat \<Rightarrow> 'm ge_tensor_desc \<Rightarrow> 8 word list \<Rightarrow>
     buffer_store \<Rightarrow> buffer_store \<times> 'm ge_tensor" where
  "GeTensor_of make_shared memcpy_ok max_len desc bytes st =
     (case TensorData_SetData_vector make_shared memcpy_ok max_len bytes st TensorData_empty of
        (st, d, _) \<Rightarrow> (st, \<lparr>tensor_desc = desc, tensor_data = d\<rparr>))"

definition GeTensor_of_size ::
    "(nat \<Rightarrow> 8 word list option option) \<Rightarrow> 'm ge_tensor_desc \<Rightarrow> nat \<Rightarrow> buffer_store \<Rightarrow> buffer_store \<times> 'm ge_tensor" where
  "GeTensor_of_size make_shared desc n st =
     (case MallocAlignedPtr make_shared n st TensorData_empty of
        (st, d, _) \<Rightarrow> (st, \<lparr>tensor_desc = desc, tensor_data = d\<rparr>))"

definition SetTensorDescOf :: "'m ge_tensor_desc \<Rightarrow> 'm ge_tensor \<Rightarrow> 'm ge_tensor" where
  "SetTensorDescOf desc t = t\<lparr>tensor_desc := desc\<rparr>"

definition GeTensor_SetData ::
    "(nat \<Rightarrow> 8 word list option option) \<Rightarrow> (nat \<Rightarrow> nat \<Rightarrow> bool) \<Rightarrow> nat \<Rightarrow> 8 word list option \<Rightarrow> nat \<Rightarrow>
     buffer_store \<Rightarrow> 'm ge_tensor \<Rightarrow> buffer_store \<times> 'm ge_tensor \<times> graphStatus" where
  "GeTensor_SetData make_shared memcpy_ok max_len src n st t =
     (if 0 < n \<and> src = None then (st, t, GRAPH_PARAM_INVALID)
      else case TensorData_SetData make_shared memcpy_ok max_len src n st (tensor_data t) of
        (st, d, status) \<Rightarrow> (st, t\<lparr>tensor_data := d\<rparr>, status))"

definition GeTensor_ClearData :: "'m ge_tensor \<Rightarrow> 'm ge_tensor" where
  "GeTensor_ClearData t = t\<lparr>tensor_data := TensorData_clear (tensor_data t)\<rparr>"

text \<open>A clone sets its data from the address that \<^verbatim>\<open>GetData\<close> gives.\<close>

definition GeTensor_Clone ::
    "(nat \<Rightarrow> 8 word list option option) \<Rightarrow> (nat \<Rightarrow> nat \<Rightarrow> bool) \<Rightarrow> nat \<Rightarrow> buffer_store \<Rightarrow> 'm ge_tensor \<Rightarrow> buffer_store \<times> 'm ge_tensor" where
  "GeTensor_Clone make_shared memcpy_ok max_len st t =
     (let src = (case TensorData_GetData st (tensor_data t) of
                   Buffer_data p \<Rightarrow> buffers st p | _ \<Rightarrow> None)
      in case TensorData_SetData make_shared memcpy_ok max_len src (TensorData_GetSize (tensor_data t)) st TensorData_empty of
           (st, d, _) \<Rightarrow> (st, \<lparr>tensor_desc = tensor_desc t, tensor_data = d\<rparr>))"

section \<open>The alignment\<close>

lemma uint_exp: "k < 64 \<Longrightarrow> uint (2 ^ k :: 64 word) = 2 ^ k"
  by (rule uint_2p) (simp add: word_gt_0)

lemma uint_round_down:
  fixes x :: "64 word"
  shows "uint (x AND NOT (mask k)) = uint x - uint x mod 2 ^ k"
proof -
  have low: "uint (x AND mask k) = uint x mod 2 ^ k"
  proof -
    have "uint x mod 2 ^ k < 2 ^ 64"
      using uint_lt2p [of x] zmod_le_nonneg_dividend [of "uint x" "2 ^ k"] by simp
    then show ?thesis
      by (simp add: and_mask_mod_2p uint_word_of_int_eq take_bit_int_eq_self)
  qed
  have "(x AND mask k) + (x AND NOT (mask k)) = x"
    by (subst disjunctive_add) (auto simp: bit_simps bit_eq_iff)
  then have "x AND NOT (mask k) = x - (x AND mask k)"
    by (metis add_diff_cancel_left')
  moreover have "x AND mask k \<le> x"
    using zmod_le_nonneg_dividend [of "uint x" "2 ^ k"] by (simp add: word_le_def low)
  ultimately show ?thesis
    by (simp add: uint_minus_simple_alt [symmetric] low uint_sub_if' word_le_def)
qed

lemma uint_exp_pred: "k < 64 \<Longrightarrow> uint (2 ^ k - 1 :: 64 word) = 2 ^ k - 1"
  using uint_exp [of k] by (simp add: uint_sub_if')

lemma uint_exp_pos: "k < 64 \<Longrightarrow> (2 ^ k :: 64 word) \<noteq> 0"
  using uint_exp [of k] by (metis uint_0_eq power_eq_0_iff zero_neq_numeral)

lemma uint_exp_ge: "(1 :: int) \<le> 2 ^ k"
  by simp

lemma uint_exp_less: "k < 64 \<Longrightarrow> (2 ^ k :: int) < 2 ^ 64"
  by (rule power_strict_increasing) simp_all

lemma uint_alloc_size:
  assumes "k < 64"
  shows "uint (aligned_alloc_size b (2 ^ k)) =
    (if uint b + 2 ^ k - 1 < 2 ^ 64 then uint b + 2 ^ k - 1 else uint b + 2 ^ k - 1 - 2 ^ 64)"
proof -
  have "0 < (2 ^ k :: 64 word)"
    using uint_exp [OF assms] by (simp add: word_less_def)
  moreover have "uint (2 ^ k - 1 :: 64 word) = 2 ^ k - 1"
    using uint_exp [OF assms] by (simp add: uint_sub_if')
  ultimately show ?thesis
    using uint_plus_if' [of b "2 ^ k - 1"] by (simp add: aligned_alloc_size_def algebra_simps)
qed

text \<open> C31: Where the allocation succeeds, with an alignment of \<open>2 ^ k\<close> bytes, the address is a multiple
  of the alignment and the buffer lies inside the allocated block; a size that would exceed the
  address space gives null.
\<close>

theorem aligned_ptr_in_bounds:
  assumes "\<And>n base. new_array n = Some base \<Longrightarrow> uint base + uint n \<le> 2 ^ 64"
    and "k < 64" "buffer_size \<noteq> 0"
  shows "(2 ^ 64 \<le> uint buffer_size + 2 ^ k - 1 \<longrightarrow> AlignedPtr_addr new_array buffer_size (2 ^ k) = 0) \<and>
    (\<forall>base. uint buffer_size + 2 ^ k - 1 < 2 ^ 64 \<and>
        new_array (aligned_alloc_size buffer_size (2 ^ k)) = Some base \<longrightarrow>
        (let addr = uint (AlignedPtr_addr new_array buffer_size (2 ^ k)) in
         addr mod 2 ^ k = 0 \<and> uint base \<le> addr \<and>
         addr + uint buffer_size \<le> uint base + uint (aligned_alloc_size buffer_size (2 ^ k))))"
proof (intro conjI impI allI, goal_cases)
  case 1
  then have "aligned_alloc_size buffer_size (2 ^ k) < buffer_size"
    using uint_alloc_size [OF assms(2), of buffer_size] uint_exp_less [OF assms(2)] by (simp add: word_less_def)
  then show ?case
    by (simp add: AlignedPtr_addr_def Let_def)
next
  case (2 base)
  let ?x = "base + (2 ^ k - 1)"
  have alloc: "uint (aligned_alloc_size buffer_size (2 ^ k)) = uint buffer_size + 2 ^ k - 1"
    using 2 uint_alloc_size [OF assms(2), of buffer_size] by simp
  have fits: "uint base + (uint buffer_size + 2 ^ k - 1) \<le> 2 ^ 64"
    using assms(1) 2 alloc by fastforce
  have pos: "1 \<le> uint buffer_size"
    using assms(3) by (metis int_one_le_iff_zero_less uint_0_iff uint_ge_0 order_le_less)
  have "uint ?x = uint base + 2 ^ k - 1"
    using fits pos by (simp add: uint_plus_if' uint_exp_pred [OF assms(2)])
  moreover have "AlignedPtr_addr new_array buffer_size (2 ^ k) = ?x AND NOT (mask k)"
  proof -
    have "\<not> aligned_alloc_size buffer_size (2 ^ k) < buffer_size"
      using alloc uint_exp_ge [of k] unfolding word_less_def by linarith
    then show ?thesis
      using 2 assms(3) uint_exp_pos [OF assms(2)]
      by (simp add: AlignedPtr_addr_def Let_def mask_eq_exp_minus_1)
  qed
  ultimately have addr: "uint (AlignedPtr_addr new_array buffer_size (2 ^ k)) =
      uint base + 2 ^ k - 1 - (uint base + 2 ^ k - 1) mod 2 ^ k"
    by (simp only: uint_round_down)
  have m: "(uint base + 2 ^ k - 1) mod 2 ^ k < 2 ^ k" "0 \<le> (uint base + 2 ^ k - 1) mod 2 ^ k"
    by simp_all
  show ?case
    unfolding Let_def addr alloc using m by (intro conjI) (simp add: mod_diff_right_eq, linarith+)
qed

lemma aligned_ptr_in_bounds_witness:
  "uint (AlignedPtr_addr (\<lambda>n. if n = 115 then Some 1001 else None) 100 (2 ^ 4)) mod 16 = 0 \<and>
   AlignedPtr_addr (\<lambda>n. if n = 115 then Some 1001 else None) 100 (2 ^ 4) = 1008"
  using aligned_ptr_in_bounds [of "\<lambda>n. if n = 115 then Some 1001 else None" 4 100]
  by (simp add: AlignedPtr_addr_def aligned_alloc_size_def Let_def)

section \<open>Copying in blocks\<close>

lemma copy_at_append:
  "length a = off \<Longrightarrow> length b = k \<Longrightarrow>
   copy_at (off + k) m src (a @ b @ c) = a @ b @ take m (drop (off + k) src) @ drop m c"
  by (simp add: copy_at_def)

lemma copy_at_copy_at:
  assumes "off + k + m \<le> length src" "off + k + m \<le> length dst"
  shows "copy_at (off + k) m src (copy_at off k src dst) = copy_at off (k + m) src dst"
proof -
  have "copy_at (off + k) m src (take off dst @ take k (drop off src) @ drop (off + k) dst) =
      take off dst @ take k (drop off src) @ take m (drop (off + k) src) @ drop m (drop (off + k) dst)"
    using assms by (intro copy_at_append) simp_all
  then show ?thesis
    by (simp add: copy_at_def take_add ac_simps)
qed

lemma length_copy_at: "off + k \<le> length src \<Longrightarrow> off + k \<le> length dst \<Longrightarrow> length (copy_at off k src dst) = length dst"
  by (simp add: copy_at_def)

lemma copy_loop_copies:
  assumes "\<And>n. n \<le> max_len \<Longrightarrow> memcpy_ok n n" "0 < max_len"
    and "off + remain \<le> length src" "off + remain \<le> length dst"
  shows "copy_loop memcpy_ok max_len src off remain dst = (copy_at off remain src dst, GRAPH_SUCCESS)"
  using assms
proof (induction memcpy_ok max_len src off remain dst rule: copy_loop.induct)
  case (1 memcpy_ok max_len src off remain dst)
  show ?case
  proof (cases "max_len < remain")
    case True
    then have "copy_loop memcpy_ok max_len src (off + max_len) (remain - max_len) (copy_at off max_len src dst) =
        (copy_at (off + max_len) (remain - max_len) src (copy_at off max_len src dst), GRAPH_SUCCESS)"
      using 1 by (intro "1.IH") (auto simp: length_copy_at)
    then show ?thesis
      using True 1 copy_at_copy_at [of off max_len "remain - max_len" src dst]
      by (subst copy_loop.simps) simp
  next
    case False
    then show ?thesis
      using 1 by (subst copy_loop.simps) simp
  qed
qed

section \<open>Sharing\<close>

text \<open>The bytes that a \<^verbatim>\<open>TensorData\<close> shows.\<close>

definition visible :: "buffer_store \<Rightarrow> tensor_data \<Rightarrow> 8 word list option" where
  "visible st d =
     (if data_length d = 0 then Some []
      else Option.bind (aligned_ptr d) (\<lambda>p. map_option (take (data_length d)) (buffers st p)))"

text \<open>
  Every buffer that an object refers to exists, and has the length of the object; the buffer of
  an object whose allocation failed is absent.
\<close>

definition data_ok :: "buffer_store \<Rightarrow> tensor_data \<Rightarrow> bool" where
  "data_ok st d \<longleftrightarrow>
     (\<forall>p. aligned_ptr d = Some p \<longrightarrow> p < next_buffer st \<and>
        (\<forall>b. buffers st p = Some b \<longrightarrow> length b = data_length d))"

lemma MallocAlignedPtr_buffer:
  assumes "MallocAlignedPtr make_shared n st d = (st1, d2, Buffer_data b)"
    and "\<And>n b. make_shared n = Some (Some b) \<Longrightarrow> length b = n" "data_ok st d" "n \<noteq> 0"
  shows "\<exists>buf. buffers st1 b = Some buf \<and> aligned_ptr d2 = Some b \<and> data_length d2 = n \<and> length buf = n \<and>
    ((st1 = st \<and> data_length d = n \<and> aligned_ptr d = Some b) \<or>
     (b = next_buffer st \<and> st1 = st\<lparr>buffers := (buffers st)(b := Some buf), next_buffer := Suc b\<rparr> \<and>
      (data_length d \<noteq> n \<or> aligned_ptr d = None)))"
  using assms
  by (auto simp: MallocAlignedPtr_def Let_def AlignedPtr_Get_def data_ok_def split: if_splits option.splits)

text \<open> C32: Data that a tensor accepts is what it shows, whatever the number of blocks the copy takes.
  Copies of a tensor share its buffer: setting data of the same size through one of them is seen
  by the others, and setting data of another size is not, it moves that one to a new buffer. Data
  with another buffer are unchanged.
\<close>

theorem set_data_sharing:
  assumes "TensorData_SetData make_shared memcpy_ok max_len (Some bytes) (length bytes) st d = (st', d', GRAPH_SUCCESS)"
    and "\<And>n. n \<le> max_len \<Longrightarrow> memcpy_ok n n" "0 < max_len"
    and "\<And>n b. make_shared n = Some (Some b) \<Longrightarrow> length b = n"
    and "data_ok st d" "data_ok st e" "bytes \<noteq> []"
  shows "visible st' d' = Some bytes \<and> data_ok st' d' \<and> data_ok st' e \<and>
    (aligned_ptr e = aligned_ptr d \<and> aligned_ptr d \<noteq> None \<and> data_length e = data_length d \<longrightarrow>
       visible st' e = (if length bytes = data_length d then Some bytes else visible st e)) \<and>
    (aligned_ptr e \<noteq> aligned_ptr d \<longrightarrow> visible st' e = visible st e)"
proof -
  let ?n = "length bytes"
  obtain st1 d2 p where m: "MallocAlignedPtr make_shared ?n st d = (st1, d2, p)"
    by (cases "MallocAlignedPtr make_shared ?n st d") auto
  obtain b buf where b: "p = Buffer_data b" "buffers st1 b = Some buf" "aligned_ptr d2 = Some b"
    "data_length d2 = ?n" "length buf = ?n"
    and old: "(st1 = st \<and> data_length d = ?n \<and> aligned_ptr d = Some b) \<or>
      (b = next_buffer st \<and> st1 = st\<lparr>buffers := (buffers st)(b := Some buf), next_buffer := Suc b\<rparr> \<and>
       (data_length d \<noteq> ?n \<or> aligned_ptr d = None))"
  proof (cases p)
    case (Buffer_data b)
    then show ?thesis
      using MallocAlignedPtr_buffer [OF m [unfolded Buffer_data]] assms(4,5,7) that by blast
  qed (use assms(1,7) m in \<open>simp_all add: TensorData_SetData_def\<close>)
  have "copy_loop memcpy_ok max_len bytes 0 ?n buf = (bytes, GRAPH_SUCCESS)"
    using copy_loop_copies [of max_len memcpy_ok 0 ?n bytes buf] assms(2,3) b(5) by (simp add: copy_at_def)
  then have st': "st' = st1\<lparr>buffers := (buffers st1)(b := Some bytes)\<rparr>" "d' = d2"
    using assms(1,7) m b by (simp_all add: TensorData_SetData_def)
  have d': "visible st' d' = Some bytes" "data_ok st' d'"
    using b old assms(5) by (auto simp: st' visible_def data_ok_def)
  show ?thesis
  proof (rule disjE [OF old])
    assume same: "st1 = st \<and> data_length d = ?n \<and> aligned_ptr d = Some b"
    show ?thesis
    proof (cases "aligned_ptr e = Some b")
      case True
      then have "data_length e = ?n"
        using assms(6) same b by (auto simp: data_ok_def)
      then have "data_ok st' e" "visible st' e = Some bytes"
        using True same assms(6,7) by (simp_all add: st' data_ok_def visible_def)
      then show ?thesis
        using d' True same by simp
    next
      case False
      then have "visible st' e = visible st e" "data_ok st' e"
        using same assms(6) by (cases "aligned_ptr e"; simp add: st' visible_def data_ok_def)+
      then show ?thesis
        using d' False same by auto
    qed
  next
    assume new: "b = next_buffer st \<and> st1 = st\<lparr>buffers := (buffers st)(b := Some buf), next_buffer := Suc b\<rparr> \<and>
      (data_length d \<noteq> ?n \<or> aligned_ptr d = None)"
    have p: "buffers st' q = buffers st q" if "aligned_ptr e = Some q" for q
      using that assms(6) new by (simp add: st' data_ok_def)
    then have "visible st' e = visible st e"
      by (cases "aligned_ptr e") (simp_all add: visible_def)
    moreover have "data_ok st' e"
      using assms(6) new p by (auto simp: st' data_ok_def)
    ultimately show ?thesis
      using d' new by auto
  qed
qed

definition demo_buffers :: buffer_store where
  "demo_buffers = \<lparr>buffers = [0 \<mapsto> [1, 2, 3]], next_buffer = 1\<rparr>"

definition demo_data :: tensor_data where
  "demo_data = \<lparr>aligned_ptr = Some 0, data_length = 3\<rparr>"

definition demo_make_shared :: "nat \<Rightarrow> 8 word list option option" where
  "demo_make_shared n = Some (Some (replicate n 0))"

lemma set_data_sharing_witness:
  "visible (fst (TensorData_SetData demo_make_shared (\<lambda>_ _. True) 2 (Some [4, 5, 6]) 3 demo_buffers demo_data)) demo_data =
     Some [4, 5, 6] \<and>
   visible (fst (TensorData_SetData demo_make_shared (\<lambda>_ _. True) 2 (Some [4, 5]) 2 demo_buffers demo_data)) demo_data =
     Some [1, 2, 3]"
proof -
  let ?set = "\<lambda>bytes. TensorData_SetData demo_make_shared (\<lambda>_ _. True) 2 (Some bytes) (length bytes) demo_buffers demo_data"
  note run = TensorData_SetData_def MallocAlignedPtr_def demo_buffers_def demo_data_def demo_make_shared_def
    AlignedPtr_Get_def Let_def copy_loop_copies copy_at_def
  have ok: "data_ok demo_buffers demo_data"
    by (simp add: data_ok_def demo_buffers_def demo_data_def)
  have "?set [4, 5, 6] = (fst (?set [4, 5, 6]), fst (snd (?set [4, 5, 6])), GRAPH_SUCCESS)"
    and "?set [4, 5] = (fst (?set [4, 5]), fst (snd (?set [4, 5])), GRAPH_SUCCESS)"
    by (simp_all add: run)
  note set = this
  show ?thesis
    using set_data_sharing [OF set(1) _ _ _ ok ok] set_data_sharing [OF set(2) _ _ _ ok ok]
    by (auto simp: demo_make_shared_def demo_data_def demo_buffers_def visible_def eval_nat_numeral)
qed

end
