(* ===== verification/OpDescs.thy ===== *)
theory OpDescs
  imports TensorDescs
begin

text \<open>
  Operator descriptions, \<^verbatim>\<open>graph/op_desc.cc\<close>: the descriptions of inputs and outputs with the
  maps from their names to their positions, the fields of the message \<^verbatim>\<open>OpDef\<close> and the
  subgraphs of an operator. Memory allocation does not fail here, a description is never without
  its message, and the functions that infer shapes are not modelled.
\<close>

section \<open>The state\<close>

datatype SubgraphType = kStatic | kDynamic | kSubgraphTypeEnd

text \<open>Maps are the sequences of their entries in the order of the keys, sets those of their elements.\<close>

type_synonym name_idx = "(string \<times> nat) list"

record 'm ge_op_desc = "'m attr_holder" +
  op_name :: string
  op_type :: string
  op_input :: "string list"
  op_has_out_attr :: bool
  op_id :: "64 word"
  op_stream_id :: "64 word"
  op_input_name :: "string list"
  op_src_name :: "string list"
  op_src_index :: "64 word list"
  op_dst_name :: "string list"
  op_dst_index :: "64 word list"
  op_input_i :: "64 word list"
  op_output_i :: "64 word list"
  op_workspace :: "64 word list"
  op_workspace_bytes :: "64 word list"
  op_is_input_const :: "bool list"
  op_subgraph_name :: "string list"
  inputs_desc :: "'m ge_tensor_desc list"
  input_name_idx :: name_idx
  register_input_name :: "string list"
  optional_input_names :: "string list"
  outputs_desc :: "'m ge_tensor_desc list"
  output_name_idx :: name_idx
  register_output_name :: "string list"
  subgraph_instance_names :: "string list"
  subgraph_names_to_index :: name_idx
  subgraph_ir_names_to_type :: "(string \<times> SubgraphType) list"
  op_kernel_lib_name :: string
  engine_name :: string

definition OpDesc_default :: "'m ge_op_desc" where
  "OpDesc_default =
     \<lparr>attr_map = [], requiredAttrs = [], op_name = [], op_type = [], op_input = [], op_has_out_attr = True,
      op_id = 0, op_stream_id = 0, op_input_name = [], op_src_name = [], op_src_index = [],
      op_dst_name = [], op_dst_index = [], op_input_i = [], op_output_i = [], op_workspace = [],
      op_workspace_bytes = [], op_is_input_const = [], op_subgraph_name = [], inputs_desc = [], input_name_idx = [],
      register_input_name = [], optional_input_names = [], outputs_desc = [], output_name_idx = [],
      register_output_name = [], subgraph_instance_names = [], subgraph_names_to_index = [],
      subgraph_ir_names_to_type = [], op_kernel_lib_name = [], engine_name = []\<rparr>"

definition OpDesc_SetName :: "string \<Rightarrow> ('m, 'z) ge_op_desc_scheme \<Rightarrow> ('m, 'z) ge_op_desc_scheme" where
  "OpDesc_SetName name od = od\<lparr>op_name := name\<rparr>"

definition OpDesc_SetType :: "string \<Rightarrow> ('m, 'z) ge_op_desc_scheme \<Rightarrow> ('m, 'z) ge_op_desc_scheme" where
  "OpDesc_SetType type od = od\<lparr>op_type := type\<rparr>"

definition OpDesc_of :: "string \<Rightarrow> string \<Rightarrow> 'm ge_op_desc" where
  "OpDesc_of name type = OpDesc_SetType type (OpDesc_SetName name OpDesc_default)"

definition OpDesc_GetName :: "('m, 'z) ge_op_desc_scheme \<Rightarrow> string" where
  "OpDesc_GetName od = op_name od"

definition OpDesc_GetType :: "('m, 'z) ge_op_desc_scheme \<Rightarrow> string" where
  "OpDesc_GetType od = op_type od"

text \<open>
  A message of an older version keeps these fields as attributes, which are appended to the
  fields; the descriptions of inputs and outputs in it are not part of this state.
\<close>

definition OpDesc_of_proto :: "('m, 'z) ge_op_desc_scheme \<Rightarrow> ('m, 'z) ge_op_desc_scheme" where
  "OpDesc_of_proto od =
     (if op_has_out_attr od then od
      else od\<lparr>op_has_out_attr := True,
         op_id := fst (GetInt od ''id'' 0),
         op_stream_id := fst (GetInt od ''stream_id'' 0),
         op_input_name := op_input_name od @ fst (GetListStr od ''input_name'' []),
         op_src_name := op_src_name od @ fst (GetListStr od ''src_name'' []),
         op_src_index := op_src_index od @ fst (GetListInt od ''src_index'' []),
         op_input_i := op_input_i od @ fst (GetListInt od ''input'' []),
         op_output_i := op_output_i od @ fst (GetListInt od ''output'' []),
         op_dst_name := op_dst_name od @ fst (GetListStr od ''dst_name'' []),
         op_dst_index := op_dst_index od @ fst (GetListInt od ''dst_index'' []),
         op_workspace := op_workspace od @ fst (GetListInt od ''workspace'' []),
         op_workspace_bytes := op_workspace_bytes od @ fst (GetListInt od ''workspace_bytes'' []),
         op_is_input_const := op_is_input_const od @ fst (GetListBool od ''is_input_const'' [])\<rparr>)"

section \<open>Ports\<close>

text \<open>
  Inputs and outputs are kept alike, as a list of descriptions and a map from names to positions.
  The loops that insert dynamic ports are written once for both; they stop at the first failure
  and keep what they have inserted.
\<close>

type_synonym 'm ports = "'m ge_tensor_desc list \<times> name_idx"

definition shift_from :: "nat \<Rightarrow> name_idx \<Rightarrow> name_idx" where
  "shift_from p idx = map (\<lambda>(n, i). (n, if p \<le> i then i + 1 else i)) idx"

fun ports_middle :: "string \<Rightarrow> nat list \<Rightarrow> nat \<Rightarrow> 'm ports \<Rightarrow> 'm ports \<times> graphStatus" where
  "ports_middle name [] index s = (s, GRAPH_SUCCESS)"
| "ports_middle name (i # is) index (descs, idx) =
     (let port_name = name @ to_string (int i)
      in if map_of idx port_name \<noteq> None then ((descs, idx), GRAPH_FAILED)
         else if length descs < index then ((descs, idx), GRAPH_FAILED)
         else ports_middle name is index
           (take (index + i) descs @ [GeTensorDesc_default] @ drop (index + i) descs,
            map_emplace port_name (i + index) (shift_from (index + i) idx)))"

fun ports_forward :: "string \<Rightarrow> nat list \<Rightarrow> 'm ports \<Rightarrow> 'm ports \<times> graphStatus" where
  "ports_forward name [] s = (s, GRAPH_SUCCESS)"
| "ports_forward name (i # is) (descs, idx) =
     (let port_name = name @ to_string (int i)
      in if map_of idx port_name \<noteq> None then ((descs, idx), GRAPH_FAILED)
         else ports_forward name is
           (GeTensorDesc_default # descs, map_emplace port_name 0 (map (\<lambda>(n, i). (n, i + 1)) idx)))"

definition add_once :: "'a \<Rightarrow> 'a list \<Rightarrow> 'a list" where
  "add_once x xs = (if x \<in> set xs then xs else xs @ [x])"

section \<open>Inputs\<close>

definition UpdateInputDesc_at :: "nat \<Rightarrow> 'm ge_tensor_desc \<Rightarrow> 'm ge_op_desc \<Rightarrow> 'm ge_op_desc \<times> graphStatus" where
  "UpdateInputDesc_at index tensor_Desc od =
     (if length (inputs_desc od) \<le> index then (od, GRAPH_FAILED)
      else (od\<lparr>inputs_desc := (inputs_desc od)[index := tensor_Desc]\<rparr>, GRAPH_SUCCESS))"

definition UpdateInputDesc :: "string \<Rightarrow> 'm ge_tensor_desc \<Rightarrow> 'm ge_op_desc \<Rightarrow> 'm ge_op_desc \<times> graphStatus" where
  "UpdateInputDesc name tensor_Desc od =
     (case map_of (input_name_idx od) name of
        None \<Rightarrow> (od, GRAPH_FAILED)
      | Some i \<Rightarrow>
          if length (inputs_desc od) \<le> i then (od, GRAPH_FAILED)
          else (od\<lparr>inputs_desc := (inputs_desc od)[i := tensor_Desc]\<rparr>, GRAPH_SUCCESS))"

definition AddInputDesc :: "string \<Rightarrow> 'm ge_tensor_desc \<Rightarrow> 'm ge_op_desc \<Rightarrow> 'm ge_op_desc \<times> graphStatus" where
  "AddInputDesc name input_desc od =
     (if map_of (input_name_idx od) name \<noteq> None then UpdateInputDesc name input_desc od
      else (od\<lparr>inputs_desc := inputs_desc od @ [input_desc],
               input_name_idx := map_emplace name (length (inputs_desc od)) (input_name_idx od),
               register_input_name := add_once name (register_input_name od)\<rparr>, GRAPH_SUCCESS))"

definition AddInputDesc_unnamed :: "'m ge_tensor_desc \<Rightarrow> 'm ge_op_desc \<Rightarrow> 'm ge_op_desc \<times> graphStatus" where
  "AddInputDesc_unnamed input_desc od =
     AddInputDesc (''__input'' @ to_string (int (length (inputs_desc od)))) input_desc od"

definition AddInputDesc_at :: "nat \<Rightarrow> 'm ge_tensor_desc \<Rightarrow> 'm ge_op_desc \<Rightarrow> 'm ge_op_desc \<times> graphStatus" where
  "AddInputDesc_at index input_desc od =
     (if index < length (inputs_desc od) then UpdateInputDesc_at index input_desc od
      else AddInputDesc_unnamed input_desc od)"

definition AddInputDescMiddle :: "string \<Rightarrow> nat \<Rightarrow> nat \<Rightarrow> 'm ge_op_desc \<Rightarrow> 'm ge_op_desc \<times> graphStatus" where
  "AddInputDescMiddle name num index od =
     (case ports_middle name [0..<num] index (inputs_desc od, input_name_idx od) of
        ((descs, idx), ret) \<Rightarrow> (od\<lparr>inputs_desc := descs, input_name_idx := idx\<rparr>, ret))"

definition AddInputDescForward :: "string \<Rightarrow> nat \<Rightarrow> 'm ge_op_desc \<Rightarrow> 'm ge_op_desc \<times> graphStatus" where
  "AddInputDescForward name num od =
     (case ports_forward name [0..<num] (inputs_desc od, input_name_idx od) of
        ((descs, idx), ret) \<Rightarrow> (od\<lparr>inputs_desc := descs, input_name_idx := idx\<rparr>, ret))"

definition AddOptionalInputDesc :: "string \<Rightarrow> 'm ge_tensor_desc \<Rightarrow> 'm ge_op_desc \<Rightarrow> 'm ge_op_desc \<times> graphStatus" where
  "AddOptionalInputDesc name input_desc od =
     (case AddInputDesc name input_desc od of (od, ret) \<Rightarrow>
        if ret = GRAPH_FAILED then (od, GRAPH_FAILED)
        else (od\<lparr>optional_input_names := set_insert name (optional_input_names od)\<rparr>, GRAPH_SUCCESS))"

definition AddRegisterInputName :: "string \<Rightarrow> 'm ge_op_desc \<Rightarrow> 'm ge_op_desc \<times> graphStatus" where
  "AddRegisterInputName name od =
     (od\<lparr>register_input_name := add_once name (register_input_name od)\<rparr>, GRAPH_SUCCESS)"

definition AddDynamicInputDesc :: "string \<Rightarrow> nat \<Rightarrow> bool \<Rightarrow> 'm ge_op_desc \<Rightarrow> 'm ge_op_desc \<times> graphStatus" where
  "AddDynamicInputDesc name num is_push_back od =
     and_then
       (or_failed
          (if is_push_back
           then each (\<lambda>i. AddInputDesc (name @ to_string (int i)) GeTensorDesc_default) [0..<num] od
           else AddInputDescForward name num od))
       (AddRegisterInputName name)"

definition AddDynamicInputDescByIndex :: "string \<Rightarrow> nat \<Rightarrow> nat \<Rightarrow> 'm ge_op_desc \<Rightarrow> 'm ge_op_desc \<times> graphStatus" where
  "AddDynamicInputDescByIndex name num index od = or_failed (AddInputDescMiddle name num index od)"

definition InputIsSet :: "string \<Rightarrow> 'm ge_op_desc \<Rightarrow> bool" where
  "InputIsSet name od =
     (case map_of (input_name_idx od) name of
        None \<Rightarrow> False
      | Some i \<Rightarrow>
          if length (inputs_desc od) \<le> i then False
          else 0 < length (GetDims (GetShape (inputs_desc od ! i))))"

definition GetInputDesc_at :: "nat \<Rightarrow> 'm ge_op_desc \<Rightarrow> 'm ge_tensor_desc" where
  "GetInputDesc_at index od =
     (if index < length (inputs_desc od) then inputs_desc od ! index else GeTensorDesc_default)"

definition GetInputDesc :: "string \<Rightarrow> 'm ge_op_desc \<Rightarrow> 'm ge_tensor_desc" where
  "GetInputDesc name od =
     (case map_of (input_name_idx od) name of
        None \<Rightarrow> GeTensorDesc_default
      | Some i \<Rightarrow> if i < length (inputs_desc od) then inputs_desc od ! i else GeTensorDesc_default)"

text \<open>A pointer into the inputs is a position.\<close>

definition MutableInputDesc_at :: "nat \<Rightarrow> 'm ge_op_desc \<Rightarrow> nat option" where
  "MutableInputDesc_at index od =
     (if \<not> index < length (inputs_desc od) then None
      else if TensorDesc_IsValid (inputs_desc od ! index) \<noteq> GRAPH_SUCCESS then None
      else Some index)"

definition MutableInputDesc :: "string \<Rightarrow> 'm ge_op_desc \<Rightarrow> nat option" where
  "MutableInputDesc name od =
     (case map_of (input_name_idx od) name of None \<Rightarrow> None | Some i \<Rightarrow> MutableInputDesc_at i od)"

definition GetInputDescPtr_at :: "nat \<Rightarrow> 'm ge_op_desc \<Rightarrow> nat option" where
  "GetInputDescPtr_at index od =
     (if \<not> index < length (inputs_desc od) then None
      else if TensorDesc_IsValid (inputs_desc od ! index) \<noteq> GRAPH_SUCCESS then None
      else Some index)"

definition GetInputDescPtrDfault :: "nat \<Rightarrow> 'm ge_op_desc \<Rightarrow> nat option" where
  "GetInputDescPtrDfault index od = (if \<not> index < length (inputs_desc od) then None else Some index)"

definition GetAllInputNames :: "'m ge_op_desc \<Rightarrow> string list" where
  "GetAllInputNames od = map fst (input_name_idx od)"

definition GetAllInputsDesc :: "'m ge_op_desc \<Rightarrow> 'm ge_tensor_desc list" where
  "GetAllInputsDesc od = filter (\<lambda>td. TensorDesc_IsValid td = GRAPH_SUCCESS) (inputs_desc od)"

definition GetAllInputsDescPtr :: "'m ge_op_desc \<Rightarrow> nat list" where
  "GetAllInputsDescPtr od =
     filter (\<lambda>i. TensorDesc_IsValid (inputs_desc od ! i) = GRAPH_SUCCESS) [0..<length (inputs_desc od)]"

definition GetInputsSize :: "'m ge_op_desc \<Rightarrow> nat" where
  "GetInputsSize od = length (filter (\<lambda>td. TensorDesc_IsValid td = GRAPH_SUCCESS) (inputs_desc od))"

definition GetAllInputsSize :: "'m ge_op_desc \<Rightarrow> nat" where
  "GetAllInputsSize od = length (inputs_desc od)"

definition IsOptionalInput :: "string \<Rightarrow> 'm ge_op_desc \<Rightarrow> bool" where
  "IsOptionalInput name od \<longleftrightarrow> name \<in> set (optional_input_names od)"

text \<open>The first name, in the order of names, with this position; empty if there is none.\<close>

definition name_at :: "name_idx \<Rightarrow> nat \<Rightarrow> string" where
  "name_at idx index = (case find (\<lambda>e. snd e = index) idx of None \<Rightarrow> [] | Some (n, _) \<Rightarrow> n)"

definition GetInputNameByIndex :: "nat \<Rightarrow> 'm ge_op_desc \<Rightarrow> string" where
  "GetInputNameByIndex index od = name_at (input_name_idx od) index"

definition IsOptionalInput_at :: "nat \<Rightarrow> 'm ge_op_desc \<Rightarrow> bool" where
  "IsOptionalInput_at index od = IsOptionalInput (GetInputNameByIndex index od) od"

definition GetInputIndexByName :: "string \<Rightarrow> 'm ge_op_desc \<Rightarrow> int" where
  "GetInputIndexByName name od =
     (case map_of (input_name_idx od) name of None \<Rightarrow> - 1 | Some i \<Rightarrow> int i)"

text \<open>The names of the valid inputs with their positions among them; absent if one has no name.\<close>

fun valid_names :: "nat list \<Rightarrow> 'm ge_op_desc \<Rightarrow> nat \<Rightarrow> name_idx \<Rightarrow> name_idx option" where
  "valid_names [] od j acc = Some acc"
| "valid_names (i # is) od j acc =
     (if MutableInputDesc_at i od \<noteq> None then
        (let valid_name = GetInputNameByIndex i od
         in if valid_name = [] then None else valid_names is od (j + 1) (map_emplace valid_name j acc))
      else valid_names is od j acc)"

definition GetValidInputIndexByName :: "string \<Rightarrow> 'm ge_op_desc \<Rightarrow> int" where
  "GetValidInputIndexByName name od =
     (case valid_names [0..<GetAllInputsSize od] od 0 [] of
        None \<Rightarrow> - 1
      | Some idx \<Rightarrow> (case map_of idx name of None \<Rightarrow> - 1 | Some i \<Rightarrow> int i))"

definition GetValidInputNameByIndex :: "nat \<Rightarrow> 'm ge_op_desc \<Rightarrow> string" where
  "GetValidInputNameByIndex index od =
     (case valid_names [0..<GetAllInputsSize od] od 0 [] of None \<Rightarrow> [] | Some idx \<Rightarrow> name_at idx index)"

text \<open>Both lists of names are maps; the second is what the operator's factory knows.\<close>

definition UpdateInputName :: "name_idx \<Rightarrow> 'm ge_op_desc \<Rightarrow> 'm ge_op_desc \<times> bool" where
  "UpdateInputName idx od =
     (let input_map_size = length (inputs_desc od)
      in if input_map_size < length idx then
           (let idx = filter (\<lambda>(n, i). i < input_map_size) idx
            in if length idx = input_map_size then (od\<lparr>input_name_idx := idx\<rparr>, True) else (od, False))
         else if input_map_size = length idx then (od\<lparr>input_name_idx := idx\<rparr>, True)
         else (od, False))"

definition RestoreInputNameIdx :: "string \<Rightarrow> nat \<Rightarrow> 'm ge_op_desc \<Rightarrow> 'm ge_op_desc \<times> graphStatus" where
  "RestoreInputNameIdx name index od =
     (od\<lparr>input_name_idx := map_emplace name index (input_name_idx od)\<rparr>, GRAPH_SUCCESS)"

section \<open>Outputs\<close>

definition AddOutputDesc :: "string \<Rightarrow> 'm ge_tensor_desc \<Rightarrow> 'm ge_op_desc \<Rightarrow> 'm ge_op_desc \<times> graphStatus" where
  "AddOutputDesc name output_desc od =
     (if map_of (output_name_idx od) name \<noteq> None then (od, GRAPH_FAILED)
      else (od\<lparr>outputs_desc := outputs_desc od @ [output_desc],
               output_name_idx := map_emplace name (length (outputs_desc od)) (output_name_idx od),
               register_output_name := add_once name (register_output_name od)\<rparr>, GRAPH_SUCCESS))"

definition AddOutputDesc_unnamed :: "'m ge_tensor_desc \<Rightarrow> 'm ge_op_desc \<Rightarrow> 'm ge_op_desc \<times> graphStatus" where
  "AddOutputDesc_unnamed output_desc od =
     AddOutputDesc (''__output'' @ to_string (int (length (outputs_desc od)))) output_desc od"

definition AddOutputDescMiddle :: "string \<Rightarrow> nat \<Rightarrow> nat \<Rightarrow> 'm ge_op_desc \<Rightarrow> 'm ge_op_desc \<times> graphStatus" where
  "AddOutputDescMiddle name num index od =
     (case ports_middle name [0..<num] index (outputs_desc od, output_name_idx od) of
        ((descs, idx), ret) \<Rightarrow> (od\<lparr>outputs_desc := descs, output_name_idx := idx\<rparr>, ret))"

definition AddOutputDescForward :: "string \<Rightarrow> nat \<Rightarrow> 'm ge_op_desc \<Rightarrow> 'm ge_op_desc \<times> graphStatus" where
  "AddOutputDescForward name num od =
     (case ports_forward name [0..<num] (outputs_desc od, output_name_idx od) of
        ((descs, idx), ret) \<Rightarrow> (od\<lparr>outputs_desc := descs, output_name_idx := idx\<rparr>, ret))"

definition AddRegisterOutputName :: "string \<Rightarrow> 'm ge_op_desc \<Rightarrow> 'm ge_op_desc \<times> graphStatus" where
  "AddRegisterOutputName name od =
     (od\<lparr>register_output_name := add_once name (register_output_name od)\<rparr>, GRAPH_SUCCESS)"

definition AddDynamicOutputDesc :: "string \<Rightarrow> nat \<Rightarrow> bool \<Rightarrow> 'm ge_op_desc \<Rightarrow> 'm ge_op_desc \<times> graphStatus" where
  "AddDynamicOutputDesc name num is_push_back od =
     and_then
       (or_failed
          (if is_push_back
           then each (\<lambda>i. AddOutputDesc (name @ to_string (int i)) GeTensorDesc_default) [0..<num] od
           else AddOutputDescForward name num od))
       (AddRegisterOutputName name)"

definition UpdateOutputDesc_at :: "nat \<Rightarrow> 'm ge_tensor_desc \<Rightarrow> 'm ge_op_desc \<Rightarrow> 'm ge_op_desc \<times> graphStatus" where
  "UpdateOutputDesc_at index tensor_Desc od =
     (if \<not> index < length (outputs_desc od) then (od, GRAPH_FAILED)
      else (od\<lparr>outputs_desc := (outputs_desc od)[index := tensor_Desc]\<rparr>, GRAPH_SUCCESS))"

definition UpdateOutputDesc :: "string \<Rightarrow> 'm ge_tensor_desc \<Rightarrow> 'm ge_op_desc \<Rightarrow> 'm ge_op_desc \<times> graphStatus" where
  "UpdateOutputDesc name tensor_Desc od =
     (case map_of (output_name_idx od) name of
        None \<Rightarrow> (od, GRAPH_FAILED)
      | Some i \<Rightarrow>
          if length (outputs_desc od) \<le> i then (od, GRAPH_FAILED)
          else (od\<lparr>outputs_desc := (outputs_desc od)[i := tensor_Desc]\<rparr>, GRAPH_SUCCESS))"

definition GetOutputDesc_at :: "nat \<Rightarrow> 'm ge_op_desc \<Rightarrow> 'm ge_tensor_desc" where
  "GetOutputDesc_at index od =
     (if index < length (outputs_desc od) then outputs_desc od ! index else GeTensorDesc_default)"

definition GetOutputDesc :: "string \<Rightarrow> 'm ge_op_desc \<Rightarrow> 'm ge_tensor_desc" where
  "GetOutputDesc name od =
     (case map_of (output_name_idx od) name of
        None \<Rightarrow> GeTensorDesc_default
      | Some i \<Rightarrow> if i < length (outputs_desc od) then outputs_desc od ! i else GeTensorDesc_default)"

definition MutableOutputDesc_at :: "nat \<Rightarrow> 'm ge_op_desc \<Rightarrow> nat option" where
  "MutableOutputDesc_at index od = (if \<not> index < length (outputs_desc od) then None else Some index)"

definition MutableOutputDesc :: "string \<Rightarrow> 'm ge_op_desc \<Rightarrow> nat option" where
  "MutableOutputDesc name od =
     (case map_of (output_name_idx od) name of None \<Rightarrow> None | Some i \<Rightarrow> MutableOutputDesc_at i od)"

definition GetOutputDescPtr :: "nat \<Rightarrow> 'm ge_op_desc \<Rightarrow> nat option" where
  "GetOutputDescPtr index od = (if \<not> index < length (outputs_desc od) then None else Some index)"

definition GetAllOutputsDesc :: "'m ge_op_desc \<Rightarrow> 'm ge_tensor_desc list" where
  "GetAllOutputsDesc od = outputs_desc od"

definition GetAllOutputsDescPtr :: "'m ge_op_desc \<Rightarrow> nat list" where
  "GetAllOutputsDescPtr od = [0..<length (outputs_desc od)]"

definition GetOutputsSize :: "'m ge_op_desc \<Rightarrow> nat" where
  "GetOutputsSize od = length (outputs_desc od)"

definition GetOutputNameByIndex :: "nat \<Rightarrow> 'm ge_op_desc \<Rightarrow> string" where
  "GetOutputNameByIndex index od = name_at (output_name_idx od) index"

definition GetOutputIndexByName :: "string \<Rightarrow> 'm ge_op_desc \<Rightarrow> int" where
  "GetOutputIndexByName name od =
     (case map_of (output_name_idx od) name of None \<Rightarrow> - 1 | Some i \<Rightarrow> int i)"

definition UpdateOutputName :: "name_idx \<Rightarrow> 'm ge_op_desc \<Rightarrow> 'm ge_op_desc \<times> bool" where
  "UpdateOutputName idx od =
     (let output_map_size = length (outputs_desc od)
      in if output_map_size < length idx then
           (let idx = filter (\<lambda>(n, i). i < output_map_size) idx
            in if length idx = output_map_size then (od\<lparr>output_name_idx := idx\<rparr>, True) else (od, False))
         else if output_map_size = length idx then (od\<lparr>output_name_idx := idx\<rparr>, True)
         else (od, False))"

definition RestoreOutputNameIdx :: "string \<Rightarrow> nat \<Rightarrow> 'm ge_op_desc \<Rightarrow> 'm ge_op_desc \<times> graphStatus" where
  "RestoreOutputNameIdx name index od =
     (od\<lparr>output_name_idx := map_emplace name index (output_name_idx od)\<rparr>, GRAPH_SUCCESS)"

section \<open>Formats\<close>

text \<open>The first format of a list that is not ND, or \<open>f\<close>.\<close>

fun first_non_nd :: "Format list \<Rightarrow> Format \<Rightarrow> Format" where
  "first_non_nd [] f = f"
| "first_non_nd (origin_format # fs) f = (if origin_format \<noteq> FORMAT_ND then origin_format else first_non_nd fs f)"

definition refresh_format :: "Format \<Rightarrow> 'm ge_tensor_desc \<Rightarrow> 'm ge_tensor_desc" where
  "refresh_format f td =
     (if GetOriginFormat td = FORMAT_ND then TensorDesc_SetFormat f (SetOriginFormat f td) else td)"

definition DefaultInferFormat :: "'m ge_op_desc \<Rightarrow> 'm ge_op_desc \<times> graphStatus" where
  "DefaultInferFormat od =
     (let input_formats = map (\<lambda>i. GetOriginFormat (inputs_desc od ! i)) (GetAllInputsDescPtr od);
          f = first_non_nd input_formats FORMAT_ND;
          f = first_non_nd (map GetOriginFormat (outputs_desc od)) f
      in (od\<lparr>inputs_desc :=
               map (\<lambda>td. if TensorDesc_IsValid td = GRAPH_SUCCESS then refresh_format f td else td) (inputs_desc od),
             outputs_desc := map (refresh_format f) (outputs_desc od)\<rparr>, GRAPH_SUCCESS))"

section \<open>Verification\<close>

text \<open>
  \<^verbatim>\<open>CommonVerify\<close>; \<^term>\<open>None\<close> for a name whose position is beyond the inputs, which the code
  reads without a test.
\<close>

fun verify_inputs :: "name_idx \<Rightarrow> 'm ge_tensor_desc list \<Rightarrow> graphStatus option" where
  "verify_inputs [] descs = Some GRAPH_SUCCESS"
| "verify_inputs ((iname, i) # idx) descs =
     (if length descs \<le> i then None
      else if list_ex (\<lambda>dim. sint dim < - 2) (GetDims (GetShape (descs ! i))) then Some GRAPH_FAILED
      else verify_inputs idx descs)"

definition CommonVerify :: "'m ge_op_desc \<Rightarrow> graphStatus option" where
  "CommonVerify od =
     (case verify_inputs (input_name_idx od) (inputs_desc od) of
        None \<Rightarrow> None
      | Some GRAPH_SUCCESS \<Rightarrow>
          Some (if list_ex (\<lambda>n. map_of (attr_map od) n = None) (requiredAttrs od) then GRAPH_FAILED
                else GRAPH_SUCCESS)
      | Some st \<Rightarrow> Some st)"

section \<open>Comparison\<close>

text \<open>\<^verbatim>\<open>ToString\<close> of repeated fields: of strings, and of numbers or booleans.\<close>

definition list_ToString :: "string list \<Rightarrow> string" where
  "list_ToString items =
     (let ss = ''['' @ concat (map (\<lambda>x. x @ '', '') items)
      in (if length ss < 2 then ss else take (length ss - 2) ss) @ '']'')"

definition bools_ToString :: "bool list \<Rightarrow> string" where
  "bools_ToString bs = list_ToString (map (\<lambda>b. if b then ''1'' else ''0'') bs)"

definition OpDescMembersAreEqual :: "'m ge_op_desc \<Rightarrow> 'm ge_op_desc \<Rightarrow> bool" where
  "OpDescMembersAreEqual od r \<longleftrightarrow>
     input_name_idx od = input_name_idx r \<and> output_name_idx od = output_name_idx r \<and>
     optional_input_names od = optional_input_names r \<and> engine_name od = engine_name r \<and>
     op_kernel_lib_name od = op_kernel_lib_name r"

definition OpDescAttrsAreEqual :: "'m ge_op_desc \<Rightarrow> 'm ge_op_desc \<Rightarrow> bool" where
  "OpDescAttrsAreEqual od r \<longleftrightarrow>
     op_name od = op_name r \<and> op_type od = op_type r \<and>
     list_ToString (op_input od) = list_ToString (op_input r) \<and>
     op_has_out_attr od = op_has_out_attr r \<and> op_stream_id od = op_stream_id r \<and>
     list_ToString (op_input_name od) = list_ToString (op_input_name r) \<and>
     list_ToString (op_src_name od) = list_ToString (op_src_name r) \<and>
     list_ToString (op_dst_name od) = list_ToString (op_dst_name r) \<and>
     dims_ToString (op_src_index od) = dims_ToString (op_src_index r) \<and>
     dims_ToString (op_dst_index od) = dims_ToString (op_dst_index r) \<and>
     dims_ToString (op_input_i od) = dims_ToString (op_input_i r) \<and>
     dims_ToString (op_output_i od) = dims_ToString (op_output_i r) \<and>
     dims_ToString (op_workspace od) = dims_ToString (op_workspace r) \<and>
     dims_ToString (op_workspace_bytes od) = dims_ToString (op_workspace_bytes r) \<and>
     bools_ToString (op_is_input_const od) = bools_ToString (op_is_input_const r)"

definition OpDescGenTensorDescsAreEqual :: "'m ge_op_desc \<Rightarrow> 'm ge_op_desc \<Rightarrow> bool" where
  "OpDescGenTensorDescsAreEqual od r \<longleftrightarrow>
     length (inputs_desc od) = length (inputs_desc r) \<and> length (outputs_desc od) = length (outputs_desc r) \<and>
     list_all (\<lambda>i. GeTensorDescAttrsAreEqual (GetInputDesc_at i od) (GetInputDesc_at i r)) [0..<length (inputs_desc od)] \<and>
     list_all (\<lambda>i. GeTensorDescAttrsAreEqual (GetOutputDesc_at i od) (GetOutputDesc_at i r)) [0..<length (outputs_desc od)]"

definition OpDesc_equal :: "'m ge_op_desc \<Rightarrow> 'm ge_op_desc \<Rightarrow> bool" where
  "OpDesc_equal od r \<longleftrightarrow>
     OpDescAttrsAreEqual od r \<and> OpDescMembersAreEqual od r \<and> OpDescGenTensorDescsAreEqual od r"

section \<open>Fields of the message\<close>

definition OpDesc_SetId :: "64 word \<Rightarrow> 'm ge_op_desc \<Rightarrow> 'm ge_op_desc" where "OpDesc_SetId i od = od\<lparr>op_id := i\<rparr>"
definition OpDesc_GetId :: "'m ge_op_desc \<Rightarrow> 64 word" where "OpDesc_GetId od = op_id od"
definition SetStreamId :: "64 word \<Rightarrow> 'm ge_op_desc \<Rightarrow> 'm ge_op_desc" where "SetStreamId stream_id od = od\<lparr>op_stream_id := stream_id\<rparr>"
definition GetStreamId :: "'m ge_op_desc \<Rightarrow> 64 word" where "GetStreamId od = op_stream_id od"
definition SetInputName :: "string list \<Rightarrow> 'm ge_op_desc \<Rightarrow> 'm ge_op_desc" where "SetInputName v od = od\<lparr>op_input_name := v\<rparr>"
definition GetInputName :: "'m ge_op_desc \<Rightarrow> string list" where "GetInputName od = op_input_name od"
definition SetSrcName :: "string list \<Rightarrow> 'm ge_op_desc \<Rightarrow> 'm ge_op_desc" where "SetSrcName v od = od\<lparr>op_src_name := v\<rparr>"
definition GetSrcName :: "'m ge_op_desc \<Rightarrow> string list" where "GetSrcName od = op_src_name od"
definition SetSrcIndex :: "64 word list \<Rightarrow> 'm ge_op_desc \<Rightarrow> 'm ge_op_desc" where "SetSrcIndex v od = od\<lparr>op_src_index := v\<rparr>"
definition GetSrcIndex :: "'m ge_op_desc \<Rightarrow> 64 word list" where "GetSrcIndex od = op_src_index od"
definition SetInputOffset :: "64 word list \<Rightarrow> 'm ge_op_desc \<Rightarrow> 'm ge_op_desc" where "SetInputOffset v od = od\<lparr>op_input_i := v\<rparr>"
definition GetInputOffset :: "'m ge_op_desc \<Rightarrow> 64 word list" where "GetInputOffset od = op_input_i od"
definition SetOutputOffset :: "64 word list \<Rightarrow> 'm ge_op_desc \<Rightarrow> 'm ge_op_desc" where "SetOutputOffset v od = od\<lparr>op_output_i := v\<rparr>"
definition GetOutputOffset :: "'m ge_op_desc \<Rightarrow> 64 word list" where "GetOutputOffset od = op_output_i od"
definition SetDstName :: "string list \<Rightarrow> 'm ge_op_desc \<Rightarrow> 'm ge_op_desc" where "SetDstName v od = od\<lparr>op_dst_name := v\<rparr>"
definition GetDstName :: "'m ge_op_desc \<Rightarrow> string list" where "GetDstName od = op_dst_name od"
definition SetDstIndex :: "64 word list \<Rightarrow> 'm ge_op_desc \<Rightarrow> 'm ge_op_desc" where "SetDstIndex v od = od\<lparr>op_dst_index := v\<rparr>"
definition GetDstIndex :: "'m ge_op_desc \<Rightarrow> 64 word list" where "GetDstIndex od = op_dst_index od"
definition SetWorkspace :: "64 word list \<Rightarrow> 'm ge_op_desc \<Rightarrow> 'm ge_op_desc" where "SetWorkspace v od = od\<lparr>op_workspace := v\<rparr>"
definition GetWorkspace :: "'m ge_op_desc \<Rightarrow> 64 word list" where "GetWorkspace od = op_workspace od"
definition SetWorkspaceBytes :: "64 word list \<Rightarrow> 'm ge_op_desc \<Rightarrow> 'm ge_op_desc" where "SetWorkspaceBytes v od = od\<lparr>op_workspace_bytes := v\<rparr>"
definition GetWorkspaceBytes :: "'m ge_op_desc \<Rightarrow> 64 word list" where "GetWorkspaceBytes od = op_workspace_bytes od"

text \<open>This field is kept as an attribute too.\<close>

definition SetIsInputConst :: "bool list \<Rightarrow> 'm ge_op_desc \<Rightarrow> 'm ge_op_desc" where
  "SetIsInputConst v od = fst (SetListBool ''is_input_const'' v (od\<lparr>op_is_input_const := v\<rparr>))"

definition GetIsInputConst :: "'m ge_op_desc \<Rightarrow> bool list" where
  "GetIsInputConst od = op_is_input_const od"

definition SetOpInferDepends :: "string list \<Rightarrow> 'm ge_op_desc \<Rightarrow> 'm ge_op_desc" where
  "SetOpInferDepends depend_names od = fst (SetListStr ''_op_infer_depends'' depend_names od)"

definition GetOpInferDepends :: "'m ge_op_desc \<Rightarrow> string list" where
  "GetOpInferDepends od = fst (GetListStr od ''_op_infer_depends'' [])"

definition SetOpKernelLibName :: "string \<Rightarrow> 'm ge_op_desc \<Rightarrow> 'm ge_op_desc" where
  "SetOpKernelLibName name od = fst (SetStr ''_ge_attr_op_kernel_lib_name'' name (od\<lparr>op_kernel_lib_name := name\<rparr>))"

definition GetOpKernelLibName :: "'m ge_op_desc \<Rightarrow> string" where
  "GetOpKernelLibName od =
     (if op_kernel_lib_name od \<noteq> [] then op_kernel_lib_name od
      else fst (GetStr od ''_ge_attr_op_kernel_lib_name'' []))"

definition SetOpEngineName :: "string \<Rightarrow> 'm ge_op_desc \<Rightarrow> 'm ge_op_desc" where
  "SetOpEngineName name od = od\<lparr>engine_name := name\<rparr>"

definition GetOpEngineName :: "'m ge_op_desc \<Rightarrow> string" where
  "GetOpEngineName od = engine_name od"

section \<open>Subgraphs\<close>

definition AddSubgraphName :: "string \<Rightarrow> 'm ge_op_desc \<Rightarrow> 'm ge_op_desc \<times> graphStatus" where
  "AddSubgraphName name od =
     (if map_of (subgraph_names_to_index od) name \<noteq> None then (od, GRAPH_FAILED)
      else
        (let n = length (subgraph_names_to_index od)
         in (od\<lparr>subgraph_names_to_index := map_put name n (subgraph_names_to_index od),
                subgraph_instance_names := take (n + 1) (subgraph_instance_names od) @
                  replicate (n + 1 - length (subgraph_instance_names od)) []\<rparr>, GRAPH_SUCCESS)))"

definition GetSubgraphInstanceName :: "nat \<Rightarrow> 'm ge_op_desc \<Rightarrow> string" where
  "GetSubgraphInstanceName index od =
     (if length (subgraph_instance_names od) \<le> index then [] else subgraph_instance_names od ! index)"

definition SetSubgraphInstanceName :: "nat \<Rightarrow> string \<Rightarrow> 'm ge_op_desc \<Rightarrow> 'm ge_op_desc \<times> graphStatus" where
  "SetSubgraphInstanceName index name od =
     (if length (subgraph_instance_names od) \<le> index then (od, GRAPH_PARAM_INVALID)
      else (od\<lparr>subgraph_instance_names := (subgraph_instance_names od)[index := name]\<rparr>, GRAPH_SUCCESS))"

definition RemoveSubgraphInstanceName :: "string \<Rightarrow> 'm ge_op_desc \<Rightarrow> 'm ge_op_desc" where
  "RemoveSubgraphInstanceName name od =
     od\<lparr>subgraph_instance_names := replace1 name [] (subgraph_instance_names od)\<rparr>"

definition RegisterSubgraphIrName :: "string \<Rightarrow> SubgraphType \<Rightarrow> 'm ge_op_desc \<Rightarrow> 'm ge_op_desc" where
  "RegisterSubgraphIrName name type od =
     od\<lparr>subgraph_ir_names_to_type := map_put name type (subgraph_ir_names_to_type od)\<rparr>"

definition GetSubgraphTypeByIrName :: "string \<Rightarrow> 'm ge_op_desc \<Rightarrow> SubgraphType" where
  "GetSubgraphTypeByIrName name od =
     (case map_of (subgraph_ir_names_to_type od) name of None \<Rightarrow> kSubgraphTypeEnd | Some t \<Rightarrow> t)"

text \<open>The name of the first instance with this name whose position has a name.\<close>

fun subgraph_name_of :: "nat list \<Rightarrow> string \<Rightarrow> 'm ge_op_desc \<Rightarrow> string option" where
  "subgraph_name_of [] instance_name od = None"
| "subgraph_name_of (i # is) instance_name od =
     (if subgraph_instance_names od ! i \<noteq> instance_name then subgraph_name_of is instance_name od
      else case find (\<lambda>e. snd e = i) (subgraph_names_to_index od) of
             Some (n, _) \<Rightarrow> Some n
           | None \<Rightarrow> subgraph_name_of is instance_name od)"

definition GetSubgraphNameByInstanceName :: "string \<Rightarrow> 'm ge_op_desc \<Rightarrow> string \<Rightarrow> string \<times> graphStatus" where
  "GetSubgraphNameByInstanceName instance_name od subgraph_name =
     (case subgraph_name_of [0..<length (subgraph_instance_names od)] instance_name od of
        Some n \<Rightarrow> (n, GRAPH_SUCCESS) | None \<Rightarrow> (subgraph_name, GRAPH_PARAM_INVALID))"

end
