(* ===== verification/Attr_Properties.thy ===== *)
theory Attr_Properties
  imports AttrUtils
begin

text \<open>
  What the attribute setters and getters promise: the contract of one kind (the locale
  \<open>attr_kind\<close>) and its providers, the types that attributes keep, the range of the narrowing
  getters, and the independence of the textual form from the order of the map.
\<close>

section \<open>The contract of a kind of attribute\<close>

locale attr_kind =
  fixes put :: "'v \<Rightarrow> 'm attr_def \<Rightarrow> 'm attr_def \<times> bool"
    and get :: "'m attr_def \<Rightarrow> 'v \<Rightarrow> 'v \<times> bool"
  assumes get_put: "put v d = (d', True) \<Longrightarrow> get d' w = (v, True)"
    and put_put: "put v d = (d', True) \<Longrightarrow> snd (put u d')"
    and put_fails: "put v d = (d', False) \<Longrightarrow> d' = d"
    and put_empty: "snd (put v Value_not_set)"
begin

lemma attr_get_set:
  "attr_set (put v) name h = (h', True) \<Longrightarrow> attr_get get name h' w = (v, True)"
  by (auto simp: attr_set_def attr_get_def update_conv' split: prod.splits dest: get_put)

lemma attr_set_again: "attr_set (put v) name h = (h', True) \<Longrightarrow> snd (attr_set (put u) name h')"
  by (auto simp: attr_set_def MutableAttrMapItem_def update_conv' split: prod.splits dest: put_put [where u = u])

lemma attr_set_fresh: "map_of (attr_map h) name = None \<Longrightarrow> snd (attr_set (put v) name h)"
  using put_empty [of v] by (auto simp: attr_set_def MutableAttrMapItem_def split: prod.splits)

lemma attr_set_fails:
  "attr_set (put v) name h = (h', False) \<Longrightarrow> MutableAttrMapItem n h' = MutableAttrMapItem n h"
  by (auto simp: attr_set_def MutableAttrMapItem_def update_conv' split: prod.splits option.splits if_splits dest: put_fails)

end

lemma attr_set_other:
  "attr_set f name h = (h', ok) \<Longrightarrow> other \<noteq> name \<Longrightarrow> attr_get g other h' w = attr_get g other h w"
  by (auto simp: attr_set_def attr_get_def update_conv' split: prod.splits)

named_theorems attr_checks

lemmas [attr_checks] = set_one_def get_one_def set_list_def get_list_def SetValueCheckType_def
  GetValueCheckType_def SetValueCheckAndSetListType_def GetValueCheckListType_def mutable_list_def
  empty_list_value_def Let_def

lemma ucast_64_32 [simp]: "ucast (ucast (x :: 32 word) :: 64 word) = x"
  by (simp add: ucast_up_ucast_id is_up)

lemma ucast_scast_64_32 [simp]: "ucast (scast (x :: 32 word) :: 64 word) = x"
  by (rule bit_word_eqI) (auto simp: bit_unsigned_iff bit_signed_iff min_def less_Suc_eq_le [of _ 31, simplified] dest: le_antisym)

lemma map_ucast_64_32 [simp]: "map (ucast \<circ> (ucast :: 32 word \<Rightarrow> 64 word)) v = v"
  by (induction v) simp_all

interpretation int_attr: attr_kind SetValue_int GetValue_int
  by unfold_locales (auto simp: SetValue_int_def GetValue_int_def attr_checks split: if_splits)

interpretation float_attr: attr_kind SetValue_float GetValue_float
  by unfold_locales (auto simp: SetValue_float_def GetValue_float_def attr_checks split: if_splits)

interpretation str_attr: attr_kind SetValue_str GetValue_str
  by unfold_locales (auto simp: SetValue_str_def GetValue_str_def attr_checks split: if_splits)

interpretation bool_attr: attr_kind SetValue_bool GetValue_bool
  by unfold_locales (auto simp: SetValue_bool_def GetValue_bool_def attr_checks split: if_splits)

interpretation bytes_attr: attr_kind SetValue_bytes GetValue_bytes
  by unfold_locales (auto simp: SetValue_bytes_def GetValue_bytes_def attr_checks split: if_splits)

interpretation data_type_attr: attr_kind SetValue_data_type GetValue_data_type
  by unfold_locales (auto simp: SetValue_data_type_def GetValue_data_type_def attr_checks split: if_splits)

interpretation list_list_int_attr: attr_kind SetValue_list_list_int GetValue_list_list_int
  by unfold_locales (auto simp: SetValue_list_list_int_def GetValue_list_list_int_def attr_checks split: if_splits)

lemma value_case_list_iff: "value_case_of d = kList \<longleftrightarrow> (\<exists>l. d = AttrList l)"
  by (cases d) auto

lemma value_case_not_set_iff: "value_case_of d = VALUE_NOT_SET \<longleftrightarrow> d = Value_not_set"
  by (cases d) auto

text \<open>
  The laws for a kind of list: its items can be replaced and read back, and its type is one of
  the list types.
\<close>

locale list_kind =
  fixes kind :: list_value_type
    and items :: "'m list_value \<Rightarrow> 'v list"
    and fill :: "'v list \<Rightarrow> 'm list_value \<Rightarrow> 'm list_value"
  assumes items_fill: "items (fill v l) = v"
    and fill_type: "lv_val_type (fill v l) = lv_val_type l"
    and proper: "kind \<noteq> VT_LIST_NONE"

sublocale list_kind \<subseteq> attr_kind "\<lambda>v. set_list kind (fill v)" "get_list kind items"
proof (unfold_locales, goal_cases)
  case (1 v d d' w)
  then show ?case
    using proper by (cases d) (auto simp: attr_checks items_fill fill_type split: if_splits)
next
  case (2 v d d' u)
  then show ?case
    using proper by (cases d) (auto simp: attr_checks items_fill fill_type split: if_splits)
next
  case (3 v d d')
  then show ?case by (cases d) (auto simp: attr_checks split: if_splits)
next
  case (4 v)
  show ?case by (simp add: attr_checks)
qed

interpretation list_int: list_kind VT_LIST_INT lv_i "\<lambda>v. lv_i_update (\<lambda>_. v)"
  by unfold_locales simp_all

interpretation list_float: list_kind VT_LIST_FLOAT lv_f "\<lambda>v. lv_f_update (\<lambda>_. v)"
  by unfold_locales simp_all

interpretation list_str: list_kind VT_LIST_STRING lv_s "\<lambda>v. lv_s_update (\<lambda>_. v)"
  by unfold_locales simp_all

interpretation list_bool: list_kind VT_LIST_BOOL lv_b "\<lambda>v. lv_b_update (\<lambda>_. v)"
  by unfold_locales simp_all

interpretation list_bytes: list_kind VT_LIST_BYTES lv_bt "\<lambda>v. lv_bt_update (\<lambda>_. v)"
  by unfold_locales simp_all

lemmas attr_utils_defs = SetInt_def GetInt_def SetFloat_def GetFloat_def SetBool_def GetBool_def SetStr_def
  GetStr_def SetBytes_def GetBytes_def SetAttrDataType_def GetAttrDataType_def SetListListInt_def
  GetListListInt_def SetListInt_def GetListInt_def SetListFloat_def GetListFloat_def SetListStr_def
  GetListStr_def SetListBool_def GetListBool_def SetListBytes_def GetListBytes_def

lemmas list_value_defs = SetValue_list_int_def GetValue_list_int_def SetValue_list_float_def
  GetValue_list_float_def SetValue_list_str_def GetValue_list_str_def SetValue_list_bool_def
  GetValue_list_bool_def SetValue_list_bytes_def GetValue_list_bytes_def

text \<open>Every setter changes its own attribute only.\<close>

lemmas attr_call_defs = attr_utils_defs SetTensorDesc_def SetTensor_def SetNamedAttrs_def SetGraph_def
  SetZeroCopyBytes_def SetListInt_int32_def SetListInt_uint32_def SetListDataType_def SetListTensorDesc_def
  SetListTensor_def SetListNamedAttrs_def SetListGraph_def SetZeroCopyListBytes_def

lemma attr_set_frame: "m \<noteq> n \<Longrightarrow> attr_get g m (fst (attr_set f n h)) w = attr_get g m h w"
  by (rule attr_set_other [OF surjective_pairing])

lemma SetAttr_frame: "m \<noteq> n \<Longrightarrow> attr_get g m (fst (SetAttr n d h)) w = attr_get g m h w"
  by (simp add: SetAttr_def attr_get_def update_conv')

lemma data_types_append:
  "SetListDataType n ds h = (h', True) \<Longrightarrow> GetListDataType h' n w = (w @ ds, True)"
  by (auto simp: SetListDataType_def GetListDataType_def SetValue_list_data_type_def GetValue_list_data_type_def
      get_list_append_def attr_set_def attr_get_def update_conv' attr_checks split: prod.splits if_splits)

text \<open> C25: An attribute that a setter accepted is what the getter of the same kind returns,
  whatever the out parameter held, for integers, floats, booleans, strings, bytes, data types,
  lists of integers, floats, strings, booleans and bytes, and lists of lists of integers. A list of
  data types is what the getter appends to the out parameter, which it does not clear. Under every
  other name an attribute reads as before, through any getter, whichever setter was called and
  whether or not it succeeded.
\<close>

theorem attributes_round_trip:
  "(SetInt n i h = (h', True) \<longrightarrow> GetInt h' n i' = (i, True)) \<and>
   (SetFloat n f h = (h', True) \<longrightarrow> GetFloat h' n f' = (f, True)) \<and>
   (SetBool n b h = (h', True) \<longrightarrow> GetBool h' n b' = (b, True)) \<and>
   (SetStr n s h = (h', True) \<longrightarrow> GetStr h' n s' = (s, True)) \<and>
   (SetBytes n s h = (h', True) \<longrightarrow> GetBytes h' n s' = (s, True)) \<and>
   (SetAttrDataType n f h = (h', True) \<longrightarrow> GetAttrDataType h' n f' = (f, True)) \<and>
   (SetListListInt n iss h = (h', True) \<longrightarrow> GetListListInt h' n iss' = (iss, True)) \<and>
   (SetListInt n js h = (h', True) \<longrightarrow> GetListInt h' n js' = (js, True)) \<and>
   (SetListFloat n fs h = (h', True) \<longrightarrow> GetListFloat h' n fs' = (fs, True)) \<and>
   (SetListStr n ss h = (h', True) \<longrightarrow> GetListStr h' n ss' = (ss, True)) \<and>
   (SetListBool n bs h = (h', True) \<longrightarrow> GetListBool h' n bs' = (bs, True)) \<and>
   (SetListBytes n ss h = (h', True) \<longrightarrow> GetListBytes h' n ss' = (ss, True)) \<and>
   (SetListDataType n ds h = (h', True) \<longrightarrow> GetListDataType h' n ds' = (ds' @ ds, True)) \<and>
   (m \<noteq> n \<longrightarrow>
     (\<forall>r \<in> {SetInt n i h, SetFloat n f h, SetBool n b h,
      SetStr n s h, SetBytes n s h, SetAttrDataType n f h,
      SetListListInt n iss h, SetTensorDesc n msg h, SetTensor n msg h,
      SetNamedAttrs n msg h, SetGraph ser n gr h, SetZeroCopyBytes n buf h,
      SetListInt n js h, SetListInt_int32 n fs h, SetListInt_uint32 n fs h,
      SetListFloat n fs h, SetListBool n bs h, SetListStr n ss h,
      SetListBytes n ss h, SetListDataType n fs h, SetListTensorDesc n msgs h,
      SetListTensor n msgs h, SetListNamedAttrs n msgs h, SetListGraph ser n grs h,
      SetZeroCopyListBytes n bufs h, SetListOpDesc os n ops h}.
        attr_get g m (fst r) w = attr_get g m h w) \<and>
     attr_get g m (fst (SetAttr n d h)) w = attr_get g m h w)"
  by (intro conjI impI)
    ((simp add: attr_call_defs SetListOpDesc_def attr_set_frame SetAttr_frame data_types_append; fail |
      (unfold attr_utils_defs list_value_defs)?,
      erule int_attr.attr_get_set float_attr.attr_get_set bool_attr.attr_get_set str_attr.attr_get_set
        bytes_attr.attr_get_set data_type_attr.attr_get_set list_list_int_attr.attr_get_set
        list_int.attr_get_set list_float.attr_get_set list_str.attr_get_set list_bool.attr_get_set
        list_bytes.attr_get_set)+)

definition demo_holder :: "nat attr_holder" where
  "demo_holder = \<lparr>attr_map = [(''n'', AttrI 5), (''td'', AttrTd 9)], requiredAttrs = [''r'']\<rparr>"

lemma attributes_round_trip_witness:
  "GetInt (fst (SetInt ''n'' 7 demo_holder)) ''n'' 0 = (7, True) \<and>
   GetListInt (fst (SetListInt ''l'' [] demo_holder)) ''l'' [1, 2] = ([], True)"
proof -
  have a: "SetInt ''n'' 7 demo_holder = (fst (SetInt ''n'' 7 demo_holder), True)"
    and b: "SetListInt ''l'' [] demo_holder = (fst (SetListInt ''l'' [] demo_holder), True)"
    by (simp_all add: demo_holder_def attr_utils_defs attr_set_def MutableAttrMapItem_def SetValue_int_def
        SetValue_list_int_def attr_checks)
  then show ?thesis
    by (intro conjI attributes_round_trip [THEN conjunct1, THEN mp]
        attributes_round_trip [THEN conjunct2, THEN conjunct2, THEN conjunct2, THEN conjunct2, THEN conjunct2,
          THEN conjunct2, THEN conjunct2, THEN conjunct1, THEN mp])
qed

section \<open>Attributes keep their kind\<close>

text \<open>
  One call of a setter with the status it returns. The kind of a value is the kind of the
  message and, for a list that has one, its list type. Graphs stand for themselves in a step,
  their serialisation is any function.
\<close>

definition list_type_of :: "'m attr_def \<Rightarrow> list_value_type" where
  "list_type_of d = (case d of AttrList l \<Rightarrow> lv_val_type l | _ \<Rightarrow> VT_LIST_NONE)"

definition same_kind :: "'m attr_def \<Rightarrow> 'm attr_def \<Rightarrow> bool" where
  "same_kind d d' \<longleftrightarrow> value_case_of d' = value_case_of d \<and>
     (list_type_of d \<noteq> VT_LIST_NONE \<longrightarrow> list_type_of d' = list_type_of d)"

lemma same_kind_refl [simp]: "same_kind d d"
  by (simp add: same_kind_def)

lemma same_kind_list [simp]:
  "same_kind (AttrList l) (AttrList l') \<longleftrightarrow> lv_val_type l = VT_LIST_NONE \<or> lv_val_type l' = lv_val_type l"
  by (auto simp: same_kind_def list_type_of_def)

definition typed_put :: "('m attr_def \<Rightarrow> 'm attr_def \<times> bool) \<Rightarrow> bool" where
  "typed_put f \<longleftrightarrow>
     (\<forall>d. d \<noteq> Value_not_set \<longrightarrow>
        same_kind d (fst (f d)) \<or> (fst (f d) = Value_not_set \<and> \<not> snd (f d)))"

inductive holder_step :: "'m attr_holder \<Rightarrow> bool \<Rightarrow> 'm attr_holder \<Rightarrow> bool" where
  SetInt: "holder_step h (snd (SetInt n i h)) (fst (SetInt n i h))"
| SetFloat: "holder_step h (snd (SetFloat n f h)) (fst (SetFloat n f h))"
| SetBool: "holder_step h (snd (SetBool n b h)) (fst (SetBool n b h))"
| SetStr: "holder_step h (snd (SetStr n s h)) (fst (SetStr n s h))"
| SetBytes: "holder_step h (snd (SetBytes n s h)) (fst (SetBytes n s h))"
| SetDataType: "holder_step h (snd (SetAttrDataType n f h)) (fst (SetAttrDataType n f h))"
| SetListListInt: "holder_step h (snd (SetListListInt n iss h)) (fst (SetListListInt n iss h))"
| SetTensorDesc: "holder_step h (snd (SetTensorDesc n m h)) (fst (SetTensorDesc n m h))"
| SetTensor: "holder_step h (snd (SetTensor n m h)) (fst (SetTensor n m h))"
| SetNamedAttrs: "holder_step h (snd (SetNamedAttrs n m h)) (fst (SetNamedAttrs n m h))"
| SetGraph: "holder_step h (snd (SetGraph (serialize :: 'm \<Rightarrow> 'm option \<Rightarrow> 'm option) n g h)) (fst (SetGraph (serialize :: 'm \<Rightarrow> 'm option \<Rightarrow> 'm option) n g h))"
| SetZeroCopyBytes: "holder_step h (snd (SetZeroCopyBytes n buffer h)) (fst (SetZeroCopyBytes n buffer h))"
| SetListInt: "holder_step h (snd (SetListInt n js h)) (fst (SetListInt n js h))"
| SetListInt_int32: "holder_step h (snd (SetListInt_int32 n fs h)) (fst (SetListInt_int32 n fs h))"
| SetListInt_uint32: "holder_step h (snd (SetListInt_uint32 n fs h)) (fst (SetListInt_uint32 n fs h))"
| SetListFloat: "holder_step h (snd (SetListFloat n fs h)) (fst (SetListFloat n fs h))"
| SetListBool: "holder_step h (snd (SetListBool n bs h)) (fst (SetListBool n bs h))"
| SetListStr: "holder_step h (snd (SetListStr n ss h)) (fst (SetListStr n ss h))"
| SetListBytes: "holder_step h (snd (SetListBytes n ss h)) (fst (SetListBytes n ss h))"
| SetListDataType: "holder_step h (snd (SetListDataType n fs h)) (fst (SetListDataType n fs h))"
| SetListTensorDesc: "holder_step h (snd (SetListTensorDesc n ms h)) (fst (SetListTensorDesc n ms h))"
| SetListTensor: "holder_step h (snd (SetListTensor n ms h)) (fst (SetListTensor n ms h))"
| SetListNamedAttrs: "holder_step h (snd (SetListNamedAttrs n ms h)) (fst (SetListNamedAttrs n ms h))"
| SetListGraph: "holder_step h (snd (SetListGraph (serialize :: 'm \<Rightarrow> 'm option \<Rightarrow> 'm option) n gs h)) (fst (SetListGraph (serialize :: 'm \<Rightarrow> 'm option \<Rightarrow> 'm option) n gs h))"
| SetZeroCopyListBytes: "holder_step h (snd (SetZeroCopyListBytes n buffers h)) (fst (SetZeroCopyListBytes n buffers h))"
| AddRequiredAttr: "holder_step h (snd (AddRequiredAttr n h) = GRAPH_SUCCESS) (fst (AddRequiredAttr n h))"
| SetListOpDesc: "holder_step h (snd (SetListOpDesc (os :: 'm \<Rightarrow> string) n ops h)) (fst (SetListOpDesc os n ops h))"

lemma same_kind_one: "value_case_of d = value_case_of v \<Longrightarrow> value_case_of v \<noteq> kList \<Longrightarrow> same_kind d v"
  by (cases d; cases v) (simp_all add: same_kind_def list_type_of_def)

lemma set_one_typed: "value_case_of v \<noteq> kList \<Longrightarrow> typed_put (set_one v)"
  by (auto simp: typed_put_def set_one_def SetValueCheckType_def value_case_not_set_iff same_kind_one)

text \<open>The check of a list leaves the value alone, or makes it a list of the type asked for.\<close>

lemma list_check:
  assumes "SetValueCheckAndSetListType d kind = (d', ok)" "d \<noteq> Value_not_set"
  shows "same_kind d d'" "ok \<Longrightarrow> \<exists>l. d' = AttrList l \<and> (\<forall>l'. lv_val_type l' = lv_val_type l \<longrightarrow> same_kind d (AttrList l'))"
proof -
  show "same_kind d d'"
    using assms by (cases d) (auto simp: SetValueCheckAndSetListType_def Let_def mutable_list_def split: if_splits)
  show "ok \<Longrightarrow> \<exists>l. d' = AttrList l \<and> (\<forall>l'. lv_val_type l' = lv_val_type l \<longrightarrow> same_kind d (AttrList l'))"
    using assms by (cases d) (auto simp: SetValueCheckAndSetListType_def Let_def mutable_list_def split: if_splits)
qed

lemma set_list_typed:
  "(\<And>l. lv_val_type (fill l) = lv_val_type l) \<Longrightarrow> typed_put (set_list kind fill)"
  unfolding typed_put_def set_list_def
  by (auto simp: mutable_list_def dest: list_check split: prod.split)

lemma set_message_typed:
  "(\<And>x. value_case_of (wrap x) \<noteq> kList) \<Longrightarrow> typed_put (set_message wrap v)"
  by (auto simp: typed_put_def set_message_def SetValueCheckType_def value_case_not_set_iff same_kind_one
      split: option.splits)

lemma set_message_list_typed:
  "(\<And>v l. lv_val_type (fill v l) = lv_val_type l) \<Longrightarrow> typed_put (set_message_list kind fill v)"
  unfolding typed_put_def set_message_list_def
  by (auto simp: mutable_list_def dest: list_check split: prod.split)

lemma SetValue_graph_typed: "typed_put (SetValue_graph serialize g)"
  by (auto simp: typed_put_def SetValue_graph_def SetValueCheckType_def value_case_not_set_iff same_kind_one
      split: option.splits)

lemma zero_copy_typed:
  "typed_put (\<lambda>d. if \<not> SetValueCheckType d kBt then (d, False)
                 else (case buffer of None \<Rightarrow> (d, False) | Some b \<Rightarrow> (AttrBt b, True)))"
  by (auto simp: typed_put_def SetValueCheckType_def value_case_not_set_iff same_kind_one split: option.splits)

lemma add_bytes_type: "lv_val_type (fst (add_bytes bs l)) = lv_val_type l"
  by (induction bs l rule: add_bytes.induct) simp_all

lemma zero_copy_list_typed:
  "typed_put (\<lambda>d. case SetValueCheckAndSetListType d VT_LIST_BYTES of (d, ok) \<Rightarrow>
                   if \<not> ok then (d, False)
                   else (case add_bytes buffers ((mutable_list d)\<lparr>lv_bt := []\<rparr>) of (l, ok) \<Rightarrow> (AttrList l, ok)))"
  unfolding typed_put_def
  by (auto simp: mutable_list_def add_bytes_type case_prod_unfold dest: list_check [OF surjective_pairing])

lemmas attr_typed = set_one_typed set_list_typed set_message_typed set_message_list_typed
  SetValue_graph_typed zero_copy_typed zero_copy_list_typed

lemmas attr_setter_defs = SetValue_int_def SetValue_float_def SetValue_bool_def SetValue_str_def SetValue_bytes_def
  SetValue_data_type_def SetValue_list_list_int_def SetValue_tensor_desc_def SetValue_tensor_def
  SetValue_named_attrs_def SetValue_list_int_def SetValue_list_int32_def SetValue_list_uint32_def
  SetValue_list_float_def SetValue_list_bool_def SetValue_list_str_def SetValue_list_bytes_def
  SetValue_list_data_type_def SetValue_list_tensor_desc_def SetValue_list_tensor_def
  SetValue_list_named_attrs_def SetValue_list_graph_def

definition names_ok :: "'m attr_holder \<Rightarrow> bool" where
  "names_ok h \<longleftrightarrow> distinct (map fst (attr_map h)) \<and> distinct (requiredAttrs h)"

definition keeps_kinds :: "'m attr_holder \<Rightarrow> bool \<Rightarrow> 'm attr_holder \<Rightarrow> bool" where
  "keeps_kinds h ok h' \<longleftrightarrow>
     (\<forall>n d. map_of (attr_map h) n = Some d \<longrightarrow> d \<noteq> Value_not_set \<longrightarrow>
        (\<exists>d'. map_of (attr_map h') n = Some d' \<and> (same_kind d d' \<or> (d' = Value_not_set \<and> \<not> ok))))"

lemma attr_set_step:
  assumes "typed_put f"
  shows "keeps_kinds h (snd (attr_set f n h)) (fst (attr_set f n h)) \<and>
    (names_ok h \<longrightarrow> names_ok (fst (attr_set f n h)))"
  using assms
  by (auto simp: keeps_kinds_def names_ok_def attr_set_def typed_put_def MutableAttrMapItem_def update_conv'
      distinct_update split: prod.splits option.splits)

lemma no_change_step [simp]: "keeps_kinds h ok h"
  by (auto simp: keeps_kinds_def)

lemma AddRequiredAttr_step:
  "keeps_kinds h ok (fst (AddRequiredAttr n h)) \<and> (names_ok h \<longrightarrow> names_ok (fst (AddRequiredAttr n h)))"
  by (auto simp: keeps_kinds_def names_ok_def AddRequiredAttr_def HasAttr_def split: if_splits)

lemma SetListOpDesc_step:
  "keeps_kinds h (snd (SetListOpDesc os n ops h)) (fst (SetListOpDesc os n ops h)) \<and>
    (names_ok h \<longrightarrow> names_ok (fst (SetListOpDesc os n ops h)))"
  using attr_set_step [OF zero_copy_list_typed [of "map (\<lambda>x. Some (os x)) ops"], of h n]
  by (simp add: SetListOpDesc_def SetZeroCopyListBytes_def)

lemma holder_step_kinds: "holder_step h ok h' \<Longrightarrow> keeps_kinds h ok h' \<and> (names_ok h \<longrightarrow> names_ok h')"
  by (induction rule: holder_step.induct)
    (unfold attr_call_defs attr_setter_defs,
      (rule attr_set_step attr_typed AddRequiredAttr_step SetListOpDesc_step | simp)+)

text \<open>\<^verbatim>\<open>SetAttr\<close> takes a whole value. It compares the kinds of the messages only.\<close>

lemma SetAttr_step:
  assumes "map_of (attr_map h) m = Some d" "d \<noteq> Value_not_set"
  shows "\<exists>d'. map_of (attr_map (fst (SetAttr n v h))) m = Some d' \<and> value_case_of d' = value_case_of d"
  using assms by (auto simp: SetAttr_def update_conv' value_case_not_set_iff split: option.splits)

lemma SetAttr_names: "names_ok h \<Longrightarrow> names_ok (fst (SetAttr n v h))"
  by (simp add: names_ok_def SetAttr_def distinct_update)

text \<open> C26: Attributes are typed. Whichever setter of \<^verbatim>\<open>AttrUtils\<close> is called, by name and
  kind, each attribute that has a value keeps the kind of value it has - a list that has a list type
  also keeps that, so a list of integers never becomes one of strings - or, only if the call
  reports a failure, is left without a value; none disappears, and the names of the attributes and
  of the required ones stay distinct. \<^verbatim>\<open>SetAttr\<close>, which takes a whole value, never clears one
  and keeps the kind of the message; it does not look at list types, and a list that has one may
  be replaced by a list of another.
\<close>

theorem attributes_keep_their_kind:
  assumes "holder_step h ok h'"
  shows "keeps_kinds h ok h' \<and> (names_ok h \<longrightarrow> names_ok h' \<and> names_ok (fst (SetAttr n v h))) \<and>
    (\<forall>m d. map_of (attr_map h) m = Some d \<longrightarrow> d \<noteq> Value_not_set \<longrightarrow>
       (\<exists>d'. map_of (attr_map (fst (SetAttr n v h))) m = Some d' \<and> value_case_of d' = value_case_of d))"
  using holder_step_kinds [OF assms] SetAttr_step SetAttr_names by blast

definition demo_lists :: "nat attr_holder" where
  "demo_lists = \<lparr>attr_map = [(''l'', AttrList (empty_list_value\<lparr>lv_i := [1], lv_val_type := VT_LIST_INT\<rparr>))],
     requiredAttrs = []\<rparr>"

lemma attributes_keep_their_kind_witness:
  "keeps_kinds demo_lists False (fst (SetListStr ''l'' [''x''] demo_lists)) \<and>
   names_ok (fst (SetListStr ''l'' [''x''] demo_lists)) \<and>
   GetListInt (fst (SetListStr ''l'' [''x''] demo_lists)) ''l'' [] = ([1], True)"
proof -
  have "names_ok demo_lists" "\<not> snd (SetListStr ''l'' [''x''] demo_lists)"
    "GetListInt (fst (SetListStr ''l'' [''x''] demo_lists)) ''l'' [] = ([1], True)"
    by (simp_all add: demo_lists_def names_ok_def attr_utils_defs list_value_defs attr_set_def attr_get_def
        MutableAttrMapItem_def attr_checks)
  then show ?thesis
    using attributes_keep_their_kind [OF holder_step.SetListStr [of demo_lists "''l''" "[''x'']"]] by simp
qed

text \<open>\<^verbatim>\<open>SetAttr\<close> does what the setter of string lists refuses.\<close>

lemma SetAttr_changes_list_type:
  "map_of (attr_map (fst (SetAttr ''l'' (AttrList (empty_list_value\<lparr>lv_s := [''x''], lv_val_type := VT_LIST_STRING\<rparr>))
     demo_lists))) ''l'' = Some (AttrList (empty_list_value\<lparr>lv_s := [''x''], lv_val_type := VT_LIST_STRING\<rparr>))"
  by (simp add: demo_lists_def SetAttr_def IsEmpty_def GetValueType_def attr_val_list_type_map_def attr_checks)

section \<open>Narrowing getters\<close>

lemma sint_narrow: "sint (i :: 64 word) \<le> INT32_MAX \<Longrightarrow> (sint (ucast i :: 32 word) = sint i) = (- INT32_MAX - 1 \<le> sint i)"
proof -
  assume le: "sint i \<le> INT32_MAX"
  have "sint (ucast i :: 32 word) = signed_take_bit 31 (uint i)"
    by (simp add: signed_ucast_eq)
  also have "\<dots> = signed_take_bit 31 (sint i)"
    by (simp add: sint_uint)
  finally show ?thesis
    using le by (simp add: signed_take_bit_int_eq_self_iff INT32_MAX_def)
qed

lemma uint_narrow: "sint (i :: 64 word) \<le> UINT32_MAX \<Longrightarrow> (uint (ucast i :: 32 word) = sint i) = (0 \<le> sint i)"
proof -
  assume le: "sint i \<le> UINT32_MAX"
  have "uint (ucast i :: 32 word) = take_bit 32 (uint i)"
    by (simp add: unsigned_ucast_eq)
  also have "\<dots> = take_bit 32 (sint i)"
    by (simp add: sint_uint take_bit_signed_take_bit)
  finally show ?thesis
    using le by (simp add: take_bit_int_eq_self_iff UINT32_MAX_def)
qed

text \<open> C27: The getters that narrow a stored integer succeed exactly on the stored values up to the
  maximum of the narrow type; they return the stored value exactly when it is not below the
  minimum of the narrow type, and otherwise succeed with a wrapped value. A stored \<open>int32\<close> or
  \<open>uint32\<close> list reads back as it was.
\<close>

theorem narrow_getters_range:
  "(snd (GetInt_int32 h n v) = (\<exists>i. GetInt h n 0 = (i, True) \<and> sint i \<le> INT32_MAX)) \<and>
   (snd (GetInt_uint32 h n v) = (\<exists>i. GetInt h n 0 = (i, True) \<and> sint i \<le> UINT32_MAX)) \<and>
   (GetInt h n 0 = (i, True) \<and> sint i \<le> INT32_MAX \<longrightarrow>
      (sint (fst (GetInt_int32 h n v)) = sint i) = (- INT32_MAX - 1 \<le> sint i)) \<and>
   (GetInt h n 0 = (i, True) \<and> sint i \<le> UINT32_MAX \<longrightarrow>
      (uint (fst (GetInt_uint32 h n v)) = sint i) = (0 \<le> sint i)) \<and>
   (SetListInt_int32 n js h = (h', True) \<longrightarrow> GetListInt_int32 h' n us = (js, True)) \<and>
   (SetListInt_uint32 n js h = (h', True) \<longrightarrow> GetListInt_uint32 h' n us = (js, True))"
proof -
  have wide: "sint (scast (x :: 32 word) :: 64 word) \<le> INT32_MAX" "sint (ucast x :: 64 word) \<le> UINT32_MAX" for x
  proof -
    have "signed_take_bit 63 (uint x) = uint x"
      by (rule signed_take_bit_int_eq_self, rule order.trans [of _ 0])
        (use uint_lt2p [of x] in simp_all)
    then show "sint (scast x :: 64 word) \<le> INT32_MAX" "sint (ucast x :: 64 word) \<le> UINT32_MAX"
      using sint_lt [of x] sint_ge [of x] uint_lt2p [of x]
      by (simp_all add: INT32_MAX_def UINT32_MAX_def signed_scast_eq signed_ucast_eq signed_take_bit_int_eq_self)
  qed
  have signed: "GetListInt_int32 h' n us = (js, True)" if "SetListInt_int32 n js h = (h', True)"
  proof -
    have "GetListInt h' n [] = (map scast js, True)"
      using that unfolding GetListInt_def GetValue_list_int_def SetListInt_int32_def SetValue_list_int32_def
      by (rule list_int.attr_get_set)
    then show ?thesis
      using wide(1) by (simp add: GetListInt_int32_def list_ex_iff not_less map_idI)
  qed
  have unsigned: "GetListInt_uint32 h' n us = (js, True)" if "SetListInt_uint32 n js h = (h', True)"
  proof -
    have "GetListInt h' n [] = (map ucast js, True)"
      using that unfolding GetListInt_def GetValue_list_int_def SetListInt_uint32_def SetValue_list_uint32_def
      by (rule list_int.attr_get_set)
    then show ?thesis
      using wide(2) by (simp add: GetListInt_uint32_def list_ex_iff not_less map_idI)
  qed
  show ?thesis
    using signed unsigned
    by (auto simp: GetInt_int32_def GetInt_uint32_def sint_narrow uint_narrow not_less
        split: prod.splits if_splits)
qed

lemma narrow_getters_range_witness:
  "GetInt (fst (SetInt ''k'' (- 3000000000) demo_holder)) ''k'' 0 = (- 3000000000, True) \<and>
   sint (fst (GetInt_int32 (fst (SetInt ''k'' (- 3000000000) demo_holder)) ''k'' 0)) \<noteq> - 3000000000 \<and>
   snd (GetInt_int32 (fst (SetInt ''k'' (- 3000000000) demo_holder)) ''k'' 0)"
proof -
  have "GetInt (fst (SetInt ''k'' (- 3000000000) demo_holder)) ''k'' 0 = (- 3000000000, True)"
    by (simp add: demo_holder_def attr_utils_defs attr_set_def attr_get_def MutableAttrMapItem_def
        SetValue_int_def GetValue_int_def attr_checks)
  moreover have "sint (- 3000000000 :: 64 word) = - 3000000000"
    by simp
  ultimately show ?thesis
    using narrow_getters_range [where h = "fst (SetInt ''k'' (- 3000000000) demo_holder)" and n = "''k''" and v = 0
        and i = "- 3000000000" and js = "[]" and us = "[]" and h' = demo_holder]
    by (simp add: INT32_MAX_def)
qed

section \<open>All attributes as a string\<close>

lemma ordered_attrs_eq:
  assumes "distinct (map fst (attr_map h))" "distinct (map fst (attr_map h'))"
    and "map_of (attr_map h) = map_of (attr_map h')"
  shows "ordered_attrs serialize h = ordered_attrs serialize h'"
proof -
  define f where "f = (\<lambda>(name :: string, d). (name, serialize d))"
  have fst: "map fst (map f xs) = map fst xs" for xs
    by (simp add: f_def case_prod_unfold)
  have sorted: "sorted (map fst (sort_key fst (map f xs)))" for xs
    by simp
  have names: "distinct (map fst (sort_key fst ys)) = distinct (map fst ys)" for ys :: "(string \<times> string) list"
    by (rule mset_eq_imp_distinct_iff) simp
  have "(k, d) \<in> set (attr_map h) \<longleftrightarrow> (k, d) \<in> set (attr_map h')" for k d
    using map_of_eq_Some_iff [OF assms(1), of k d] map_of_eq_Some_iff [OF assms(2), of k d] assms(3) by argo
  then have "set (attr_map h) = set (attr_map h')"
    by auto
  then have "set (map f (attr_map h)) = set (map f (attr_map h'))"
    by simp
  moreover have "inj_on fst (set (map f (attr_map h)))"
    using assms(1) fst [of "attr_map h"] by (metis distinct_map)
  ultimately show ?thesis
    unfolding ordered_attrs_def f_def [symmetric]
    using assms by (intro map_sorted_distinct_set_unique [where f = fst]) (simp_all add: names fst del: map_map)
qed

text \<open> C28: The textual form of the attributes depends only on which value each name has, not on the
  order in which the unordered map holds them; leaving out a set of names gives the text of the
  holder without these attributes.
\<close>

theorem attrs_str_order_independent:
  assumes "distinct (map fst (attr_map h))" "distinct (map fst (attr_map h'))"
    and "map_of (attr_map h) = map_of (attr_map h')"
  shows "GetAllAttrsStr serialize (Some h) = GetAllAttrsStr serialize (Some h') \<and>
    GetAttrsStrAfterRid serialize (Some h) names =
      GetAllAttrsStr serialize (Some (h'\<lparr>attr_map := filter (\<lambda>(n, d). n \<notin> names) (attr_map h')\<rparr>))"
  unfolding GetAllAttrsStr_def GetAttrsStrAfterRid_def option.case ordered_attrs_eq [OF assms]
  by (simp add: ordered_attrs_def filter_sort filter_map case_prod_unfold o_def)

lemma attrs_str_order_independent_witness:
  "GetAllAttrsStr (\<lambda>_. ''v'') (Some demo_holder) =
     GetAllAttrsStr (\<lambda>_. ''v'') (Some (demo_holder\<lparr>attr_map := rev (attr_map demo_holder)\<rparr>)) \<and>
   attr_map demo_holder \<noteq> rev (attr_map demo_holder)"
  using attrs_str_order_independent [of demo_holder "demo_holder\<lparr>attr_map := rev (attr_map demo_holder)\<rparr>"]
  by (simp add: demo_holder_def fun_upd_twist)

end
