(* ===== verification/TensorDesc_Properties.thy ===== *)
theory TensorDesc_Properties
  imports TensorDescs Attr_Properties
begin

text \<open>
  Tensor descriptions: the attributes that the setters keep for themselves have their kinds on
  every description the operations build, so that what is set is read back; and what the
  comparison of two descriptions compares.
\<close>

section \<open>The attributes of a description are typed\<close>

definition typed_at :: "string \<Rightarrow> value_type \<Rightarrow> ('m, 'z) attr_holder_scheme \<Rightarrow> bool" where
  "typed_at n t h \<longleftrightarrow> (case map_of (attr_map h) n of None \<Rightarrow> True | Some d \<Rightarrow> GetValueType d = t)"

lemma typed_at_attr_map: "attr_map h' = attr_map h \<Longrightarrow> typed_at n t h' = typed_at n t h"
  by (simp add: typed_at_def)

lemma typed_at_other:
  "n \<noteq> m \<Longrightarrow> typed_at m t (fst (attr_set f n h)) = typed_at m t h"
  by (auto simp: typed_at_def attr_set_def update_conv' split: prod.splits)

lemma GetValueType_one:
  "value_case_of d \<noteq> kList \<Longrightarrow> value_case_of d \<noteq> VALUE_NOT_SET \<Longrightarrow>
   GetValueType d' = GetValueType d \<longleftrightarrow> value_case_of d' = value_case_of d"
  by (cases d; cases d')
    (auto simp: GetValueType_def attr_val_one_type_map_def attr_val_list_type_map_def split: option.splits if_splits)

lemma GetValueType_list:
  "kind \<noteq> VT_LIST_NONE \<Longrightarrow>
   GetValueType d = VT_LIST_OF kind \<longleftrightarrow> (\<exists>l. d = AttrList l \<and> lv_val_type l = kind)"
  by (cases d; cases kind)
    (auto simp: GetValueType_def attr_val_one_type_map_def attr_val_list_type_map_def split: option.splits if_splits)

lemma typed_at_set_one:
  assumes "typed_at n (GetValueType v) h" "value_case_of v \<noteq> kList" "value_case_of v \<noteq> VALUE_NOT_SET"
  shows "typed_at n (GetValueType v) (fst (attr_set (set_one v) n h)) \<and> snd (attr_set (set_one v) n h)"
  using assms
  by (auto simp: typed_at_def attr_set_def MutableAttrMapItem_def update_conv' set_one_def SetValueCheckType_def
      GetValueType_one split: option.splits)

context list_kind begin

lemma typed_at_set_list:
  assumes "typed_at n (VT_LIST_OF kind) h"
  shows "typed_at n (VT_LIST_OF kind) (fst (attr_set (set_list kind (fill v)) n h)) \<and>
         snd (attr_set (set_list kind (fill v)) n h)"
  using assms proper
  by (auto simp: typed_at_def attr_set_def MutableAttrMapItem_def update_conv' set_list_def
      SetValueCheckAndSetListType_def GetValueType_list mutable_list_def empty_list_value_def Let_def fill_type
      split: option.splits)

end

definition desc_typed :: "('m, 'z) attr_holder_scheme \<Rightarrow> bool" where
  "desc_typed td \<longleftrightarrow>
     map_of (attr_map td) kKeyDataTypeSelfDefined = None \<and>
     typed_at TENSOR_UTILS_SHAPE_RANGE VT_LIST_LIST_INT td \<and>
     typed_at TENSOR_UTILS_ORIGIN_SHAPE (VT_LIST_OF VT_LIST_INT) td \<and>
     typed_at TENSOR_UTILS_ORIGIN_FORMAT VT_STRING td \<and>
     typed_at TENSOR_UTILS_ORIGIN_DATA_TYPE VT_STRING td \<and>
     typed_at TENSOR_UTILS_REF_PORT_INDEX (VT_LIST_OF VT_LIST_INT) td \<and>
     typed_at TENSOR_UTILS_RC VT_INT td"

definition desc_keys :: "string list" where
  "desc_keys =
     [kKeyDataTypeSelfDefined, TENSOR_UTILS_SHAPE_RANGE, TENSOR_UTILS_ORIGIN_SHAPE, TENSOR_UTILS_ORIGIN_FORMAT,
      TENSOR_UTILS_ORIGIN_DATA_TYPE, TENSOR_UTILS_REF_PORT_INDEX, TENSOR_UTILS_RC]"

lemma key_distinct [simp]:
  "kKeyDataTypeSelfDefined \<noteq> TENSOR_UTILS_SHAPE_RANGE" "TENSOR_UTILS_SHAPE_RANGE \<noteq> kKeyDataTypeSelfDefined"
  "kKeyDataTypeSelfDefined \<noteq> TENSOR_UTILS_ORIGIN_SHAPE" "TENSOR_UTILS_ORIGIN_SHAPE \<noteq> kKeyDataTypeSelfDefined"
  "kKeyDataTypeSelfDefined \<noteq> TENSOR_UTILS_ORIGIN_FORMAT" "TENSOR_UTILS_ORIGIN_FORMAT \<noteq> kKeyDataTypeSelfDefined"
  "kKeyDataTypeSelfDefined \<noteq> TENSOR_UTILS_ORIGIN_DATA_TYPE" "TENSOR_UTILS_ORIGIN_DATA_TYPE \<noteq> kKeyDataTypeSelfDefined"
  "kKeyDataTypeSelfDefined \<noteq> TENSOR_UTILS_REF_PORT_INDEX" "TENSOR_UTILS_REF_PORT_INDEX \<noteq> kKeyDataTypeSelfDefined"
  "kKeyDataTypeSelfDefined \<noteq> TENSOR_UTILS_RC" "TENSOR_UTILS_RC \<noteq> kKeyDataTypeSelfDefined"
  "TENSOR_UTILS_SHAPE_RANGE \<noteq> TENSOR_UTILS_ORIGIN_SHAPE" "TENSOR_UTILS_ORIGIN_SHAPE \<noteq> TENSOR_UTILS_SHAPE_RANGE"
  "TENSOR_UTILS_SHAPE_RANGE \<noteq> TENSOR_UTILS_ORIGIN_FORMAT" "TENSOR_UTILS_ORIGIN_FORMAT \<noteq> TENSOR_UTILS_SHAPE_RANGE"
  "TENSOR_UTILS_SHAPE_RANGE \<noteq> TENSOR_UTILS_ORIGIN_DATA_TYPE" "TENSOR_UTILS_ORIGIN_DATA_TYPE \<noteq> TENSOR_UTILS_SHAPE_RANGE"
  "TENSOR_UTILS_SHAPE_RANGE \<noteq> TENSOR_UTILS_REF_PORT_INDEX" "TENSOR_UTILS_REF_PORT_INDEX \<noteq> TENSOR_UTILS_SHAPE_RANGE"
  "TENSOR_UTILS_SHAPE_RANGE \<noteq> TENSOR_UTILS_RC" "TENSOR_UTILS_RC \<noteq> TENSOR_UTILS_SHAPE_RANGE"
  "TENSOR_UTILS_ORIGIN_SHAPE \<noteq> TENSOR_UTILS_ORIGIN_FORMAT" "TENSOR_UTILS_ORIGIN_FORMAT \<noteq> TENSOR_UTILS_ORIGIN_SHAPE"
  "TENSOR_UTILS_ORIGIN_SHAPE \<noteq> TENSOR_UTILS_ORIGIN_DATA_TYPE" "TENSOR_UTILS_ORIGIN_DATA_TYPE \<noteq> TENSOR_UTILS_ORIGIN_SHAPE"
  "TENSOR_UTILS_ORIGIN_SHAPE \<noteq> TENSOR_UTILS_REF_PORT_INDEX" "TENSOR_UTILS_REF_PORT_INDEX \<noteq> TENSOR_UTILS_ORIGIN_SHAPE"
  "TENSOR_UTILS_ORIGIN_SHAPE \<noteq> TENSOR_UTILS_RC" "TENSOR_UTILS_RC \<noteq> TENSOR_UTILS_ORIGIN_SHAPE"
  "TENSOR_UTILS_ORIGIN_FORMAT \<noteq> TENSOR_UTILS_ORIGIN_DATA_TYPE" "TENSOR_UTILS_ORIGIN_DATA_TYPE \<noteq> TENSOR_UTILS_ORIGIN_FORMAT"
  "TENSOR_UTILS_ORIGIN_FORMAT \<noteq> TENSOR_UTILS_REF_PORT_INDEX" "TENSOR_UTILS_REF_PORT_INDEX \<noteq> TENSOR_UTILS_ORIGIN_FORMAT"
  "TENSOR_UTILS_ORIGIN_FORMAT \<noteq> TENSOR_UTILS_RC" "TENSOR_UTILS_RC \<noteq> TENSOR_UTILS_ORIGIN_FORMAT"
  "TENSOR_UTILS_ORIGIN_DATA_TYPE \<noteq> TENSOR_UTILS_REF_PORT_INDEX" "TENSOR_UTILS_REF_PORT_INDEX \<noteq> TENSOR_UTILS_ORIGIN_DATA_TYPE"
  "TENSOR_UTILS_ORIGIN_DATA_TYPE \<noteq> TENSOR_UTILS_RC" "TENSOR_UTILS_RC \<noteq> TENSOR_UTILS_ORIGIN_DATA_TYPE"
  "TENSOR_UTILS_REF_PORT_INDEX \<noteq> TENSOR_UTILS_RC" "TENSOR_UTILS_RC \<noteq> TENSOR_UTILS_REF_PORT_INDEX"
  by (simp_all add: tensor_utils_keys)

lemma attr_set_map_of:
  "map_of (attr_map (fst (attr_set f n h))) m = (if m = n then Some (fst (f (MutableAttrMapItem n h))) else map_of (attr_map h) m)"
  by (simp add: attr_set_def update_conv' split: prod.splits)

lemma desc_typed_other:
  "n \<notin> set desc_keys \<Longrightarrow> desc_typed (fst (attr_set f n td)) = desc_typed td"
  by (auto simp: desc_typed_def desc_keys_def typed_at_other attr_set_map_of)

lemma desc_typed_attr_map: "attr_map h' = attr_map h \<Longrightarrow> desc_typed h' = desc_typed h"
  by (simp add: desc_typed_def typed_at_def)

lemma GetValueType_simps [simp]:
  "GetValueType (AttrS s) = VT_STRING" "GetValueType (AttrI i) = VT_INT"
  "GetValueType (AttrListListInt iss) = VT_LIST_LIST_INT"
  by (simp_all add: GetValueType_def attr_val_one_type_map_def)

lemma str_typed:
  "desc_typed td \<Longrightarrow> n \<in> {TENSOR_UTILS_ORIGIN_FORMAT, TENSOR_UTILS_ORIGIN_DATA_TYPE} \<Longrightarrow>
   desc_typed (fst (SetStr n s td)) \<and> snd (SetStr n s td)"
  using typed_at_set_one [of n "AttrS s" td]
  by (auto simp: desc_typed_def SetStr_def SetValue_str_def typed_at_other attr_set_map_of)

lemma list_int_typed:
  "desc_typed td \<Longrightarrow> n \<in> {TENSOR_UTILS_ORIGIN_SHAPE, TENSOR_UTILS_REF_PORT_INDEX} \<Longrightarrow>
   desc_typed (fst (SetListInt n js td)) \<and> snd (SetListInt n js td)"
  using list_int.typed_at_set_list [of n td js]
  by (auto simp: desc_typed_def SetListInt_def SetValue_list_int_def typed_at_other attr_set_map_of)

lemma SetListInt_uint32_alt: "SetListInt_uint32 n us = SetListInt n (map ucast us)"
  by (simp add: SetListInt_uint32_def SetListInt_def SetValue_list_uint32_def SetValue_list_int_def)

lemma range_typed:
  "desc_typed td \<Longrightarrow>
   desc_typed (fst (SetListListInt TENSOR_UTILS_SHAPE_RANGE iss td)) \<and> snd (SetListListInt TENSOR_UTILS_SHAPE_RANGE iss td)"
  using typed_at_set_one [of TENSOR_UTILS_SHAPE_RANGE "AttrListListInt iss" td]
  by (auto simp: desc_typed_def SetListListInt_def SetValue_list_list_int_def typed_at_other attr_set_map_of)

lemma rc_typed:
  "desc_typed td \<Longrightarrow> desc_typed (fst (SetInt TENSOR_UTILS_RC i td)) \<and> snd (SetInt TENSOR_UTILS_RC i td)"
  using typed_at_set_one [of TENSOR_UTILS_RC "AttrI i" td]
  by (auto simp: desc_typed_def SetInt_def SetValue_int_def typed_at_other attr_set_map_of)

text \<open>Every element type is in the first table, so the attribute for other types is never set.\<close>

lemma kDataTypeMap_total: "map_of kDataTypeMap t = Some (proto_DataType t)"
  by (cases t) (simp_all add: kDataTypeMap_def)

lemma kDataTypeMap_key: "first_key kDataTypeMap (proto_DataType t) = Some t"
  by (cases t) (simp_all add: kDataTypeMap_def)

lemma SetDataType_alt:
  "SetDataType t td =
     td\<lparr>attr_map := AList.delete kKeyDataTypeSelfDefined (attr_map td), td_dtype := proto_DataType t\<rparr>"
  by (simp add: SetDataType_def Let_def kDataTypeMap_total)

lemma SetDataType_typed:
  "desc_typed td \<Longrightarrow> desc_typed (SetDataType t td)"
  by (auto simp: desc_typed_def SetDataType_alt typed_at_def delete_conv')

section \<open>Descriptions the operations build\<close>

text \<open>Attributes of other names may be set to anything.\<close>

inductive desc_reachable :: "'m ge_tensor_desc \<Rightarrow> bool" where
  Default: "desc_reachable GeTensorDesc_default"
| Of: "desc_reachable (GeTensorDesc_of shape format dt)"
| SetDataType: "desc_reachable td \<Longrightarrow> desc_reachable (SetDataType dt td)"
| SetFormat: "desc_reachable td \<Longrightarrow> desc_reachable (TensorDesc_SetFormat f td)"
| SetName: "desc_reachable td \<Longrightarrow> desc_reachable (TensorDesc_SetName n td)"
| SetShape: "desc_reachable td \<Longrightarrow> desc_reachable (SetShape shape td)"
| SetUnknownDimNumShape: "desc_reachable td \<Longrightarrow> desc_reachable (SetUnknownDimNumShape td)"
| Update: "desc_reachable td \<Longrightarrow> desc_reachable (TensorDesc_Update shape f dt td)"
| SetShapeRange: "desc_reachable td \<Longrightarrow> desc_reachable (fst (SetShapeRange pairs td))"
| SetOriginShape: "desc_reachable td \<Longrightarrow> desc_reachable (SetOriginShape shape td)"
| SetOriginFormat: "desc_reachable td \<Longrightarrow> desc_reachable (SetOriginFormat f td)"
| SetOriginDataType: "desc_reachable td \<Longrightarrow> desc_reachable (SetOriginDataType dt td)"
| SetRefPortByIndex: "desc_reachable td \<Longrightarrow> desc_reachable (SetRefPortByIndex us td)"
| SetSize: "desc_reachable td \<Longrightarrow> desc_reachable (TensorUtils_SetSize i td)"
| SetWeightSize: "desc_reachable td \<Longrightarrow> desc_reachable (SetWeightSize u td)"
| SetReuseInput: "desc_reachable td \<Longrightarrow> desc_reachable (SetReuseInput b td)"
| SetOutputTensor: "desc_reachable td \<Longrightarrow> desc_reachable (SetOutputTensor b td)"
| SetDeviceType: "desc_reachable td \<Longrightarrow> desc_reachable (SetDeviceType dev td)"
| SetInputTensor: "desc_reachable td \<Longrightarrow> desc_reachable (SetInputTensor b td)"
| SetRealDimCnt: "desc_reachable td \<Longrightarrow> desc_reachable (SetRealDimCnt u td)"
| SetReuseInputIndex: "desc_reachable td \<Longrightarrow> desc_reachable (SetReuseInputIndex u td)"
| SetDataOffset: "desc_reachable td \<Longrightarrow> desc_reachable (SetDataOffset i td)"
| SetCmpsSize: "desc_reachable td \<Longrightarrow> desc_reachable (SetCmpsSize u td)"
| SetCmpsTab: "desc_reachable td \<Longrightarrow> desc_reachable (SetCmpsTab bytes td)"
| SetCmpsTabOffset: "desc_reachable td \<Longrightarrow> desc_reachable (SetCmpsTabOffset i td)"
| SetRC: "desc_reachable td \<Longrightarrow> desc_reachable (SetRC u td)"
| OfProto: "desc_reachable td \<Longrightarrow> desc_reachable (GeTensorDesc_of_proto td)"
| AttrUtils_Set: "desc_reachable td \<Longrightarrow> n \<notin> set desc_keys \<Longrightarrow> desc_reachable (fst (attr_set f n td))"

lemmas desc_plain_defs = TensorDesc_SetFormat_def TensorDesc_SetName_def SetShape_def SetUnknownDimNumShape_def
  TensorUtils_SetSize_def SetWeightSize_def SetReuseInput_def SetOutputTensor_def SetDeviceType_def
  SetInputTensor_def SetRealDimCnt_def SetReuseInputIndex_def SetDataOffset_def SetCmpsSize_def SetCmpsTab_def
  SetCmpsTabOffset_def GeTensorDesc_of_proto_def

lemma attr_map_plain:
  "attr_map (TensorDesc_SetFormat f td) = attr_map td" "attr_map (TensorDesc_SetName n td) = attr_map td"
  "attr_map (SetShape shape td) = attr_map td" "attr_map (SetUnknownDimNumShape td) = attr_map td"
  "attr_map (TensorUtils_SetSize i td) = attr_map td" "attr_map (SetWeightSize u td) = attr_map td"
  "attr_map (SetReuseInput b td) = attr_map td" "attr_map (SetOutputTensor b td) = attr_map td"
  "attr_map (SetDeviceType dev td) = attr_map td" "attr_map (SetInputTensor b td) = attr_map td"
  "attr_map (SetRealDimCnt u td) = attr_map td" "attr_map (SetReuseInputIndex u td) = attr_map td"
  "attr_map (SetDataOffset i td) = attr_map td" "attr_map (SetCmpsSize u td) = attr_map td"
  "attr_map (SetCmpsTab bytes td) = attr_map td" "attr_map (SetCmpsTabOffset i td) = attr_map td"
  "attr_map (GeTensorDesc_of_proto td) = attr_map td"
  by (simp_all add: desc_plain_defs split: option.split)

lemma desc_typed_plain:
  "desc_typed (TensorDesc_SetFormat f td) = desc_typed td" "desc_typed (TensorDesc_SetName n td) = desc_typed td"
  "desc_typed (SetShape shape td) = desc_typed td" "desc_typed (SetUnknownDimNumShape td) = desc_typed td"
  "desc_typed (TensorUtils_SetSize i td) = desc_typed td" "desc_typed (SetWeightSize u td) = desc_typed td"
  "desc_typed (SetReuseInput b td) = desc_typed td" "desc_typed (SetOutputTensor b td) = desc_typed td"
  "desc_typed (SetDeviceType dev td) = desc_typed td" "desc_typed (SetInputTensor b td) = desc_typed td"
  "desc_typed (SetRealDimCnt u td) = desc_typed td" "desc_typed (SetReuseInputIndex u td) = desc_typed td"
  "desc_typed (SetDataOffset i td) = desc_typed td" "desc_typed (SetCmpsSize u td) = desc_typed td"
  "desc_typed (SetCmpsTab bytes td) = desc_typed td" "desc_typed (SetCmpsTabOffset i td) = desc_typed td"
  "desc_typed (GeTensorDesc_of_proto td) = desc_typed td"
  by (simp_all only: desc_typed_def typed_at_def attr_map_plain)

lemma TensorDesc_Update_typed: "desc_typed td \<Longrightarrow> desc_typed (TensorDesc_Update shape f dt td)"
  by (simp add: TensorDesc_Update_def SetDataType_typed desc_typed_plain)

lemma desc_typed_setters:
  assumes "desc_typed td"
  shows "desc_typed (fst (SetShapeRange pairs td))" "desc_typed (SetOriginShape shape td)"
    and "desc_typed (SetOriginFormat f td)" "desc_typed (SetOriginDataType dt td)"
    and "desc_typed (SetRefPortByIndex us td)" "desc_typed (SetRC u td)"
  using range_typed [OF assms] list_int_typed [OF assms] str_typed [OF assms] rc_typed [OF assms]
  by (simp_all add: SetShapeRange_def SetOriginShape_def SetOriginFormat_def SetOriginDataType_def
      SetRefPortByIndex_def SetRC_def SetListInt_uint32_alt case_prod_unfold)

lemma desc_typed_out_attr: "desc_typed (td\<lparr>td_has_out_attr := b\<rparr>) = desc_typed td"
  by (rule desc_typed_attr_map) simp

lemma TensorDesc_Init_typed: "desc_typed td \<Longrightarrow> desc_typed (TensorDesc_Init td)"
  unfolding TensorDesc_Init_def desc_typed_out_attr desc_typed_plain(9)
  by (rule desc_typed_setters(3)) (simp only: desc_typed_plain(1))

lemma desc_typed_default: "desc_typed GeTensorDesc_default"
  unfolding GeTensorDesc_default_def
  by (rule TensorDesc_Init_typed)
    (simp add: desc_typed_def typed_at_def SetDataType_alt empty_descriptor_def)

lemma desc_reachable_typed: "desc_reachable td \<Longrightarrow> desc_typed td"
  by (induction rule: desc_reachable.induct)
    (simp_all add: desc_typed_default GeTensorDesc_of_def SetDataType_typed desc_typed_plain
      TensorDesc_Update_typed desc_typed_setters desc_typed_other)

section \<open>What is set is read back\<close>

lemma pair_out: "snd p \<Longrightarrow> p = (fst p, True)"
  by (cases p) simp

lemma SetStr_read:
  "snd (SetStr n s h) \<Longrightarrow> GetStr (fst (SetStr n s h)) n w = (s, True)"
  unfolding GetStr_def SetStr_def by (rule str_attr.attr_get_set [OF pair_out])

lemma SetListInt_read:
  "snd (SetListInt n js h) \<Longrightarrow> GetListInt (fst (SetListInt n js h)) n w = (js, True)"
  unfolding GetListInt_def SetListInt_def GetValue_list_int_def SetValue_list_int_def
  by (rule list_int.attr_get_set [OF pair_out])

lemma SetListListInt_read:
  "snd (SetListListInt n iss h) \<Longrightarrow> GetListListInt (fst (SetListListInt n iss h)) n w = (iss, True)"
  unfolding GetListListInt_def SetListListInt_def by (rule list_list_int_attr.attr_get_set [OF pair_out])

lemma SetInt_read:
  "snd (SetInt n i h) \<Longrightarrow> GetInt (fst (SetInt n i h)) n w = (i, True)"
  unfolding GetInt_def SetInt_def by (rule int_attr.attr_get_set [OF pair_out])

lemma uint32_fits: "sint (ucast (x :: 32 word) :: 64 word) \<le> UINT32_MAX"
proof -
  have "signed_take_bit 63 (uint x) = uint x"
    by (rule signed_take_bit_int_eq_self, rule order.trans [of _ 0]) (use uint_lt2p [of x] in simp_all)
  then show ?thesis
    using uint_lt2p [of x] by (simp add: UINT32_MAX_def signed_ucast_eq)
qed

lemma SetListInt_uint32_read:
  "snd (SetListInt_uint32 n us h) \<Longrightarrow> GetListInt_uint32 (fst (SetListInt_uint32 n us h)) n w = (us, True)"
  by (simp add: SetListInt_uint32_alt GetListInt_uint32_def SetListInt_read list_ex_iff not_less uint32_fits)

lemma read_pairs_pairs: "read_pairs (map (\<lambda>(a, b). [a, b]) pairs) acc = (acc @ pairs, GRAPH_SUCCESS)"
  by (induction pairs arbitrary: acc) auto

lemma SerialStringToDataType_written: "SerialStringToDataType (DataTypeToSerialString dt) = dt"
  by (cases dt) (simp_all add: SerialStringToDataType_def DataTypeToSerialString_def kStringTodataTypeMap_def
      kDataTypeToStringMap_def)

lemma DataTypeToSerialString_not_reserved: "DataTypeToSerialString dt \<noteq> ''RESERVED''"
  by (cases dt) (simp_all add: DataTypeToSerialString_def kDataTypeToStringMap_def)

lemma SerialStringToFormat_reserved: "SerialStringToFormat ''RESERVED'' = FORMAT_RESERVED"
  by (simp add: SerialStringToFormat_def parse_format_def SplitFormatFromStr_plain kStringToFormatMap_def
      GetFormatFromSub_def)

text \<open> C29: On every description that the operations build, each setter succeeds and what it sets is
  what the getter returns: the element type, the original element type, the original shape, the
  ranges of the shape (appended to the out parameter), the reference ports, the count, and, for
  a format with a named primary part, the 24 used bits of format and original format.
\<close>

theorem tensor_desc_reads_back:
  assumes "desc_reachable td"
  shows "GetDataType (SetDataType dt td) = dt \<and>
    GetOriginDataType (SetOriginDataType dt td) = dt \<and>
    GetOriginShape (SetOriginShape shape td) = shape \<and>
    snd (SetShapeRange pairs td) = GRAPH_SUCCESS \<and>
    GetShapeRange (fst (SetShapeRange pairs td)) acc = (acc @ pairs, GRAPH_SUCCESS) \<and>
    GetRefPortIndex (SetRefPortByIndex us td) = us \<and>
    GetRC (SetRC u td) v = (u, GRAPH_SUCCESS) \<and>
    GetOriginFormat (SetOriginFormat FORMAT_RESERVED td) = FORMAT_RESERVED \<and>
    (map_of kFormatToStringMap (GetPrimaryFormat f) \<noteq> None \<longrightarrow>
       TensorDesc_GetFormat (TensorDesc_SetFormat f td) = f AND 0xffffff \<and>
       GetOriginFormat (SetOriginFormat f td) = f AND 0xffffff)"
proof (intro conjI impI)
  note t = desc_reachable_typed [OF assms]
  note set = str_typed [OF t, THEN conjunct2] list_int_typed [OF t, THEN conjunct2] range_typed [OF t, THEN conjunct2]
    rc_typed [OF t, THEN conjunct2]
  show "GetDataType (SetDataType dt td) = dt"
    by (simp add: GetDataType_def SetDataType_alt delete_conv' kDataTypeMap_key)
  show "GetOriginDataType (SetOriginDataType dt td) = dt"
    by (cases "dt = DT_UNDEFINED")
      (simp_all add: GetOriginDataType_def SetOriginDataType_def SetStr_read set SerialStringToDataType_written
        DataTypeToSerialString_not_reserved)
  show "GetOriginShape (SetOriginShape shape td) = shape"
    by (simp add: GetOriginShape_def SetOriginShape_def GetDims_def SetListInt_read set)
  show "snd (SetShapeRange pairs td) = GRAPH_SUCCESS"
    by (simp add: SetShapeRange_def case_prod_unfold set)
  show "GetShapeRange (fst (SetShapeRange pairs td)) acc = (acc @ pairs, GRAPH_SUCCESS)"
    by (simp add: GetShapeRange_def SetShapeRange_def case_prod_beta' SetListListInt_read set
        read_pairs_pairs [unfolded case_prod_unfold])
  show "GetRefPortIndex (SetRefPortByIndex us td) = us"
    using SetListInt_uint32_read [of TENSOR_UTILS_REF_PORT_INDEX us td "[]"] set(2) [of TENSOR_UTILS_REF_PORT_INDEX]
    by (simp add: GetRefPortIndex_def SetRefPortByIndex_def SetListInt_uint32_alt)
  show "GetRC (SetRC u td) v = (u, GRAPH_SUCCESS)"
    by (simp add: GetRC_def SetRC_def GetInt_uint32_def SetInt_read set uint32_fits not_less)
  show "GetOriginFormat (SetOriginFormat FORMAT_RESERVED td) = FORMAT_RESERVED"
    by (simp add: GetOriginFormat_def SetOriginFormat_def SetStr_read set)
  assume "map_of kFormatToStringMap (GetPrimaryFormat f) \<noteq> None"
  then have w: "SerialStringToFormat (FormatToSerialString f) = f AND 0xffffff"
    using SerialStringToFormat_written by auto
  then show "TensorDesc_GetFormat (TensorDesc_SetFormat f td) = f AND 0xffffff"
    by (simp add: TensorDesc_GetFormat_def TensorDesc_SetFormat_def)
  show "GetOriginFormat (SetOriginFormat f td) = f AND 0xffffff"
  proof (cases "f = FORMAT_RESERVED \<or> FormatToSerialString f = ''RESERVED''")
    case True
    then show ?thesis
      using w SerialStringToFormat_reserved
      by (auto simp: GetOriginFormat_def SetOriginFormat_def SetStr_read set)
  next
    case False
    then show ?thesis
      using w by (simp add: GetOriginFormat_def SetOriginFormat_def SetStr_read set)
  qed
qed

lemma tensor_desc_reads_back_witness:
  "GetDataType (SetDataType DT_DUAL (GeTensorDesc_default :: nat ge_tensor_desc)) = DT_DUAL \<and>
   TensorDesc_GetFormat (TensorDesc_SetFormat FORMAT_NHWC (GeTensorDesc_default :: nat ge_tensor_desc)) = FORMAT_NHWC"
  using tensor_desc_reads_back [OF desc_reachable.Default, where 'a = nat and f = FORMAT_NHWC and dt = DT_DUAL]
  by (simp add: GetPrimaryFormat_def kFormatToStringMap_def)

section \<open>Equality of descriptions\<close>

lemma comma_free: "CHR '','' \<notin> set (to_string i)"
  using to_string_chars [of "CHR '','' " i] by (auto simp: is_digit_def)

lemma to_string_inj: "to_string i = to_string j \<Longrightarrow> i = j"
  by (metis option.inject parse_int_to_string)

lemma first_occurrence:
  "c \<notin> set a \<Longrightarrow> c \<notin> set b \<Longrightarrow> a @ c # x = b @ c # y \<Longrightarrow> a = b \<and> x = y"
proof (induction a arbitrary: b)
  case Nil
  then show ?case by (cases b) auto
next
  case (Cons d a)
  then show ?case by (cases b) auto
qed

lemma dims_text_inj:
  "concat (map (\<lambda>x. to_string (sint x) @ '', '') xs) = concat (map (\<lambda>x. to_string (sint x) @ '', '') ys) \<Longrightarrow> xs = ys"
proof (induction xs arbitrary: ys)
  case Nil
  then show ?case by (cases ys) auto
next
  case (Cons x xs)
  then obtain y zs where ys: "ys = y # zs" by (cases ys) auto
  let ?t = "\<lambda>zs. concat (map (\<lambda>x. to_string (sint x) @ '', '') zs)"
  have eq: "to_string (sint x) @ CHR '','' # '' '' @ ?t xs = to_string (sint y) @ CHR '','' # '' '' @ ?t zs"
    using Cons.prems ys by simp
  have "to_string (sint x) = to_string (sint y) \<and> '' '' @ ?t xs = '' '' @ ?t zs"
    by (rule first_occurrence [OF comma_free comma_free eq])
  then show ?case
    using Cons.IH [of zs] ys to_string_inj [of "sint x" "sint y"] by (simp add: signed_word_eqI)
qed

lemma dims_ToString_Nil: "dims_ToString [] = ''[]''"
  by (simp add: dims_ToString_def Let_def)

lemma dims_ToString_split:
  assumes "xs \<noteq> []"
  obtains b where "concat (map (\<lambda>x. to_string (sint x) @ '', '') xs) = b @ '', ''" "b \<noteq> []"
    "dims_ToString xs = ''['' @ b @ '']''"
proof -
  let ?b = "concat (map (\<lambda>x. to_string (sint x) @ '', '') (butlast xs)) @ to_string (sint (last xs))"
  have "concat (map (\<lambda>x. to_string (sint x) @ '', '') (butlast xs @ [last xs])) = ?b @ '', ''"
    by simp
  then have b: "concat (map (\<lambda>x. to_string (sint x) @ '', '') xs) = ?b @ '', ''"
    using assms by simp
  show thesis
    by (rule that [OF b]) (simp_all add: dims_ToString_def Let_def b)
qed

lemma dims_ToString_not_Nil: "xs \<noteq> [] \<Longrightarrow> dims_ToString xs \<noteq> ''[]''"
  by (erule dims_ToString_split) (auto simp: Cons_eq_append_conv)

lemma dims_ToString_inj: "dims_ToString xs = dims_ToString ys \<longleftrightarrow> xs = ys"
proof
  assume eq: "dims_ToString xs = dims_ToString ys"
  show "xs = ys"
  proof (cases "xs = [] \<or> ys = []")
    case True
    then show ?thesis
      using eq by (metis dims_ToString_Nil dims_ToString_not_Nil)
  next
    case False
    obtain b where b: "concat (map (\<lambda>x. to_string (sint x) @ '', '') xs) = b @ '', ''" "dims_ToString xs = ''['' @ b @ '']''"
      using False dims_ToString_split by metis
    obtain c where c: "concat (map (\<lambda>x. to_string (sint x) @ '', '') ys) = c @ '', ''" "dims_ToString ys = ''['' @ c @ '']''"
      using False dims_ToString_split by metis
    show ?thesis
      using eq b c by (intro dims_text_inj) simp
  qed
qed simp

text \<open> C30: Two descriptions compare equal exactly when all their fields are equal, the dimensions too,
  although those are compared as texts; the attributes, and with them the original shape, format
  and element type, the ranges and the reference ports, play no part.
\<close>

theorem tensor_desc_equality:
  "GeTensorDescAttrsAreEqual td r \<longleftrightarrow>
     td\<lparr>attr_map := attr_map r, requiredAttrs := requiredAttrs r\<rparr> = (r :: 'm ge_tensor_desc)"
  by (cases td, cases r) (auto simp: GeTensorDescAttrsAreEqual_def dims_ToString_inj)

end
