(* ===== verification/OpDesc_Properties.thy ===== *)
theory OpDesc_Properties
  imports OpDescs TensorDesc_Properties
begin

text \<open>
  Operator descriptions: the names of inputs and outputs stay in bijection with the positions, at
  which positions dynamic ports are inserted, which format is inferred by default, and what the
  comparison of descriptions cannot tell apart.
\<close>

section \<open>Names and positions\<close>

definition port_ok :: "'m ports \<Rightarrow> bool" where
  "port_ok s \<longleftrightarrow> (case s of (descs, idx) \<Rightarrow>
     keys_sorted idx \<and>
     (\<forall>n m i. map_of idx n = Some i \<longrightarrow> map_of idx m = Some i \<longrightarrow> n = m) \<and>
     (\<forall>i. (\<exists>n. map_of idx n = Some i) \<longleftrightarrow> i < length descs))"

lemma map_of_emplace: "map_of m k = None \<Longrightarrow> map_of (map_emplace k v m) = (map_of m)(k \<mapsto> v)"
  by (simp add: map_emplace_def map_of_put)

lemma map_of_shift_from: "map_of (shift_from p idx) n = map_option (\<lambda>i. if p \<le> i then i + 1 else i) (map_of idx n)"
  by (induction idx) (auto simp: shift_from_def)

lemma keys_sorted_map_snd: "keys_sorted (map (\<lambda>(n, i). (n, f i)) idx) = keys_sorted idx"
  by (simp add: keys_sorted_def o_def case_prod_unfold)

lemma keys_sorted_shift: "keys_sorted (shift_from p idx) = keys_sorted idx"
  by (simp add: shift_from_def keys_sorted_map_snd)

lemma port_ok_less: "port_ok (descs, idx) \<Longrightarrow> map_of idx n = Some i \<Longrightarrow> i < length descs"
  by (auto simp: port_ok_def)

lemma port_ok_insert:
  assumes "port_ok (descs, idx)" "p \<le> length descs" "map_of idx k = None"
  shows "port_ok (take p descs @ [d] @ drop p descs, map_emplace k p (shift_from p idx))"
proof -
  let ?M = "(\<lambda>n. map_option (\<lambda>i. if p \<le> i then i + 1 else i) (map_of idx n))(k \<mapsto> p)"
  have M: "map_of (map_emplace k p (shift_from p idx)) = ?M"
    using assms(3) by (auto simp: map_of_emplace map_of_shift_from)
  have sorted: "keys_sorted (map_emplace k p (shift_from p idx))"
    using assms(1) by (auto simp: port_ok_def shift_from_def keys_sorted_map_snd intro!: keys_sorted_emplace)
  have inj: "?M n = Some i \<Longrightarrow> ?M m = Some i \<Longrightarrow> n = m" for n m i
    using assms(1) by (auto simp: port_ok_def split: if_splits)
  have surj: "(\<exists>n. ?M n = Some i) \<longleftrightarrow> i < Suc (length descs)" for i
  proof
    assume "\<exists>n. ?M n = Some i"
    then show "i < Suc (length descs)"
      using assms by (auto split: if_splits dest: port_ok_less)
  next
    assume i: "i < Suc (length descs)"
    have ex: "\<exists>n. map_of idx n = Some j" if "j < length descs" for j
      using that assms(1) by (simp add: port_ok_def)
    consider "i < p" | "i = p" | "p < i" by linarith
    then show "\<exists>n. ?M n = Some i"
    proof cases
      case 1
      then obtain n where "map_of idx n = Some i"
        using ex [of i] assms(2) by auto
      then show ?thesis
        using 1 assms(3) by (intro exI [of _ n]) auto
    next
      case 3
      then obtain j where j: "i = Suc j" "p \<le> j"
        by (cases i) auto
      then obtain n where n: "map_of idx n = Some j"
        using ex [of j] i by auto
      moreover have "n \<noteq> k"
        using n assms(3) by auto
      ultimately show ?thesis
        using j by (intro exI [of _ n]) simp
    next
      case 2
      then show ?thesis
        by (intro exI [of _ k]) simp
    qed
  qed
  have len: "length (take p descs @ [d] @ drop p descs) = Suc (length descs)"
    using assms(2) by simp
  show ?thesis
    unfolding port_ok_def M prod.case len
    by (intro conjI allI impI sorted surj) (rule inj)
qed

lemma shift_from_length:
  assumes "port_ok (descs, idx)"
  shows "shift_from (length descs) idx = idx"
proof -
  have "i < length descs" if "(n, i) \<in> set idx" for n i
    using that assms keys_sorted_distinct [of idx] by (auto simp: port_ok_def)
  then show ?thesis
    unfolding shift_from_def by (intro map_idI) (fastforce split: prod.splits)
qed

lemma port_ok_append:
  "port_ok (descs, idx) \<Longrightarrow> map_of idx k = None \<Longrightarrow> port_ok (descs @ [d], map_emplace k (length descs) idx)"
  using port_ok_insert [of descs idx "length descs" k d] by (simp add: shift_from_length)

lemma port_ok_update: "port_ok (descs[i := d], idx) = port_ok (descs, idx)"
  by (simp add: port_ok_def)

lemma shift_from_0: "shift_from 0 idx = map (\<lambda>(n, i). (n, i + 1)) idx"
  by (simp add: shift_from_def)

text \<open>The loop that inserts ports in the middle, from number \<open>k\<close> on.\<close>

lemma ports_middle_ok:
  assumes "port_ok s" "k = 0 \<or> index + k \<le> length (fst s)"
  shows "port_ok (fst (ports_middle name [k..<n] index s))"
  using assms
proof (induction "n - k" arbitrary: k s)
  case 0
  then show ?case by simp
next
  case (Suc x)
  obtain descs idx where s: "s = (descs, idx)" by (cases s)
  let ?s = "(take (index + k) descs @ [GeTensorDesc_default] @ drop (index + k) descs,
      map_emplace (name @ to_string (int k)) (k + index) (shift_from (index + k) idx))"
  have "port_ok (fst (ports_middle name [Suc k..<n] index ?s))"
    if "map_of idx (name @ to_string (int k)) = None" "index \<le> length descs"
  proof (rule Suc.hyps(1))
    show "port_ok ?s"
      using port_ok_insert [of descs idx "index + k" "name @ to_string (int k)"] Suc.prems that
      by (auto simp: s add.commute)
    show "Suc k = 0 \<or> index + Suc k \<le> length (fst ?s)"
      using Suc.prems that by (auto simp: s)
  qed (use Suc.hyps(2) in simp)
  moreover have "[k..<n] = k # [Suc k..<n]"
    using Suc.hyps(2) by (simp add: upt_conv_Cons)
  ultimately show ?case
    using Suc.prems by (auto simp: s Let_def)
qed

lemma ports_forward_ok: "port_ok s \<Longrightarrow> port_ok (fst (ports_forward name is s))"
proof (induction name "is" s rule: ports_forward.induct)
  case (2 name i "is" descs idx)
  then show ?case
    using port_ok_insert [of descs idx 0 "name @ to_string (int i)" GeTensorDesc_default]
    by (auto simp: Let_def shift_from_0)
qed simp


section \<open>The descriptions that the operations build\<close>

definition input_ports :: "'m ge_op_desc \<Rightarrow> 'm ports" where
  "input_ports od = (inputs_desc od, input_name_idx od)"

definition output_ports :: "'m ge_op_desc \<Rightarrow> 'm ports" where
  "output_ports od = (outputs_desc od, output_name_idx od)"

definition op_ok :: "'m ge_op_desc \<Rightarrow> bool" where
  "op_ok od \<longleftrightarrow> port_ok (input_ports od) \<and> port_ok (output_ports od) \<and>
     distinct (register_input_name od) \<and> distinct (register_output_name od)"

text \<open>
  Everything that adds or replaces inputs and outputs, in any order and with any arguments,
  whether it succeeds or not; the last rule stands for every operation on the other fields.
\<close>

inductive op_reachable :: "'m ge_op_desc \<Rightarrow> bool" where
  op_init: "op_reachable (OpDesc_of name type)"
| op_add_input: "op_reachable od \<Longrightarrow> op_reachable (fst (AddInputDesc name td od))"
| op_add_input_unnamed: "op_reachable od \<Longrightarrow> op_reachable (fst (AddInputDesc_unnamed td od))"
| op_add_input_at: "op_reachable od \<Longrightarrow> op_reachable (fst (AddInputDesc_at i td od))"
| op_add_optional: "op_reachable od \<Longrightarrow> op_reachable (fst (AddOptionalInputDesc name td od))"
| op_add_dynamic: "op_reachable od \<Longrightarrow> op_reachable (fst (AddDynamicInputDesc name num back od))"
| op_add_by_index: "op_reachable od \<Longrightarrow> op_reachable (fst (AddDynamicInputDescByIndex name num i od))"
| op_register_input: "op_reachable od \<Longrightarrow> op_reachable (fst (AddRegisterInputName name od))"
| op_update_input: "op_reachable od \<Longrightarrow> op_reachable (fst (UpdateInputDesc name td od))"
| op_update_input_at: "op_reachable od \<Longrightarrow> op_reachable (fst (UpdateInputDesc_at i td od))"
| op_add_output: "op_reachable od \<Longrightarrow> op_reachable (fst (AddOutputDesc name td od))"
| op_add_output_unnamed: "op_reachable od \<Longrightarrow> op_reachable (fst (AddOutputDesc_unnamed td od))"
| op_add_output_middle: "op_reachable od \<Longrightarrow> op_reachable (fst (AddOutputDescMiddle name num i od))"
| op_add_dynamic_output: "op_reachable od \<Longrightarrow> op_reachable (fst (AddDynamicOutputDesc name num back od))"
| op_register_output: "op_reachable od \<Longrightarrow> op_reachable (fst (AddRegisterOutputName name od))"
| op_update_output: "op_reachable od \<Longrightarrow> op_reachable (fst (UpdateOutputDesc name td od))"
| op_update_output_at: "op_reachable od \<Longrightarrow> op_reachable (fst (UpdateOutputDesc_at i td od))"
| op_infer_format: "op_reachable od \<Longrightarrow> op_reachable (fst (DefaultInferFormat od))"
| op_other_fields: "\<lbrakk>op_reachable od; input_ports od' = input_ports od; output_ports od' = output_ports od;
    register_input_name od' = register_input_name od; register_output_name od' = register_output_name od\<rbrakk>
  \<Longrightarrow> op_reachable od'"

lemmas op_ok_simps = op_ok_def input_ports_def output_ports_def

lemma distinct_add_once: "distinct xs \<Longrightarrow> distinct (add_once x xs)"
  by (simp add: add_once_def)

lemma op_ok_AddInputDesc: "op_ok od \<Longrightarrow> op_ok (fst (AddInputDesc name td od))"
  by (auto simp: op_ok_simps AddInputDesc_def UpdateInputDesc_def port_ok_update port_ok_append distinct_add_once
      split: option.split)

lemma op_ok_AddOutputDesc: "op_ok od \<Longrightarrow> op_ok (fst (AddOutputDesc name td od))"
  by (auto simp: op_ok_simps AddOutputDesc_def port_ok_append distinct_add_once)

lemma op_ok_middle:
  "op_ok od \<Longrightarrow> op_ok (fst (AddInputDescMiddle name num i od))"
  "op_ok od \<Longrightarrow> op_ok (fst (AddOutputDescMiddle name num i od))"
  using ports_middle_ok [of "input_ports od" 0 i name num] ports_middle_ok [of "output_ports od" 0 i name num]
  by (auto simp: op_ok_simps AddInputDescMiddle_def AddOutputDescMiddle_def split: prod.splits)

lemma op_ok_forward:
  "op_ok od \<Longrightarrow> op_ok (fst (AddInputDescForward name num od))"
  "op_ok od \<Longrightarrow> op_ok (fst (AddOutputDescForward name num od))"
  using ports_forward_ok [of "input_ports od" name "[0..<num]"] ports_forward_ok [of "output_ports od" name "[0..<num]"]
  by (auto simp: op_ok_simps AddInputDescForward_def AddOutputDescForward_def split: prod.splits)

lemma op_ok_register:
  "op_ok od \<Longrightarrow> op_ok (fst (AddRegisterInputName name od))"
  "op_ok od \<Longrightarrow> op_ok (fst (AddRegisterOutputName name od))"
  by (simp_all add: op_ok_simps AddRegisterInputName_def AddRegisterOutputName_def distinct_add_once)

lemma op_ok_dynamic:
  assumes "op_ok od"
  shows "op_ok (fst (AddDynamicInputDesc name num back od))" "op_ok (fst (AddDynamicOutputDesc name num back od))"
  unfolding AddDynamicInputDesc_def AddDynamicOutputDesc_def
  by (rule and_then_inv; use assms in \<open>auto intro: each_inv op_ok_AddInputDesc op_ok_AddOutputDesc op_ok_forward op_ok_register\<close>)+

lemma op_ok_update:
  "op_ok od \<Longrightarrow> op_ok (fst (UpdateInputDesc name td od))"
  "op_ok od \<Longrightarrow> op_ok (fst (UpdateInputDesc_at i td od))"
  "op_ok od \<Longrightarrow> op_ok (fst (UpdateOutputDesc name td od))"
  "op_ok od \<Longrightarrow> op_ok (fst (UpdateOutputDesc_at i td od))"
  by (auto simp: op_ok_simps UpdateInputDesc_def UpdateInputDesc_at_def UpdateOutputDesc_def
      UpdateOutputDesc_at_def port_ok_update split: option.split)

lemma op_ok_infer_format: "op_ok od \<Longrightarrow> op_ok (fst (DefaultInferFormat od))"
  by (auto simp: op_ok_simps DefaultInferFormat_def Let_def port_ok_def)

lemma op_ok_init: "op_ok (OpDesc_of name type)"
  by (simp add: op_ok_simps OpDesc_of_def OpDesc_SetName_def OpDesc_SetType_def OpDesc_default_def port_ok_def
      keys_sorted_def)

lemma op_reachable_ok: "op_reachable od \<Longrightarrow> op_ok od"
proof (induction rule: op_reachable.induct)
  case (op_add_input_at od i td)
  then show ?case
    by (auto simp: AddInputDesc_at_def AddInputDesc_unnamed_def intro: op_ok_update op_ok_AddInputDesc)
next
  case (op_add_optional od name td)
  then show ?case
    using op_ok_AddInputDesc [of od name td]
    by (auto simp: AddOptionalInputDesc_def op_ok_simps split: prod.splits)
next
  case (op_other_fields od od')
  then show ?case by (simp add: op_ok_def)
qed (auto simp: AddInputDesc_unnamed_def AddOutputDesc_unnamed_def AddDynamicInputDescByIndex_def
    intro: op_ok_init op_ok_AddInputDesc op_ok_AddOutputDesc op_ok_middle op_ok_dynamic op_ok_register
      op_ok_update op_ok_infer_format)

lemma name_at_map_of:
  assumes "port_ok (descs, idx)" "map_of idx n = Some i"
  shows "name_at idx i = n"
proof -
  have "(n, i) \<in> set idx"
    using assms(2) by (rule map_of_SomeD)
  then have "find (\<lambda>e. snd e = i) idx \<noteq> None"
    by (auto simp: find_None_iff)
  then obtain e where e: "find (\<lambda>e. snd e = i) idx = Some e"
    by blast
  define m where "m = fst e"
  have "snd e = i"
    using e by (auto simp: find_Some_iff)
  then have m: "find (\<lambda>e. snd e = i) idx = Some (m, i)"
    using e by (cases e) (simp add: m_def)
  then have "(m, i) \<in> set idx"
    by (auto simp: find_Some_iff in_set_conv_nth)
  then have "map_of idx m = Some i"
    using assms(1) keys_sorted_distinct [of idx] by (auto simp: port_ok_def)
  then have "m = n"
    using assms by (auto simp: port_ok_def)
  with m show ?thesis
    by (simp add: name_at_def)
qed

lemma port_ok_named:
  assumes "port_ok (descs, idx)" "i < length descs"
  shows "map_of idx (name_at idx i) = Some i"
proof -
  have "\<exists>n. map_of idx n = Some i"
    using assms by (simp add: port_ok_def)
  then obtain n where n: "map_of idx n = Some i" ..
  then show ?thesis
    using name_at_map_of [OF assms(1) n] by simp
qed

text \<open>The two lookups on one map, for inputs and outputs alike.\<close>

lemma port_ok_inverse:
  assumes "port_ok (descs, idx)"
  shows "i < length descs \<Longrightarrow> (case map_of idx (name_at idx i) of None \<Rightarrow> - 1 | Some j \<Rightarrow> int j) = int i"
    and "(case map_of idx n of None \<Rightarrow> - 1 | Some j \<Rightarrow> int j) = int i \<Longrightarrow> i < length descs \<and> name_at idx i = n"
  using assms by (auto simp: port_ok_named port_ok_less name_at_map_of split: option.splits)

section \<open>Where dynamic ports go\<close>

lemma numbered_name_inj: "to_string (int i) = to_string (int j) \<longleftrightarrow> i = j"
  using to_string_inj [of "int i" "int j"] by auto

lemma ports_middle_spec:
  assumes "keys_sorted idx" "index + k \<le> length descs" "k \<le> n"
    and "\<And>i. k \<le> i \<Longrightarrow> i < n \<Longrightarrow> map_of idx (name @ to_string (int i)) = None"
  shows "\<exists>idx'. ports_middle name [k..<n] index (descs, idx) =
      ((take (index + k) descs @ replicate (n - k) GeTensorDesc_default @ drop (index + k) descs, idx'), GRAPH_SUCCESS) \<and>
    (\<forall>i. k \<le> i \<and> i < n \<longrightarrow> map_of idx' (name @ to_string (int i)) = Some (index + i)) \<and>
    (\<forall>m. m \<notin> (\<lambda>i. name @ to_string (int i)) ` {k..<n} \<longrightarrow>
      map_of idx' m = map_option (\<lambda>j. if index + k \<le> j then j + (n - k) else j) (map_of idx m))"
  using assms
proof (induction "n - k" arbitrary: k descs idx)
  case 0
  then show ?case
    by (auto simp: option.map_ident cong: if_cong)
next
  case (Suc x)
  let ?p = "name @ to_string (int k)"
  let ?descs = "take (index + k) descs @ [GeTensorDesc_default] @ drop (index + k) descs"
  let ?idx = "map_emplace ?p (k + index) (shift_from (index + k) idx)"
  have k: "k < n" "[k..<n] = k # [Suc k..<n]"
    using Suc.hyps(2) by (simp_all add: upt_conv_Cons)
  have free: "map_of idx ?p = None"
    using Suc.prems(4) [of k] k by simp
  have M: "map_of ?idx = (\<lambda>m. map_option (\<lambda>i. if index + k \<le> i then i + 1 else i) (map_of idx m))(?p \<mapsto> k + index)"
    using free by (auto simp: map_of_emplace map_of_shift_from)
  have step: "ports_middle name [k..<n] index (descs, idx) = ports_middle name [Suc k..<n] index (?descs, ?idx)"
    using free Suc.prems(2) k by (simp add: Let_def)
  have IH: "x = n - Suc k" "keys_sorted ?idx" "index + Suc k \<le> length ?descs" "Suc k \<le> n"
      "\<And>i. Suc k \<le> i \<Longrightarrow> i < n \<Longrightarrow> map_of ?idx (name @ to_string (int i)) = None"
    using Suc.hyps(2) Suc.prems k keys_sorted_shift [of "index + k" idx]
    by (auto simp: M numbered_name_inj intro!: keys_sorted_emplace)
  obtain idx' where idx': "ports_middle name [Suc k..<n] index (?descs, ?idx) =
      ((take (index + Suc k) ?descs @ replicate (n - Suc k) GeTensorDesc_default @ drop (index + Suc k) ?descs, idx'),
        GRAPH_SUCCESS)"
    and new: "\<And>i. Suc k \<le> i \<Longrightarrow> i < n \<Longrightarrow> map_of idx' (name @ to_string (int i)) = Some (index + i)"
    and old: "\<And>m. m \<notin> (\<lambda>i. name @ to_string (int i)) ` {Suc k..<n} \<Longrightarrow>
      map_of idx' m = map_option (\<lambda>j. if index + Suc k \<le> j then j + (n - Suc k) else j) (map_of ?idx m)"
    using Suc.hyps(1) [OF IH] by blast
  have descs: "take (index + Suc k) ?descs @ replicate (n - Suc k) GeTensorDesc_default @ drop (index + Suc k) ?descs =
      take (index + k) descs @ replicate (n - k) GeTensorDesc_default @ drop (index + k) descs"
    using Suc.prems(2) k by (simp add: min_def replicate_Suc [symmetric] Suc_diff_Suc del: replicate_Suc)
  have fresh: "?p \<notin> (\<lambda>i. name @ to_string (int i)) ` {Suc k..<n}"
    by (auto simp: numbered_name_inj)
  have "map_of idx' (name @ to_string (int i)) = Some (index + i)" if "k \<le> i" "i < n" for i
    using new [of i] old [OF fresh] that by (cases "i = k") (auto simp: M)
  moreover have "map_of idx' m = map_option (\<lambda>j. if index + k \<le> j then j + (n - k) else j) (map_of idx m)"
    if "m \<notin> (\<lambda>i. name @ to_string (int i)) ` {k..<n}" for m
  proof -
    have m: "m \<notin> (\<lambda>i. name @ to_string (int i)) ` {Suc k..<n}" "m \<noteq> ?p"
      using that k by auto
    then show ?thesis
      using old [OF m(1)] k by (cases "map_of idx m") (auto simp: M)
  qed
  ultimately show ?case
    unfolding step idx' descs by blast
qed

lemma ports_forward_spec:
  assumes "keys_sorted idx" "k \<le> n"
    and "\<And>i. k \<le> i \<Longrightarrow> i < n \<Longrightarrow> map_of idx (name @ to_string (int i)) = None"
  shows "\<exists>idx'. ports_forward name [k..<n] (descs, idx) =
      ((replicate (n - k) GeTensorDesc_default @ descs, idx'), GRAPH_SUCCESS) \<and>
    (\<forall>i. k \<le> i \<and> i < n \<longrightarrow> map_of idx' (name @ to_string (int i)) = Some (n - 1 - i)) \<and>
    (\<forall>m. m \<notin> (\<lambda>i. name @ to_string (int i)) ` {k..<n} \<longrightarrow>
      map_of idx' m = map_option (\<lambda>j. j + (n - k)) (map_of idx m))"
  using assms
proof (induction "n - k" arbitrary: k descs idx)
  case 0
  then show ?case
    by (auto simp: option.map_ident)
next
  case (Suc x)
  let ?p = "name @ to_string (int k)"
  let ?descs = "GeTensorDesc_default # descs"
  let ?idx = "map_emplace ?p 0 (shift_from 0 idx)"
  have k: "k < n" "[k..<n] = k # [Suc k..<n]"
    using Suc.hyps(2) by (simp_all add: upt_conv_Cons)
  have free: "map_of idx ?p = None"
    using Suc.prems(3) [of k] k by simp
  have M: "map_of ?idx = (\<lambda>m. map_option (\<lambda>i. i + 1) (map_of idx m))(?p \<mapsto> 0)"
    using free by (auto simp: map_of_emplace map_of_shift_from)
  have step: "ports_forward name [k..<n] (descs, idx) = ports_forward name [Suc k..<n] (?descs, ?idx)"
    using free k by (simp add: Let_def shift_from_0)
  have IH: "x = n - Suc k" "keys_sorted ?idx" "Suc k \<le> n"
      "\<And>i. Suc k \<le> i \<Longrightarrow> i < n \<Longrightarrow> map_of ?idx (name @ to_string (int i)) = None"
    using Suc.hyps(2) Suc.prems k keys_sorted_shift [of 0 idx]
    by (auto simp: M numbered_name_inj intro!: keys_sorted_emplace)
  obtain idx' where idx': "ports_forward name [Suc k..<n] (?descs, ?idx) =
      ((replicate (n - Suc k) GeTensorDesc_default @ ?descs, idx'), GRAPH_SUCCESS)"
    and new: "\<And>i. Suc k \<le> i \<Longrightarrow> i < n \<Longrightarrow> map_of idx' (name @ to_string (int i)) = Some (n - 1 - i)"
    and old: "\<And>m. m \<notin> (\<lambda>i. name @ to_string (int i)) ` {Suc k..<n} \<Longrightarrow>
      map_of idx' m = map_option (\<lambda>j. j + (n - Suc k)) (map_of ?idx m)"
    using Suc.hyps(1) [OF IH] by blast
  have descs: "replicate (n - Suc k) GeTensorDesc_default @ ?descs = replicate (n - k) GeTensorDesc_default @ descs"
    using k by (simp add: replicate_app_Cons_same replicate_Suc [symmetric] Suc_diff_Suc del: replicate_Suc)
  have fresh: "?p \<notin> (\<lambda>i. name @ to_string (int i)) ` {Suc k..<n}"
    by (auto simp: numbered_name_inj)
  have "map_of idx' (name @ to_string (int i)) = Some (n - 1 - i)" if "k \<le> i" "i < n" for i
    using new [of i] old [OF fresh] that by (cases "i = k") (auto simp: M)
  moreover have "map_of idx' m = map_option (\<lambda>j. j + (n - k)) (map_of idx m)"
    if "m \<notin> (\<lambda>i. name @ to_string (int i)) ` {k..<n}" for m
  proof -
    have m: "m \<notin> (\<lambda>i. name @ to_string (int i)) ` {Suc k..<n}" "m \<noteq> ?p"
      using that k by auto
    then show ?thesis
      using old [OF m(1)] k by (cases "map_of idx m") (auto simp: M)
  qed
  ultimately show ?case
    unfolding step idx' descs by blast
qed

section \<open>Which format is inferred\<close>













section \<open>Texts of string lists\<close>

text \<open>A name that the text of a list keeps apart from its neighbours.\<close>

definition plain_name :: "string \<Rightarrow> bool" where
  "plain_name n \<longleftrightarrow> n \<noteq> [] \<and> CHR '','' \<notin> set n"

lemma joined_inj:
  "\<lbrakk>list_all plain_name xs; list_all plain_name ys;
    concat (map (\<lambda>x. x @ '', '') xs) = concat (map (\<lambda>x. x @ '', '') ys)\<rbrakk> \<Longrightarrow> xs = ys"
proof (induction xs arbitrary: ys)
  case (Cons x xs)
  then obtain y zs where ys: "ys = y # zs"
    by (cases ys) auto
  have eq: "x @ '', '' @ concat (map (\<lambda>x. x @ '', '') xs) = y @ '', '' @ concat (map (\<lambda>x. x @ '', '') zs)"
    using Cons.prems(3) by (simp add: ys)
  have word: "takeWhile (\<lambda>c. c \<noteq> CHR '','') (n @ '', '' @ s) = n" if "plain_name n" for n s
    using that by (subst takeWhile_append2) (auto simp: plain_name_def)
  have "x = y"
    using word [of x] word [of y] Cons.prems(1,2) eq by (metis list.pred_inject(2) ys)
  with eq Cons.prems Cons.IH [of zs] show ?case
    by (simp add: ys)
next
  case Nil
  then show ?case by (cases ys) simp_all
qed

lemma list_ToString_split:
  assumes "xs \<noteq> []"
  obtains b where "concat (map (\<lambda>x. x @ '', '') xs) = b @ '', ''" "list_ToString xs = ''['' @ b @ '']''"
proof -
  obtain zs z where xs: "xs = zs @ [z]"
    using assms by (cases xs rule: rev_cases) auto
  show thesis
    by (rule that [of "concat (map (\<lambda>x. x @ '', '') zs) @ z"]) (simp_all add: xs list_ToString_def Let_def)
qed

lemma list_ToString_inj:
  assumes "list_all plain_name xs" "list_all plain_name ys"
  shows "list_ToString xs = list_ToString ys \<longleftrightarrow> xs = ys"
proof
  assume eq: "list_ToString xs = list_ToString ys"
  have empty: "list_ToString ns = ''[]'' \<longleftrightarrow> ns = []" if "list_all plain_name ns" for ns
  proof (cases ns)
    case (Cons n ms)
    obtain b where b: "concat (map (\<lambda>x. x @ '', '') ns) = b @ '', ''" "list_ToString ns = ''['' @ b @ '']''"
      using list_ToString_split [of ns] Cons by blast
    have "n \<noteq> []"
      using that Cons by (simp add: plain_name_def)
    then have "2 < length (concat (map (\<lambda>x. x @ '', '') ns))"
      by (cases n) (simp_all add: Cons)
    then have "b \<noteq> []"
      unfolding b(1) by auto
    then show ?thesis
      using b Cons by simp
  qed (simp add: list_ToString_def)
  show "xs = ys"
  proof (cases "xs = [] \<or> ys = []")
    case True
    then show ?thesis
      using eq empty [OF assms(1)] empty [OF assms(2)] by (auto simp: list_ToString_def)
  next
    case False
    obtain b where b: "concat (map (\<lambda>x. x @ '', '') xs) = b @ '', ''" "list_ToString xs = ''['' @ b @ '']''"
      using list_ToString_split [of xs] False by blast
    obtain c where c: "concat (map (\<lambda>x. x @ '', '') ys) = c @ '', ''" "list_ToString ys = ''['' @ c @ '']''"
      using list_ToString_split [of ys] False by blast
    show ?thesis
      using eq b c by (intro joined_inj [OF assms]) simp
  qed
qed simp

lemma bools_ToString_inj: "bools_ToString bs = bools_ToString cs \<longleftrightarrow> bs = cs"
proof -
  have plain: "list_all plain_name (map (\<lambda>b. if b then ''1'' else ''0'') bs)" for bs
    by (auto simp: list_all_iff plain_name_def)
  have "inj (\<lambda>b. if b then ''1'' else ''0'')"
    by (auto simp: inj_def)
  then show ?thesis
    unfolding bools_ToString_def list_ToString_inj [OF plain plain] by (rule inj_map_eq_map)
qed

section \<open>Properties\<close>

text \<open> C9: In every description built by the operations that add, number, register and replace inputs
  and outputs - whatever their arguments and statuses - the index of the name at a position is
  that position, and the name at the index of a name is that name: names and positions are in
  bijection, with no position unnamed and no name beyond the ports. (\<^verbatim>\<open>UpdateInputName\<close>
  and \<^verbatim>\<open>RestoreInputNameIdx\<close>, which install a map of the caller, are left out: they can break it.)
\<close>

theorem op_desc_names_positions:
  assumes "op_reachable od"
  shows "(\<forall>i<GetAllInputsSize od. GetInputIndexByName (GetInputNameByIndex i od) od = int i) \<and>
    (\<forall>n i. GetInputIndexByName n od = int i \<longrightarrow> i < GetAllInputsSize od \<and> GetInputNameByIndex i od = n) \<and>
    (\<forall>i<GetOutputsSize od. GetOutputIndexByName (GetOutputNameByIndex i od) od = int i) \<and>
    (\<forall>n i. GetOutputIndexByName n od = int i \<longrightarrow> i < GetOutputsSize od \<and> GetOutputNameByIndex i od = n)"
  using op_reachable_ok [OF assms]
  unfolding op_ok_simps GetInputIndexByName_def GetInputNameByIndex_def GetOutputIndexByName_def
    GetOutputNameByIndex_def GetAllInputsSize_def GetOutputsSize_def
  by (blast intro: port_ok_inverse(1) dest: port_ok_inverse(2))

text \<open>Two plain inputs and two dynamic ones between them.\<close>

definition demo_op :: "string ge_op_desc" where
  "demo_op = fst (AddDynamicInputDescByIndex ''d'' 2 1
     (fst (AddInputDesc ''y'' GeTensorDesc_default (fst (AddInputDesc ''x'' GeTensorDesc_default (OpDesc_of ''n'' ''Concat''))))))"

lemma demo_op_reachable: "op_reachable demo_op"
  unfolding demo_op_def by (intro op_add_by_index op_add_input op_init)

lemma to_string_digits: "to_string 0 = ''0''" "to_string 1 = ''1''"
  by code_simp+

lemma demo_inputs:
  "inputs_desc demo_op = [GeTensorDesc_default, GeTensorDesc_default, GeTensorDesc_default, GeTensorDesc_default] \<and>
   input_name_idx demo_op = [(''d0'', 1), (''d1'', 2), (''x'', 0), (''y'', 3)]"
  by (simp add: demo_op_def AddDynamicInputDescByIndex_def AddInputDescMiddle_def AddInputDesc_def OpDesc_of_def
      OpDesc_SetName_def OpDesc_SetType_def OpDesc_default_def Let_def shift_from_def map_emplace_def eval_nat_numeral to_string_digits)

theorem op_desc_names_positions_witness:
  "op_reachable demo_op \<and> GetInputIndexByName (GetInputNameByIndex 2 demo_op) demo_op = 2 \<and>
    GetInputNameByIndex 2 demo_op = ''d1''"
  using op_desc_names_positions [OF demo_op_reachable, THEN conjunct1, rule_format, of 2]
    op_desc_names_positions [OF demo_op_reachable] demo_op_reachable
  by (simp add: GetAllInputsSize_def GetInputNameByIndex_def name_at_def demo_inputs)

text \<open> C33: Dynamic inputs that are inserted at an index no greater than the number of inputs, under names not
  taken, stand at that index in the order of their numbers, with default descriptions; the inputs
  that stood there or later move up by their number and all other inputs, and the outputs, stay.
  Put in front of all inputs they stand in the reverse order of their numbers.
\<close>

theorem dynamic_inputs_positions:
  assumes "op_reachable od" "\<forall>i<num. GetInputIndexByName (name @ to_string (int i)) od = - 1"
    and "index \<le> GetAllInputsSize od"
  shows "(\<exists>od'. AddDynamicInputDescByIndex name num index od = (od', GRAPH_SUCCESS) \<and>
      inputs_desc od' = take index (inputs_desc od) @ replicate num GeTensorDesc_default @ drop index (inputs_desc od) \<and>
      (\<forall>i<num. GetInputIndexByName (name @ to_string (int i)) od' = int (index + i)) \<and>
      (\<forall>n. n \<notin> (\<lambda>i. name @ to_string (int i)) ` {0..<num} \<longrightarrow>
        GetInputIndexByName n od' = (let j = GetInputIndexByName n od in if int index \<le> j then j + int num else j)) \<and>
      output_ports od' = output_ports od) \<and>
    (\<exists>od'. AddDynamicInputDesc name num False od = (od', GRAPH_SUCCESS) \<and>
      inputs_desc od' = replicate num GeTensorDesc_default @ inputs_desc od \<and>
      (\<forall>i<num. GetInputIndexByName (name @ to_string (int i)) od' = int (num - 1 - i)) \<and>
      (\<forall>n. n \<notin> (\<lambda>i. name @ to_string (int i)) ` {0..<num} \<longrightarrow>
        GetInputIndexByName n od' = (let j = GetInputIndexByName n od in if 0 \<le> j then j + int num else j)) \<and>
      output_ports od' = output_ports od \<and>
      register_input_name od' = add_once name (register_input_name od))"
proof -
  have sorted: "keys_sorted (input_name_idx od)"
    using op_reachable_ok [OF assms(1)] by (simp add: op_ok_simps port_ok_def)
  have free: "map_of (input_name_idx od) (name @ to_string (int i)) = None" if "i < num" for i
    using that assms(2) by (auto simp: GetInputIndexByName_def split: option.splits)
  obtain idx1 where 1: "ports_middle name [0..<num] index (inputs_desc od, input_name_idx od) =
      ((take index (inputs_desc od) @ replicate num GeTensorDesc_default @ drop index (inputs_desc od), idx1), GRAPH_SUCCESS)"
    "\<forall>i. i < num \<longrightarrow> map_of idx1 (name @ to_string (int i)) = Some (index + i)"
    "\<forall>m. m \<notin> (\<lambda>i. name @ to_string (int i)) ` {0..<num} \<longrightarrow>
      map_of idx1 m = map_option (\<lambda>j. if index \<le> j then j + num else j) (map_of (input_name_idx od) m)"
    using ports_middle_spec [OF sorted, of index 0 "inputs_desc od" num name, unfolded diff_zero add_0_right] assms(3) free
    by (auto simp: GetAllInputsSize_def)
  obtain idx2 where 2: "ports_forward name [0..<num] (inputs_desc od, input_name_idx od) =
      ((replicate num GeTensorDesc_default @ inputs_desc od, idx2), GRAPH_SUCCESS)"
    "\<forall>i. i < num \<longrightarrow> map_of idx2 (name @ to_string (int i)) = Some (num - 1 - i)"
    "\<forall>m. m \<notin> (\<lambda>i. name @ to_string (int i)) ` {0..<num} \<longrightarrow>
      map_of idx2 m = map_option (\<lambda>j. j + num) (map_of (input_name_idx od) m)"
    using ports_forward_spec [OF sorted, of 0 num name "inputs_desc od"] free by auto
  have shift: "(case map_option (\<lambda>j. if p \<le> j then j + num else j) x of None \<Rightarrow> - 1 | Some j \<Rightarrow> int j) =
      (let j = case x of None \<Rightarrow> - 1 | Some j \<Rightarrow> int j in if int p \<le> j then j + int num else j)" for p :: nat and x
    by (cases x) (simp_all add: Let_def)
  show ?thesis
    using 1 2 shift [of 0] shift [of index]
    by (simp add: AddDynamicInputDescByIndex_def AddInputDescMiddle_def AddDynamicInputDesc_def AddInputDescForward_def
        AddRegisterInputName_def GetInputIndexByName_def output_ports_def)
qed


theorem dynamic_inputs_positions_witness:
  "GetInputIndexByName ''x'' (fst (AddDynamicInputDesc ''e'' 2 False demo_op)) = 2 \<and>
   GetInputIndexByName ''e0'' (fst (AddDynamicInputDesc ''e'' 2 False demo_op)) = 1"
proof -
  have free: "\<forall>i<2. GetInputIndexByName (''e'' @ to_string (int i)) demo_op = - 1"
    by (simp add: GetInputIndexByName_def demo_inputs)
  have names: "''x'' \<notin> (\<lambda>i. ''e'' @ to_string (int i)) ` {0..<2}" "''e0'' = ''e'' @ to_string (int 0)"
    by (simp_all add: to_string_digits image_iff)
  have x: "GetInputIndexByName ''x'' demo_op = 0"
    by (simp add: GetInputIndexByName_def demo_inputs)
  show ?thesis
    using dynamic_inputs_positions [OF demo_op_reachable free, of 0, THEN conjunct2] x names(1)
    unfolding names(2) by (auto simp: Let_def dest: spec [of _ "0 :: nat"])
qed



text \<open> C35: Two descriptions compare equal exactly when every field that is compared is equal, as long as the
  names in the lists of strings are not empty and have no comma, although lists are compared as texts.
  Attributes and the identifier are not compared.
\<close>

theorem op_desc_fields_equality:
  assumes "\<forall>names\<in>{op_input od, op_input r, op_input_name od, op_input_name r, op_src_name od, op_src_name r,
    op_dst_name od, op_dst_name r}. list_all plain_name names"
  shows "OpDescAttrsAreEqual od r \<longleftrightarrow>
    op_name od = op_name r \<and> op_type od = op_type r \<and> op_input od = op_input r \<and>
    op_has_out_attr od = op_has_out_attr r \<and> op_stream_id od = op_stream_id r \<and>
    op_input_name od = op_input_name r \<and> op_src_name od = op_src_name r \<and> op_dst_name od = op_dst_name r \<and>
    op_src_index od = op_src_index r \<and> op_dst_index od = op_dst_index r \<and> op_input_i od = op_input_i r \<and>
    op_output_i od = op_output_i r \<and> op_workspace od = op_workspace r \<and>
    op_workspace_bytes od = op_workspace_bytes r \<and> op_is_input_const od = op_is_input_const r"
  using assms by (simp add: OpDescAttrsAreEqual_def dims_ToString_inj bools_ToString_inj list_ToString_inj)

theorem op_desc_fields_equality_witness:
  "\<not> OpDescAttrsAreEqual (SetSrcName [''a'', ''b''] (OpDesc_of ''n'' ''t'' :: string ge_op_desc)) (OpDesc_of ''n'' ''t'')"
  using op_desc_fields_equality [of "SetSrcName [''a'', ''b''] (OpDesc_of ''n'' ''t'' :: string ge_op_desc)" "OpDesc_of ''n'' ''t''"]
  by (simp add: SetSrcName_def OpDesc_of_def OpDesc_SetName_def OpDesc_SetType_def OpDesc_default_def plain_name_def)

text \<open>Without that restriction different lists have the same text.\<close>

lemma string_lists_compared_as_text:
  "OpDescAttrsAreEqual (SetSrcName [''a, b''] od) (SetSrcName [''a'', ''b''] od) \<and>
   OpDescAttrsAreEqual (SetSrcName [[]] od) (SetSrcName [] od)"
  by (simp add: OpDescAttrsAreEqual_def SetSrcName_def list_ToString_def Let_def)

end
