(* ===== verification/OpDefs.thy ===== *)
theory OpDefs
  imports OpDescs
begin

text \<open>
  Operator descriptions as messages: the part of \<^verbatim>\<open>graph/model_serialize.cc\<close> that turns an
  operator description into an \<^verbatim>\<open>OpDef\<close> message of \<^verbatim>\<open>proto/ge_ir.proto\<close> and back. The members of a
  description that are not fields of the message travel as attributes with reserved names. The
  encoding of messages as bytes belongs to protobuf.
\<close>

section \<open>The message\<close>

record 'm op_def =
  d_name :: string
  d_type :: string
  d_input :: "string list"
  d_attr :: "(string \<times> 'm attr_def) list"
  d_has_out_attr :: bool
  d_id :: "64 word"
  d_stream_id :: "64 word"
  d_input_name :: "string list"
  d_src_name :: "string list"
  d_src_index :: "64 word list"
  d_dst_name :: "string list"
  d_dst_index :: "64 word list"
  d_input_i :: "64 word list"
  d_output_i :: "64 word list"
  d_workspace :: "64 word list"
  d_workspace_bytes :: "64 word list"
  d_is_input_const :: "bool list"
  d_input_desc :: "'m ge_tensor_desc list"
  d_output_desc :: "'m ge_tensor_desc list"
  d_subgraph_name :: "string list"

text \<open>
  The message a description is kept in. Its repeated fields of tensor descriptions are not used
  while it is part of a description.
\<close>

definition op_def_of :: "'m ge_op_desc \<Rightarrow> 'm op_def" where
  "op_def_of od =
     \<lparr>d_name = op_name od, d_type = op_type od, d_input = op_input od, d_attr = attr_map od,
      d_has_out_attr = op_has_out_attr od, d_id = op_id od, d_stream_id = op_stream_id od,
      d_input_name = op_input_name od, d_src_name = op_src_name od, d_src_index = op_src_index od,
      d_dst_name = op_dst_name od, d_dst_index = op_dst_index od, d_input_i = op_input_i od,
      d_output_i = op_output_i od, d_workspace = op_workspace od,
      d_workspace_bytes = op_workspace_bytes od, d_is_input_const = op_is_input_const od,
      d_input_desc = [], d_output_desc = [], d_subgraph_name = op_subgraph_name od\<rparr>"

text \<open>A new description around a message, before its constructor runs.\<close>

definition desc_around :: "'m op_def \<Rightarrow> 'm ge_op_desc" where
  "desc_around d = OpDesc_default
     \<lparr>attr_map := d_attr d, op_name := d_name d, op_type := d_type d, op_input := d_input d,
      op_has_out_attr := d_has_out_attr d, op_id := d_id d, op_stream_id := d_stream_id d,
      op_input_name := d_input_name d, op_src_name := d_src_name d, op_src_index := d_src_index d,
      op_dst_name := d_dst_name d, op_dst_index := d_dst_index d, op_input_i := d_input_i d,
      op_output_i := d_output_i d, op_workspace := d_workspace d,
      op_workspace_bytes := d_workspace_bytes d, op_is_input_const := d_is_input_const d,
      op_subgraph_name := d_subgraph_name d\<rparr>"

text \<open>The message of a tensor description does not hold the names of its required attributes.\<close>

definition tensor_message :: "'m ge_tensor_desc \<Rightarrow> 'm ge_tensor_desc" where
  "tensor_message td = td\<lparr>requiredAttrs := []\<rparr>"

section \<open>Writing\<close>

definition ATTR_NAME_FRAMEWORK_NODE_DEF :: string where "ATTR_NAME_FRAMEWORK_NODE_DEF = ''node_def''"
definition ATTR_NAME_FRAMEWORK_OP_DEF :: string where "ATTR_NAME_FRAMEWORK_OP_DEF = ''op_def''"
definition ATTR_NAME_FRAMEWORK_FUNC_DEF :: string where "ATTR_NAME_FRAMEWORK_FUNC_DEF = ''func_def''"
definition ATTR_NAME_WEIGHTS :: string where "ATTR_NAME_WEIGHTS = ''value''"

text \<open>Inserting into the map of attributes keeps an entry that is there.\<close>

definition attr_insert :: "string \<Rightarrow> 'm attr_def \<Rightarrow> (string \<times> 'm attr_def) list \<Rightarrow> (string \<times> 'm attr_def) list" where
  "attr_insert k v attrs = (if map_of attrs k \<noteq> None then attrs else attrs @ [(k, v)])"

text \<open>A list of strings or of integers whose kind is not recorded.\<close>

definition raw_strings :: "string list \<Rightarrow> 'm attr_def" where
  "raw_strings ss = AttrList (empty_list_value\<lparr>lv_s := ss\<rparr>)"

definition raw_ints :: "nat list \<Rightarrow> 'm attr_def" where
  "raw_ints is = AttrList (empty_list_value\<lparr>lv_i := map of_nat is\<rparr>)"

definition insert_names :: "string \<Rightarrow> string \<Rightarrow> name_idx \<Rightarrow> (string \<times> 'm attr_def) list \<Rightarrow> (string \<times> 'm attr_def) list" where
  "insert_names key value idx attrs =
     (if idx = [] then attrs
      else attr_insert value (raw_ints (map snd idx)) (attr_insert key (raw_strings (map fst idx)) attrs))"

definition OpDescToAttrDef :: "'m ge_op_desc \<Rightarrow> 'm op_def \<Rightarrow> 'm op_def" where
  "OpDescToAttrDef od d =
     (let attrs = insert_names ''_input_name_key'' ''_input_name_value'' (input_name_idx od) (d_attr d);
          attrs = insert_names ''_output_name_key'' ''_output_name_value'' (output_name_idx od) attrs
      in d\<lparr>d_attr :=
           if optional_input_names od = [] then attrs
           else attr_insert ''_opt_input'' (raw_strings (optional_input_names od)) attrs\<rparr>)"

definition erase_dump_attrs :: "'m op_def \<Rightarrow> 'm op_def" where
  "erase_dump_attrs d =
     (let attrs = AList.delete ATTR_NAME_FRAMEWORK_FUNC_DEF
            (AList.delete ATTR_NAME_FRAMEWORK_OP_DEF (AList.delete ATTR_NAME_FRAMEWORK_NODE_DEF (d_attr d)))
      in d\<lparr>d_attr :=
           if d_type d = ''Const'' \<or> d_type d = ''Constant'' then AList.delete ATTR_NAME_WEIGHTS attrs else attrs\<rparr>)"

definition SerializeOpDesc :: "bool \<Rightarrow> 'm ge_op_desc \<Rightarrow> 'm op_def" where
  "SerializeOpDesc is_dump od =
     (let d = op_def_of od;
          d = (if is_dump then erase_dump_attrs d else d)
      in OpDescToAttrDef od
           (d\<lparr>d_input_desc := map tensor_message (inputs_desc od),
              d_output_desc := map tensor_message (outputs_desc od),
              d_id := OpDesc_GetId od,
              d_subgraph_name := d_subgraph_name d @ subgraph_instance_names od\<rparr>))"

section \<open>Reading\<close>

text \<open>An attribute with a reserved name, read as a list and erased.\<close>

definition take_list :: "string \<Rightarrow> (string \<times> 'm attr_def) list \<Rightarrow> 'm list_value \<times> (string \<times> 'm attr_def) list" where
  "take_list k attrs =
     (case map_of attrs k of
        None \<Rightarrow> (empty_list_value, attrs)
      | Some d \<Rightarrow> (mutable_list d, AList.delete k attrs))"

definition uint32_of :: "64 word \<Rightarrow> nat" where
  "uint32_of i = unat (ucast i :: 32 word)"

definition emplace_all :: "string list \<Rightarrow> nat list \<Rightarrow> name_idx \<Rightarrow> name_idx" where
  "emplace_all keys values idx =
     (if keys = [] then idx
      else if length keys \<noteq> length values then idx
      else fold (\<lambda>(k, v). map_emplace k v) (zip keys values) idx)"

definition AttrDefToOpDesc ::
  "string list \<Rightarrow> string list \<Rightarrow> nat list \<Rightarrow> nat list \<Rightarrow> string list \<Rightarrow> 'm ge_op_desc \<Rightarrow> 'm ge_op_desc" where
  "AttrDefToOpDesc key_in key_out value_in value_out opt_input od =
     od\<lparr>input_name_idx := emplace_all key_in value_in (input_name_idx od),
        output_name_idx := emplace_all key_out value_out (output_name_idx od),
        optional_input_names := fold set_insert opt_input (optional_input_names od)\<rparr>"

text \<open>The loop over the names of subgraphs; the codes of its two calls are not read.\<close>

fun add_subgraphs :: "nat \<Rightarrow> string list \<Rightarrow> 'm ge_op_desc \<Rightarrow> 'm ge_op_desc" where
  "add_subgraphs graph_index [] od = od"
| "add_subgraphs graph_index (name # names) od =
     add_subgraphs (graph_index + 1) names
       (fst (SetSubgraphInstanceName graph_index name (fst (AddSubgraphName name od))))"

definition UnserializeOpDesc :: "'m op_def \<Rightarrow> 'm ge_op_desc" where
  "UnserializeOpDesc d =
     (let (opt_input, attrs) = take_list ''_opt_input'' (d_attr d);
          (key_in, attrs) = take_list ''_input_name_key'' attrs;
          (value_in, attrs) = take_list ''_input_name_value'' attrs;
          (key_out, attrs) = take_list ''_output_name_key'' attrs;
          (value_out, attrs) = take_list ''_output_name_value'' attrs;
          od = OpDesc_of_proto (desc_around (d\<lparr>d_attr := attrs\<rparr>));
          od = od\<lparr>inputs_desc := map (\<lambda>td. GeTensorDesc_of_proto (tensor_message td)) (d_input_desc d),
                  outputs_desc := map (\<lambda>td. GeTensorDesc_of_proto (tensor_message td)) (d_output_desc d)\<rparr>;
          od = OpDesc_SetId (op_id od) od;
          od = add_subgraphs 0 (d_subgraph_name d) od
      in AttrDefToOpDesc (lv_s key_in) (lv_s key_out) (map uint32_of (lv_i value_in))
           (map uint32_of (lv_i value_out)) (lv_s opt_input) od)"

end
