(* ===== verification/OpDef_Properties.thy ===== *)
theory OpDef_Properties
  imports OpDefs
begin

text \<open>
  What a description looks like after it has been written to a message and read back.
\<close>

section \<open>Sorted maps and sets\<close>

lemma map_put_snoc:
  "(\<And>x. x \<in> set m \<Longrightarrow> str_less (fst x) k) \<Longrightarrow> map_put k v m = m @ [(k, v)]"
proof (induction m)
  case (Cons x m)
  obtain k' v' where x: "x = (k', v')" by (cases x)
  have "str_less k' k" using Cons.prems [of x] by (simp add: x)
  then have "k \<noteq> k'" "\<not> str_less k k'" using str_less_trans [of k' k k'] by auto
  then show ?case using Cons by (simp add: x)
qed simp

lemma keys_sorted_snoc:
  "keys_sorted (m @ [(k, v)]) \<longleftrightarrow> keys_sorted m \<and> (\<forall>x \<in> set m. str_less (fst x) k)"
  by (auto simp: keys_sorted_def sorted_wrt_append)

text \<open>Inserting the entries of a sorted map in order rebuilds it.\<close>

lemma rebuild_map: "keys_sorted m \<Longrightarrow> fold (\<lambda>(k, v). map_emplace k v) m [] = m"
proof (induction m rule: rev_induct)
  case (snoc x m)
  obtain k v where x: "x = (k, v)" by (cases x)
  have s: "keys_sorted m" "\<And>y. y \<in> set m \<Longrightarrow> str_less (fst y) k"
    using snoc.prems by (auto simp: x keys_sorted_snoc)
  have "map_of m k = None"
  proof -
    have "k \<notin> fst ` set m" using s(2) by fastforce
    then show ?thesis by (simp add: map_of_eq_None_iff)
  qed
  then show ?case using snoc.IH [OF s(1)] map_put_snoc [OF s(2)] by (simp add: x map_emplace_def)
qed simp

lemma rebuild_set: "sorted_wrt str_less xs \<Longrightarrow> fold set_insert xs [] = xs"
proof (induction xs rule: rev_induct)
  case (snoc x xs)
  have s: "sorted_wrt str_less xs" "\<And>y. y \<in> set xs \<Longrightarrow> str_less y x"
    using snoc.prems by (auto simp: sorted_wrt_append)
  have "map_put x () (map (\<lambda>x. (x, ())) xs) = map (\<lambda>x. (x, ())) xs @ [(x, ())]"
    using s(2) by (intro map_put_snoc) auto
  then show ?case using snoc.IH [OF s(1)] by (simp add: set_insert_def comp_def)
qed simp

section \<open>Names of subgraphs\<close>

definition number_names :: "nat \<Rightarrow> string list \<Rightarrow> name_idx \<Rightarrow> name_idx" where
  "number_names i names idx = fold (\<lambda>(k, v). map_put k v) (zip names [i..<i + length names]) idx"

lemma number_names_Cons: "number_names i (k # ks) idx = number_names (Suc i) ks (map_put k i idx)"
proof -
  have "[i..<i + length (k # ks)] = i # [Suc i..<Suc i + length ks]" by (subst upt_conv_Cons) simp_all
  then show ?thesis by (simp add: number_names_def)
qed

lemma length_map_put: "map_of m k = None \<Longrightarrow> length (map_put k v m) = Suc (length m)"
  by (induction m) (auto split: if_splits)

lemma add_subgraphs_new:
  assumes "distinct names" "\<And>n. n \<in> set names \<Longrightarrow> map_of (subgraph_names_to_index od) n = None"
    "length (subgraph_names_to_index od) = i" "length (subgraph_instance_names od) = i"
  shows "add_subgraphs i names od =
    od\<lparr>subgraph_names_to_index := number_names i names (subgraph_names_to_index od),
       subgraph_instance_names := subgraph_instance_names od @ names\<rparr>"
  using assms
proof (induction names arbitrary: i od)
  case (Cons n names)
  let ?od = "od\<lparr>subgraph_names_to_index := map_put n i (subgraph_names_to_index od),
       subgraph_instance_names := subgraph_instance_names od @ [n]\<rparr>"
  have "fst (SetSubgraphInstanceName i n (fst (AddSubgraphName n od))) = ?od"
    using Cons.prems by (simp add: AddSubgraphName_def SetSubgraphInstanceName_def Let_def list_update_append)
  moreover have "add_subgraphs (Suc i) names ?od =
      ?od\<lparr>subgraph_names_to_index := number_names (Suc i) names (subgraph_names_to_index ?od),
         subgraph_instance_names := subgraph_instance_names ?od @ names\<rparr>"
    using Cons.prems by (intro Cons.IH) (auto simp: map_of_put length_map_put)
  ultimately show ?case by (simp add: number_names_Cons)
qed (simp add: number_names_def)

text \<open>Names that are there already change nothing.\<close>

lemma add_subgraphs_known:
  assumes "\<And>n. n \<in> set names \<Longrightarrow> map_of (subgraph_names_to_index od) n \<noteq> None"
    "length (subgraph_instance_names od) \<le> i"
  shows "add_subgraphs i names od = od"
  using assms
  by (induction names arbitrary: i) (simp_all add: AddSubgraphName_def SetSubgraphInstanceName_def)

lemma add_subgraphs_append:
  "add_subgraphs i (xs @ ys) od = add_subgraphs (i + length xs) ys (add_subgraphs i xs od)"
  by (induction xs arbitrary: i od) simp_all

lemma map_of_number_names:
  "map_of (number_names i names idx) n = None \<longleftrightarrow> n \<notin> set names \<and> map_of idx n = None"
  by (induction names arbitrary: i idx) (auto simp: number_names_def [of _ "[]"] number_names_Cons map_of_put)

lemma add_subgraphs_cong:
  "subgraph_names_to_index od = subgraph_names_to_index od' \<Longrightarrow>
   subgraph_instance_names od = subgraph_instance_names od' \<Longrightarrow>
   subgraph_instance_names (add_subgraphs i names od) = subgraph_instance_names (add_subgraphs i names od')"
  by (induction names arbitrary: i od od') (simp_all add: AddSubgraphName_def SetSubgraphInstanceName_def Let_def)

lemma concat_replicate_snoc: "concat (replicate k xs) @ xs = concat (replicate (Suc k) xs)"
  by (induction k) simp_all

lemma add_subgraphs_repeated:
  assumes "distinct names" "subgraph_names_to_index od = []" "subgraph_instance_names od = []"
  shows "add_subgraphs 0 (concat (replicate (Suc k) names)) od =
    od\<lparr>subgraph_names_to_index := number_names 0 names [], subgraph_instance_names := names\<rparr>"
proof -
  let ?od = "od\<lparr>subgraph_names_to_index := number_names 0 names [], subgraph_instance_names := names\<rparr>"
  have "add_subgraphs 0 names od = ?od" using add_subgraphs_new [of names od 0] assms by simp
  moreover have "add_subgraphs (length names) (concat (replicate k names)) ?od = ?od"
    by (rule add_subgraphs_known) (auto simp: map_of_number_names)
  ultimately show ?thesis by (simp add: add_subgraphs_append)
qed

section \<open>Reserved attributes\<close>

definition reserved_attrs :: "string list" where
  "reserved_attrs =
     [''_input_name_key'', ''_input_name_value'', ''_output_name_key'', ''_output_name_value'', ''_opt_input'']"

definition reserved_free :: "(string \<times> 'm attr_def) list \<Rightarrow> bool" where
  "reserved_free m \<longleftrightarrow> (\<forall>k \<in> set reserved_attrs. map_of m k = None)"

lemma reserved_freeD:
  assumes "reserved_free m"
  shows "map_of m ''_input_name_key'' = None" "map_of m ''_input_name_value'' = None"
    "map_of m ''_output_name_key'' = None" "map_of m ''_output_name_value'' = None" "map_of m ''_opt_input'' = None"
  using assms by (simp_all add: reserved_free_def reserved_attrs_def)

lemma delete_absent: "map_of m k = None \<Longrightarrow> AList.delete k m = m"
  by (rule delete_id) (simp add: map_of_eq_None_iff)

lemma take_append:
  "map_of m k = None \<Longrightarrow> take_list k (m @ xs) = (fst (take_list k xs), m @ snd (take_list k xs))"
  by (simp add: take_list_def AList.delete_eq delete_absent [unfolded AList.delete_eq] map_add_def split: option.split)

lemma insert_append: "map_of m k = None \<Longrightarrow> attr_insert k v (m @ xs) = m @ attr_insert k v xs"
  by (simp add: attr_insert_def map_add_def split: option.split)

lemma insert_names_append:
  "map_of m k = None \<Longrightarrow> map_of m k' = None \<Longrightarrow> insert_names k k' idx (m @ xs) = m @ insert_names k k' idx xs"
  by (simp add: insert_names_def insert_append)

text \<open>The attributes that carry the members.\<close>

definition carried :: "string \<Rightarrow> string \<Rightarrow> string \<Rightarrow> string \<Rightarrow> string \<Rightarrow> name_idx \<Rightarrow> name_idx \<Rightarrow> string list \<Rightarrow> (string \<times> 'm attr_def) list" where
  "carried ik iv ok ov oi ins outs opts =
     (let attrs = insert_names ok ov outs (insert_names ik iv ins [])
      in if opts = [] then attrs else attr_insert oi (raw_strings opts) attrs)"

abbreviation carried_members :: "'m ge_op_desc \<Rightarrow> (string \<times> 'm attr_def) list" where
  "carried_members od \<equiv>
     carried ''_input_name_key'' ''_input_name_value'' ''_output_name_key'' ''_output_name_value'' ''_opt_input''
       (input_name_idx od) (output_name_idx od) (optional_input_names od)"

lemma OpDescToAttrDef_carried:
  assumes "reserved_free (d_attr d)"
  shows "OpDescToAttrDef od d =
    d\<lparr>d_attr := d_attr d @ carried_members od\<rparr>"
proof -
  note r = reserved_freeD [OF assms]
  have "insert_names ''_input_name_key'' ''_input_name_value'' (input_name_idx od) (d_attr d) =
      d_attr d @ insert_names ''_input_name_key'' ''_input_name_value'' (input_name_idx od) []"
    using insert_names_append [OF r(1,2), of _ "[]"] by simp
  then show ?thesis
    by (simp add: OpDescToAttrDef_def carried_def insert_names_append r insert_append Let_def)
qed

definition take_all :: "string \<Rightarrow> string \<Rightarrow> string \<Rightarrow> string \<Rightarrow> string \<Rightarrow> (string \<times> 'm attr_def) list \<Rightarrow>
    string list \<times> string list \<times> nat list \<times> string list \<times> nat list \<times> (string \<times> 'm attr_def) list" where
  "take_all ik iv ok ov oi attrs =
     (let (opt_input, attrs) = take_list oi attrs;
          (key_in, attrs) = take_list ik attrs;
          (value_in, attrs) = take_list iv attrs;
          (key_out, attrs) = take_list ok attrs;
          (value_out, attrs) = take_list ov attrs
      in (lv_s opt_input, lv_s key_in, map uint32_of (lv_i value_in), lv_s key_out,
          map uint32_of (lv_i value_out), attrs))"

lemma take_all_append:
  assumes "\<forall>k \<in> {ik, iv, ok, ov, oi}. map_of m k = None"
  shows "take_all ik iv ok ov oi (m @ xs) =
    (case take_all ik iv ok ov oi xs of (o', ki, vi, ko, vo, ys) \<Rightarrow> (o', ki, vi, ko, vo, m @ ys))"
  using assms by (simp add: take_all_def take_append case_prod_unfold Let_def)

lemma uint32_of_nat: "i < 2^32 \<Longrightarrow> uint32_of (of_nat i) = i"
proof -
  assume "i < 2^32"
  then have "unat (of_nat i :: 64 word) = i" by (simp add: unat_of_nat)
  then show ?thesis using \<open>i < 2^32\<close> by (simp add: uint32_of_def unsigned_ucast_eq take_bit_nat_eq_self unat_of_nat unsigned_take_bit_eq)
qed

text \<open>The carried attributes are three groups, each read back by the calls for its own names.\<close>

definition keys_part :: "string \<Rightarrow> name_idx \<Rightarrow> (string \<times> 'm attr_def) list" where
  "keys_part k idx = (if idx = [] then [] else [(k, raw_strings (map fst idx))])"

definition values_part :: "string \<Rightarrow> name_idx \<Rightarrow> (string \<times> 'm attr_def) list" where
  "values_part k idx = (if idx = [] then [] else [(k, raw_ints (map snd idx))])"

definition opts_part :: "string \<Rightarrow> string list \<Rightarrow> (string \<times> 'm attr_def) list" where
  "opts_part k opts = (if opts = [] then [] else [(k, raw_strings opts)])"

lemmas part_defs = keys_part_def values_part_def opts_part_def

lemma part_absent:
  "k \<noteq> k' \<Longrightarrow> map_of (keys_part k idx) k' = None" "k \<noteq> k' \<Longrightarrow> map_of (values_part k idx) k' = None"
  "k \<noteq> k' \<Longrightarrow> map_of (opts_part k opts) k' = None"
  by (auto simp: part_defs)

lemma carried_parts:
  assumes "distinct [ik, iv, ok, ov, oi]"
  shows "carried ik iv ok ov oi ins outs opts =
    (keys_part ik ins @ values_part iv ins) @ (keys_part ok outs @ values_part ov outs) @ opts_part oi opts"
proof -
  have n: "insert_names k k' idx [] = keys_part k idx @ values_part k' idx" if "k \<noteq> k'" for k k' idx
    using that by (auto simp: insert_names_def part_defs attr_insert_def)
  have o': "(if opts = [] then m else attr_insert oi (raw_strings opts) m) = m @ opts_part oi opts"
    if "map_of m oi = None" for m :: "(string \<times> 'm attr_def) list"
    using that by (simp add: opts_part_def attr_insert_def)
  let ?m = "(keys_part ik ins @ values_part iv ins) @ keys_part ok outs @ values_part ov outs"
  have e: "insert_names ok ov outs (insert_names ik iv ins []) = ?m"
    using assms insert_names_append [of "keys_part ik ins @ values_part iv ins" ok ov outs "[]"]
    by (simp add: n part_absent map_add_def)
  have m: "map_of ?m oi = None" using assms by (simp add: part_absent map_add_def)
  show ?thesis unfolding carried_def Let_def e o' [OF m] by simp
qed

lemma take_parts:
  "lv_s (fst (take_list k (keys_part k idx))) = map fst idx" "snd (take_list k (keys_part k idx)) = []"
  "lv_i (fst (take_list k (values_part k idx))) = map of_nat (map snd idx)" "snd (take_list k (values_part k idx)) = []"
  "lv_s (fst (take_list k (opts_part k opts))) = opts" "snd (take_list k (opts_part k opts)) = []"
  by (simp_all add: part_defs take_list_def raw_strings_def raw_ints_def mutable_list_def empty_list_value_def)

lemma take_prefix:
  "map_of ys k = None \<Longrightarrow> take_list k (xs @ ys) = (fst (take_list k xs), snd (take_list k xs) @ ys)"
  by (simp add: take_list_def AList.delete_eq delete_absent [unfolded AList.delete_eq] map_add_def split: option.split)

lemma take_all_carried:
  fixes ins outs opts
  assumes "\<forall>x \<in> set ins. snd x < 2^32" "\<forall>x \<in> set outs. snd x < 2^32"
    "distinct [ik, iv, ok, ov, oi]"
  shows "take_all ik iv ok ov oi (carried ik iv ok ov oi ins outs opts :: (string \<times> 'm attr_def) list) =
    (opts, map fst ins, map snd ins, map fst outs, map snd outs, [])"
proof -
  have u: "map uint32_of (map of_nat (map snd xs)) = map snd xs" if "\<forall>x \<in> set xs. snd x < 2^32" for xs :: name_idx
    using that by (auto simp: uint32_of_nat)
  let ?i = "keys_part ik ins @ values_part iv ins :: (string \<times> 'm attr_def) list"
  let ?o = "keys_part ok outs @ values_part ov outs :: (string \<times> 'm attr_def) list"
  note d = assms(3) [simplified]
  have 1: "take_list oi (?i @ ?o @ opts_part oi opts) = (fst (take_list oi (opts_part oi opts)), ?i @ ?o)"
    using d take_append [of "?i @ ?o" oi "opts_part oi opts"] by (simp add: part_absent map_add_def take_parts)
  have 2: "take_list ik (?i @ ?o) = (fst (take_list ik (keys_part ik ins)), values_part iv ins @ ?o)"
    using d take_prefix [of "values_part iv ins @ ?o" ik "keys_part ik ins"]
    by (simp add: part_absent [OF not_sym] map_add_def take_parts)
  have 3: "take_list iv (values_part iv ins @ ?o) = (fst (take_list iv (values_part iv ins)), ?o)"
    using d take_prefix [of ?o iv "values_part iv ins"] by (simp add: part_absent [OF not_sym] map_add_def take_parts)
  have 4: "take_list ok ?o = (fst (take_list ok (keys_part ok outs)), values_part ov outs)"
    using d take_prefix [of "values_part ov outs" ok "keys_part ok outs"]
    by (simp add: part_absent [OF not_sym] take_parts)
  show ?thesis
    unfolding take_all_def carried_parts [OF assms(3)] append_assoc [symmetric]
    unfolding append_assoc 1 [unfolded append_assoc] 2 [unfolded append_assoc] 3 [unfolded append_assoc] 4
      Let_def prod.case
    by (simp only: case_prod_unfold take_parts u [OF assms(1)] u [OF assms(2)])
qed

section \<open>The round trip\<close>

abbreviation take_reserved ::
  "(string \<times> 'm attr_def) list \<Rightarrow> string list \<times> string list \<times> nat list \<times> string list \<times> nat list \<times> (string \<times> 'm attr_def) list" where
  "take_reserved \<equiv>
     take_all ''_input_name_key'' ''_input_name_value'' ''_output_name_key'' ''_output_name_value'' ''_opt_input''"

definition with_ports :: "'m op_def \<Rightarrow> 'm ge_op_desc \<Rightarrow> 'm ge_op_desc" where
  "with_ports d od =
     od\<lparr>inputs_desc := map (\<lambda>td. GeTensorDesc_of_proto (tensor_message td)) (d_input_desc d),
        outputs_desc := map (\<lambda>td. GeTensorDesc_of_proto (tensor_message td)) (d_output_desc d)\<rparr>"

lemma UnserializeOpDesc_take:
  "UnserializeOpDesc d =
     (case take_reserved (d_attr d) of (opt, ki, vi, ko, vo, attrs) \<Rightarrow>
        AttrDefToOpDesc ki ko vi vo opt
          (add_subgraphs 0 (d_subgraph_name d) (with_ports d (OpDesc_of_proto (desc_around (d\<lparr>d_attr := attrs\<rparr>))))))"
  by (simp add: UnserializeOpDesc_def take_all_def case_prod_unfold Let_def with_ports_def OpDesc_SetId_def)

lemma subgraphs_read:
  "subgraph_instance_names (UnserializeOpDesc (d :: 'm op_def)) =
     subgraph_instance_names (add_subgraphs 0 (d_subgraph_name d) (OpDesc_default :: 'm ge_op_desc))"
  unfolding UnserializeOpDesc_take AttrDefToOpDesc_def
  by (simp add: case_prod_unfold)
    (rule add_subgraphs_cong; simp add: with_ports_def OpDesc_of_proto_def desc_around_def OpDesc_default_def)

lemma add_subgraphs_frame:
  "OpDesc_GetName (add_subgraphs i names od) = OpDesc_GetName od"
  "inputs_desc (add_subgraphs i names od) = inputs_desc od"
  "outputs_desc (add_subgraphs i names od) = outputs_desc od"
  by (induction names arbitrary: i od)
    (simp_all add: OpDesc_GetName_def AddSubgraphName_def SetSubgraphInstanceName_def Let_def)

lemma read_frame:
  "OpDesc_GetName (UnserializeOpDesc d) = d_name d"
  "length (inputs_desc (UnserializeOpDesc d)) = length (d_input_desc d)"
  "length (outputs_desc (UnserializeOpDesc d)) = length (d_output_desc d)"
proof -
  have a: "OpDesc_GetName (AttrDefToOpDesc ki ko vi vo opt od) = OpDesc_GetName od"
    "inputs_desc (AttrDefToOpDesc ki ko vi vo opt od) = inputs_desc od"
    "outputs_desc (AttrDefToOpDesc ki ko vi vo opt od) = outputs_desc od" for ki ko vi vo opt and od :: "'a ge_op_desc"
    by (simp_all add: AttrDefToOpDesc_def OpDesc_GetName_def)
  have n: "OpDesc_GetName (with_ports d (OpDesc_of_proto (desc_around (d\<lparr>d_attr := attrs\<rparr>)))) = d_name d" for attrs
    by (simp add: with_ports_def OpDesc_GetName_def OpDesc_of_proto_def desc_around_def)
  show "OpDesc_GetName (UnserializeOpDesc d) = d_name d"
    "length (inputs_desc (UnserializeOpDesc d)) = length (d_input_desc d)"
    "length (outputs_desc (UnserializeOpDesc d)) = length (d_output_desc d)"
    by (simp_all add: UnserializeOpDesc_take case_prod_unfold a add_subgraphs_frame n) (simp_all add: with_ports_def)
qed

lemma written_frame:
  "d_name (SerializeOpDesc is_dump od) = OpDesc_GetName od"
  "length (d_input_desc (SerializeOpDesc is_dump od)) = length (inputs_desc od)"
  "length (d_output_desc (SerializeOpDesc is_dump od)) = length (outputs_desc od)"
  by (simp_all add: SerializeOpDesc_def OpDescToAttrDef_def erase_dump_attrs_def op_def_of_def
      OpDesc_GetName_def Let_def)

text \<open>Descriptions that a message can hold: no attribute with a reserved name, the maps are
  maps whose positions fit 32 bits, and no message of an older version is inside. The message of a
  description that was read holds the names of its subgraphs, once for every time it was read.\<close>

definition portable :: "'m ge_op_desc \<Rightarrow> bool" where
  "portable od \<longleftrightarrow>
     op_has_out_attr od \<and> reserved_free (attr_map od) \<and>
     (\<exists>k. op_subgraph_name od = concat (replicate k (subgraph_instance_names od))) \<and>
     distinct (subgraph_instance_names od) \<and>
     keys_sorted (input_name_idx od) \<and> keys_sorted (output_name_idx od) \<and>
     sorted_wrt str_less (optional_input_names od) \<and>
     (\<forall>x \<in> set (input_name_idx od). snd x < 2^32) \<and> (\<forall>x \<in> set (output_name_idx od). snd x < 2^32) \<and>
     (\<forall>td \<in> set (inputs_desc od). td_has_out_attr td) \<and> (\<forall>td \<in> set (outputs_desc od). td_has_out_attr td)"

text \<open>What is left of a description: the names it was registered with and the names in the
  operator's definition are lost, and subgraphs go by their instance names.\<close>

definition reloaded :: "'m ge_op_desc \<Rightarrow> 'm ge_op_desc" where
  "reloaded od =
     od\<lparr>requiredAttrs := [], register_input_name := [], register_output_name := [],
        inputs_desc := map tensor_message (inputs_desc od), outputs_desc := map tensor_message (outputs_desc od),
        op_subgraph_name := op_subgraph_name od @ subgraph_instance_names od,
        subgraph_names_to_index := number_names 0 (subgraph_instance_names od) [],
        subgraph_ir_names_to_type := [], op_kernel_lib_name := [], engine_name := []\<rparr>"

definition dump_attrs :: "bool \<Rightarrow> 'm ge_op_desc \<Rightarrow> 'm ge_op_desc" where
  "dump_attrs is_dump od = (if is_dump then od\<lparr>attr_map := d_attr (erase_dump_attrs (op_def_of od))\<rparr> else od)"

lemma map_of_delete_None: "map_of m k = None \<Longrightarrow> map_of (AList.delete k' m) k = None"
  by (cases "k = k'") (simp_all add: delete_conv')

lemma reserved_free_dump: "reserved_free (attr_map od) \<Longrightarrow> reserved_free (attr_map (dump_attrs is_dump od))"
  by (auto simp: reserved_free_def dump_attrs_def erase_dump_attrs_def op_def_of_def Let_def map_of_delete_None)

lemma message_td: "td_has_out_attr td \<Longrightarrow> GeTensorDesc_of_proto (tensor_message (tensor_message td)) = tensor_message td"
  by (simp add: GeTensorDesc_of_proto_def tensor_message_def)

lemma emplace_all_rebuild:
  "keys_sorted m \<Longrightarrow> emplace_all (map fst m) (map snd m) [] = m"
  using rebuild_map [of m] by (cases m) (simp_all add: emplace_all_def zip_map_fst_snd)

lemma Serialize_portable:
  assumes "portable od"
  shows "SerializeOpDesc is_dump od =
    (op_def_of (dump_attrs is_dump od))
      \<lparr>d_attr := attr_map (dump_attrs is_dump od) @ carried_members od,
       d_input_desc := map tensor_message (inputs_desc od), d_output_desc := map tensor_message (outputs_desc od),
       d_subgraph_name := op_subgraph_name od @ subgraph_instance_names od\<rparr>"
proof -
  have r: "reserved_free (attr_map (dump_attrs is_dump od))"
    using assms by (simp_all add: portable_def reserved_free_dump)
  let ?d = "(if is_dump then erase_dump_attrs (op_def_of od) else op_def_of od)
      \<lparr>d_input_desc := map tensor_message (inputs_desc od), d_output_desc := map tensor_message (outputs_desc od),
       d_id := OpDesc_GetId od, d_subgraph_name := op_subgraph_name od @ subgraph_instance_names od\<rparr>"
  have a: "d_attr ?d = attr_map (dump_attrs is_dump od)"
    by (simp add: dump_attrs_def op_def_of_def)
  have "SerializeOpDesc is_dump od = OpDescToAttrDef od ?d"
    by (simp add: SerializeOpDesc_def erase_dump_attrs_def op_def_of_def Let_def)
  also have "\<dots> = ?d\<lparr>d_attr := attr_map (dump_attrs is_dump od) @ carried_members od\<rparr>"
    using OpDescToAttrDef_carried [of ?d od] r unfolding a by simp
  also have "\<dots> = (op_def_of (dump_attrs is_dump od))
      \<lparr>d_attr := attr_map (dump_attrs is_dump od) @ carried_members od,
       d_input_desc := map tensor_message (inputs_desc od), d_output_desc := map tensor_message (outputs_desc od),
       d_subgraph_name := op_subgraph_name od @ subgraph_instance_names od\<rparr>"
    by (simp add: dump_attrs_def erase_dump_attrs_def op_def_of_def OpDesc_GetId_def Let_def)
  finally show ?thesis .
qed

lemma reload_portable:
  assumes "portable od"
  shows "UnserializeOpDesc (SerializeOpDesc is_dump od) = reloaded (dump_attrs is_dump od)"
proof -
  let ?o = "dump_attrs is_dump od"
  let ?m = "SerializeOpDesc is_dump od"
  have p: "op_has_out_attr od" "distinct (subgraph_instance_names od)" "keys_sorted (input_name_idx od)"
    "keys_sorted (output_name_idx od)" "sorted_wrt str_less (optional_input_names od)"
    "\<forall>x \<in> set (input_name_idx od). snd x < 2^32" "\<forall>x \<in> set (output_name_idx od). snd x < 2^32"
    using assms by (simp_all add: portable_def)
  have r: "reserved_free (attr_map ?o)" using assms by (simp add: portable_def reserved_free_dump)
  have t: "take_reserved (d_attr ?m) =
      (optional_input_names od, map fst (input_name_idx od), map snd (input_name_idx od),
       map fst (output_name_idx od), map snd (output_name_idx od), attr_map ?o)"
    using r by (simp add: Serialize_portable [OF assms] reserved_free_def reserved_attrs_def take_all_append
        take_all_carried [OF p(6,7)])
  have d: "map (\<lambda>td. GeTensorDesc_of_proto (tensor_message td)) (d_input_desc ?m) = map tensor_message (inputs_desc od)"
    "map (\<lambda>td. GeTensorDesc_of_proto (tensor_message td)) (d_output_desc ?m) = map tensor_message (outputs_desc od)"
    using assms by (simp_all add: Serialize_portable portable_def message_td)
  let ?b = "with_ports ?m (OpDesc_of_proto (desc_around (?m\<lparr>d_attr := attr_map ?o\<rparr>)))"
  have b: "?b = ?o\<lparr>requiredAttrs := [], register_input_name := [], register_output_name := [],
      inputs_desc := map tensor_message (inputs_desc od), outputs_desc := map tensor_message (outputs_desc od),
      op_subgraph_name := op_subgraph_name od @ subgraph_instance_names od, subgraph_names_to_index := [], subgraph_instance_names := [],
      subgraph_ir_names_to_type := [], op_kernel_lib_name := [], engine_name := [],
      input_name_idx := [], output_name_idx := [], optional_input_names := []\<rparr>"
    unfolding with_ports_def d
    using p(1) by (simp add: Serialize_portable [OF assms] desc_around_def op_def_of_def OpDesc_default_def
        OpDesc_of_proto_def dump_attrs_def)
  obtain k where "op_subgraph_name od = concat (replicate k (subgraph_instance_names od))"
    using assms by (auto simp: portable_def)
  then have k: "op_subgraph_name od @ subgraph_instance_names od = concat (replicate (Suc k) (subgraph_instance_names od))"
    by (simp only: concat_replicate_snoc)
  have s: "add_subgraphs 0 (op_subgraph_name od @ subgraph_instance_names od) ?b =
      ?b\<lparr>subgraph_names_to_index := number_names 0 (subgraph_instance_names od) [],
         subgraph_instance_names := subgraph_instance_names od\<rparr>"
    unfolding k by (rule add_subgraphs_repeated [OF p(2)]) (simp_all add: b)
  have n: "d_subgraph_name ?m = op_subgraph_name od @ subgraph_instance_names od" by (simp add: Serialize_portable [OF assms])
  show ?thesis
    unfolding UnserializeOpDesc_take t prod.case n s AttrDefToOpDesc_def
    unfolding b
    by (simp add: emplace_all_rebuild p rebuild_set reloaded_def dump_attrs_def)
qed

lemma portable_reloaded: "portable od \<Longrightarrow> portable (reloaded od)"
proof -
  assume p: "portable od"
  then obtain k where "op_subgraph_name od = concat (replicate k (subgraph_instance_names od))"
    by (auto simp: portable_def)
  then have "op_subgraph_name (reloaded od) = concat (replicate (Suc k) (subgraph_instance_names (reloaded od)))"
    by (simp add: reloaded_def concat_replicate_snoc del: replicate_Suc)
  then have "\<exists>k. op_subgraph_name (reloaded od) = concat (replicate k (subgraph_instance_names (reloaded od)))" ..
  then show ?thesis using p by (simp add: portable_def reloaded_def tensor_message_def)
qed

text \<open> C7: Reading what was written gives the description back, for a dump without the attributes a
  dump leaves out, except for what a message does not hold. Written and read again it stays
  the same but for the copies of the subgraphs' names that pile up in its message. The
  comparison of descriptions sees a difference exactly when the engine or the kernel library
  had been set.
\<close>

theorem op_desc_round_trip:
  assumes "portable od"
  shows "UnserializeOpDesc (SerializeOpDesc is_dump od) = reloaded (dump_attrs is_dump od) \<and>
    UnserializeOpDesc (SerializeOpDesc False (reloaded od)) =
      (reloaded od)\<lparr>op_subgraph_name := op_subgraph_name (reloaded od) @ subgraph_instance_names od\<rparr> \<and>
    (OpDesc_equal od (UnserializeOpDesc (SerializeOpDesc False od)) \<longleftrightarrow>
       engine_name od = [] \<and> op_kernel_lib_name od = [])"
proof (intro conjI)
  show "UnserializeOpDesc (SerializeOpDesc is_dump od) = reloaded (dump_attrs is_dump od)"
    by (rule reload_portable [OF assms])
  show "UnserializeOpDesc (SerializeOpDesc False (reloaded od)) =
      (reloaded od)\<lparr>op_subgraph_name := op_subgraph_name (reloaded od) @ subgraph_instance_names od\<rparr>"
    by (simp add: reload_portable [OF portable_reloaded [OF assms]])
      (simp add: dump_attrs_def reloaded_def tensor_message_def comp_def)
  show "OpDesc_equal od (UnserializeOpDesc (SerializeOpDesc False od)) \<longleftrightarrow>
       engine_name od = [] \<and> op_kernel_lib_name od = []"
    by (auto simp: reload_portable [OF assms] dump_attrs_def reloaded_def OpDesc_equal_def
        OpDescAttrsAreEqual_def OpDescMembersAreEqual_def OpDescGenTensorDescsAreEqual_def
        GetInputDesc_at_def GetOutputDesc_at_def GeTensorDescAttrsAreEqual_def tensor_message_def list_all_iff)
qed

definition sample_desc :: "nat ge_op_desc" where
  "sample_desc =
     SetOpEngineName ''aicore''
       (fst (SetSubgraphInstanceName 0 ''sub_1'' (fst (AddSubgraphName ''body''
         (fst (AddOutputDesc ''y'' GeTensorDesc_default
           (fst (AddOptionalInputDesc ''x'' GeTensorDesc_default (OpDesc_of ''n'' ''Relu'')))))))))"

lemmas sample_defs = sample_desc_def SetOpEngineName_def SetSubgraphInstanceName_def AddSubgraphName_def
  AddOutputDesc_def AddOptionalInputDesc_def AddInputDesc_def OpDesc_of_def OpDesc_SetName_def OpDesc_SetType_def
  OpDesc_default_def map_emplace_def set_insert_def

lemma sample_eq:
  "sample_desc =
     OpDesc_default\<lparr>op_name := ''n'', op_type := ''Relu'', inputs_desc := [GeTensorDesc_default],
       input_name_idx := [(''x'', 0)], register_input_name := [''x''], optional_input_names := [''x''],
       outputs_desc := [GeTensorDesc_default], output_name_idx := [(''y'', 0)], register_output_name := [''y''],
       subgraph_instance_names := [''sub_1''], subgraph_names_to_index := [(''body'', 0)], engine_name := ''aicore''\<rparr>"
  by (simp add: sample_defs add_once_def)

lemma default_out_attr: "td_has_out_attr GeTensorDesc_default"
  by (simp add: GeTensorDesc_default_def TensorDesc_Init_def empty_descriptor_def SetDataType_def)

lemma portable_sample: "portable sample_desc"
  by (auto simp: sample_eq portable_def OpDesc_default_def reserved_free_def keys_sorted_def default_out_attr
      intro: exI [of _ 0])

theorem op_desc_round_trip_witness:
  "UnserializeOpDesc (SerializeOpDesc True sample_desc) = reloaded (dump_attrs True sample_desc) \<and>
   \<not> OpDesc_equal sample_desc (UnserializeOpDesc (SerializeOpDesc False sample_desc))"
  using op_desc_round_trip [OF portable_sample, of True] by (simp add: sample_eq)

text \<open>
  A description that was read keeps the names of its subgraphs in its message. When one of them
  is renamed before it is written again, the old name is
  written too and comes first, so that it is back in its place when the message is read.
\<close>

lemma renamed_subgraph_is_back:
  "subgraph_instance_names
     (UnserializeOpDesc (SerializeOpDesc False
       (fst (SetSubgraphInstanceName 0 ''sub_2''
         (UnserializeOpDesc (SerializeOpDesc False (sample_desc :: nat ge_op_desc))))))) = [''sub_1'', ''sub_2'']"
proof -
  let ?r = "reloaded sample_desc"
  have r: "UnserializeOpDesc (SerializeOpDesc False sample_desc) = ?r"
    using reload_portable [OF portable_sample, of False] by (simp add: dump_attrs_def)
  have s: "fst (SetSubgraphInstanceName 0 ''sub_2'' ?r) = ?r\<lparr>subgraph_instance_names := [''sub_2'']\<rparr>"
    by (simp add: SetSubgraphInstanceName_def reloaded_def sample_eq)
  have n: "op_subgraph_name ?r = [''sub_1'']" by (simp add: reloaded_def sample_eq OpDesc_default_def)
  have "d_subgraph_name (SerializeOpDesc False (?r\<lparr>subgraph_instance_names := [''sub_2'']\<rparr>)) = [''sub_1'', ''sub_2'']"
    by (simp add: SerializeOpDesc_def OpDescToAttrDef_def Let_def op_def_of_def n)
  then show ?thesis
    unfolding r s by (simp add: subgraphs_read AddSubgraphName_def SetSubgraphInstanceName_def OpDesc_default_def)
qed

end
