(* ===== verification/DescStore.thy ===== *)
theory DescStore
  imports OpDescs GraphRewire
begin

text \<open>
  Graphs with whole operator descriptions. The graph layer keeps of an operator description only what it
  reads itself; serialization and fusion passes need all of it, so the store is extended with the
  descriptions of the nodes and with the attributes of the graphs.
\<close>

record 'm desc_store = graph_store +
  op_descs :: "nat \<Rightarrow> 'm ge_op_desc"
  graph_attrs :: "nat \<Rightarrow> (string \<times> 'm attr_def) list"

definition upd_desc :: "nat \<Rightarrow> ('m ge_op_desc \<Rightarrow> 'm ge_op_desc) \<Rightarrow> ('m, 'z) desc_store_scheme \<Rightarrow> ('m, 'z) desc_store_scheme" where
  "upd_desc n f s = s\<lparr>op_descs := (op_descs s)(n := f (op_descs s n))\<rparr>"

definition ATTR_NAME_FRAMEWORK_ORIGINAL_TYPE :: string where
  "ATTR_NAME_FRAMEWORK_ORIGINAL_TYPE = ''original_type''"

definition node_type :: "('m, 'z) desc_store_scheme \<Rightarrow> nat \<Rightarrow> string" where
  "node_type s = GetNodeType (\<lambda>n. fst (GetStr (op_descs s n) ATTR_NAME_FRAMEWORK_ORIGINAL_TYPE [])) s"

end
