(* ===== verification/FusionPatterns.thy ===== *)
theory FusionPatterns
  imports DescStore
begin

text \<open>
  Fusion patterns and their matching against a graph:
  \<^verbatim>\<open>register/graph_optimizer/graph_fusion/fusion_pattern.cc\<close>,
  \<^verbatim>\<open>pattern_fusion_base_pass_impl.cc\<close> and the queries of
  \<^verbatim>\<open>fusion_common/graph_pass_util.h\<close> they use. Memory allocation does not fail; logging is left out.
\<close>

section \<open>Patterns\<close>

text \<open>
  The operators of a pattern are shared objects, owned by the vector \<^verbatim>\<open>ops_\<close>, which only grows:
  a pointer to one is its position there. Only \<^verbatim>\<open>SetInputs\<close> stores such pointers, never a null one.
\<close>

record pattern_op =
  po_id :: string
  po_types :: "string list"
  po_inputs :: "nat list"
  po_repeatable :: bool
  po_is_output :: bool

record fusion_pattern =
  fp_name :: string
  fp_ops :: "pattern_op list"
  fp_op_map :: "(string \<times> nat) list"
  fp_output :: ptr
  fp_has_error :: bool

definition FusionPattern :: "string \<Rightarrow> fusion_pattern" where
  "FusionPattern name = \<lparr>fp_name = name, fp_ops = [], fp_op_map = [], fp_output = None, fp_has_error = False\<rparr>"

definition Pattern_SetName :: "string \<Rightarrow> fusion_pattern \<Rightarrow> fusion_pattern" where
  "Pattern_SetName name p = p\<lparr>fp_name := name\<rparr>"

definition SetError :: "fusion_pattern \<Rightarrow> fusion_pattern" where
  "SetError p = p\<lparr>fp_has_error := True\<rparr>"

definition Pattern_GetOpDesc :: "string \<Rightarrow> fusion_pattern \<Rightarrow> ptr" where
  "Pattern_GetOpDesc i p = map_of (fp_op_map p) i"

definition AddOpDesc :: "string \<Rightarrow> string list \<Rightarrow> fusion_pattern \<Rightarrow> fusion_pattern" where
  "AddOpDesc i types p =
     (if i = [] then SetError p
      else if Pattern_GetOpDesc i p \<noteq> None then SetError p
      else p\<lparr>fp_ops := fp_ops p @
               [\<lparr>po_id = i, po_types = types, po_inputs = [], po_repeatable = False, po_is_output = False\<rparr>],
             fp_op_map := map_put i (length (fp_ops p)) (fp_op_map p)\<rparr>)"

definition upd_op :: "nat \<Rightarrow> (pattern_op \<Rightarrow> pattern_op) \<Rightarrow> fusion_pattern \<Rightarrow> fusion_pattern" where
  "upd_op k f p = p\<lparr>fp_ops := (fp_ops p)[k := f (fp_ops p ! k)]\<rparr>"

fun push_inputs :: "nat \<Rightarrow> string list \<Rightarrow> fusion_pattern \<Rightarrow> fusion_pattern" where
  "push_inputs op [] p = p"
| "push_inputs op (input_id # ids) p =
     (case Pattern_GetOpDesc input_id p of
        None \<Rightarrow> SetError p
      | Some input_op \<Rightarrow> push_inputs op ids (upd_op op (po_inputs_update (\<lambda>xs. xs @ [input_op])) p))"

definition SetInputs :: "string \<Rightarrow> string list \<Rightarrow> fusion_pattern \<Rightarrow> fusion_pattern" where
  "SetInputs i input_ids p =
     (if i = [] then SetError p
      else (case Pattern_GetOpDesc i p of
              None \<Rightarrow> SetError p
            | Some op \<Rightarrow> push_inputs op input_ids (upd_op op (po_inputs_update (\<lambda>_. [])) p)))"

definition SetOutput :: "string \<Rightarrow> fusion_pattern \<Rightarrow> fusion_pattern" where
  "SetOutput i p =
     (if i = [] then SetError p
      else (case Pattern_GetOpDesc i p of
              None \<Rightarrow> SetError p
            | Some op \<Rightarrow> upd_op op (po_is_output_update (\<lambda>_. True)) p))"

text \<open>The search for the output; a second one stops it.\<close>

fun find_output :: "nat list \<Rightarrow> fusion_pattern \<Rightarrow> fusion_pattern" where
  "find_output [] p = p"
| "find_output (op # ops) p =
     (if po_is_output (fp_ops p ! op) then
        (if fp_output p \<noteq> None then SetError p else find_output ops (p\<lparr>fp_output := Some op\<rparr>))
      else find_output ops p)"

definition Build :: "fusion_pattern \<Rightarrow> fusion_pattern \<times> bool" where
  "Build p =
     (if fp_has_error p then (p, False)
      else (let p = find_output [0..<length (fp_ops p)] p;
                p = (if fp_output p = None then SetError p else p)
            in (p, \<not> fp_has_error p)))"

definition Pattern_GetName :: "fusion_pattern \<Rightarrow> string" where "Pattern_GetName p = fp_name p"
definition GetOutput_op :: "fusion_pattern \<Rightarrow> ptr" where "GetOutput_op p = fp_output p"

definition Pattern_GetInputs :: "fusion_pattern \<Rightarrow> ptr \<Rightarrow> nat list option" where
  "Pattern_GetInputs p op_desc = (case op_desc of None \<Rightarrow> None | Some k \<Rightarrow> Some (po_inputs (fp_ops p ! k)))"

section \<open>The store\<close>

text \<open>
  The map from operator types to nodes is an object that the extended attribute \<^verbatim>\<open>NodeMapInfo\<close> of a
  graph points to; its inner maps are ordered by the names of the nodes (the build without
  \<^verbatim>\<open>ONLY_COMPILE_OPEN_SRC\<close>).
\<close>

type_synonym node_type_map = "(string \<times> (string \<times> nat) list) list"

record node_map_info =
  run_count :: "64 word"
  type_map :: node_type_map

record 'm fusion_store = "'m desc_store" +
  node_map_infos :: "nat \<Rightarrow> node_map_info option"
  graph_node_map :: "nat \<Rightarrow> ptr"

definition GetOpTypeMapToGraph :: "('m, 'z) fusion_store_scheme \<Rightarrow> nat \<Rightarrow> ptr" where
  "GetOpTypeMapToGraph s g = graph_node_map s g"

definition AddNodeToNodeTypeMap :: "string \<Rightarrow> nat \<Rightarrow> string \<Rightarrow> node_type_map \<Rightarrow> node_type_map" where
  "AddNodeToNodeTypeMap t n name m =
     (case map_of m t of
        None \<Rightarrow> m @ [(t, [(name, n)])]
      | Some ns \<Rightarrow> AList.update t (map_emplace name n ns) m)"

definition AddNodeFromOpTypeMap :: "ptr \<Rightarrow> nat \<Rightarrow> ('m, 'z) fusion_store_scheme \<Rightarrow> ('m, 'z) fusion_store_scheme" where
  "AddNodeFromOpTypeMap info n s =
     (case info of
        None \<Rightarrow> s
      | Some i \<Rightarrow> s\<lparr>node_map_infos := (node_map_infos s)
          (i := map_option (type_map_update (AddNodeToNodeTypeMap (node_type s n) n (GetName s n))) (node_map_infos s i))\<rparr>)"

definition RemoveNodeFromNodeTypeMap :: "string \<Rightarrow> string \<Rightarrow> node_type_map \<Rightarrow> node_type_map" where
  "RemoveNodeFromNodeTypeMap t name m =
     (case map_of m t of None \<Rightarrow> m | Some ns \<Rightarrow> AList.update t (AList.delete name ns) m)"

definition GetNodesFromNodeTypeMap :: "string \<Rightarrow> node_type_map \<Rightarrow> nat list \<Rightarrow> nat list" where
  "GetNodesFromNodeTypeMap t m ns0 =
     (case map_of m t of None \<Rightarrow> ns0 | Some ns \<Rightarrow> ns0 @ map snd ns)"

section \<open>Matching\<close>

text \<open>
  What is matched: the nodes of each operator of the pattern, in the order of the matches. An entry
  of the code's map is made by its first node, so an absent entry is the empty list here.
\<close>

type_synonym mapping = "nat \<Rightarrow> nat list"

definition IsNodesExist :: "nat \<Rightarrow> nat list \<Rightarrow> bool" where
  "IsNodesExist current_node ns \<longleftrightarrow> current_node \<in> set ns"

definition IsMatched :: "nat \<Rightarrow> nat \<Rightarrow> mapping \<Rightarrow> bool" where
  "IsMatched op n m \<longleftrightarrow> n \<in> set (m op)"

definition IsOpTypeExist :: "string \<Rightarrow> string list \<Rightarrow> bool" where
  "IsOpTypeExist type types \<longleftrightarrow> type \<in> set types"

definition map_push :: "nat \<Rightarrow> nat \<Rightarrow> mapping \<Rightarrow> mapping" where
  "map_push op n m = m(op := m op @ [n])"

text \<open>The inputs of a node that are connected, in the order of their indices.\<close>

definition connected_inputs :: "('z) node_store_scheme \<Rightarrow> nat \<Rightarrow> nat list" where
  "connected_inputs s n =
     filter (\<lambda>a. case GetPeerOutAnchor s a of None \<Rightarrow> False | Some b \<Rightarrow> GetOwnerNode s b \<noteq> None)
       (GetAllInDataAnchors s n)"

definition input_node :: "('z) anchor_store_scheme \<Rightarrow> nat \<Rightarrow> nat" where
  "input_node s a = the (GetOwnerNode s (the (GetPeerOutAnchor s a)))"

text \<open>The candidates are two vectors of equal length in the code, a list of pairs here.\<close>

type_synonym candidates = "(nat \<times> nat) list"

definition fits :: "('m, 'z) fusion_store_scheme \<Rightarrow> fusion_pattern \<Rightarrow> nat list \<Rightarrow> bool list \<Rightarrow> nat \<Rightarrow> nat \<Rightarrow> bool" where
  "fits s p inputs usage_flags n j =
     ((IsOpTypeExist (node_type s n) (po_types (fp_ops p ! (inputs ! j))) \<or> po_types (fp_ops p ! (inputs ! j)) = []) \<and>
      (\<not> usage_flags ! j \<or> po_repeatable (fp_ops p ! (inputs ! j))))"

fun match_anchors :: "('m, 'z) fusion_store_scheme \<Rightarrow> fusion_pattern \<Rightarrow> nat list \<Rightarrow> nat list \<Rightarrow>
    bool list \<times> candidates \<times> mapping \<Rightarrow> bool list \<times> candidates \<times> mapping" where
  "match_anchors s p inputs [] (usage_flags, cands, m) = (usage_flags, cands, m)"
| "match_anchors s p inputs (a # as) (usage_flags, cands, m) =
     (let n = input_node s a
      in case find (fits s p inputs usage_flags n) [0..<length inputs] of
           None \<Rightarrow> match_anchors s p inputs as (usage_flags, cands, m)
         | Some j \<Rightarrow>
             (let input_op = inputs ! j;
                  (cands, m) = (if \<not> IsMatched input_op n m then (cands @ [(n, input_op)], map_push input_op n m)
                                else (cands, m))
              in match_anchors s p inputs as (usage_flags[j := True], cands, m)))"

definition match_candidate :: "('m, 'z) fusion_store_scheme \<Rightarrow> fusion_pattern \<Rightarrow> nat \<Rightarrow> nat \<Rightarrow>
    candidates \<times> mapping \<Rightarrow> (candidates \<times> mapping) \<times> bool" where
  "match_candidate s p n op cm =
     (let inputs = po_inputs (fp_ops p ! op); in_anchors = sort_key (GetIdx s) (connected_inputs s n)
      in if inputs = [] then (cm, True)
         else if GetInDataNodes s n = [] then (cm, False)
         else if in_anchors = [] then (cm, False)
         else (case match_anchors s p inputs in_anchors (replicate (length inputs) False, cm) of
                 (usage_flags, cm) \<Rightarrow> (cm, list_all (\<lambda>b. b) usage_flags)))"

partial_function (option) match_loop :: "('m, 'z) fusion_store_scheme \<Rightarrow> fusion_pattern \<Rightarrow> candidates \<Rightarrow> mapping \<Rightarrow>
    (mapping \<times> bool) option" where
  "match_loop s p cands m =
     (case cands of
        [] \<Rightarrow> Some (m, True)
      | (n, op) # rest \<Rightarrow>
          (case match_candidate s p n op (cands, m) of
             ((cands, m), result) \<Rightarrow> if \<not> result then Some (m, False) else match_loop s p (tl cands) m))"

definition MatchFromOutput :: "('m, 'z) fusion_store_scheme \<Rightarrow> fusion_pattern \<Rightarrow> ptr \<Rightarrow> ptr \<Rightarrow> mapping \<Rightarrow>
    (mapping \<times> bool) option" where
  "MatchFromOutput s p output_node output_op m =
     (case (output_node, output_op) of
        (Some n, Some op) \<Rightarrow> match_loop s p [(n, op)] (map_push op n m)
      | _ \<Rightarrow> Some (m, False))"

text \<open>The nodes an output may match: from the map of types, or from all direct nodes of the graph.\<close>

definition GetMatchOutputNodes :: "('m, 'z) fusion_store_scheme \<Rightarrow> nat \<Rightarrow> fusion_pattern \<Rightarrow> nat list" where
  "GetMatchOutputNodes s g p =
     (case GetOutput_op p of
        None \<Rightarrow> []
      | Some op \<Rightarrow>
          (let types = po_types (fp_ops p ! op)
           in case GetOpTypeMapToGraph s g of
                Some i \<Rightarrow>
                  concat (map (\<lambda>OutOpType.
                    filter (\<lambda>n. \<not> (GetInDataNodes s n = [] \<and> GetOutAllNodes s n = []) \<and> node_type s n = OutOpType)
                      (GetNodesFromNodeTypeMap OutOpType (case node_map_infos s i of None \<Rightarrow> [] | Some x \<Rightarrow> type_map x) []))
                    types)
              | None \<Rightarrow> filter (\<lambda>n. IsOpTypeExist (node_type s n) types) (GetDirectNode s g)))"

end
