(* ===== verification/FusionMatch.thy ===== *)
theory FusionMatch
  imports FusionPatterns
begin

text \<open>
  What building a fusion pattern guarantees, that the matcher returns on every graph, and what a
  successful match means: the matched nodes carry the shape of the pattern.
\<close>

section \<open>Well-formed patterns\<close>

definition pattern_ok :: "fusion_pattern \<Rightarrow> bool" where
  "pattern_ok p \<longleftrightarrow>
     (\<forall>i k. map_of (fp_op_map p) i = Some k \<longleftrightarrow> k < length (fp_ops p) \<and> po_id (fp_ops p ! k) = i) \<and>
     (\<forall>op\<in>set (fp_ops p). po_id op \<noteq> [] \<and> \<not> po_repeatable op \<and> (\<forall>k\<in>set (po_inputs op). k < length (fp_ops p)))"

text \<open>Patterns as they are written: operations in any order, with any arguments, before the build.\<close>

inductive pattern_edited :: "fusion_pattern \<Rightarrow> bool" where
  new_pattern: "pattern_edited (FusionPattern name)"
| set_name: "pattern_edited p \<Longrightarrow> pattern_edited (Pattern_SetName name p)"
| add_op: "pattern_edited p \<Longrightarrow> pattern_edited (AddOpDesc i types p)"
| set_inputs: "pattern_edited p \<Longrightarrow> pattern_edited (SetInputs i ids p)"
| set_output: "pattern_edited p \<Longrightarrow> pattern_edited (SetOutput i p)"

lemma upd_op_fields [simp]:
  "length (fp_ops (upd_op k f p)) = length (fp_ops p)" "fp_op_map (upd_op k f p) = fp_op_map p"
  "fp_output (upd_op k f p) = fp_output p" "fp_has_error (upd_op k f p) = fp_has_error p"
  by (simp_all add: upd_op_def)

lemma SetError_fields [simp]:
  "fp_ops (SetError p) = fp_ops p" "fp_op_map (SetError p) = fp_op_map p" "fp_output (SetError p) = fp_output p"
  "fp_has_error (SetError p)" "pattern_ok (SetError p) = pattern_ok p"
  by (simp_all add: SetError_def pattern_ok_def)

lemma pattern_ok_upd_op:
  assumes "pattern_ok p" "k < length (fp_ops p)" "\<And>op. po_id (f op) = po_id op \<and> po_repeatable (f op) = po_repeatable op"
    and "\<And>op. set (po_inputs (f op)) \<subseteq> set (po_inputs op) \<union> {..<length (fp_ops p)}"
  shows "pattern_ok (upd_op k f p)"
proof -
  have op: "po_id (f (fp_ops p ! k)) = po_id (fp_ops p ! k)" "\<not> po_repeatable (f (fp_ops p ! k))"
      "po_id (fp_ops p ! k) \<noteq> []" "\<forall>j\<in>set (po_inputs (f (fp_ops p ! k))). j < length (fp_ops p)"
    using assms nth_mem [OF assms(2)] by (auto simp: pattern_ok_def dest!: subsetD [OF assms(4)])
  have id: "po_id (fp_ops (upd_op k f p) ! j) = po_id (fp_ops p ! j)" if "j < length (fp_ops p)" for j
    using that op(1) by (cases "j = k") (simp_all add: upd_op_def)
  have "\<forall>x\<in>set (fp_ops (upd_op k f p)).
      po_id x \<noteq> [] \<and> \<not> po_repeatable x \<and> (\<forall>k\<in>set (po_inputs x). k < length (fp_ops p))"
    using assms(1) op set_update_subset_insert [of "fp_ops p" k "f (fp_ops p ! k)"]
    by (auto simp: upd_op_def pattern_ok_def dest!: subsetD)
  then show ?thesis
    using assms(1) id by (auto simp: pattern_ok_def)
qed

lemma pattern_ok_push_inputs:
  "pattern_ok p \<Longrightarrow> op < length (fp_ops p) \<Longrightarrow>
   pattern_ok (push_inputs op ids p) \<and> fp_output (push_inputs op ids p) = fp_output p"
proof (induction op ids p rule: push_inputs.induct)
  case (2 op i ids p)
  have "pattern_ok (upd_op op (po_inputs_update (\<lambda>xs. xs @ [k])) p)" if "Pattern_GetOpDesc i p = Some k" for k
    using 2(2,3) that by (intro pattern_ok_upd_op) (auto simp: pattern_ok_def Pattern_GetOpDesc_def)
  with 2 show ?case by (auto split: option.split)
qed simp

lemma pattern_edited_ok: "pattern_edited p \<Longrightarrow> pattern_ok p \<and> fp_output p = None"
proof (induction rule: pattern_edited.induct)
  case (add_op p i types)
  then have k: "map_of (fp_op_map p) i = Some k \<longleftrightarrow> k < length (fp_ops p) \<and> po_id (fp_ops p ! k) = i" for i k
    by (simp add: pattern_ok_def)
  have "pattern_ok (AddOpDesc i types p)"
    using add_op by (auto simp: AddOpDesc_def Pattern_GetOpDesc_def pattern_ok_def map_of_put nth_append less_Suc_eq)
  with add_op show ?case by (simp add: AddOpDesc_def)
next
  case (set_inputs p i ids)
  have "pattern_ok (upd_op k (po_inputs_update (\<lambda>_. [])) p) \<and> k < length (fp_ops p)"
    if "map_of (fp_op_map p) i = Some k" for k
    using set_inputs that by (intro conjI pattern_ok_upd_op) (auto simp: pattern_ok_def)
  with set_inputs show ?case
    by (auto simp: SetInputs_def Pattern_GetOpDesc_def pattern_ok_push_inputs split: option.split)
next
  case (set_output p i)
  have "pattern_ok (upd_op k (po_is_output_update (\<lambda>_. True)) p)" if "map_of (fp_op_map p) i = Some k" for k
    using set_output that by (intro pattern_ok_upd_op) (auto simp: pattern_ok_def)
  with set_output show ?case
    by (auto simp: SetOutput_def Pattern_GetOpDesc_def split: option.split)
qed (auto simp: FusionPattern_def Pattern_SetName_def pattern_ok_def)

section \<open>Building\<close>

lemma find_output_fields [simp]:
  "fp_ops (find_output ks p) = fp_ops p" "fp_op_map (find_output ks p) = fp_op_map p"
  by (induction ks p rule: find_output.induct) auto

lemma find_output_found:
  "fp_output p = Some k \<Longrightarrow>
   find_output ks p = (if \<exists>j\<in>set ks. po_is_output (fp_ops p ! j) then SetError p else p)"
  by (induction ks p rule: find_output.induct) auto

lemma find_output_filter:
  "fp_output p = None \<Longrightarrow>
   find_output ks p =
     (case filter (\<lambda>j. po_is_output (fp_ops p ! j)) ks of
        [] \<Rightarrow> p
      | [k] \<Rightarrow> p\<lparr>fp_output := Some k\<rparr>
      | k # _ \<Rightarrow> SetError (p\<lparr>fp_output := Some k\<rparr>))"
proof (induction ks p rule: find_output.induct)
  case (2 op ops p)
  then show ?case
    by (auto simp: find_output_found filter_empty_conv split: list.splits)
qed simp

definition output_ops :: "fusion_pattern \<Rightarrow> nat list" where
  "output_ops p = filter (\<lambda>k. po_is_output (fp_ops p ! k)) [0..<length (fp_ops p)]"

lemma Build_cases:
  assumes "pattern_edited p"
  shows "Build p =
     (if fp_has_error p then (p, False)
      else (case output_ops p of
              [] \<Rightarrow> (SetError p, False)
            | [k] \<Rightarrow> (p\<lparr>fp_output := Some k\<rparr>, True)
            | k # _ \<Rightarrow> (SetError (p\<lparr>fp_output := Some k\<rparr>), False)))"
  using pattern_edited_ok [OF assms] find_output_filter [of p "[0..<length (fp_ops p)]"]
  by (auto simp: Build_def Let_def output_ops_def split: list.splits)

lemma Build_ok:
  assumes "pattern_edited p" "Build p = (q, True)"
  shows "pattern_ok q" "\<exists>k<length (fp_ops q). fp_output q = Some k"
proof -
  obtain k where k: "output_ops p = [k]" "q = p\<lparr>fp_output := Some k\<rparr>"
    using assms(2) Build_cases [OF assms(1)] by (auto split: if_splits list.splits)
  have "k \<in> set (output_ops p)" using k(1) by simp
  then show "\<exists>k<length (fp_ops q). fp_output q = Some k"
    by (auto simp: k(2) output_ops_def)
  show "pattern_ok q"
    using pattern_edited_ok [OF assms(1)] by (simp add: k(2) pattern_ok_def)
qed

section \<open>One candidate\<close>

text \<open>
  What the anchors of a candidate leave: every input that was newly used has an anchor of its own,
  whose node it is matched with, and the new matches are the new candidates.
\<close>

definition type_fits :: "('m, 'z) fusion_store_scheme \<Rightarrow> fusion_pattern \<Rightarrow> nat \<Rightarrow> nat \<Rightarrow> bool" where
  "type_fits s p n op \<longleftrightarrow> node_type s n \<in> set (po_types (fp_ops p ! op)) \<or> po_types (fp_ops p ! op) = []"

definition grows :: "mapping \<Rightarrow> mapping \<Rightarrow> candidates \<Rightarrow> bool" where
  "grows m m' new \<longleftrightarrow> (\<forall>op. set (m op) \<subseteq> set (m' op) \<and> (distinct (m op) \<longrightarrow> distinct (m' op))) \<and>
     (\<forall>n op. (n, op) \<in> set new \<longleftrightarrow> n \<in> set (m' op) \<and> n \<notin> set (m op)) \<and> distinct new"

lemma map_grows_refl [simp]: "grows m m []"
  by (simp add: grows_def)

lemma grows_push:
  assumes "grows (map_push op n m) m' new" "n \<notin> set (m op)"
  shows "grows m m' ((n, op) # new)"
  using assms unfolding grows_def map_push_def by (auto split: if_splits)

lemma find_fits:
  "find P [0..<k] = Some j \<Longrightarrow> j < k \<and> P j"
  by (auto simp: find_Some_iff)

lemma match_anchors_spec:
  assumes "length flags = length inputs" "match_anchors s p inputs as (flags, cands, m) = (flags', cands', m')"
  shows "length flags' = length inputs \<and> (\<forall>j<length inputs. flags ! j \<longrightarrow> flags' ! j) \<and>
    (\<exists>new. cands' = cands @ new \<and> grows m m' new \<and>
      (\<forall>(n, op)\<in>set new. op \<in> set inputs \<and> n \<in> input_node s ` set as \<and> type_fits s p n op)) \<and>
    (\<exists>f. inj_on f {j. j < length inputs \<and> flags' ! j \<and> \<not> flags ! j} \<and>
      (\<forall>j<length inputs. flags' ! j \<and> \<not> flags ! j \<longrightarrow> f j < length as \<and>
         input_node s (as ! f j) \<in> set (m' (inputs ! j)) \<and> type_fits s p (input_node s (as ! f j)) (inputs ! j)))"
  using assms
proof (induction as arbitrary: flags cands m)
  case Nil
  then show ?case by auto
next
  case (Cons a as)
  let ?n = "input_node s a"
  show ?case
  proof (cases "find (fits s p inputs flags ?n) [0..<length inputs]")
    case None
    then have rest: "match_anchors s p inputs as (flags, cands, m) = (flags', cands', m')"
      using Cons.prems(2) by simp
    obtain f where f: "inj_on f {j. j < length inputs \<and> flags' ! j \<and> \<not> flags ! j}"
      "\<forall>j<length inputs. flags' ! j \<and> \<not> flags ! j \<longrightarrow> f j < length as \<and>
         input_node s (as ! f j) \<in> set (m' (inputs ! j)) \<and> type_fits s p (input_node s (as ! f j)) (inputs ! j)"
      using Cons.IH [OF Cons.prems(1) rest] by blast
    have "inj_on (\<lambda>j. Suc (f j)) {j. j < length inputs \<and> flags' ! j \<and> \<not> flags ! j}"
      using f(1) by (auto simp: inj_on_def)
    then show ?thesis
      using Cons.IH [OF Cons.prems(1) rest] f(2) by (auto intro!: exI [of _ "\<lambda>j. Suc (f j)"])
  next
    case (Some j)
    let ?op = "inputs ! j"
    have j: "j < length inputs" "type_fits s p ?n ?op"
      using find_fits [OF Some] by (auto simp: fits_def type_fits_def IsOpTypeExist_def)
    define m1 where "m1 = (if ?n \<in> set (m ?op) then m else map_push ?op ?n m)"
    define c1 where "c1 = (if ?n \<in> set (m ?op) then [] else [(?n, ?op)])"
    have rest: "match_anchors s p inputs as (flags[j := True], cands @ c1, m1) = (flags', cands', m')"
      using Cons.prems(2) Some by (auto simp: Let_def IsMatched_def m1_def c1_def)
    have len: "length (flags[j := True]) = length inputs"
      using Cons.prems(1) by simp
    note IH = Cons.IH [OF len rest]
    obtain new where new: "cands' = (cands @ c1) @ new" "grows m1 m' new"
      "\<forall>(n, op)\<in>set new. op \<in> set inputs \<and> n \<in> input_node s ` set as \<and> type_fits s p n op"
      using IH by blast
    have grow: "grows m m' (c1 @ new)"
      using new(2) by (auto simp: m1_def c1_def intro: grows_push)
    have here: "?n \<in> set (m' ?op)"
      using new(2) by (auto simp: grows_def m1_def map_push_def split: if_splits)
    obtain f where f: "inj_on f {i. i < length inputs \<and> flags' ! i \<and> \<not> flags[j := True] ! i}"
      "\<forall>i<length inputs. flags' ! i \<and> \<not> flags[j := True] ! i \<longrightarrow> f i < length as \<and>
         input_node s (as ! f i) \<in> set (m' (inputs ! i)) \<and> type_fits s p (input_node s (as ! f i)) (inputs ! i)"
      using IH by blast
    let ?f = "\<lambda>i. if i = j then 0 else Suc (f i)"
    have set_j: "flags[j := True] ! i = (i = j \<or> flags ! i)" if "i < length inputs" for i
      using that Cons.prems(1) by (cases "i = j") simp_all
    have "inj_on ?f {i. i < length inputs \<and> flags' ! i \<and> \<not> flags ! i}"
      using f(1) set_j by (auto simp: inj_on_def)
    moreover have "?f i < length (a # as) \<and> input_node s ((a # as) ! ?f i) \<in> set (m' (inputs ! i)) \<and>
        type_fits s p (input_node s ((a # as) ! ?f i)) (inputs ! i)"
      if "i < length inputs" "flags' ! i" "\<not> flags ! i" for i
      using that f(2) set_j here j by (cases "i = j") auto
    ultimately have matched: "\<exists>f. inj_on f {j. j < length inputs \<and> flags' ! j \<and> \<not> flags ! j} \<and>
      (\<forall>i<length inputs. flags' ! i \<and> \<not> flags ! i \<longrightarrow> f i < length (a # as) \<and>
         input_node s ((a # as) ! f i) \<in> set (m' (inputs ! i)) \<and> type_fits s p (input_node s ((a # as) ! f i)) (inputs ! i))"
      by (intro exI [of _ ?f]) blast
    have "\<forall>(n, op)\<in>set (c1 @ new). op \<in> set inputs \<and> n \<in> input_node s ` set (a # as) \<and> type_fits s p n op"
      using new(3) j by (auto simp: c1_def)
    then show ?thesis
      using IH new(1) grow matched set_j by (intro conjI) auto
  qed
qed

section \<open>The whole match\<close>

text \<open>The inputs of an operator are matched by different anchors of the node, in whatever order.\<close>

definition inputs_matched :: "('m, 'z) fusion_store_scheme \<Rightarrow> fusion_pattern \<Rightarrow> mapping \<Rightarrow> nat \<Rightarrow> nat \<Rightarrow> bool" where
  "inputs_matched s p m n op \<longleftrightarrow>
     (let inputs = po_inputs (fp_ops p ! op); anchors = sort_key (GetIdx s) (connected_inputs s n)
      in \<exists>f. inj_on f {..<length inputs} \<and>
           (\<forall>j<length inputs. f j < length anchors \<and> input_node s (anchors ! f j) \<in> set (m (inputs ! j)) \<and>
              type_fits s p (input_node s (anchors ! f j)) (inputs ! j)))"

lemma inputs_matched_mono:
  "inputs_matched s p m n op \<Longrightarrow> (\<And>k. set (m k) \<subseteq> set (m' k)) \<Longrightarrow> inputs_matched s p m' n op"
  unfolding inputs_matched_def Let_def by blast

lemma match_candidate_spec:
  assumes "match_candidate s p n op (cands, m) = ((cands', m'), result)"
  shows "\<exists>new. cands' = cands @ new \<and> grows m m' new \<and>
      (\<forall>(x, k)\<in>set new. k \<in> set (po_inputs (fp_ops p ! op)) \<and> x \<in> input_node s ` set (connected_inputs s n) \<and>
        type_fits s p x k)"
    and "result \<Longrightarrow> inputs_matched s p m' n op"
proof -
  let ?inputs = "po_inputs (fp_ops p ! op)"
  let ?anchors = "sort_key (GetIdx s) (connected_inputs s n)"
  consider "cands' = cands" "m' = m" "?inputs = []" | "cands' = cands" "m' = m" "\<not> result"
    | flags where "match_anchors s p ?inputs ?anchors (replicate (length ?inputs) False, cands, m) = (flags, cands', m')"
        "result = list_all (\<lambda>b. b) flags"
    using assms by (auto simp: match_candidate_def Let_def split: if_splits prod.splits)
  then have "(\<exists>new. cands' = cands @ new \<and> grows m m' new \<and>
      (\<forall>(x, k)\<in>set new. k \<in> set ?inputs \<and> x \<in> input_node s ` set (connected_inputs s n) \<and> type_fits s p x k)) \<and>
    (result \<longrightarrow> inputs_matched s p m' n op)"
  proof cases
    case 1
    then show ?thesis by (auto simp: inputs_matched_def)
  next
    case 3
    note spec = match_anchors_spec [OF _ 3(1)]
    have "inputs_matched s p m' n op" if result
    proof -
      have used: "{j. j < length ?inputs \<and> flags ! j \<and> \<not> replicate (length ?inputs) False ! j} = {..<length ?inputs}"
        "\<forall>j<length ?inputs. flags ! j \<and> \<not> replicate (length ?inputs) False ! j"
        using spec that 3(2) by (auto simp: list_all_length)
      then show ?thesis
        using spec unfolding inputs_matched_def Let_def used(1) by auto
    qed
    with spec show ?thesis by auto
  qed auto
  then show "\<exists>new. cands' = cands @ new \<and> grows m m' new \<and>
      (\<forall>(x, k)\<in>set new. k \<in> set ?inputs \<and> x \<in> input_node s ` set (connected_inputs s n) \<and> type_fits s p x k)"
    and "result \<Longrightarrow> inputs_matched s p m' n op"
    by blast+
qed

definition match_inv :: "('m, 'z) fusion_store_scheme \<Rightarrow> fusion_pattern \<Rightarrow> nat \<Rightarrow> nat \<Rightarrow> candidates \<Rightarrow> mapping \<Rightarrow> bool" where
  "match_inv s p n0 op0 cands m \<longleftrightarrow>
     (\<forall>k x. x \<in> set (m k) \<longrightarrow>
        ((x, k) \<in> set cands \<or> inputs_matched s p m x k) \<and> ((x, k) = (n0, op0) \<or> type_fits s p x k)) \<and>
     (\<forall>k. distinct (m k)) \<and> n0 \<in> set (m op0)"

lemma match_inv_step:
  assumes "match_inv s p n0 op0 ((n, op) # rest) m"
    and "match_candidate s p n op ((n, op) # rest, m) = ((cands', m'), True)"
  shows "match_inv s p n0 op0 (tl cands') m'"
proof -
  obtain new where new: "cands' = ((n, op) # rest) @ new" "grows m m' new"
    "\<forall>(x, k)\<in>set new. k \<in> set (po_inputs (fp_ops p ! op)) \<and> x \<in> input_node s ` set (connected_inputs s n) \<and>
      type_fits s p x k"
    using match_candidate_spec(1) [OF assms(2)] by blast
  have settled: "inputs_matched s p m' n op"
    using match_candidate_spec(2) [OF assms(2)] by simp
  have sub: "set (m k) \<subseteq> set (m' k)" for k
    using new(2) by (simp add: grows_def)
  have mono: "inputs_matched s p m x k \<Longrightarrow> inputs_matched s p m' x k" for x k
    by (rule inputs_matched_mono) (use sub in auto)
  have "((x, k) \<in> set (rest @ new) \<or> inputs_matched s p m' x k) \<and> ((x, k) = (n0, op0) \<or> type_fits s p x k)"
    if "x \<in> set (m' k)" for x k
  proof (cases "x \<in> set (m k)")
    case True
    then have "(x, k) \<in> set ((n, op) # rest) \<or> inputs_matched s p m x k" "(x, k) = (n0, op0) \<or> type_fits s p x k"
      using assms(1) by (simp_all add: match_inv_def)
    then show ?thesis
      using settled mono [of x k] by auto
  next
    case False
    then have "(x, k) \<in> set new"
      using that new(2) by (simp add: grows_def)
    then show ?thesis
      using new(3) by auto
  qed
  moreover have "\<forall>k. distinct (m' k)" "n0 \<in> set (m' op0)"
    using assms(1) new(2) sub by (auto simp: match_inv_def grows_def)
  ultimately show ?thesis
    by (simp add: match_inv_def new(1))
qed

lemma match_loop_sound:
  assumes "match_loop s p cands m = Some r"
  shows "snd r \<longrightarrow> match_inv s p n0 op0 cands m \<longrightarrow> match_inv s p n0 op0 [] (fst r)"
proof (rule match_loop.raw_induct [OF _ assms])
  fix loop :: "('a, 'b) fusion_store_scheme \<Rightarrow> fusion_pattern \<Rightarrow> candidates \<Rightarrow> mapping \<Rightarrow> (mapping \<times> bool) option"
    and s p cands m r
  assume ih: "\<And>s p cands m r. loop s p cands m = Some r \<Longrightarrow>
      snd r \<longrightarrow> match_inv s p n0 op0 cands m \<longrightarrow> match_inv s p n0 op0 [] (fst r)"
    and r: "(case cands of [] \<Rightarrow> Some (m, True)
      | (n, op) # rest \<Rightarrow>
          (case match_candidate s p n op (cands, m) of
             ((cands, m), result) \<Rightarrow> if \<not> result then Some (m, False) else loop s p (tl cands) m)) = Some r"
  show "snd r \<longrightarrow> match_inv s p n0 op0 cands m \<longrightarrow> match_inv s p n0 op0 [] (fst r)"
  proof (cases cands)
    case Nil
    with r show ?thesis by auto
  next
    case (Cons c rest)
    obtain n op where c: "c = (n, op)" by fastforce
    obtain cands' m' result where step: "match_candidate s p n op (cands, m) = ((cands', m'), result)"
      by (metis prod.exhaust)
    show ?thesis
    proof (cases result)
      case True
      then have "loop s p (tl cands') m' = Some r"
        using r step by (simp add: Cons c)
      with ih [OF this] match_inv_step [of s p n0 op0 n op rest m cands' m'] step True show ?thesis
        by (auto simp: Cons c)
    qed (use r step in \<open>auto simp: Cons c\<close>)
  qed
qed

text \<open>Every step settles one candidate, and only pairs that were not matched become candidates.\<close>

definition unmatched :: "nat set \<Rightarrow> nat \<Rightarrow> mapping \<Rightarrow> (nat \<times> nat) set" where
  "unmatched N l m = {(n, op). n \<in> N \<and> op < l \<and> n \<notin> set (m op)}"

lemma finite_unmatched: "finite N \<Longrightarrow> finite (unmatched N l m)"
  by (rule finite_subset [of _ "N \<times> {..<l}"]) (auto simp: unmatched_def)

lemma card_unmatched:
  assumes "finite N" "grows m m' new" "set new \<subseteq> N \<times> {..<l}"
  shows "card (unmatched N l m') + length new = card (unmatched N l m)"
proof -
  have new: "set new \<subseteq> unmatched N l m" "distinct new" "unmatched N l m' = unmatched N l m - set new"
    using assms(2,3) by (auto simp: unmatched_def grows_def)
  then show ?thesis
    using card_mono [OF finite_unmatched [OF assms(1)] new(1)] finite_subset [OF new(1) finite_unmatched [OF assms(1)]]
    by (simp add: card_Diff_subset distinct_card)
qed

definition input_closed :: "('z) node_store_scheme \<Rightarrow> nat set \<Rightarrow> bool" where
  "input_closed s N \<longleftrightarrow> (\<forall>n\<in>N. \<forall>a\<in>set (connected_inputs s n). input_node s a \<in> N)"

lemma match_loop_returns:
  assumes "finite N" "input_closed s N" "pattern_ok p" "set cands \<subseteq> N \<times> {..<length (fp_ops p)}"
  shows "\<exists>r. match_loop s p cands m = Some r"
  using assms(4)
proof (induction "card (unmatched N (length (fp_ops p)) m) + length cands" arbitrary: cands m rule: less_induct)
  case less
  show ?case
  proof (cases cands)
    case Nil
    then have "match_loop s p cands m = Some (m, True)" by (simp add: match_loop.simps)
    then show ?thesis by blast
  next
    case (Cons c rest)
    obtain n op where c: "c = (n, op)" by fastforce
    obtain cands' m' result where step: "match_candidate s p n op (cands, m) = ((cands', m'), result)"
      by (metis prod.exhaust)
    obtain new where new: "cands' = cands @ new" "grows m m' new"
      "\<forall>(x, k)\<in>set new. k \<in> set (po_inputs (fp_ops p ! op)) \<and> x \<in> input_node s ` set (connected_inputs s n) \<and>
        type_fits s p x k"
      using match_candidate_spec(1) [OF step] by blast
    have n: "n \<in> N" "op < length (fp_ops p)"
      using less.prems by (auto simp: Cons c)
    then have "\<forall>k\<in>set (po_inputs (fp_ops p ! op)). k < length (fp_ops p)" "\<forall>a\<in>set (connected_inputs s n). input_node s a \<in> N"
      using assms(2,3) by (auto simp: pattern_ok_def input_closed_def)
    then have sub: "set new \<subseteq> N \<times> {..<length (fp_ops p)}"
      using new(3) by auto
    have "\<exists>r. match_loop s p (tl cands') m' = Some r"
    proof (rule less.hyps)
      show "card (unmatched N (length (fp_ops p)) m') + length (tl cands') <
          card (unmatched N (length (fp_ops p)) m) + length cands"
        using card_unmatched [OF assms(1) new(2) sub] by (simp add: new(1) Cons)
      show "set (tl cands') \<subseteq> N \<times> {..<length (fp_ops p)}"
        using less.prems sub by (simp add: new(1) Cons)
    qed
    then show ?thesis
      using step by (cases result) (auto simp: match_loop.simps [of s p "(n, op) # rest"] Cons c)
  qed
qed

section \<open>Properties\<close>

text \<open> C36: A pattern, however it was written, is built exactly when no operation on it failed and exactly
  one of its operators is marked as the output, which is then the output of the pattern; the
  operators stay as written, have pairwise distinct non-empty names under which they are found, and
  inputs among the operators of the pattern. A built pattern cannot be built again.
\<close>

theorem pattern_build:
  assumes "pattern_edited p" "Build p = (q, ok)"
  shows "(ok \<longleftrightarrow> \<not> fp_has_error p \<and> length (output_ops p) = 1) \<and>
    (ok \<longrightarrow> \<not> fp_has_error q \<and> output_ops p = [the (fp_output q)] \<and> fp_output q \<noteq> None \<and> \<not> snd (Build q)) \<and>
    fp_ops q = fp_ops p \<and> pattern_ok q"
proof -
  note ok = pattern_edited_ok [OF assms(1)]
  note q = assms(2) [unfolded Build_cases [OF assms(1)]]
  have again: "\<not> snd (Build (p\<lparr>fp_output := Some k\<rparr>))" if "output_ops p = [k]" for k
  proof -
    have "k \<in> set (output_ops p)" using that by simp
    then show ?thesis
      by (auto simp: Build_def Let_def find_output_found output_ops_def)
  qed
  show ?thesis
    using q ok again by (auto simp: pattern_ok_def output_ops_def split: if_splits list.splits)
qed

text \<open> C10: The search for a match of a built pattern returns from every node, as long as the nodes behind it
  are finitely many: the loop over the candidates ends, also on cyclic graphs and cyclic patterns.
\<close>

theorem match_returns:
  assumes "pattern_edited p" "Build p = (q, True)" "finite N" "n \<in> N" "input_closed s N"
  shows "\<exists>m result. MatchFromOutput s q (Some n) (GetOutput_op q) (\<lambda>_. []) = Some (m, result)"
proof -
  obtain k where k: "fp_output q = Some k" "k < length (fp_ops q)"
    using Build_ok(2) [OF assms(1,2)] by blast
  have "\<exists>r. match_loop s q [(n, k)] (map_push k n (\<lambda>_. [])) = Some r"
    using assms(4) k by (intro match_loop_returns [OF assms(3,5) Build_ok(1) [OF assms(1,2)]]) simp
  then show ?thesis
    by (auto simp: MatchFromOutput_def GetOutput_op_def k(1))
qed

text \<open> C3: A successful match carries the shape of the pattern: the output operator is matched with the given
  node; every node matched with an operator has, for each input of that operator, an anchor of its
  own among its connected inputs whose source is matched with that input and has one of its types;
  every matched node but the first has a type of its operator; and no node is matched twice with
  the same operator.
\<close>

theorem match_sound:
  assumes "MatchFromOutput s p (Some n) (Some op) (\<lambda>_. []) = Some (m, True)"
  shows "n \<in> set (m op) \<and>
    (\<forall>k x. x \<in> set (m k) \<longrightarrow> inputs_matched s p m x k \<and> ((x, k) = (n, op) \<or> type_fits s p x k)) \<and>
    (\<forall>k. distinct (m k))"
proof -
  have "match_inv s p n op [(n, op)] (map_push op n (\<lambda>_. []))"
    by (simp add: match_inv_def map_push_def)
  then have "match_inv s p n op [] m"
    using match_loop_sound [of s p "[(n, op)]" "map_push op n (\<lambda>_. [])" "(m, True)" n op] assms
    by (simp add: MatchFromOutput_def)
  then show ?thesis
    by (simp add: match_inv_def)
qed

text \<open>
  The store of the examples: node 6 of type \<^verbatim>\<open>Add\<close> with inputs from nodes 2 and 3, which take their only
  inputs from nodes 4 and 5.
\<close>

definition demo_anchor :: "anchor_class \<Rightarrow> nat \<Rightarrow> int \<Rightarrow> nat list \<Rightarrow> anchor" where
  "demo_anchor c n i ps = a_peers_update (\<lambda>_. ps) (new_anchor c n i)"

definition typed_node :: "string \<Rightarrow> nat list \<Rightarrow> nat list \<Rightarrow> node" where
  "typed_node t ins outs =
     new_node (Some (op_desc.make [] t 0 (length ins) (length outs) [] None None)) None\<lparr>n_in_data := ins, n_out_data := outs\<rparr>"

definition tree_store :: "(nat \<Rightarrow> string ge_op_desc) \<Rightarrow> string fusion_store" where
  "tree_store d = fusion_store.make
     [10 \<mapsto> demo_anchor InDataAnchor 6 0 [21], 11 \<mapsto> demo_anchor InDataAnchor 6 1 [31],
      20 \<mapsto> demo_anchor InDataAnchor 2 0 [41], 21 \<mapsto> demo_anchor OutDataAnchor 2 0 [10],
      30 \<mapsto> demo_anchor InDataAnchor 3 0 [51], 31 \<mapsto> demo_anchor OutDataAnchor 3 0 [11],
      41 \<mapsto> demo_anchor OutDataAnchor 4 0 [20], 51 \<mapsto> demo_anchor OutDataAnchor 5 0 [30]]
     [6 \<mapsto> typed_node ''Add'' [10, 11] [], 2 \<mapsto> typed_node ''Relu'' [20] [21], 3 \<mapsto> typed_node ''Tanh'' [30] [31],
      4 \<mapsto> typed_node ''Conv'' [] [41], 5 \<mapsto> typed_node ''Conv'' [] [51]]
     100 [100 \<mapsto> new_graph ''g''\<lparr>g_nodes := [6, 2, 3, 4, 5], g_direct_nodes_size := 5\<rparr>] d (\<lambda>_. []) (\<lambda>_. None) (\<lambda>_. None)"

definition plain_descs :: "nat \<Rightarrow> string ge_op_desc" where
  "plain_descs n = OpDesc_default"

text \<open>A pattern in which both inputs of the output take their input from the same operator.\<close>

definition diamond_pattern :: fusion_pattern where
  "diamond_pattern =
     SetOutput ''add'' (SetInputs ''add'' [''relu'', ''tanh''] (SetInputs ''tanh'' [''conv''] (SetInputs ''relu'' [''conv'']
       (AddOpDesc ''conv'' [''Conv''] (AddOpDesc ''tanh'' [''Tanh''] (AddOpDesc ''relu'' [''Relu''] (AddOpDesc ''add'' [''Add'']
         (FusionPattern ''diamond''))))))))"

lemma diamond_edited: "pattern_edited diamond_pattern"
  unfolding diamond_pattern_def by (intro pattern_edited.intros)

lemma diamond_built:
  "Build diamond_pattern =
    (\<lparr>fp_name = ''diamond'',
      fp_ops = [\<lparr>po_id = ''add'', po_types = [''Add''], po_inputs = [1, 2], po_repeatable = False, po_is_output = True\<rparr>,
        \<lparr>po_id = ''relu'', po_types = [''Relu''], po_inputs = [3], po_repeatable = False, po_is_output = False\<rparr>,
        \<lparr>po_id = ''tanh'', po_types = [''Tanh''], po_inputs = [3], po_repeatable = False, po_is_output = False\<rparr>,
        \<lparr>po_id = ''conv'', po_types = [''Conv''], po_inputs = [], po_repeatable = False, po_is_output = False\<rparr>],
      fp_op_map = [(''add'', 0), (''conv'', 3), (''relu'', 1), (''tanh'', 2)], fp_output = Some 0, fp_has_error = False\<rparr>, True)"
  by code_simp

lemmas tree_defs = tree_store_def fusion_store.make_def demo_anchor_def typed_node_def new_anchor_def new_node_def
  op_desc.make_def

lemma tree_anchors:
  "in_data_anchors (tree_store d) 6 = [10, 11]" "in_data_anchors (tree_store d) 2 = [20]" "in_data_anchors (tree_store d) 3 = [30]"
  "in_data_anchors (tree_store d) 4 = []" "in_data_anchors (tree_store d) 5 = []"
  "GetPeerOutAnchor (tree_store d) 10 = Some 21" "GetPeerOutAnchor (tree_store d) 11 = Some 31"
  "GetPeerOutAnchor (tree_store d) 20 = Some 41" "GetPeerOutAnchor (tree_store d) 30 = Some 51"
  "GetOwnerNode (tree_store d) 21 = Some 2" "GetOwnerNode (tree_store d) 31 = Some 3"
  "GetOwnerNode (tree_store d) 41 = Some 4" "GetOwnerNode (tree_store d) 51 = Some 5"
  "GetIdx (tree_store d) 10 = 0" "GetIdx (tree_store d) 11 = 1"
  by (simp_all add: in_data_anchors_def GetPeerOutAnchor_def peers_def DynamicAnchorCast_def lock_def GetOwnerNode_def
      GetIdx_def tree_defs)

lemma tree_inputs:
  "connected_inputs (tree_store d) 6 = [10, 11]" "connected_inputs (tree_store d) 2 = [20]"
  "connected_inputs (tree_store d) 3 = [30]" "connected_inputs (tree_store d) 4 = []" "connected_inputs (tree_store d) 5 = []"
  "input_node (tree_store d) 10 = 2" "input_node (tree_store d) 11 = 3" "input_node (tree_store d) 20 = 4" "input_node (tree_store d) 30 = 5"
  "GetInDataNodes (tree_store d) 6 \<noteq> []" "GetInDataNodes (tree_store d) 2 \<noteq> []" "GetInDataNodes (tree_store d) 3 \<noteq> []"
  by (simp_all add: connected_inputs_def GetAllInDataAnchors_def input_node_def tree_anchors GetInDataNodes_def owners_def
      List.map_filter_simps)

lemma tree_types:
  "node_type (tree_store d) 2 = ''Relu''" "node_type (tree_store d) 3 = ''Tanh''" "node_type (tree_store d) 4 = ''Conv''"
  "node_type (tree_store d) 5 = ''Conv''" "node_type (tree_store d) 6 = ''Add''"
  by (simp_all add: node_type_def GetNodeType_def GetType_def GetOpDesc_def tree_defs)

lemma tree_match:
  "MatchFromOutput (tree_store d) (fst (Build diamond_pattern)) (Some 6) (Some 0) (\<lambda>_. []) =
     Some ((\<lambda>_. [])(0 := [6], 1 := [2], 2 := [3], 3 := [4, 5]), True)"
  by (simp add: diamond_built MatchFromOutput_def match_loop.simps match_candidate_def Let_def tree_inputs tree_types
      tree_anchors map_push_def IsMatched_def fits_def IsOpTypeExist_def)

text \<open>
  An operator that is an input of two others can be matched with two nodes although it is not
  repeatable: the diamond matches a graph whose two middle nodes have different inputs.
\<close>

lemma shared_operator_matched_twice:
  "\<exists>m. MatchFromOutput (tree_store d) (fst (Build diamond_pattern)) (Some 6) (Some 0) (\<lambda>_. []) = Some (m, True) \<and>
     m 3 = [4, 5] \<and> \<not> po_repeatable (fp_ops (fst (Build diamond_pattern)) ! 3)"
  by (intro exI conjI, rule tree_match) (simp_all add: diamond_built)

theorem pattern_build_witness:
  "snd (Build diamond_pattern) \<and> output_ops (fst (Build diamond_pattern)) = [0] \<and>
   \<not> snd (Build (fst (Build diamond_pattern)))"
proof -
  have b: "snd (Build diamond_pattern)" "fp_output (fst (Build diamond_pattern)) = Some 0"
    by (simp_all add: diamond_built)
  show ?thesis
    using pattern_build [OF diamond_edited prod.collapse [symmetric]] b by (auto simp: output_ops_def)
qed

theorem match_returns_witness:
  "\<exists>m result. MatchFromOutput (tree_store plain_descs) (fst (Build diamond_pattern)) (Some 6) (GetOutput_op (fst (Build diamond_pattern)))
     (\<lambda>_. []) = Some (m, result)"
  by (rule match_returns [OF diamond_edited, of _ "{2, 3, 4, 5, 6}"])
    (simp_all add: diamond_built input_closed_def tree_inputs)

theorem match_sound_witness:
  "\<exists>m. MatchFromOutput (tree_store plain_descs) (fst (Build diamond_pattern)) (Some 6) (Some 0) (\<lambda>_. []) = Some (m, True) \<and>
     inputs_matched (tree_store plain_descs) (fst (Build diamond_pattern)) m 2 1"
proof (intro exI conjI, rule tree_match)
  show "inputs_matched (tree_store plain_descs) (fst (Build diamond_pattern)) ((\<lambda>_. [])(0 := [6], 1 := [2], 2 := [3], 3 := [4, 5])) 2 1"
    using match_sound [OF tree_match] by simp
qed

end
