(* ===== verification/FusionPasses.thy ===== *)
theory FusionPasses
  imports FusionMatch
begin

text \<open>
  Passes that fuse what a pattern matches: \<^verbatim>\<open>pattern_fusion_base_pass.cc\<close>,
  \<^verbatim>\<open>graph_fusion_pass_base.cc\<close>, the attributes for data dump of
  \<^verbatim>\<open>fusion_common/graph_pass_util.h\<close> and the statistics of
  \<^verbatim>\<open>fusion_statistic_recorder.cc\<close>. The virtual functions of a pass, \<^verbatim>\<open>DefinePatterns\<close> and
  \<^verbatim>\<open>Fusion\<close>, are arguments. Locks and logging are left out.
\<close>

section \<open>Statistics\<close>

record fusion_info =
  fi_session_id :: "64 word"
  fi_graph_id :: string
  fi_pass_name :: string
  fi_match_times :: "32 word"
  fi_effect_times :: "32 word"

definition FusionInfo_default :: fusion_info where
  "FusionInfo_default = \<lparr>fi_session_id = 0, fi_graph_id = [], fi_pass_name = [], fi_match_times = 0, fi_effect_times = 0\<rparr>"

definition AddMatchTimes :: "32 word \<Rightarrow> fusion_info \<Rightarrow> fusion_info" where
  "AddMatchTimes t i = i\<lparr>fi_match_times := fi_match_times i + t\<rparr>"

definition AddEffectTimes :: "32 word \<Rightarrow> fusion_info \<Rightarrow> fusion_info" where
  "AddEffectTimes t i = i\<lparr>fi_effect_times := fi_effect_times i + t\<rparr>"

type_synonym statistic_map = "(string \<times> (string \<times> fusion_info) list) list"

record fusion_recorder =
  graph_fusion_info_map :: statistic_map
  buffer_fusion_info_map :: statistic_map

definition session_and_graph_id :: "fusion_info \<Rightarrow> string" where
  "session_and_graph_id i = to_string (uint (fi_session_id i)) @ ''_'' @ fi_graph_id i"

text \<open>\<^verbatim>\<open>map[a][b]\<close>: the entry, made with default values if it is missing.\<close>

definition infos_at :: "string \<Rightarrow> statistic_map \<Rightarrow> (string \<times> fusion_info) list" where
  "infos_at k m = (case map_of m k of None \<Rightarrow> [] | Some infos \<Rightarrow> infos)"

definition info_at :: "string \<Rightarrow> string \<Rightarrow> statistic_map \<Rightarrow> fusion_info" where
  "info_at k pass m = (case map_of (infos_at k m) pass of None \<Rightarrow> FusionInfo_default | Some i \<Rightarrow> i)"

definition upd_info :: "string \<Rightarrow> string \<Rightarrow> (fusion_info \<Rightarrow> fusion_info) \<Rightarrow> statistic_map \<Rightarrow> statistic_map" where
  "upd_info k pass f m = map_put k (map_put pass (f (info_at k pass m)) (infos_at k m)) m"

definition UpdateGraphFusionMatchTimes :: "fusion_info \<Rightarrow> fusion_recorder \<Rightarrow> fusion_recorder" where
  "UpdateGraphFusionMatchTimes i r =
     (if fi_match_times i \<noteq> 0 then
        graph_fusion_info_map_update (upd_info (session_and_graph_id i) (fi_pass_name i) (AddMatchTimes (fi_match_times i))) r
      else r)"

definition UpdateGraphFusionEffectTimes :: "fusion_info \<Rightarrow> fusion_recorder \<Rightarrow> fusion_recorder" where
  "UpdateGraphFusionEffectTimes i r =
     (if fi_effect_times i \<noteq> 0 then
        graph_fusion_info_map_update (upd_info (session_and_graph_id i) (fi_pass_name i) (AddEffectTimes (fi_effect_times i))) r
      else r)"

definition UpdateBufferFusionMatchTimes :: "fusion_info \<Rightarrow> fusion_recorder \<Rightarrow> fusion_recorder" where
  "UpdateBufferFusionMatchTimes i r =
     (if fi_match_times i \<noteq> 0 then
        buffer_fusion_info_map_update (upd_info (session_and_graph_id i) (fi_pass_name i) (AddMatchTimes (fi_match_times i))) r
      else r)"

definition UpdateBufferFusionEffectTimes :: "fusion_info \<Rightarrow> fusion_recorder \<Rightarrow> fusion_recorder" where
  "UpdateBufferFusionEffectTimes i r =
     (if fi_effect_times i \<noteq> 0 then
        buffer_fusion_info_map_update (upd_info (session_and_graph_id i) (fi_pass_name i) (AddEffectTimes (fi_effect_times i))) r
      else r)"

text \<open>The out parameters keep what they hold if there is no entry.\<close>

definition GetFusionInfo :: "string \<Rightarrow> fusion_recorder \<Rightarrow> (string \<times> fusion_info) list \<Rightarrow> (string \<times> fusion_info) list \<Rightarrow>
    (string \<times> fusion_info) list \<times> (string \<times> fusion_info) list" where
  "GetFusionInfo k r graph_infos buffer_infos =
     (case map_of (graph_fusion_info_map r) k of None \<Rightarrow> graph_infos | Some x \<Rightarrow> x,
      case map_of (buffer_fusion_info_map r) k of None \<Rightarrow> buffer_infos | Some x \<Rightarrow> x)"

definition ClearFusionInfo :: "string \<Rightarrow> fusion_recorder \<Rightarrow> fusion_recorder" where
  "ClearFusionInfo k r =
     r\<lparr>graph_fusion_info_map := AList.delete k (graph_fusion_info_map r),
       buffer_fusion_info_map := AList.delete k (buffer_fusion_info_map r)\<rparr>"

definition GetAndClearFusionInfo :: "string \<Rightarrow> fusion_recorder \<Rightarrow> (string \<times> fusion_info) list \<Rightarrow> (string \<times> fusion_info) list \<Rightarrow>
    fusion_recorder \<times> (string \<times> fusion_info) list \<times> (string \<times> fusion_info) list" where
  "GetAndClearFusionInfo k r graph_infos buffer_infos =
     (ClearFusionInfo k r, GetFusionInfo k r graph_infos buffer_infos)"

section \<open>Attributes of fused nodes\<close>

definition ATTR_NAME_DATA_DUMP_ORIGIN_OP_NAMES :: string where
  "ATTR_NAME_DATA_DUMP_ORIGIN_OP_NAMES = ''_datadump_original_op_names''"
definition ATTR_NAME_DATA_DUMP_IS_MULTIOP :: string where "ATTR_NAME_DATA_DUMP_IS_MULTIOP = ''_datadump_is_multiop''"
definition ATTR_NAME_DATA_DUMP_ORIGIN_NAME :: string where "ATTR_NAME_DATA_DUMP_ORIGIN_NAME = ''_datadump_origin_name''"
definition ATTR_NAME_DATA_DUMP_ORIGIN_OUTPUT_INDEX :: string where
  "ATTR_NAME_DATA_DUMP_ORIGIN_OUTPUT_INDEX = ''_datadump_origin_output_index''"
definition ATTR_NAME_DATA_DUMP_ORIGIN_FORMAT :: string where
  "ATTR_NAME_DATA_DUMP_ORIGIN_FORMAT = ''_datadump_origin_format''"
definition ATTR_NAME_DATA_DUMP_ORIGIN_DATA_TYPE :: string where
  "ATTR_NAME_DATA_DUMP_ORIGIN_DATA_TYPE = ''_datadump_origin_data_type''"
definition STREAM_LABEL :: string where "STREAM_LABEL = ''_stream_label''"

definition GetDataDumpOriginFormat :: "('m, 'z) ge_tensor_desc_scheme \<Rightarrow> Format" where
  "GetDataDumpOriginFormat td =
     (case GetStr td ATTR_NAME_DATA_DUMP_ORIGIN_FORMAT [] of (str, ok) \<Rightarrow>
        if \<not> ok then FORMAT_RESERVED else if str = ''RESERVED'' then FORMAT_RESERVED else SerialStringToFormat str)"

definition SetDataDumpOriginFormat :: "Format \<Rightarrow> ('m, 'z) ge_tensor_desc_scheme \<Rightarrow> ('m, 'z) ge_tensor_desc_scheme" where
  "SetDataDumpOriginFormat f td =
     fst (SetStr ATTR_NAME_DATA_DUMP_ORIGIN_FORMAT
           (if f \<noteq> FORMAT_RESERVED then FormatToSerialString f else ''RESERVED'') td)"

definition SetDataDumpOriginDataType :: "DataType \<Rightarrow> ('m, 'z) ge_tensor_desc_scheme \<Rightarrow> ('m, 'z) ge_tensor_desc_scheme" where
  "SetDataDumpOriginDataType dt td =
     fst (SetStr ATTR_NAME_DATA_DUMP_ORIGIN_DATA_TYPE
           (if dt \<noteq> DT_UNDEFINED then DataTypeToSerialString dt else ''RESERVED'') td)"

definition GetDataDumpOriginDataType :: "('m, 'z) ge_tensor_desc_scheme \<Rightarrow> DataType" where
  "GetDataDumpOriginDataType td =
     (case GetStr td ATTR_NAME_DATA_DUMP_ORIGIN_DATA_TYPE [] of (str, ok) \<Rightarrow>
        if \<not> ok then DT_UNDEFINED else if str = ''RESERVED'' then DT_UNDEFINED else SerialStringToDataType str)"

text \<open>
  The description of an output is shared with the node, so what is written is seen by what is read
  after it, also when origin and fused output are the same.
\<close>

definition out_desc :: "('m, 'z) fusion_store_scheme \<Rightarrow> nat \<Rightarrow> nat \<Rightarrow> 'm ge_tensor_desc" where
  "out_desc s n i = outputs_desc (op_descs s n) ! i"

definition upd_out :: "nat \<Rightarrow> nat \<Rightarrow> ('m ge_tensor_desc \<Rightarrow> 'm ge_tensor_desc) \<Rightarrow> ('m, 'z) fusion_store_scheme \<Rightarrow> ('m, 'z) fusion_store_scheme" where
  "upd_out n i f s = upd_desc n (outputs_desc_update (\<lambda>ds. ds[i := f (ds ! i)])) s"

definition SetOutputDescAttr :: "32 word \<Rightarrow> 32 word \<Rightarrow> nat \<Rightarrow> nat \<Rightarrow> ('m, 'z) fusion_store_scheme \<Rightarrow> ('m, 'z) fusion_store_scheme" where
  "SetOutputDescAttr origin_index fusion_index origin_node fusion_node s =
     (let oi = unat origin_index; fi = unat fusion_index; set_out = upd_out fusion_node fi
      in if GetOpDesc s fusion_node = None then s
         else if MutableOutputDesc_at fi (op_descs s fusion_node) = None then s
         else if GetOpDesc s origin_node = None then s
         else if MutableOutputDesc_at oi (op_descs s origin_node) = None then s
         else
           (case GetListStr (op_descs s origin_node) ATTR_NAME_DATA_DUMP_ORIGIN_OP_NAMES [] of
              (original_names, ok) \<Rightarrow>
                if ok \<and> 0 < length original_names then
                  (case GetStr (out_desc s origin_node oi) ATTR_NAME_DATA_DUMP_ORIGIN_NAME [] of
                     (original_name, named) \<Rightarrow>
                       if \<not> named then s
                       else
                         (let s = set_out (\<lambda>td. fst (SetStr ATTR_NAME_DATA_DUMP_ORIGIN_NAME original_name td)) s;
                              s = (case GetInt (out_desc s origin_node oi) ATTR_NAME_DATA_DUMP_ORIGIN_OUTPUT_INDEX 0 of
                                     (i, has) \<Rightarrow> if has then set_out (\<lambda>td. fst (SetInt ATTR_NAME_DATA_DUMP_ORIGIN_OUTPUT_INDEX i td)) s else s);
                              dt = GetDataDumpOriginDataType (out_desc s origin_node oi);
                              s = (if dt \<noteq> DT_UNDEFINED then set_out (SetDataDumpOriginDataType dt) s else s);
                              f = GetDataDumpOriginFormat (out_desc s origin_node oi)
                          in if f \<noteq> FORMAT_RESERVED then set_out (SetDataDumpOriginFormat f) s else s))
                else
                  (let s = set_out (\<lambda>td. fst (SetStr ATTR_NAME_DATA_DUMP_ORIGIN_NAME (GetName s origin_node) td)) s;
                       s = set_out (\<lambda>td. fst (SetInt ATTR_NAME_DATA_DUMP_ORIGIN_OUTPUT_INDEX (ucast origin_index) td)) s;
                       s = set_out (SetDataDumpOriginDataType (GetOriginDataType (out_desc s origin_node oi))) s
                   in set_out (SetDataDumpOriginFormat (GetOriginFormat (out_desc s origin_node oi))) s)))"

text \<open>The names the fused node records; absent if one of the original nodes has no description.\<close>

fun original_names :: "('m, 'z) fusion_store_scheme \<Rightarrow> nat list \<Rightarrow> string list \<Rightarrow> string list option" where
  "original_names s [] names = Some names"
| "original_names s (n # ns) names =
     (if GetOpDesc s n = None then None
      else (case GetListStr (op_descs s n) ATTR_NAME_DATA_DUMP_ORIGIN_OP_NAMES [] of
              (names_tmp, is_has_attr) \<Rightarrow>
                original_names s ns (names @ (if is_has_attr then filter (\<lambda>x. x \<noteq> []) names_tmp else [GetName s n]))))"

definition RecordOriginalNames :: "nat list \<Rightarrow> nat \<Rightarrow> ('m, 'z) fusion_store_scheme \<Rightarrow> ('m, 'z) fusion_store_scheme" where
  "RecordOriginalNames original_nodes n s =
     (case original_names s original_nodes [] of
        None \<Rightarrow> s
      | Some names \<Rightarrow>
          if GetOpDesc s n = None then s
          else upd_desc n (\<lambda>od. fst (SetListStr ATTR_NAME_DATA_DUMP_ORIGIN_OP_NAMES names od)) s)"

fun check_labels :: "('m, 'z) fusion_store_scheme \<Rightarrow> nat list \<Rightarrow> string \<Rightarrow> bool" where
  "check_labels s [] stream_label = True"
| "check_labels s (n # ns) stream_label =
     (let stream_label_tmp = (case GetStr (op_descs s n) STREAM_LABEL [] of (l, ok) \<Rightarrow> if ok then l else ''null'')
      in if stream_label = [] then check_labels s ns stream_label_tmp
         else if stream_label \<noteq> stream_label_tmp then False
         else check_labels s ns stream_label)"

definition CheckStreamLabel :: "('m, 'z) fusion_store_scheme \<Rightarrow> nat list \<Rightarrow> bool" where
  "CheckStreamLabel s fused_nodes = check_labels s fused_nodes []"

fun set_labels :: "string \<Rightarrow> nat list \<Rightarrow> ('m, 'z) fusion_store_scheme \<Rightarrow> ('m, 'z) fusion_store_scheme \<times> bool" where
  "set_labels l [] s = (s, True)"
| "set_labels l (n # ns) s =
     (case SetStr STREAM_LABEL l (op_descs s n) of (od, ok) \<Rightarrow>
        let s = upd_desc n (\<lambda>_. od) s in if \<not> ok then (s, False) else set_labels l ns s)"

definition SetStreamLabelToFusedNodes :: "nat list \<Rightarrow> nat \<Rightarrow> ('m, 'z) fusion_store_scheme \<Rightarrow> ('m, 'z) fusion_store_scheme \<times> bool" where
  "SetStreamLabelToFusedNodes fused_nodes first_node s =
     (case GetStr (op_descs s first_node) STREAM_LABEL [] of (l, ok) \<Rightarrow>
        if ok then set_labels l fused_nodes s else (s, True))"

fun InheritAttrFromOriNode :: "nat list \<Rightarrow> nat \<Rightarrow> ('m, 'z) fusion_store_scheme \<Rightarrow> ('m, 'z) fusion_store_scheme" where
  "InheritAttrFromOriNode [] fusion_node s = s"
| "InheritAttrFromOriNode (origin_node # ns) fusion_node s =
     (case GetInt (op_descs s origin_node) ''_keep_dtype'' 0 of (keep_dtype, ok) \<Rightarrow>
        if ok \<and> keep_dtype \<noteq> 0 then upd_desc fusion_node (\<lambda>od. fst (SetInt ''_keep_dtype'' keep_dtype od)) s
        else InheritAttrFromOriNode ns fusion_node s)"

section \<open>Matches of a pattern\<close>

text \<open>
  A mapping is ordered by the addresses of the operators of the pattern: \<open>order\<close> lists them in that
  order.
\<close>

definition GetNodesFromMapping :: "nat list \<Rightarrow> mapping \<Rightarrow> nat list" where
  "GetNodesFromMapping order m = concat (map m order)"

definition GetNodeFromMapping :: "fusion_pattern \<Rightarrow> nat list \<Rightarrow> string \<Rightarrow> mapping \<Rightarrow> ptr" where
  "GetNodeFromMapping p order i m =
     (case find (\<lambda>op. m op \<noteq> [] \<and> po_id (fp_ops p ! op) = i) order of None \<Rightarrow> None | Some op \<Rightarrow> Some (hd (m op)))"

text \<open>
  For every node, the inputs its outputs were linked to, with the outputs; the inner map is ordered
  by the addresses of the inputs.
\<close>

type_synonym origin_map = "(nat \<times> (nat \<times> nat) list) list"

definition emplace_anchor :: "nat \<Rightarrow> nat \<Rightarrow> (nat \<times> nat) list \<Rightarrow> (nat \<times> nat) list" where
  "emplace_anchor peer a m = (if map_of m peer \<noteq> None then m else insort_key fst (peer, a) m)"

definition record_anchor :: "nat \<Rightarrow> nat \<times> nat \<Rightarrow> origin_map \<Rightarrow> origin_map" where
  "record_anchor n link om =
     (case link of (peer_in_anchor, output_anchor) \<Rightarrow>
        case map_of om n of
          None \<Rightarrow> om @ [(n, [(peer_in_anchor, output_anchor)])]
        | Some m \<Rightarrow> AList.update n (emplace_anchor peer_in_anchor output_anchor m) om)"

definition RecordOutputAnchorMap :: "('z) node_store_scheme \<Rightarrow> nat \<Rightarrow> origin_map \<Rightarrow> origin_map" where
  "RecordOutputAnchorMap s output_node om =
     fold (record_anchor output_node)
       (concat (map (\<lambda>output_anchor. map (\<lambda>peer. (peer, output_anchor)) (OutData_GetPeerInDataAnchors s output_anchor))
          (GetAllOutDataAnchors s output_node))) om"

text \<open>
  The loop over the possible outputs. A match whose nodes have different stream labels ends it, and
  with it the search for this pattern; \<^term>\<open>None\<close> if a search does not return.
\<close>

fun match_outputs :: "('m, 'z) fusion_store_scheme \<Rightarrow> fusion_pattern \<Rightarrow> nat list \<Rightarrow> nat list \<Rightarrow> mapping list \<times> origin_map \<Rightarrow>
    ((mapping list \<times> origin_map) \<times> bool) option" where
  "match_outputs s p order [] (mappings, om) = Some ((mappings, om), mappings \<noteq> [])"
| "match_outputs s p order (n # ns) (mappings, om) =
     (case MatchFromOutput s p (Some n) (GetOutput_op p) (\<lambda>_. []) of
        None \<Rightarrow> None
      | Some (m, found) \<Rightarrow>
          if \<not> found then match_outputs s p order ns (mappings, om)
          else if \<not> CheckStreamLabel s (GetNodesFromMapping order m) then Some ((mappings, om), False)
          else match_outputs s p order ns (mappings @ [m], RecordOutputAnchorMap s n om))"

definition MatchAll :: "('m, 'z) fusion_store_scheme \<Rightarrow> nat \<Rightarrow> fusion_pattern \<Rightarrow> nat list \<Rightarrow> origin_map \<Rightarrow>
    ((mapping list \<times> origin_map) \<times> bool) option" where
  "MatchAll s g p order om =
     (if GetOutput_op p = None then Some (([], om), False)
      else if GetMatchOutputNodes s g p = [] then Some (([], om), False)
      else match_outputs s p order (GetMatchOutputNodes s g p) ([], om))"

section \<open>After the fusion\<close>

text \<open>One recorded link: what drives the input now, if it is a fused node, takes the attributes of the origin.\<close>

fun dump_links :: "(nat \<times> nat) list \<Rightarrow> nat list \<Rightarrow> ('m, 'z) fusion_store_scheme \<Rightarrow> ('m, 'z) fusion_store_scheme \<times> bool" where
  "dump_links [] fus_nodes s = (s, True)"
| "dump_links ((next_in, origin_out) # links) fus_nodes s =
     (case GetPeerOutAnchor s next_in of
        None \<Rightarrow> (s, False)
      | Some fusion_out \<Rightarrow>
          (case GetOwnerNode s fusion_out of
             None \<Rightarrow> (s, False)
           | Some fusion_node \<Rightarrow>
               if IsNodesExist fusion_node fus_nodes then
                 (case GetOwnerNode s origin_out of
                    None \<Rightarrow> (s, False)
                  | Some origin_node \<Rightarrow>
                      dump_links links fus_nodes
                        (SetOutputDescAttr (word_of_int (GetIdx s origin_out)) (word_of_int (GetIdx s fusion_out))
                           origin_node fusion_node s))
               else dump_links links fus_nodes s))"

fun dump_origins :: "nat list \<Rightarrow> origin_map \<Rightarrow> nat list \<Rightarrow> ('m, 'z) fusion_store_scheme \<Rightarrow> ('m, 'z) fusion_store_scheme \<times> bool" where
  "dump_origins [] om fus_nodes s = (s, True)"
| "dump_origins (n # ns) om fus_nodes s =
     (case map_of om n of
        None \<Rightarrow> dump_origins ns om fus_nodes s
      | Some links \<Rightarrow>
          (case dump_links links fus_nodes s of
             (s, ok) \<Rightarrow> if ok then dump_origins ns om fus_nodes s else (s, False)))"

definition SetDataDumpAttr :: "origin_map \<Rightarrow> nat list \<Rightarrow> nat list \<Rightarrow> ('m, 'z) fusion_store_scheme \<Rightarrow> ('m, 'z) fusion_store_scheme \<times> bool" where
  "SetDataDumpAttr om original_nodes fus_nodes s =
     (case dump_origins original_nodes om fus_nodes s of
        (s, ok) \<Rightarrow>
          if \<not> ok then (s, False)
          else
            (let s = fold (RecordOriginalNames original_nodes) fus_nodes s;
                 s = (if 1 < length fus_nodes
                      then fold (\<lambda>n. upd_desc n (\<lambda>od. fst (SetBool ATTR_NAME_DATA_DUMP_IS_MULTIOP True od))) fus_nodes s
                      else s)
             in (s, True)))"

section \<open>Running a pass\<close>

abbreviation SUCCESS :: "32 word" where "SUCCESS \<equiv> 0"
abbreviation FAILED :: "32 word" where "FAILED \<equiv> 0xffffffff"
abbreviation NOT_CHANGED :: "32 word" where "NOT_CHANGED \<equiv> 0x033200c9"

text \<open>
  \<^verbatim>\<open>Fusion\<close> may change the graph, the recorded links and the mapping it is given, and returns a
  status and the new nodes.
\<close>

type_synonym 'm fusion_state = "'m fusion_store \<times> origin_map"
type_synonym 'm fusion_fun =
  "mapping \<Rightarrow> 'm fusion_state \<Rightarrow> 'm fusion_state \<times> mapping \<times> 32 word \<times> nat list"

definition pattern_fuse :: "'m fusion_fun \<Rightarrow> ptr \<Rightarrow> nat list \<Rightarrow> mapping \<Rightarrow> 'm fusion_state \<Rightarrow> 'm fusion_state \<times> 32 word" where
  "pattern_fuse Fusion info order m st =
     (let first_node = hd (GetNodesFromMapping order m)
      in case Fusion m st of
           ((s, om), m, status, fus_nodes) \<Rightarrow>
             (case SetStreamLabelToFusedNodes fus_nodes first_node s of
                (s, ok) \<Rightarrow>
                  if \<not> ok then ((s, om), FAILED)
                  else if status \<noteq> SUCCESS then ((s, om), status)
                  else
                    (let original_nodes = GetNodesFromMapping order m;
                         s = fst (SetDataDumpAttr om original_nodes fus_nodes s);
                         s = fold (\<lambda>n s. InheritAttrFromOriNode original_nodes n (AddNodeFromOpTypeMap info n s)) fus_nodes s
                     in ((s, om), SUCCESS))))"

definition graph_fuse :: "'m fusion_fun \<Rightarrow> ptr \<Rightarrow> mapping \<Rightarrow> 'm fusion_state \<Rightarrow> 'm fusion_state \<times> 32 word" where
  "graph_fuse Fusion info m st =
     (case Fusion m st of
        ((s, om), m, status, fus_nodes) \<Rightarrow>
          if status \<noteq> SUCCESS then ((s, om), status)
          else ((fold (AddNodeFromOpTypeMap info) fus_nodes s, om), SUCCESS))"

text \<open>
  The loop over the mappings, the same in both classes of passes: the state, the number of fusions that
  had an effect, and the first status that is an error.
\<close>

fun fuse_all :: "(mapping \<Rightarrow> 'm fusion_state \<Rightarrow> 'm fusion_state \<times> 32 word) \<Rightarrow> mapping list \<Rightarrow> 'm fusion_state \<Rightarrow> nat \<Rightarrow>
    'm fusion_state \<times> nat \<times> 32 word" where
  "fuse_all fuse [] st effect_times = (st, effect_times, SUCCESS)"
| "fuse_all fuse (m # ms) st effect_times =
     (case fuse m st of
        (st, status) \<Rightarrow>
          if status \<noteq> SUCCESS \<and> status \<noteq> NOT_CHANGED then (st, effect_times, status)
          else fuse_all fuse ms st (if status = SUCCESS then effect_times + 1 else effect_times))"

text \<open>The identity of a run in the statistics: session, graph and pass.\<close>

type_synonym run_ident = "64 word \<times> 32 word \<times> string"

definition record_run :: "run_ident \<Rightarrow> nat \<Rightarrow> nat \<Rightarrow> fusion_recorder \<Rightarrow> fusion_recorder" where
  "record_run ident match_times effect_times r =
     (case ident of (session_id, graph_id, pass_name) \<Rightarrow>
        let i = \<lparr>fi_session_id = session_id, fi_graph_id = to_string (uint graph_id), fi_pass_name = pass_name,
                 fi_match_times = of_nat match_times, fi_effect_times = of_nat effect_times\<rparr>
        in UpdateGraphFusionEffectTimes i (UpdateGraphFusionMatchTimes i r))"

definition RunOnePattern :: "'m fusion_fun \<Rightarrow> run_ident \<Rightarrow> nat \<Rightarrow> (fusion_pattern \<Rightarrow> nat list) \<Rightarrow> fusion_pattern \<Rightarrow>
    'm fusion_state \<times> fusion_recorder \<Rightarrow> (('m fusion_state \<times> fusion_recorder) \<times> 32 word \<times> bool) option" where
  "RunOnePattern Fusion ident g order p sr =
     (case sr of ((s, om), r) \<Rightarrow>
        case MatchAll s g p (order p) [] of
          None \<Rightarrow> None
        | Some ((mappings, om), matched) \<Rightarrow>
            if \<not> matched then Some (((s, om), r), SUCCESS, False)
            else
              (case fuse_all (pattern_fuse Fusion (GetOpTypeMapToGraph s g) (order p)) mappings (s, om) 0 of
                 (st, effect_times, status) \<Rightarrow>
                   if status \<noteq> SUCCESS then Some ((st, r), status, 0 < effect_times)
                   else Some ((st, record_run ident (length mappings) effect_times r), SUCCESS, 0 < effect_times)))"

text \<open>\<^verbatim>\<open>GraphFusionPassBase\<close>: no stream labels, no data dump.\<close>

fun graph_match_outputs :: "('m, 'z) fusion_store_scheme \<Rightarrow> fusion_pattern \<Rightarrow> nat list \<Rightarrow> mapping list \<Rightarrow> mapping list option" where
  "graph_match_outputs s p [] mappings = Some mappings"
| "graph_match_outputs s p (n # ns) mappings =
     (case MatchFromOutput s p (Some n) (GetOutput_op p) (\<lambda>_. []) of
        None \<Rightarrow> None
      | Some (m, found) \<Rightarrow> graph_match_outputs s p ns (if found then mappings @ [m] else mappings))"

definition Graph_MatchAll :: "('m, 'z) fusion_store_scheme \<Rightarrow> nat \<Rightarrow> fusion_pattern \<Rightarrow> (mapping list \<times> bool) option" where
  "Graph_MatchAll s g p =
     (if GetOutput_op p = None then Some ([], False)
      else if GetMatchOutputNodes s g p = [] then Some ([], False)
      else map_option (\<lambda>mappings. (mappings, mappings \<noteq> [])) (graph_match_outputs s p (GetMatchOutputNodes s g p) []))"

definition Graph_RunOnePattern :: "'m fusion_fun \<Rightarrow> run_ident \<Rightarrow> nat \<Rightarrow> fusion_pattern \<Rightarrow>
    'm fusion_state \<times> fusion_recorder \<Rightarrow> (('m fusion_state \<times> fusion_recorder) \<times> 32 word \<times> bool) option" where
  "Graph_RunOnePattern Fusion ident g p sr =
     (case sr of ((s, om), r) \<Rightarrow>
        case Graph_MatchAll s g p of
          None \<Rightarrow> None
        | Some (mappings, matched) \<Rightarrow>
            if \<not> matched then Some (sr, SUCCESS, False)
            else
              (case fuse_all (graph_fuse Fusion (GetOpTypeMapToGraph s g)) mappings (s, om) 0 of
                 (st, effect_times, status) \<Rightarrow>
                   if status \<noteq> SUCCESS then Some ((st, r), status, 0 < effect_times)
                   else Some ((st, record_run ident (length mappings) effect_times r), SUCCESS, 0 < effect_times)))"

text \<open>The patterns of a pass are built on its first run and kept; a null pattern is skipped.\<close>

definition build_patterns :: "fusion_pattern option list \<Rightarrow> fusion_pattern option list \<times> bool" where
  "build_patterns ps =
     (map (map_option (\<lambda>p. fst (Build p))) ps, list_all (\<lambda>p. case p of None \<Rightarrow> True | Some p \<Rightarrow> snd (Build p)) ps)"

definition count_run :: "nat \<Rightarrow> ('m, 'z) fusion_store_scheme \<Rightarrow> ('m, 'z) fusion_store_scheme" where
  "count_run g s =
     (case GetOpTypeMapToGraph s g of
        None \<Rightarrow> s
      | Some i \<Rightarrow> s\<lparr>node_map_infos := (node_map_infos s)(i := map_option (run_count_update (\<lambda>c. c + 1)) (node_map_infos s i))\<rparr>)"

fun run_patterns :: "(fusion_pattern \<Rightarrow> 's \<Rightarrow> ('s \<times> 32 word \<times> bool) option) \<Rightarrow> fusion_pattern option list \<Rightarrow> 's \<Rightarrow> bool \<Rightarrow>
    ('s \<times> 32 word) option" where
  "run_patterns run [] st final_changed = Some (st, if final_changed then SUCCESS else NOT_CHANGED)"
| "run_patterns run (None # ps) st final_changed = run_patterns run ps st final_changed"
| "run_patterns run (Some p # ps) st final_changed =
     (case run p st of
        None \<Rightarrow> None
      | Some (st, ret, changed) \<Rightarrow>
          if ret \<noteq> SUCCESS then Some (st, ret) else run_patterns run ps st (final_changed \<or> changed))"

text \<open>
  \<^verbatim>\<open>Run\<close> of both classes, given what the class does for one pattern: the patterns of the pass after
  the run, and the state with the status.
\<close>

definition pass_Run :: "(fusion_pattern \<Rightarrow> 'm fusion_state \<times> fusion_recorder \<Rightarrow>
      (('m fusion_state \<times> fusion_recorder) \<times> 32 word \<times> bool) option) \<Rightarrow> fusion_pattern option list \<Rightarrow> nat \<Rightarrow>
    fusion_pattern option list \<Rightarrow> 'm fusion_state \<times> fusion_recorder \<Rightarrow>
    fusion_pattern option list \<times> (('m fusion_state \<times> fusion_recorder) \<times> 32 word) option" where
  "pass_Run run DefinePatterns g patterns sr =
     (case (if patterns = [] then build_patterns DefinePatterns else (patterns, True)) of
        (patterns, is_patterns_ok) \<Rightarrow>
          (patterns,
           if \<not> is_patterns_ok then Some (sr, FAILED)
           else (case sr of ((s, om), r) \<Rightarrow> run_patterns run patterns ((count_run g s, om), r) False)))"

definition PatternFusionBasePass_Run where
  "PatternFusionBasePass_Run Fusion ident order DefinePatterns g patterns sr =
     pass_Run (RunOnePattern Fusion ident g order) DefinePatterns g patterns sr"

definition GraphFusionPassBase_Run where
  "GraphFusionPassBase_Run Fusion ident DefinePatterns g patterns sr =
     pass_Run (Graph_RunOnePattern Fusion ident g) DefinePatterns g patterns sr"

end
