(* ===== verification/FusionPass_Properties.thy ===== *)
theory FusionPass_Properties
  imports FusionPasses TensorDesc_Properties
begin

text \<open>
  What a run of a fusion pass reports, which matches it drops, and that the statistics of all runs
  add up until they are fetched.
\<close>

section \<open>Runs without effect\<close>

lemma fuse_all_counts: "fuse_all fuse ms st e = (st', e', status) \<Longrightarrow> e \<le> e'"
proof (induction ms arbitrary: st e)
  case (Cons m ms)
  obtain st1 s1 where 1: "fuse m st = (st1, s1)" by fastforce
  show ?case
    using Cons.prems Cons.IH [of st1 "if s1 = SUCCESS then e + 1 else e"] by (auto simp: 1 split: if_splits)
qed simp

lemma fuse_all_unchanged:
  assumes "\<And>m st st'. fuse m st = (st', NOT_CHANGED) \<Longrightarrow> fst st' = fst st"
  shows "fuse_all fuse ms st e = (st', e, SUCCESS) \<Longrightarrow> fst st' = fst st"
proof (induction ms arbitrary: st)
  case (Cons k ms)
  obtain st1 s1 where 1: "fuse k st = (st1, s1)" by fastforce
  have "s1 \<noteq> SUCCESS"
    using Cons.prems fuse_all_counts [of fuse ms st1 "e + 1" st' e SUCCESS] by (auto simp: 1)
  then have "s1 = NOT_CHANGED" "fuse_all fuse ms st1 e = (st', e, SUCCESS)"
    using Cons.prems by (auto simp: 1 split: if_splits)
  with assms [of k st st1] 1 Cons.IH show ?case by simp
qed simp

lemma fuse_all_status: "fuse_all fuse ms st e = (st', e', status) \<Longrightarrow> status \<noteq> NOT_CHANGED"
proof (induction ms arbitrary: st e)
  case (Cons m ms)
  obtain st1 s1 where 1: "fuse m st = (st1, s1)" by fastforce
  show ?case
    using Cons.prems Cons.IH [of st1 "if s1 = SUCCESS then e + 1 else e"] by (auto simp: 1 split: if_splits)
qed simp

text \<open>What holds of a class of passes holds of its runs: the shared loop over the patterns.\<close>

lemma run_patterns_keeps_changed: "run_patterns run ps st True = Some (st', NOT_CHANGED) \<Longrightarrow>
    \<exists>p st c. run p st = Some (st', NOT_CHANGED, c)"
  by (induction run ps st True arbitrary: st' rule: run_patterns.induct) (auto split: option.splits prod.splits if_splits)

lemma run_patterns_unchanged:
  assumes "\<And>p st st' status c. run p st = Some (st', status, c) \<Longrightarrow>
      status \<noteq> NOT_CHANGED \<and> (status = SUCCESS \<and> \<not> c \<longrightarrow> fst (fst st') = fst (fst st))"
  shows "run_patterns run ps st False = Some (st', NOT_CHANGED) \<Longrightarrow> fst (fst st') = fst (fst st)"
proof (induction ps arbitrary: st)
  case (Cons p ps)
  show ?case
  proof (cases p)
    case (Some q)
    obtain st1 ret c where 1: "run q st = Some (st1, ret, c)"
      using Cons.prems Some by (auto split: option.splits)
    have ret: "ret = SUCCESS" "run_patterns run ps st1 c = Some (st', NOT_CHANGED)"
      using Cons.prems assms [OF 1] by (auto simp: Some 1 split: if_splits)
    have "\<not> c"
    proof
      assume c
      then obtain p st c where "run p st = Some (st', NOT_CHANGED, c)"
        using run_patterns_keeps_changed [of run ps st1 st'] ret(2) by auto
      then show False
        using assms by blast
    qed
    with Cons.IH [of st1] ret assms [OF 1] show ?thesis by simp
  qed (use Cons in simp)
qed simp

text \<open>The contract of \<^verbatim>\<open>Fusion\<close>: one that reports no change has changed nothing.\<close>

definition honest :: "'m fusion_fun \<Rightarrow> bool" where
  "honest Fusion \<longleftrightarrow> (\<forall>m s om. case Fusion m (s, om) of
     ((s', _), _, status, fus_nodes) \<Rightarrow> status = NOT_CHANGED \<longrightarrow> s' = s \<and> fus_nodes = [])"

lemma honestD:
  "honest Fusion \<Longrightarrow> Fusion m (s, om) = ((s', om'), m', NOT_CHANGED, fus_nodes) \<Longrightarrow> s' = s \<and> fus_nodes = []"
  unfolding honest_def by (drule spec [of _ m], drule spec [of _ s], drule spec [of _ om]) simp

lemma pattern_fuse_unchanged:
  assumes "honest Fusion" "pattern_fuse Fusion info order m st = (st', NOT_CHANGED)"
  shows "fst st' = fst st"
proof -
  obtain s om where st: "st = (s, om)" by fastforce
  obtain s1 om1 m1 status fus_nodes where 1: "Fusion m (s, om) = ((s1, om1), m1, status, fus_nodes)"
    by (metis prod.exhaust)
  obtain s2 ok where 2: "SetStreamLabelToFusedNodes fus_nodes (hd (GetNodesFromMapping order m)) s1 = (s2, ok)"
    by fastforce
  have ok: ok "status = NOT_CHANGED" "st' = (s2, om1)"
    using assms(2) by (auto simp: pattern_fuse_def Let_def st 1 2 split: if_splits)
  have "s1 = s \<and> fus_nodes = []"
    using honestD [OF assms(1)] 1 ok(2) by simp
  then show ?thesis
    using 2 by (auto simp: SetStreamLabelToFusedNodes_def st ok(3) split: prod.splits if_splits)
qed

lemma RunOnePattern_unchanged:
  assumes "honest Fusion" "RunOnePattern Fusion ident g order p sr = Some (sr', status, c)"
  shows "status \<noteq> NOT_CHANGED \<and> (status = SUCCESS \<and> \<not> c \<longrightarrow> fst (fst sr') = fst (fst sr))"
proof -
  obtain s om r where sr: "sr = ((s, om), r)" by (metis prod.exhaust)
  obtain ms om1 matched where 1: "MatchAll s g p (order p) [] = Some ((ms, om1), matched)"
    using assms(2) by (auto simp: RunOnePattern_def sr split: option.splits)
  obtain st e status' where 2: "fuse_all (pattern_fuse Fusion (GetOpTypeMapToGraph s g) (order p)) ms (s, om1) 0 = (st, e, status')"
    by (metis prod.exhaust)
  have "fst st = fst (s, om1)" if "e = 0" "status' = SUCCESS"
    by (rule fuse_all_unchanged [OF pattern_fuse_unchanged [OF assms(1)]]) (use 2 that in simp_all)
  then show ?thesis
    using assms(2) fuse_all_status [OF 2] by (auto simp: RunOnePattern_def sr 1 2 split: if_splits)
qed

lemma Graph_RunOnePattern_unchanged:
  assumes "honest Fusion" "Graph_RunOnePattern Fusion ident g p sr = Some (sr', status, c)"
  shows "status \<noteq> NOT_CHANGED \<and> (status = SUCCESS \<and> \<not> c \<longrightarrow> fst (fst sr') = fst (fst sr))"
proof -
  obtain s om r where sr: "sr = ((s, om), r)" by (metis prod.exhaust)
  obtain ms matched where 1: "Graph_MatchAll s g p = Some (ms, matched)"
    using assms(2) by (auto simp: Graph_RunOnePattern_def sr split: option.splits)
  have fuse: "fst st' = fst st" if "graph_fuse Fusion info m st = (st', NOT_CHANGED)" for info m st st'
    using that honestD [OF assms(1), of m "fst st" "snd st"]
    by (auto simp: graph_fuse_def split: prod.splits if_splits)
  obtain st e status' where 2: "fuse_all (graph_fuse Fusion (GetOpTypeMapToGraph s g)) ms (s, om) 0 = (st, e, status')"
    by (metis prod.exhaust)
  have "fst st = fst (s, om)" if "e = 0" "status' = SUCCESS"
    by (rule fuse_all_unchanged [OF fuse]) (use 2 that in simp_all)
  then show ?thesis
    using assms(2) fuse_all_status [OF 2] by (auto simp: Graph_RunOnePattern_def sr 1 2 split: if_splits)
qed

section \<open>Stream labels\<close>

definition stream_label :: "('m, 'z) fusion_store_scheme \<Rightarrow> nat \<Rightarrow> string" where
  "stream_label s n = (case GetStr (op_descs s n) STREAM_LABEL [] of (l, ok) \<Rightarrow> if ok then l else ''null'')"

lemma check_labels_nonempty:
  "l \<noteq> [] \<Longrightarrow> check_labels s ns l \<longleftrightarrow> (\<forall>n\<in>set ns. stream_label s n = l)"
  by (induction ns) (auto simp: stream_label_def)

lemma CheckStreamLabel_iff:
  assumes "\<forall>n\<in>set ns. stream_label s n \<noteq> []"
  shows "CheckStreamLabel s ns \<longleftrightarrow> (\<forall>x\<in>set ns. \<forall>y\<in>set ns. stream_label s x = stream_label s y)"
proof (cases ns)
  case (Cons n ms)
  have "CheckStreamLabel s ns \<longleftrightarrow> check_labels s ms (stream_label s n)"
    by (simp add: CheckStreamLabel_def Cons stream_label_def)
  also have "\<dots> \<longleftrightarrow> (\<forall>x\<in>set ms. stream_label s x = stream_label s n)"
    using assms by (intro check_labels_nonempty) (simp add: Cons)
  finally show ?thesis
    by (auto simp: Cons)
qed (simp add: CheckStreamLabel_def)

lemma match_outputs_mixed:
  assumes "MatchFromOutput s p (Some n) (GetOutput_op p) (\<lambda>_. []) = Some (m, True)"
    and "\<not> CheckStreamLabel s (GetNodesFromMapping order m)"
  shows "\<forall>x\<in>set ns. MatchFromOutput s p (Some x) (GetOutput_op p) (\<lambda>_. []) \<noteq> None \<Longrightarrow>
    \<exists>mo. match_outputs s p order (ns @ n # ns') (ms, om) = Some (mo, False)"
proof (induction ns arbitrary: ms om)
  case (Cons x ns)
  then obtain m' found where "MatchFromOutput s p (Some x) (GetOutput_op p) (\<lambda>_. []) = Some (m', found)"
    by auto
  with Cons show ?case by auto
qed (use assms in simp)

section \<open>Statistics\<close>

lemma info_at_upd [simp]:
  "info_at k' pass' (upd_info k pass f m) = (if k' = k \<and> pass' = pass then f (info_at k pass m) else info_at k' pass' m)"
  by (simp add: info_at_def upd_info_def infos_at_def map_of_put split: option.split)

definition run_key :: "64 word \<Rightarrow> 32 word \<Rightarrow> string" where
  "run_key session_id graph_id = to_string (uint session_id) @ ''_'' @ to_string (uint graph_id)"

lemma digits_no_underscore: "CHR ''_'' \<notin> set (to_string (uint w))"
proof -
  have "list_all is_digit (to_string (uint w))"
    using nat_digits_digits by (simp add: to_string_def)
  moreover have "\<not> is_digit CHR ''_''"
    by code_simp
  ultimately show ?thesis
    by (auto simp: list_all_iff)
qed

lemma run_key_inj: "run_key a g = run_key b h \<longleftrightarrow> a = b \<and> g = h"
proof
  assume eq: "run_key a g = run_key b h"
  have word: "takeWhile (\<lambda>c. c \<noteq> CHR ''_'') (run_key a g) = to_string (uint a)" for a g
    using digits_no_underscore [of a] unfolding run_key_def by (subst takeWhile_append2) auto
  have "to_string (uint a) = to_string (uint b)"
    using eq word by metis
  moreover have "to_string (uint g) = to_string (uint h)"
    using eq calculation by (simp add: run_key_def)
  ultimately show "a = b \<and> g = h"
    using to_string_inj by (metis word_uint_eq_iff)
qed simp

lemma record_run_match:
  "fi_match_times (info_at (run_key sid gid) pass (graph_fusion_info_map (record_run (sid', gid', pass') mt et r))) =
     fi_match_times (info_at (run_key sid gid) pass (graph_fusion_info_map r)) +
       (if (sid', gid', pass') = (sid, gid, pass) then of_nat mt else 0)"
  "fi_effect_times (info_at (run_key sid gid) pass (graph_fusion_info_map (record_run (sid', gid', pass') mt et r))) =
     fi_effect_times (info_at (run_key sid gid) pass (graph_fusion_info_map r)) +
       (if (sid', gid', pass') = (sid, gid, pass) then of_nat et else 0)"
  using run_key_inj [of sid gid sid' gid']
  by (auto simp: record_run_def Let_def UpdateGraphFusionEffectTimes_def UpdateGraphFusionMatchTimes_def
      session_and_graph_id_def run_key_def AddMatchTimes_def AddEffectTimes_def)

definition record_runs :: "(run_ident \<times> nat \<times> nat) list \<Rightarrow> fusion_recorder \<Rightarrow> fusion_recorder" where
  "record_runs runs r = fold (\<lambda>(i, mt, et). record_run i mt et) runs r"

lemma record_runs_times:
  "fi_match_times (info_at (run_key sid gid) pass (graph_fusion_info_map (record_runs runs r))) =
     fi_match_times (info_at (run_key sid gid) pass (graph_fusion_info_map r)) +
       of_nat (\<Sum>(i, mt, et)\<leftarrow>runs. if i = (sid, gid, pass) then mt else 0) \<and>
   fi_effect_times (info_at (run_key sid gid) pass (graph_fusion_info_map (record_runs runs r))) =
     fi_effect_times (info_at (run_key sid gid) pass (graph_fusion_info_map r)) +
       of_nat (\<Sum>(i, mt, et)\<leftarrow>runs. if i = (sid, gid, pass) then et else 0)"
proof (induction runs arbitrary: r)
  case (Cons x runs)
  obtain sid' gid' pass' mt et where x: "x = ((sid', gid', pass'), mt, et)" by (metis prod.exhaust)
  show ?case
    using Cons.IH [of "record_run (sid', gid', pass') mt et r"]
    by (simp add: record_runs_def x record_run_match)
qed (simp add: record_runs_def)

section \<open>Properties\<close>

text \<open> C37: A run of a pass that reports that nothing changed has changed nothing in the graph but the run
  counter of its map of types, provided that \<^verbatim>\<open>Fusion\<close> keeps the same promise - for both classes
  of passes, over any number of patterns and matches.
\<close>

theorem not_changed_is_unchanged:
  assumes "honest Fusion"
    and "PatternFusionBasePass_Run Fusion ident order DefinePatterns g patterns ((s, om), r) = (ps, Some (((s', om'), r'), NOT_CHANGED)) \<or>
      GraphFusionPassBase_Run Fusion ident DefinePatterns g patterns ((s, om), r) = (ps, Some (((s', om'), r'), NOT_CHANGED))"
  shows "s' = count_run g s"
proof -
  have "s' = count_run g s" if "pass_Run run DefinePatterns g patterns ((s, om), r) = (ps, Some (((s', om'), r'), NOT_CHANGED))"
    and run: "\<And>p st st' status c. run p st = Some (st', status, c) \<Longrightarrow>
      status \<noteq> NOT_CHANGED \<and> (status = SUCCESS \<and> \<not> c \<longrightarrow> fst (fst st') = fst (fst st))" for run
  proof -
    have "run_patterns run ps ((count_run g s, om), r) False = Some (((s', om'), r'), NOT_CHANGED)"
      using that(1) by (auto simp: pass_Run_def split: prod.splits if_splits)
    then have "fst (fst ((s', om'), r')) = fst (fst ((count_run g s, om), r))"
      by (rule run_patterns_unchanged [rotated]) (rule run)
    then show ?thesis by simp
  qed
  then show ?thesis
    using assms(2) RunOnePattern_unchanged [OF assms(1)] Graph_RunOnePattern_unchanged [OF assms(1)]
    unfolding PatternFusionBasePass_Run_def GraphFusionPassBase_Run_def by blast
qed

text \<open> C38: A pass whose patterns cannot all be built fails on its first run without touching the graph, but
  keeps the patterns: every later run skips the check and searches with them.
\<close>

theorem failed_build_is_forgotten:
  assumes "\<exists>p. Some p \<in> set DefinePatterns \<and> \<not> snd (Build p)"
  shows "\<exists>ps. PatternFusionBasePass_Run Fusion ident order DefinePatterns g [] st = (ps, Some (st, FAILED)) \<and>
    (\<forall>s om r. PatternFusionBasePass_Run Fusion ident order DefinePatterns g ps ((s, om), r) =
       (ps, run_patterns (RunOnePattern Fusion ident g order) ps ((count_run g s, om), r) False))"
proof -
  have "\<not> snd (build_patterns DefinePatterns)" "fst (build_patterns DefinePatterns) \<noteq> []"
    using assms by (auto simp: build_patterns_def list_all_iff split: option.split)
  then show ?thesis
    by (intro exI [of _ "fst (build_patterns DefinePatterns)"])
      (auto simp: PatternFusionBasePass_Run_def pass_Run_def split: prod.splits)
qed

text \<open> C39: If among the nodes of one match two have different stream labels (none being empty), no match of
  that pattern is fused, neither the matches found before nor those still to come, and the pattern
  counts as run with success and without effect.
\<close>

theorem mixed_stream_labels_discard:
  assumes "GetMatchOutputNodes s g p = ns @ n # ns'"
    and "\<forall>x\<in>set ns. MatchFromOutput s p (Some x) (GetOutput_op p) (\<lambda>_. []) \<noteq> None"
    and "MatchFromOutput s p (Some n) (GetOutput_op p) (\<lambda>_. []) = Some (m, True)"
    and "\<forall>x\<in>set (GetNodesFromMapping (order p) m). stream_label s x \<noteq> []"
    and "x \<in> set (GetNodesFromMapping (order p) m)" "y \<in> set (GetNodesFromMapping (order p) m)"
    and "stream_label s x \<noteq> stream_label s y"
  shows "\<exists>om'. RunOnePattern Fusion ident g order p ((s, om), r) = Some (((s, om'), r), SUCCESS, False)"
proof -
  have mixed: "\<not> CheckStreamLabel s (GetNodesFromMapping (order p) m)"
    using assms(5-7) CheckStreamLabel_iff [OF assms(4)] by blast
  obtain mo where mo: "match_outputs s p (order p) (ns @ n # ns') ([], []) = Some (mo, False)"
    using match_outputs_mixed [OF assms(3) mixed assms(2)] by blast
  have "GetOutput_op p \<noteq> None"
    using assms(3) by (cases "GetOutput_op p") (simp_all add: MatchFromOutput_def)
  then have "MatchAll s g p (order p) [] = Some (mo, False)"
    using mo by (auto simp: MatchAll_def assms(1))
  then show ?thesis
    by (cases mo) (simp add: RunOnePattern_def)
qed

text \<open> C40: The statistics add up: after any sequence of recorded runs, the times of a session, graph and pass
  are the sums over the runs of exactly that session, graph and pass (as 32-bit numbers), whatever
  the other runs; fetching hands out these numbers and clears them, and only them.
\<close>

theorem statistics_add_up:
  shows "fi_match_times (info_at (run_key sid gid) pass (graph_fusion_info_map (record_runs runs r))) =
      fi_match_times (info_at (run_key sid gid) pass (graph_fusion_info_map r)) +
        of_nat (\<Sum>(i, mt, et)\<leftarrow>runs. if i = (sid, gid, pass) then mt else 0) \<and>
    fi_effect_times (info_at (run_key sid gid) pass (graph_fusion_info_map (record_runs runs r))) =
      fi_effect_times (info_at (run_key sid gid) pass (graph_fusion_info_map r)) +
        of_nat (\<Sum>(i, mt, et)\<leftarrow>runs. if i = (sid, gid, pass) then et else 0) \<and>
    (case GetAndClearFusionInfo k q [] [] of
       (q', graph_infos, buffer_infos) \<Rightarrow>
         graph_infos = infos_at k (graph_fusion_info_map q) \<and> buffer_infos = infos_at k (buffer_fusion_info_map q) \<and>
         (\<forall>k'. infos_at k' (graph_fusion_info_map q') = (if k' = k then [] else infos_at k' (graph_fusion_info_map q)) \<and>
               infos_at k' (buffer_fusion_info_map q') = (if k' = k then [] else infos_at k' (buffer_fusion_info_map q))))"
  using record_runs_times [of sid gid pass runs r]
  by (simp add: GetAndClearFusionInfo_def GetFusionInfo_def ClearFusionInfo_def infos_at_def delete_conv')

section \<open>Examples\<close>

lemma tree_graph: "GetDirectNode (tree_store d) 100 = [6, 2, 3, 4, 5]" "graph_node_map (tree_store d) = (\<lambda>_. None)"
  by (simp_all add: GetDirectNode_def graph_nodes_def tree_store_def fusion_store.make_def new_graph_def)

lemma tree_outputs: "GetMatchOutputNodes (tree_store d) 100 (fst (Build diamond_pattern)) = [6]"
  by (simp add: GetMatchOutputNodes_def GetOutput_op_def diamond_built IsOpTypeExist_def tree_types GetOpTypeMapToGraph_def
      tree_graph)

definition refuse :: "string fusion_fun" where
  "refuse m st = (st, m, NOT_CHANGED, [])"

lemma refuse_honest: "honest refuse"
  by (simp add: honest_def refuse_def)

definition labelled_descs :: "nat \<Rightarrow> string ge_op_desc" where
  "labelled_descs n = (if n = 4 then OpDesc_default\<lparr>attr_map := [(STREAM_LABEL, AttrS ''s1'')]\<rparr> else OpDesc_default)"

lemma tree_descs: "op_descs (tree_store d) = d"
  by (simp add: tree_store_def fusion_store.make_def)

lemma labels:
  "stream_label (tree_store plain_descs) n = ''null''"
  "stream_label (tree_store labelled_descs) n = (if n = 4 then ''s1'' else ''null'')"
  by (simp_all add: stream_label_def tree_descs plain_descs_def labelled_descs_def GetStr_def attr_get_def OpDesc_default_def
      GetValue_str_def attr_checks)

definition demo_order :: "fusion_pattern \<Rightarrow> nat list" where
  "demo_order p = [0..<length (fp_ops p)]"

lemma tree_matched: "GetNodesFromMapping (demo_order (fst (Build diamond_pattern))) ((\<lambda>_. [])(0 := [6], 1 := [2], 2 := [3], 3 := [4, 5])) =
    [6, 2, 3, 4, 5]"
  by (simp add: GetNodesFromMapping_def demo_order_def diamond_built)

theorem mixed_stream_labels_discard_witness:
  "\<exists>om. RunOnePattern refuse (1, 2, ''pass'') 100 demo_order (fst (Build diamond_pattern))
     ((tree_store labelled_descs, []), \<lparr>graph_fusion_info_map = [], buffer_fusion_info_map = []\<rparr>) =
   Some (((tree_store labelled_descs, om), \<lparr>graph_fusion_info_map = [], buffer_fusion_info_map = []\<rparr>), SUCCESS, False)"
proof (rule mixed_stream_labels_discard [where ns = "[]" and n = 6 and ns' = "[]" and x = 4 and y = 5])
  show "GetMatchOutputNodes (tree_store labelled_descs) 100 (fst (Build diamond_pattern)) = [] @ 6 # []"
    by (simp add: tree_outputs)
  have "GetOutput_op (fst (Build diamond_pattern)) = Some 0"
    by (simp add: GetOutput_op_def diamond_built)
  then show "MatchFromOutput (tree_store labelled_descs) (fst (Build diamond_pattern)) (Some 6)
      (GetOutput_op (fst (Build diamond_pattern))) (\<lambda>_. []) = Some ((\<lambda>_. [])(0 := [6], 1 := [2], 2 := [3], 3 := [4, 5]), True)"
    using tree_match by simp
qed (simp_all only: tree_matched, simp_all add: labels)

theorem failed_build_is_forgotten_witness:
  "\<exists>ps. PatternFusionBasePass_Run refuse (1, 2, ''pass'') demo_order [Some (FusionPattern ''empty'')] 100 []
     ((tree_store plain_descs, []), \<lparr>graph_fusion_info_map = [], buffer_fusion_info_map = []\<rparr>) =
   (ps, Some (((tree_store plain_descs, []), \<lparr>graph_fusion_info_map = [], buffer_fusion_info_map = []\<rparr>), FAILED))"
proof -
  have "\<exists>p. Some p \<in> set [Some (FusionPattern ''empty'')] \<and> \<not> snd (Build p)"
    by (simp add: Build_def FusionPattern_def SetError_def)
  from failed_build_is_forgotten [OF this] show ?thesis
    by blast
qed

lemma refused: "pattern_fuse refuse info order m (tree_store plain_descs, om) = ((tree_store plain_descs, om), NOT_CHANGED)"
  by (simp add: pattern_fuse_def refuse_def Let_def SetStreamLabelToFusedNodes_def tree_descs plain_descs_def OpDesc_default_def
      GetStr_def attr_get_def)

lemma refused_run:
  "\<exists>ps s om r. PatternFusionBasePass_Run refuse (1, 2, ''pass'') demo_order [Some diamond_pattern] 100 []
     ((tree_store plain_descs, []), \<lparr>graph_fusion_info_map = [], buffer_fusion_info_map = []\<rparr>) =
   (ps, Some (((s, om), r), NOT_CHANGED))"
proof -
  have "CheckStreamLabel (tree_store plain_descs) [6, 2, 3, 4, 5]"
    by (subst CheckStreamLabel_iff) (simp_all add: labels)
  moreover have "GetOutput_op (fst (Build diamond_pattern)) = Some 0" "snd (Build diamond_pattern)"
    by (simp_all add: GetOutput_op_def diamond_built)
  ultimately show ?thesis
    using tree_match [of plain_descs]
    by (simp add: PatternFusionBasePass_Run_def pass_Run_def build_patterns_def RunOnePattern_def MatchAll_def tree_outputs
        tree_matched refused count_run_def GetOpTypeMapToGraph_def tree_graph)
qed

theorem not_changed_is_unchanged_witness:
  "\<exists>ps om r. PatternFusionBasePass_Run refuse (1, 2, ''pass'') demo_order [Some diamond_pattern] 100 []
     ((tree_store plain_descs, []), \<lparr>graph_fusion_info_map = [], buffer_fusion_info_map = []\<rparr>) =
   (ps, Some (((tree_store plain_descs, om), r), NOT_CHANGED))"
proof -
  obtain ps s om r where run: "PatternFusionBasePass_Run refuse (1, 2, ''pass'') demo_order [Some diamond_pattern] 100 []
     ((tree_store plain_descs, []), \<lparr>graph_fusion_info_map = [], buffer_fusion_info_map = []\<rparr>) =
   (ps, Some (((s, om), r), NOT_CHANGED))"
    using refused_run by blast
  have "s = count_run 100 (tree_store plain_descs)"
    by (rule not_changed_is_unchanged [OF refuse_honest disjI1 [OF run]])
  then have "s = tree_store plain_descs"
    by (simp add: count_run_def GetOpTypeMapToGraph_def tree_graph)
  with run show ?thesis by blast
qed

end
