(* ===== verification/GraphDefs.thy ===== *)
theory GraphDefs
  imports OpDefs DescStore
begin

text \<open>
  Graphs and models as messages: the rest of \<^verbatim>\<open>graph/model_serialize.cc\<close>. Edges are written as
  texts \<^verbatim>\<open>node:index\<close> on the consuming operator; reading collects them as requests and
  links the anchors when all nodes are there.
\<close>

section \<open>Messages and requests\<close>

record 'm graph_def =
  gd_name :: string
  gd_input :: "string list"
  gd_output :: "string list"
  gd_op :: "'m op_def list"
  gd_attr :: "(string \<times> 'm attr_def) list"

record 'm model_def =
  md_name :: string
  md_version :: "32 word"
  md_custom_version :: string
  md_graph :: "'m graph_def list"
  md_attr :: "(string \<times> 'm attr_def) list"

record 'm model =
  mo_name :: string
  mo_version :: "32 word"
  mo_platform_version :: string
  mo_graph :: ptr
  mo_attrs :: "(string \<times> 'm attr_def) list"

record NodeNameGraphReq =
  gr_node_name :: string
  gr_index :: int
  gr_graph :: nat

record NodeNameNodeReq =
  nr_src_node_name :: string
  nr_src_out_index :: int
  nr_dst_node :: nat
  nr_dst_in_index :: nat

record imp =
  graph_input_node_names :: "NodeNameGraphReq list"
  graph_output_node_names :: "NodeNameGraphReq list"
  node_input_node_names :: "NodeNameNodeReq list"
  node_map :: "(string \<times> nat) list"

definition new_imp :: imp where
  "new_imp = \<lparr>graph_input_node_names = [], graph_output_node_names = [], node_input_node_names = [], node_map = []\<rparr>"

section \<open>References to nodes\<close>

text \<open>Cutting at the last colon; the index is read with \<^verbatim>\<open>strtol\<close> and cast to 32 bits.\<close>

definition cut_last :: "char \<Rightarrow> string \<Rightarrow> (string \<times> string) option" where
  "cut_last c s =
     (if c \<notin> set s then None
      else Some (rev (tl (dropWhile (\<lambda>x. x \<noteq> c) (rev s))), rev (takeWhile (\<lambda>x. x \<noteq> c) (rev s))))"

definition ParseNodeIndex :: "string \<Rightarrow> (string \<times> int) option" where
  "ParseNodeIndex node_index =
     map_option (\<lambda>(node_name, index_str). (node_name, sint (word_of_int (strtol index_str) :: 32 word)))
       (cut_last (CHR '':'') node_index)"

definition node_index :: "string \<Rightarrow> int \<Rightarrow> string" where
  "node_index name i = name @ '':'' @ to_string i"

section \<open>Writing\<close>

definition input_text :: "('m, 'z) desc_store_scheme \<Rightarrow> nat \<Rightarrow> string" where
  "input_text s in_data_anchor =
     (case GetPeerOutAnchor s in_data_anchor of
        None \<Rightarrow> []
      | Some peer \<Rightarrow>
         (case GetOwnerNode s peer of None \<Rightarrow> [] | Some m \<Rightarrow> node_index (GetName s m) (GetIdx s peer)))"

definition control_texts :: "('m, 'z) desc_store_scheme \<Rightarrow> nat \<Rightarrow> string list" where
  "control_texts s n =
     (case GetInControlAnchor s n of
        None \<Rightarrow> []
      | Some a \<Rightarrow>
          map (\<lambda>m. GetName s m @ '':-1'')
            (List.map_filter (GetOwnerNode s) (InControl_GetPeerOutControlAnchors s a)))"

definition SerializeEdge :: "('m, 'z) desc_store_scheme \<Rightarrow> nat \<Rightarrow> 'm op_def \<Rightarrow> 'm op_def" where
  "SerializeEdge s n d = d\<lparr>d_input := map (input_text s) (GetAllInDataAnchors s n) @ control_texts s n\<rparr>"

definition SerializeNode :: "bool \<Rightarrow> ('m, 'z) desc_store_scheme \<Rightarrow> nat \<Rightarrow> 'm op_def option" where
  "SerializeNode is_dump s n =
     (if GetOpDesc s n = None then None
      else Some (SerializeEdge s n (SerializeOpDesc is_dump (op_descs s n))))"

fun serialize_nodes :: "bool \<Rightarrow> ('m, 'z) desc_store_scheme \<Rightarrow> nat list \<Rightarrow> 'm op_def list option" where
  "serialize_nodes is_dump s [] = Some []"
| "serialize_nodes is_dump s (n # ns) =
     Option.bind (SerializeNode is_dump s n) (\<lambda>d. map_option ((#) d) (serialize_nodes is_dump s ns))"

definition SerializeGraph :: "bool \<Rightarrow> ('m, 'z) desc_store_scheme \<Rightarrow> nat \<Rightarrow> 'm graph_def option" where
  "SerializeGraph is_dump s g =
     (case graphs s g of
        None \<Rightarrow> None
      | Some x \<Rightarrow>
          map_option (\<lambda>ops.
            \<lparr>gd_name = g_name x,
             gd_input = map (\<lambda>n. GetName s n @ '':0'') (g_input_nodes x),
             gd_output = map (\<lambda>(n, i). node_index (GetName s n) i) (g_output_nodes_info x),
             gd_op = ops, gd_attr = graph_attrs s g\<rparr>)
            (serialize_nodes is_dump s (GetDirectNode s g)))"

fun serialize_graphs :: "bool \<Rightarrow> ('m, 'z) desc_store_scheme \<Rightarrow> nat list \<Rightarrow> 'm graph_def list option" where
  "serialize_graphs is_dump s [] = Some []"
| "serialize_graphs is_dump s (g # gs) =
     Option.bind (SerializeGraph is_dump s g) (\<lambda>d. map_option ((#) d) (serialize_graphs is_dump s gs))"

definition SerializeModel :: "bool \<Rightarrow> ('m, 'z) desc_store_scheme \<Rightarrow> 'm model \<Rightarrow> 'm model_def option" where
  "SerializeModel is_dump s model =
     (case mo_graph model of
        None \<Rightarrow> None
      | Some g \<Rightarrow>
          map_option (\<lambda>gs.
            \<lparr>md_name = mo_name model, md_version = mo_version model,
             md_custom_version = mo_platform_version model, md_graph = gs, md_attr = mo_attrs model\<rparr>)
            (serialize_graphs is_dump s (g # GetAllSubgraphs s g)))"

section \<open>Reading nodes and graphs\<close>

definition ATTR_NAME_PARENT_NODE_INDEX :: string where "ATTR_NAME_PARENT_NODE_INDEX = ''_parent_node_index''"
definition alias_name_attr :: string where "alias_name_attr = ''_aliasName''"

text \<open>The part of a description that the graph layer reads.\<close>

definition brief_desc :: "'m ge_op_desc \<Rightarrow> op_desc" where
  "brief_desc od =
     \<lparr>op_name = OpDesc_GetName od, op_type = OpDesc_GetType od, op_id = sint (OpDesc_GetId od),
      op_inputs = GetAllInputsSize od, op_outputs = GetOutputsSize od,
      op_subgraphs = subgraph_instance_names od,
      op_alias = (case GetListStr od alias_name_attr [] of (v, ok) \<Rightarrow> if ok then Some v else None),
      op_parent_index =
        (case GetInt_uint32 od ATTR_NAME_PARENT_NODE_INDEX 0 of (v, ok) \<Rightarrow> if ok then Some v else None)\<rparr>"

definition put_desc :: "nat \<Rightarrow> 'm ge_op_desc \<Rightarrow> ('m, 'z) desc_store_scheme \<Rightarrow> ('m, 'z) desc_store_scheme" where
  "put_desc n od s = s\<lparr>op_descs := (op_descs s)(n := od)\<rparr>"

text \<open>One request per text that names a node; a text without an index still takes a position.\<close>

fun node_requests :: "nat \<Rightarrow> nat \<Rightarrow> string list \<Rightarrow> NodeNameNodeReq list" where
  "node_requests n dst_index [] = []"
| "node_requests n dst_index (input # inputs) =
     (case ParseNodeIndex input of
        None \<Rightarrow> node_requests n (dst_index + 1) inputs
      | Some (name, index) \<Rightarrow>
          \<lparr>nr_src_node_name = name, nr_src_out_index = index, nr_dst_node = n, nr_dst_in_index = dst_index\<rparr> #
          node_requests n (if index \<ge> 0 then dst_index + 1 else dst_index) inputs)"

definition UnserializeNode :: "nat \<Rightarrow> 'm op_def \<Rightarrow> ('m, 'z) desc_store_scheme \<times> imp \<Rightarrow> (('m, 'z) desc_store_scheme \<times> imp) \<times> bool" where
  "UnserializeNode g d =
     (\<lambda>(s, im).
       let od = UnserializeOpDesc d;
           (node, s1) = AddNode_op_id g (Some (brief_desc od)) (sint (OpDesc_GetId od)) s
       in case node of
            None \<Rightarrow> ((s1, im), False)
          | Some n \<Rightarrow>
              ((put_desc n od s1,
                im\<lparr>node_input_node_names := node_input_node_names im @ node_requests n 0 (d_input d),
                   node_map := map_put (d_name d) n (node_map im)\<rparr>), True))"

fun unserialize_nodes ::
  "nat \<Rightarrow> 'm op_def list \<Rightarrow> ('m, 'z) desc_store_scheme \<times> imp \<Rightarrow> (('m, 'z) desc_store_scheme \<times> imp) \<times> bool" where
  "unserialize_nodes g [] st = (st, True)"
| "unserialize_nodes g (d # ds) st =
     (case UnserializeNode g d st of (st1, ok) \<Rightarrow> if ok then unserialize_nodes g ds st1 else (st1, False))"

definition graph_requests :: "nat \<Rightarrow> string list \<Rightarrow> NodeNameGraphReq list" where
  "graph_requests g texts =
     map (\<lambda>(name, index). \<lparr>gr_node_name = name, gr_index = index, gr_graph = g\<rparr>)
       (List.map_filter ParseNodeIndex texts)"

definition alloc_graph :: "'m graph_def \<Rightarrow> ('m, 'z) desc_store_scheme \<Rightarrow> nat \<times> ('m, 'z) desc_store_scheme" where
  "alloc_graph d s =
     (let g = next_addr s
      in (g, s\<lparr>graphs := (graphs s)(g \<mapsto> new_graph (gd_name d)), next_addr := Suc g,
               graph_attrs := (graph_attrs s)(g := gd_attr d)\<rparr>))"

definition UnserializeGraphWithoutEdge ::
  "'m graph_def \<Rightarrow> ('m, 'z) desc_store_scheme \<times> imp \<Rightarrow> nat \<times> (('m, 'z) desc_store_scheme \<times> imp) \<times> bool" where
  "UnserializeGraphWithoutEdge d =
     (\<lambda>(s, im).
       let (g, s1) = alloc_graph d s
       in (g, unserialize_nodes g (gd_op d)
            (s1, im\<lparr>graph_input_node_names := graph_input_node_names im @ graph_requests g (gd_input d),
                    graph_output_node_names := graph_output_node_names im @ graph_requests g (gd_output d)\<rparr>)))"

section \<open>Linking\<close>

text \<open>The results of the links themselves are only logged.\<close>

definition link_request :: "(string \<times> nat) list \<Rightarrow> NodeNameNodeReq \<Rightarrow> ('m, 'z) desc_store_scheme \<Rightarrow> ('m, 'z) desc_store_scheme \<times> bool" where
  "link_request nmap item s =
     (case map_of nmap (nr_src_node_name item) of
        None \<Rightarrow> (s, False)
      | Some src \<Rightarrow>
          if nr_src_out_index item \<ge> 0 then
            (case (GetOutDataAnchor s src (nr_src_out_index item),
                   GetInDataAnchor s (nr_dst_node item) (int (nr_dst_in_index item))) of
               (Some a, Some b) \<Rightarrow> (fst (OutData_LinkTo_InData s a (Some b)), True)
             | _ \<Rightarrow> (s, False))
          else
            (case (GetOutControlAnchor s src, GetInControlAnchor s (nr_dst_node item)) of
               (Some a, Some b) \<Rightarrow> (fst (OutControl_LinkTo_InControl s a (Some b)), True)
             | _ \<Rightarrow> (s, True)))"

definition input_request :: "(string \<times> nat) list \<Rightarrow> NodeNameGraphReq \<Rightarrow> ('m, 'z) desc_store_scheme \<Rightarrow> ('m, 'z) desc_store_scheme \<times> bool" where
  "input_request nmap item s =
     (case map_of nmap (gr_node_name item) of
        None \<Rightarrow> (s, False)
      | Some n \<Rightarrow> (case AddInputNode (gr_graph item) (Some n) s of (r, s1) \<Rightarrow> (s1, r \<noteq> None)))"

definition output_request :: "(string \<times> nat) list \<Rightarrow> NodeNameGraphReq \<Rightarrow> ('m, 'z) desc_store_scheme \<Rightarrow> ('m, 'z) desc_store_scheme \<times> bool" where
  "output_request nmap item s =
     (case map_of nmap (gr_node_name item) of
        None \<Rightarrow> (s, False)
      | Some n \<Rightarrow>
          (case AddOutputNodeByIndex (gr_graph item) (Some n) (gr_index item) s of (r, s1) \<Rightarrow> (s1, r \<noteq> None)))"

fun while_ok :: "('a \<Rightarrow> 's \<Rightarrow> 's \<times> bool) \<Rightarrow> 'a list \<Rightarrow> 's \<Rightarrow> 's \<times> bool" where
  "while_ok f [] s = (s, True)"
| "while_ok f (x # xs) s = (case f x s of (s1, ok) \<Rightarrow> if ok then while_ok f xs s1 else (s1, False))"

definition then_ok :: "'s \<times> bool \<Rightarrow> ('s \<Rightarrow> 's \<times> bool) \<Rightarrow> 's \<times> bool" where
  "then_ok r f = (case r of (s, ok) \<Rightarrow> if ok then f s else (s, False))"

text \<open>On success the requests and the map of nodes are cleared; after a failure they are not used again.\<close>

definition HandleNodeNameRef :: "imp \<Rightarrow> ('m, 'z) desc_store_scheme \<Rightarrow> ('m, 'z) desc_store_scheme \<times> bool" where
  "HandleNodeNameRef im s =
     then_ok (while_ok (link_request (node_map im)) (node_input_node_names im) s)
       (\<lambda>s. then_ok (while_ok (input_request (node_map im)) (graph_input_node_names im) s)
         (while_ok (output_request (node_map im)) (graph_output_node_names im)))"

definition UnserializeGraph :: "'m graph_def \<Rightarrow> ('m, 'z) desc_store_scheme \<Rightarrow> nat \<times> ('m, 'z) desc_store_scheme \<times> bool" where
  "UnserializeGraph d s =
     (case UnserializeGraphWithoutEdge d (s, new_imp) of
        (g, (s1, im), _) \<Rightarrow> (g, HandleNodeNameRef im s1))"

section \<open>Models\<close>

text \<open>
  The subgraphs that the operators of a graph name become its subgraphs, and theirs in turn; all
  are registered in the main graph. A name that leads back to a graph above it makes the loop
  run forever, which is \<^term>\<open>None\<close>.
\<close>

fun own_names ::
  "nat \<Rightarrow> (string \<times> nat) list \<Rightarrow> nat \<Rightarrow> nat \<Rightarrow> string list \<Rightarrow> ('m, 'z) desc_store_scheme \<times> nat list \<Rightarrow>
   (('m, 'z) desc_store_scheme \<times> nat list) \<times> bool" where
  "own_names root subgraphs g n [] st = (st, True)"
| "own_names root subgraphs g n (name # names) (s, all_graphs) =
     (case map_of subgraphs name of
        None \<Rightarrow> ((s, all_graphs), False)
      | Some h \<Rightarrow>
          (let s1 = SetParentNode h (Some n) (SetParentGraph h (Some g) s);
               s2 = fst (AddSubgraph root (graph_name s1 h) (Some h) s1)
           in own_names root subgraphs g n names (s2, all_graphs @ [h])))"

fun own_nodes ::
  "nat \<Rightarrow> (string \<times> nat) list \<Rightarrow> nat \<Rightarrow> nat list \<Rightarrow> ('m, 'z) desc_store_scheme \<times> nat list \<Rightarrow>
   (('m, 'z) desc_store_scheme \<times> nat list) \<times> bool" where
  "own_nodes root subgraphs g [] st = (st, True)"
| "own_nodes root subgraphs g (n # ns) st =
     then_ok (own_names root subgraphs g n (subgraph_names (fst st) n) st) (own_nodes root subgraphs g ns)"

partial_function (option) rebuild_loop ::
  "nat \<Rightarrow> (string \<times> nat) list \<Rightarrow> nat list \<Rightarrow> ('m, 'z) desc_store_scheme \<Rightarrow>
   (('m, 'z) desc_store_scheme \<times> bool) option" where
  "rebuild_loop root subgraphs all_graphs s =
     (case all_graphs of
        [] \<Rightarrow> Some (s, True)
      | g # rest \<Rightarrow>
         (case own_nodes root subgraphs g (GetDirectNode s g) (s, rest) of
            ((s1, all_graphs1), ok) \<Rightarrow>
              if ok then rebuild_loop root subgraphs all_graphs1 s1 else Some (s1, False)))"

definition RebuildOwnership ::
  "nat \<Rightarrow> (string \<times> nat) list \<Rightarrow> ('m, 'z) desc_store_scheme \<Rightarrow> (('m, 'z) desc_store_scheme \<times> bool) option" where
  "RebuildOwnership compute_graph subgraphs s = rebuild_loop compute_graph subgraphs [compute_graph] s"

text \<open>Each subgraph is read with requests of its own and is found by the name it has then.\<close>

fun unserialize_subgraphs ::
  "'m graph_def list \<Rightarrow> ('m, 'z) desc_store_scheme \<times> (string \<times> nat) list \<Rightarrow>
   (('m, 'z) desc_store_scheme \<times> (string \<times> nat) list) \<times> bool" where
  "unserialize_subgraphs [] st = (st, True)"
| "unserialize_subgraphs (d # ds) (s, subgraphs) =
     (case UnserializeGraphWithoutEdge d (s, new_imp) of
        (g, (s1, im), ok) \<Rightarrow>
          if \<not> ok then ((s1, subgraphs), False)
          else (case HandleNodeNameRef im s1 of
                  (s2, ok2) \<Rightarrow>
                    if ok2 then unserialize_subgraphs ds (s2, map_put (graph_name s2 g) g subgraphs)
                    else ((s2, subgraphs), False)))"

definition UnserializeModel ::
  "'m model_def \<Rightarrow> 'm model \<Rightarrow> ('m, 'z) desc_store_scheme \<Rightarrow> ('m model \<times> ('m, 'z) desc_store_scheme \<times> bool) option" where
  "UnserializeModel d model s =
     (let model = model\<lparr>mo_name := md_name d, mo_version := md_version d,
            mo_platform_version := md_custom_version d, mo_attrs := md_attr d\<rparr>
      in case md_graph d of
           [] \<Rightarrow> Some (model, s, True)
         | main # subs \<Rightarrow>
            (case UnserializeGraphWithoutEdge main (s, new_imp) of
               (g, (s1, im), ok) \<Rightarrow>
                 (let model = (if ok then model\<lparr>mo_graph := Some g\<rparr> else model)
                  in case unserialize_subgraphs subs (s1, []) of
                       ((s2, subgraphs), ok2) \<Rightarrow>
                         if \<not> ok2 then Some (model, s2, False)
                         else
                           Option.bind (RebuildOwnership g subgraphs s2)
                             (\<lambda>(s3, ok3).
                                if \<not> ok3 then Some (model, s3, False)
                                else (case HandleNodeNameRef im s3 of (s4, ok4) \<Rightarrow> Some (model, s4, ok4))))))"

definition Model_IsValid :: "'m model \<Rightarrow> bool" where
  "Model_IsValid model \<longleftrightarrow> mo_graph model \<noteq> None"

text \<open>\<^verbatim>\<open>Model::Load\<close> from a message.\<close>

definition Model_Load :: "'m model_def \<Rightarrow> 'm model \<Rightarrow> ('m, 'z) desc_store_scheme \<Rightarrow> ('m model \<times> ('m, 'z) desc_store_scheme \<times> graphStatus) option" where
  "Model_Load d model s =
     map_option (\<lambda>(model, s, ok).
       (model, s, if ok \<and> Model_IsValid model then GRAPH_SUCCESS else GRAPH_FAILED))
       (UnserializeModel d model s)"

end
