(* ===== verification/GraphDef_Texts.thy ===== *)
theory GraphDef_Texts
  imports GraphDefs Graph_Steps OpDef_Properties
begin

text \<open>
  The texts that name nodes, and the requests they become when they are read: what
  \<^verbatim>\<open>SerializeEdge\<close> writes is what \<^verbatim>\<open>UnserializeNode\<close> asks for.
\<close>

section \<open>A node and an index as text\<close>

lemma cut_last_append: "c \<notin> set ys \<Longrightarrow> cut_last c (xs @ c # ys) = Some (xs, ys)"
proof -
  assume "c \<notin> set ys"
  then have n: "\<forall>x \<in> set (rev ys). x \<noteq> c" by auto
  have "takeWhile (\<lambda>x. x \<noteq> c) (rev ys @ c # rev xs) = rev ys" using n by (subst takeWhile_append2) auto
  moreover have "dropWhile (\<lambda>x. x \<noteq> c) (rev ys @ c # rev xs) = c # rev xs"
    using n by (subst dropWhile_append2) auto
  ultimately show ?thesis by (simp add: cut_last_def)
qed

lemma strtol_to_string: "-(2^63) \<le> i \<Longrightarrow> i < 2^63 \<Longrightarrow> strtol (to_string i) = i"
  by (simp add: strtol_def parse_int_to_string)

lemma int32_small: "-(2^31) \<le> i \<Longrightarrow> i < 2^31 \<Longrightarrow> sint (word_of_int i :: 32 word) = i"
  by (simp add: signed_of_int signed_take_bit_int_eq_self)

lemma parse_node_index:
  assumes "-(2^31) \<le> i" "i < 2^31"
  shows "ParseNodeIndex (node_index name i) = Some (name, i)"
proof -
  have "CHR '':'' \<notin> set (to_string i)"
    using to_string_chars [of "CHR '':''" i] digit_not_special by blast
  then show ?thesis
    using assms by (simp add: ParseNodeIndex_def node_index_def cut_last_append strtol_to_string int32_small)
qed

lemma parse_empty: "ParseNodeIndex [] = None"
  by (simp add: ParseNodeIndex_def cut_last_def)

lemma small_numbers: "to_string (- 1) = ''-1''" "to_string 0 = ''0''"
  by code_simp+

lemma control_text: "GetName s m @ '':-1'' = node_index (GetName s m) (- 1)"
  by (simp add: node_index_def small_numbers)

lemma input_text_zero: "GetName s m @ '':0'' = node_index (GetName s m) 0"
  by (simp add: node_index_def small_numbers)

section \<open>Requests\<close>

text \<open>What a node asks for: its inputs by position, then its control inputs.\<close>

abbreviation request :: "string \<Rightarrow> int \<Rightarrow> nat \<Rightarrow> nat \<Rightarrow> NodeNameNodeReq" where
  "request name index n i \<equiv>
     \<lparr>nr_src_node_name = name, nr_src_out_index = index, nr_dst_node = n, nr_dst_in_index = i\<rparr>"

lemma node_requests_controls:
  "node_requests n d (map (\<lambda>m. GetName s m @ '':-1'') ms) = map (\<lambda>m. request (GetName s m) (- 1) n d) ms"
  by (induction ms) (simp_all add: control_text parse_node_index)

text \<open>The text of an input, as the request at its position.\<close>

definition data_request :: "('m, 'z) desc_store_scheme \<Rightarrow> nat \<Rightarrow> nat \<Rightarrow> nat \<Rightarrow> NodeNameNodeReq list" where
  "data_request s n d a =
     (case GetPeerOutAnchor s a of
        None \<Rightarrow> []
      | Some p \<Rightarrow>
         (case GetOwnerNode s p of None \<Rightarrow> [] | Some m \<Rightarrow> [request (GetName s m) (GetIdx s p) n d]))"

definition data_requests :: "('m, 'z) desc_store_scheme \<Rightarrow> nat \<Rightarrow> nat \<Rightarrow> nat list \<Rightarrow> NodeNameNodeReq list" where
  "data_requests s n d as = concat (map2 (data_request s n) [d..<d + length as] as)"

lemma data_requests_simps:
  "data_requests s n d [] = []"
  "data_requests s n d (a # as) = data_request s n d a @ data_requests s n (Suc d) as"
proof -
  have u: "[d..<d + length (a # as)] = d # [Suc d..<Suc d + length as]" by (subst upt_conv_Cons) simp_all
  show "data_requests s n d (a # as) = data_request s n d a @ data_requests s n (Suc d) as"
    unfolding data_requests_def u by simp
qed (simp add: data_requests_def)

definition short_index :: "('z) anchor_store_scheme \<Rightarrow> nat \<Rightarrow> bool" where
  "short_index s a \<longleftrightarrow> (\<forall>p. GetPeerOutAnchor s a = Some p \<longrightarrow> 0 \<le> GetIdx s p \<and> GetIdx s p < 2^31)"

lemma node_requests_data:
  assumes "\<forall>a \<in> set as. short_index s a"
  shows "node_requests n d (map (input_text s) as @ cs) =
    data_requests s n d as @ node_requests n (d + length as) cs"
  using assms
proof (induction as arbitrary: d)
  case (Cons a as)
  show ?case
  proof (cases "\<exists>p m. GetPeerOutAnchor s a = Some p \<and> GetOwnerNode s p = Some m")
    case True
    then obtain p m where "GetPeerOutAnchor s a = Some p" "GetOwnerNode s p = Some m" by auto
    moreover have "0 \<le> GetIdx s p" "GetIdx s p < 2^31"
      using Cons.prems \<open>GetPeerOutAnchor s a = Some p\<close> by (auto simp: short_index_def)
    ultimately show ?thesis
      using Cons by (simp add: input_text_def parse_node_index data_requests_simps data_request_def)
  next
    case False
    then have "input_text s a = []" "data_request s n d a = []"
      by (auto simp: input_text_def data_request_def split: option.split)
    then show ?thesis using Cons by (simp add: parse_empty data_requests_simps)
  qed
qed (simp add: data_requests_simps)

definition control_requests :: "('m, 'z) desc_store_scheme \<Rightarrow> nat \<Rightarrow> nat \<Rightarrow> NodeNameNodeReq list" where
  "control_requests s n m =
     map (\<lambda>k. request (GetName s k) (- 1) n (length (in_data_anchors s m)))
       (case GetInControlAnchor s m of
          None \<Rightarrow> []
        | Some a \<Rightarrow> List.map_filter (GetOwnerNode s) (InControl_GetPeerOutControlAnchors s a))"

text \<open>What node \<open>n\<close>, made from the message of node \<open>m\<close>, asks for.\<close>

lemma node_requests_node:
  assumes "\<forall>a \<in> set (in_data_anchors s m). short_index s a"
  shows "node_requests n 0 (d_input (SerializeEdge s m d)) =
    data_requests s n 0 (in_data_anchors s m) @ control_requests s n m"
proof -
  have c: "node_requests n (length (in_data_anchors s m)) (control_texts s m) = control_requests s n m"
    by (cases "GetInControlAnchor s m")
      (simp_all add: control_texts_def control_requests_def node_requests_controls)
  have "node_requests n 0 (map (input_text s) (in_data_anchors s m) @ control_texts s m) =
      data_requests s n 0 (in_data_anchors s m) @ node_requests n (0 + length (in_data_anchors s m)) (control_texts s m)"
    using assms by (rule node_requests_data)
  then show ?thesis by (simp add: SerializeEdge_def GetAllInDataAnchors_def c)
qed

lemma graph_requests_texts:
  "\<forall>x \<in> set xs. -(2^31) \<le> snd x \<and> snd x < 2^31 \<Longrightarrow>
   graph_requests g (map (\<lambda>(n, i). node_index (GetName s n) i) xs) =
     map (\<lambda>(n, i). \<lparr>gr_node_name = GetName s n, gr_index = i, gr_graph = g\<rparr>) xs"
proof (induction xs)
  case (Cons x xs)
  obtain n i where x: "x = (n, i)" by (cases x)
  have "ParseNodeIndex (node_index (GetName s n) i) = Some (GetName s n, i)"
    using Cons.prems by (simp add: x parse_node_index)
  then show ?case using Cons.IH Cons.prems by (simp add: x graph_requests_def List.map_filter_simps)
qed (simp add: graph_requests_def List.map_filter_simps)

end
