(* ===== verification/GraphDef_Build.thy ===== *)
theory GraphDef_Build
  imports GraphDef_Texts
begin

text \<open>
  What reading the operators of a message does to the store: new nodes above everything that was
  there, with the anchors their descriptions ask for and no links yet.
\<close>

section \<open>A store that has grown\<close>

text \<open>Objects below \<open>b\<close> are as they were, those above have no links.\<close>

definition grown :: "nat \<Rightarrow> ('z) node_store_scheme \<Rightarrow> ('z) node_store_scheme \<Rightarrow> bool" where
  "grown b s t \<longleftrightarrow> b \<le> next_addr t \<and> (\<forall>a<b. anchors t a = anchors s a \<and> nodes t a = nodes s a) \<and>
     (\<forall>a\<ge>b. peers t a = [])"

lemma grown_attach: "grown b s t \<Longrightarrow> b \<le> n \<Longrightarrow> grown b s (attach c n i t)"
  by (auto simp: grown_def attach_fields peers_def new_anchor_def)

lemma grown_fold_attach: "grown b s t \<Longrightarrow> b \<le> n \<Longrightarrow> grown b s (fold (attach c n) is t)"
  by (induction "is" arbitrary: t) (simp_all add: grown_attach)

lemma grown_upd_node: "grown b s t \<Longrightarrow> b \<le> n \<Longrightarrow> grown b s (upd_node n f t)"
  by (auto simp: grown_def upd_node_def peers_def)

lemma grown_same:
  "anchors u = anchors t \<Longrightarrow> nodes u = nodes t \<Longrightarrow> next_addr t \<le> next_addr u \<Longrightarrow> grown b s t \<Longrightarrow> grown b s u"
  by (auto simp: grown_def peers_def)

text \<open>A node with as many anchors as its description has ports.\<close>

definition ported :: "('z) node_store_scheme \<Rightarrow> nat \<Rightarrow> op_desc \<Rightarrow> bool" where
  "ported t n op \<longleftrightarrow> GetOpDesc t n = Some op \<and>
     length (in_data_anchors t n) = op_inputs op \<and> length (out_data_anchors t n) = op_outputs op \<and>
     GetInControlAnchor t n \<noteq> None \<and> GetOutControlAnchor t n \<noteq> None"

lemma ported_cong:
  assumes "nodes u n = nodes t n"
  shows "ported u n op = ported t n op"
  using assms by (simp add: ported_def GetOpDesc_def in_data_anchors_def out_data_anchors_def
      GetInControlAnchor_def GetOutControlAnchor_def)

lemma fold_attach_nodes: "nodes (fold (attach c n) is t) n = None \<longleftrightarrow> nodes t n = None"
  by (induction "is" arbitrary: t) (simp_all add: attach_fields)

lemma fold_attach_members:
  assumes "nodes t n \<noteq> None" "c = InDataAnchor \<or> c = OutDataAnchor"
  shows "length (in_data_anchors (fold (attach c n) is t) n) =
      length (in_data_anchors t n) + (if c = InDataAnchor then length is else 0) \<and>
    length (out_data_anchors (fold (attach c n) is t) n) =
      length (out_data_anchors t n) + (if c = OutDataAnchor then length is else 0) \<and>
    GetOpDesc (fold (attach c n) is t) n = GetOpDesc t n"
  using assms(1)
proof (induction "is" arbitrary: t)
  case (Cons i "is")
  have "nodes (attach c n i t) n \<noteq> None" using Cons.prems by (simp add: attach_fields)
  from Cons.IH [OF this] show ?case using assms(2) by (auto simp: attach_members [OF Cons.prems])
qed simp

lemma fold_attach_frame:
  "next_addr (fold (attach c n) is t) = next_addr t + length is"
  "m \<noteq> n \<Longrightarrow> nodes (fold (attach c n) is t) m = nodes t m"
  by (induction "is" arbitrary: t) (auto simp: attach_fields)

section \<open>Allocating a node\<close>

lemma alloc_node_effect:
  fixes t :: "('z) graph_store_scheme" and op :: op_desc and h :: nat
  assumes inv: "graph_inv t" and g: "grown b s t"
  defines "n \<equiv> next_addr t" and "u \<equiv> snd (alloc_node h op t)"
  shows "fst (alloc_node h op t) = n" "graph_inv u" "grown b s u" "graphs u = graphs t" "ported u n op"
    "n < next_addr u" "\<And>m. m \<noteq> n \<Longrightarrow> nodes u m = nodes t m"
proof -
  let ?t = "t\<lparr>nodes := (nodes t)(n \<mapsto> new_node (Some op) (Some h)), next_addr := Suc n\<rparr>"
  let ?i = "fold (attach InDataAnchor n) (map int [0..<op_inputs op]) ?t"
  let ?o = "fold (attach OutDataAnchor n) (map int [0..<op_outputs op]) ?i"
  let ?c = "attach InControlAnchor n (- 1) ?o"
  let ?d = "attach OutControlAnchor n (- 1) ?c"
  have x: "nodes ?t n = Some (new_node (Some op) (Some h))" by simp
  have u: "u = upd_node n (n_has_init_update (\<lambda>_. True)) ?d"
    unfolding u_def alloc_node_def Let_def n_def [symmetric]
    using Init_attach [OF x, of op] by (simp add: new_node_def)
  have b: "b \<le> n" using g by (simp add: grown_def n_def)
  show "fst (alloc_node h op t) = n" by (simp add: alloc_node_def Let_def n_def)
  show "graph_inv u" unfolding u_def by (rule alloc_node_inv [OF inv])
  have "grown b s ?t" using g b by (auto simp: grown_def n_def peers_def)
  then show "grown b s u" unfolding u using b by (intro grown_upd_node grown_attach grown_fold_attach)
  show "graphs u = graphs t" by (simp add: u)
  have nx: "nodes ?t n \<noteq> None" by simp
  have ni: "nodes ?i n \<noteq> None" by (simp add: fold_attach_nodes)
  have no: "nodes ?o n \<noteq> None" by (simp add: fold_attach_nodes)
  have nc: "nodes ?c n \<noteq> None" using no by (simp add: attach_members)
  have nd: "nodes ?d n \<noteq> None" using nc by (simp add: attach_members)
  have e: "in_data_anchors ?t n = []" "out_data_anchors ?t n = []" "GetOpDesc ?t n = Some op"
    by (simp_all add: in_data_anchors_def out_data_anchors_def GetOpDesc_def new_node_def)
  have p: "ported ?d n op"
    using fold_attach_members [OF nx, of InDataAnchor "map int [0..<op_inputs op]"]
      fold_attach_members [OF ni, of OutDataAnchor "map int [0..<op_outputs op]"]
    by (simp add: ported_def attach_members [OF nc] attach_members [OF no] e)
  have q: "ported (upd_node n (n_has_init_update (\<lambda>_. True)) v) n op" if "ported v n op" for v :: "('z) graph_store_scheme"
    using that by (auto simp: ported_def upd_node_def GetOpDesc_def in_data_anchors_def out_data_anchors_def
        GetInControlAnchor_def GetOutControlAnchor_def split: option.splits)
  show "ported u n op" unfolding u by (rule q [OF p])
  show "n < next_addr u" by (simp add: u upd_node_def attach_fields fold_attach_frame(1))
  show "nodes u m = nodes t m" if "m \<noteq> n" for m
    using that by (simp add: u upd_node_def attach_fields fold_attach_frame(2))
qed

section \<open>Reading the operators\<close>

text \<open>The node of a message, among the nodes of the new graph.\<close>

definition made :: "('m, 'z) desc_store_scheme \<Rightarrow> nat \<Rightarrow> 'm op_def \<Rightarrow> bool" where
  "made t n d \<longleftrightarrow> op_descs t n = UnserializeOpDesc d \<and> ported t n (brief_desc (UnserializeOpDesc d))"

lemma made_cong: "op_descs u n = op_descs t n \<Longrightarrow> nodes u n = nodes t n \<Longrightarrow> made u n d = made t n d"
  using ported_cong [of u n t] by (simp add: made_def)

lemma grown_put [simp]: "grown b s (put_desc n od t) = grown b s t"
  by (simp add: grown_def put_desc_def peers_def)

lemma put_desc_fields [simp]:
  "nodes (put_desc n od t) = nodes t" "anchors (put_desc n od t) = anchors t" "graphs (put_desc n od t) = graphs t"
  "next_addr (put_desc n od t) = next_addr t" "op_descs (put_desc n od t) = (op_descs t)(n := od)"
  "graph_attrs (put_desc n od t) = graph_attrs t"
  by (simp_all add: put_desc_def)

lemma graph_inv_put: "graph_inv t \<Longrightarrow> graph_inv (put_desc n od t)"
  by (erule graph_inv_tidy) (simp add: tidy_def same_shape_def counted_def)

definition with_node :: "nat \<Rightarrow> compute_graph \<Rightarrow> compute_graph" where
  "with_node n x = x\<lparr>g_nodes := g_nodes x @ [n], g_direct_nodes_size := g_direct_nodes_size x + 1\<rparr>"

lemma attach_descs [simp]:
  "op_descs (attach c n i t) = op_descs t" "graph_attrs (attach c n i t) = graph_attrs t"
  by (simp_all add: attach_def alloc_anchor_def add_anchor_def upd_node_def)

lemma fold_attach_descs [simp]:
  "op_descs (fold (attach c n) is t) = op_descs t" "graph_attrs (fold (attach c n) is t) = graph_attrs t"
  by (induction "is" arbitrary: t) simp_all

lemma upd_node_descs [simp]:
  "op_descs (upd_node n f t) = op_descs t" "graph_attrs (upd_node n f t) = graph_attrs t"
  by (simp_all add: upd_node_def)

lemma alloc_node_descs [simp]:
  fixes t :: "('m, 'z) desc_store_scheme"
  shows "op_descs (snd (alloc_node g op t)) = op_descs t" "graph_attrs (snd (alloc_node g op t)) = graph_attrs t"
proof -
  let ?t = "t\<lparr>nodes := (nodes t)(next_addr t \<mapsto> new_node (Some op) (Some g)), next_addr := Suc (next_addr t)\<rparr>"
  have x: "nodes ?t (next_addr t) = Some (new_node (Some op) (Some g))" by simp
  show "op_descs (snd (alloc_node g op t)) = op_descs t" "graph_attrs (snd (alloc_node g op t)) = graph_attrs t"
    using Init_attach [OF x, of op] by (simp_all add: alloc_node_def Let_def new_node_def)
qed

lemma UnserializeNode_effect:
  fixes t :: "('m, 'z) desc_store_scheme" and s :: "('m, 'z) desc_store_scheme"
  assumes inv: "graph_inv t" and g: "grown b s t" and x: "graphs t g = Some x"
  defines "n \<equiv> next_addr t"
  shows "\<exists>u. UnserializeNode g d (t, im) =
      ((u, im\<lparr>node_input_node_names := node_input_node_names im @ node_requests n 0 (d_input d),
              node_map := map_put (d_name d) n (node_map im)\<rparr>), True) \<and>
    graph_inv u \<and> grown b s u \<and> graphs u = (graphs t)(g \<mapsto> with_node n x) \<and> made u n d \<and> n < next_addr u \<and>
    (\<forall>m. m \<noteq> n \<longrightarrow> nodes u m = nodes t m \<and> op_descs u m = op_descs t m) \<and> graph_attrs u = graph_attrs t"
proof -
  define od where "od = UnserializeOpDesc d"
  have b: "(brief_desc od)\<lparr>op_id := sint (OpDesc_GetId od)\<rparr> = brief_desc od" by (simp add: brief_desc_def)
  note e = alloc_node_effect [OF inv g, where op = "brief_desc od" and h = g, folded n_def]
  let ?t = "snd (alloc_node g (brief_desc od) t)"
  let ?h = "SetHostNode n (is_valid_flag ?t g) ?t"
  let ?u = "put_desc n od (PushBackToNodeList g n ?h)"
  have a: "AddNode_op_id g (Some (brief_desc od)) (sint (OpDesc_GetId od)) t = (Some n, PushBackToNodeList g n ?h)"
    using e(1) by (simp add: AddNode_op_id_def b case_prod_unfold Let_def)
  have 1: "UnserializeNode g d (t, im) =
      ((?u, im\<lparr>node_input_node_names := node_input_node_names im @ node_requests n 0 (d_input d),
              node_map := map_put (d_name d) n (node_map im)\<rparr>), True)"
    by (simp add: UnserializeNode_def od_def [symmetric] a)
  have 2: "graph_inv ?u"
    by (rule graph_inv_put) (rule graph_inv_tidy [OF graph_inv_tidy [OF e(2) tidy_node_attrs(1)] tidy_node_list(2)])
  have nb: "b \<le> n" using g by (simp add: grown_def n_def)
  have 3: "grown b s ?u"
    using grown_upd_node [OF e(3) nb]
    by (simp add: SetHostNode_def PushBackToNodeList_def upd_graph_def grown_def peers_def)
  have 4: "graphs ?u = (graphs t)(g \<mapsto> with_node n x)"
    using x e(4) by (simp add: PushBackToNodeList_def upd_graph_def SetHostNode_def with_node_def)
  have h: "ported (SetHostNode n v w) n op = ported w n op" for v op and w :: "('m, 'z) desc_store_scheme"
    by (cases "nodes w n") (simp_all add: ported_def SetHostNode_def upd_node_def GetOpDesc_def in_data_anchors_def
        out_data_anchors_def GetInControlAnchor_def GetOutControlAnchor_def)
  have nu: "nodes ?u m = nodes ?h m" for m by (simp add: PushBackToNodeList_def upd_graph_def)
  have 5: "made ?u n d"
    using e(5) ported_cong [OF nu] h by (simp add: made_def od_def)
  have 6: "n < next_addr ?u" using e(6) by (simp add: PushBackToNodeList_def upd_graph_def SetHostNode_def upd_node_def)
  show ?thesis
    by (rule exI [of _ ?u], intro conjI 1 2 3 4 5 6)
      (simp_all add: nu SetHostNode_def upd_node_def e(7) PushBackToNodeList_def upd_graph_def)
qed

definition with_nodes :: "nat list \<Rightarrow> compute_graph \<Rightarrow> compute_graph" where
  "with_nodes ns x = x\<lparr>g_nodes := g_nodes x @ ns, g_direct_nodes_size := g_direct_nodes_size x + length ns\<rparr>"

lemma with_nodes_Cons: "with_nodes ns (with_node n x) = with_nodes (n # ns) x"
  by (simp add: with_nodes_def with_node_def)

definition asked :: "imp \<Rightarrow> nat list \<Rightarrow> 'm op_def list \<Rightarrow> imp" where
  "asked im ns ds =
     im\<lparr>node_input_node_names := node_input_node_names im @ concat (map2 (\<lambda>n d. node_requests n 0 (d_input d)) ns ds),
        node_map := fold (\<lambda>(n, d). map_put (d_name d) n) (zip ns ds) (node_map im)\<rparr>"

lemma unserialize_nodes_effect:
  fixes t :: "('m, 'z) desc_store_scheme" and s :: "('m, 'z) desc_store_scheme"
  assumes "graph_inv t" "grown b s t" "graphs t g = Some x"
  shows "\<exists>u ns. unserialize_nodes g ds (t, im) = ((u, asked im ns ds), True) \<and>
    graph_inv u \<and> grown b s u \<and> graphs u = (graphs t)(g \<mapsto> with_nodes ns x) \<and>
    list_all2 (made u) ns ds \<and> distinct ns \<and> (\<forall>n \<in> set ns. next_addr t \<le> n) \<and> next_addr t \<le> next_addr u \<and>
    (\<forall>m<next_addr t. nodes u m = nodes t m \<and> op_descs u m = op_descs t m) \<and> graph_attrs u = graph_attrs t"
  using assms
proof (induction ds arbitrary: t im x)
  case Nil
  then show ?case by (auto simp: asked_def with_nodes_def intro!: exI [of _ t] exI [of _ "[]"])
next
  case (Cons d ds)
  define n where "n = next_addr t"
  define im1 where "im1 = im\<lparr>node_input_node_names := node_input_node_names im @ node_requests n 0 (d_input d),
              node_map := map_put (d_name d) n (node_map im)\<rparr>"
  obtain t1 where 1: "UnserializeNode g d (t, im) = ((t1, im1), True)" "graph_inv t1" "grown b s t1"
    "graphs t1 = (graphs t)(g \<mapsto> with_node n x)" "made t1 n d" "n < next_addr t1"
    "\<forall>m. m \<noteq> n \<longrightarrow> nodes t1 m = nodes t m \<and> op_descs t1 m = op_descs t m" "graph_attrs t1 = graph_attrs t"
    using UnserializeNode_effect [OF Cons.prems] unfolding im1_def n_def by blast
  have "graphs t1 g = Some (with_node n x)" by (simp add: 1)
  from Cons.IH [OF 1(2,3) this, of im1]
  obtain u ns where 2: "unserialize_nodes g ds (t1, im1) = ((u, asked im1 ns ds), True)" "graph_inv u" "grown b s u"
    "graphs u = (graphs t1)(g \<mapsto> with_nodes ns (with_node n x))" "list_all2 (made u) ns ds" "distinct ns"
    "\<forall>n \<in> set ns. next_addr t1 \<le> n" "next_addr t1 \<le> next_addr u"
    "\<forall>m<next_addr t1. nodes u m = nodes t1 m \<and> op_descs u m = op_descs t1 m" "graph_attrs u = graph_attrs t1"
    by blast
  have m: "made u n d" using made_cong [of u n t1 d] 1(5,6) 2(9) by simp
  have a: "asked im1 ns ds = asked im (n # ns) (d # ds)" by (simp add: asked_def im1_def)
  show ?case
  proof (intro exI [of _ u] exI [of _ "n # ns"] conjI)
    show "unserialize_nodes g (d # ds) (t, im) = ((u, asked im (n # ns) (d # ds)), True)"
      by (simp add: 1(1) 2(1) a)
    show "graphs u = (graphs t)(g \<mapsto> with_nodes (n # ns) x)" by (simp add: 2(4) 1(4) with_nodes_Cons)
    show "list_all2 (made u) (n # ns) (d # ds)" using m 2(5) by simp
    show "distinct (n # ns)" using 2(6,7) 1(6) by auto
    show "\<forall>n' \<in> set (n # ns). next_addr t \<le> n'" using 2(7) 1(6) unfolding n_def by auto
    show "next_addr t \<le> next_addr u" using 1(6) 2(8) unfolding n_def by simp
    show "\<forall>m<next_addr t. nodes u m = nodes t m \<and> op_descs u m = op_descs t m"
      using 2(9) 1(6,7) unfolding n_def by simp
    show "graph_attrs u = graph_attrs t" by (simp add: 1 2)
  qed (fact 2)+
qed

section \<open>A new graph\<close>

lemma alloc_graph_effect:
  fixes s :: "('m, 'z) desc_store_scheme"
  assumes "graph_inv s"
  shows "graph_inv (snd (alloc_graph d s))" "grown (next_addr s) s (snd (alloc_graph d s))"
    "fst (alloc_graph d s) = next_addr s" "next_addr (snd (alloc_graph d s)) = Suc (next_addr s)"
    "graphs (snd (alloc_graph d s)) = (graphs s)(next_addr s \<mapsto> new_graph (gd_name d))"
    "nodes (snd (alloc_graph d s)) = nodes s" "op_descs (snd (alloc_graph d s)) = op_descs s"
    "graph_attrs (snd (alloc_graph d s)) = (graph_attrs s)(next_addr s := gd_attr d)"
proof -
  let ?t = "snd (alloc_graph d s)"
  have a: "anchors ?t = anchors s" "nodes ?t = nodes s" "next_addr ?t = Suc (next_addr s)"
    by (simp_all add: alloc_graph_def Let_def)
  note e = anchors_only [OF a(1)]
  have m: "in_data_anchors ?t = in_data_anchors s" "out_data_anchors ?t = out_data_anchors s"
    "GetInControlAnchor ?t = GetInControlAnchor s" "GetOutControlAnchor ?t = GetOutControlAnchor s"
    "GetOpDesc ?t = GetOpDesc s"
    by (simp_all add: fun_eq_iff in_data_anchors_def out_data_anchors_def GetInControlAnchor_def
        GetOutControlAnchor_def GetOpDesc_def a(2))
  have n: "node_inv s" "counted s" using assms by (simp_all add: graph_inv_def)
  have "node_inv ?t"
    using node_invD [OF n(1)]
    by (auto simp: node_inv_def nodes_wf_def node_wf_def owns_def placed_def fresh_above_def e m a less_SucI)
  moreover have "counted ?t" using n(2) by (auto simp: counted_def alloc_graph_def Let_def new_graph_def)
  ultimately show "graph_inv ?t" by (simp add: graph_inv_def)
  have "peers s b = []" if "next_addr s \<le> b" for b
    using node_invD(4) [OF n(1)] that by (simp add: fresh_above_def peers_def)
  then show "grown (next_addr s) s ?t" by (simp add: grown_def a e)
qed (simp_all add: alloc_graph_def Let_def)

end
