(* ===== verification/GraphDef_Links.thy ===== *)
theory GraphDef_Links
  imports GraphDef_Build
begin

text \<open>
  What the requests link: every request finds its two anchors and joins them, and in the end an
  input has as peers exactly the anchors that requests for it named.
\<close>

section \<open>One request\<close>

definition request_pair :: "(string \<times> nat) list \<Rightarrow> ('m, 'z) desc_store_scheme \<Rightarrow> NodeNameNodeReq \<Rightarrow> (nat \<times> nat) option" where
  "request_pair nmap t item =
     (case map_of nmap (nr_src_node_name item) of
        None \<Rightarrow> None
      | Some src \<Rightarrow>
          (case (if nr_src_out_index item \<ge> 0
                 then (GetOutDataAnchor t src (nr_src_out_index item),
                       GetInDataAnchor t (nr_dst_node item) (int (nr_dst_in_index item)))
                 else (GetOutControlAnchor t src, GetInControlAnchor t (nr_dst_node item))) of
             (Some a, Some b) \<Rightarrow> Some (a, b)
           | _ \<Rightarrow> None))"

abbreviation is_data :: "NodeNameNodeReq \<Rightarrow> bool" where
  "is_data item \<equiv> nr_src_out_index item \<ge> 0"

lemma request_pair_wired:
  assumes "wired t u"
  shows "request_pair nmap u = request_pair nmap t"
  by (rule ext) (simp add: request_pair_def wired_members [OF assms] cong: option.case_cong if_cong)

lemma request_pair_typed:
  assumes "nodes_wf t" "request_pair nmap t item = Some (a, b)"
  shows "class_of t a = Some (if is_data item then OutDataAnchor else OutControlAnchor)"
    "class_of t b = Some (if is_data item then InDataAnchor else InControlAnchor)"
  using assms(2) node_data_typed [OF assms(1)] node_control_typed [OF assms(1)]
  by (auto simp: request_pair_def typed_ptr_def split: option.splits if_splits)

lemma link_request_push:
  assumes "request_pair nmap t item = Some (a, b)" "is_data item \<Longrightarrow> peers t b = []"
  shows "link_request nmap item t = (push_link a b t, True)"
  using assms
  by (auto simp: request_pair_def link_request_def OutData_LinkTo_InData_def OutControl_LinkTo_InControl_def
      split: option.splits if_splits)

lemma wired_push_request:
  assumes "wired t0 t" "nodes_wf t0" "request_pair nmap t0 item = Some (a, b)" "is_data item \<Longrightarrow> peers t b = []"
  shows "wired t0 (push_link a b t)"
proof -
  have "request_pair nmap t item = Some (a, b)" using request_pair_wired [OF assms(1)] assms(3) by simp
  then have "push_link a b t = (if is_data item then fst (OutData_LinkTo_InData t a (Some b))
      else fst (OutControl_LinkTo_InControl t a (Some b)))"
    using assms(4) by (simp add: OutData_LinkTo_InData_def OutControl_LinkTo_InControl_def)
  then show ?thesis
    using wired_link [OF assms(1)] request_pair_typed [OF assms(2,3)] by (auto split: if_splits)
qed

section \<open>All requests\<close>

lemma link_requests_effect:
  assumes "nodes_wf t0" "wired t0 t" "\<forall>item \<in> set items. request_pair nmap t0 item \<noteq> None"
    "\<forall>item \<in> set items. is_data item \<longrightarrow> peers t (snd (the (request_pair nmap t0 item))) = []"
    "distinct (map (\<lambda>item. snd (the (request_pair nmap t0 item))) (filter is_data items))"
  shows "\<exists>u. while_ok (link_request nmap) items t = (u, True) \<and> wired t0 u \<and>
    (\<forall>b c. class_of t0 b = Some c \<and> is_in c \<longrightarrow>
       peers u b = peers t b @ map fst (filter (\<lambda>p. snd p = b) (map (the \<circ> request_pair nmap t0) items))) \<and>
    (\<forall>x. x \<notin> fst ` set (map (the \<circ> request_pair nmap t0) items) \<longrightarrow>
       x \<notin> snd ` set (map (the \<circ> request_pair nmap t0) items) \<longrightarrow> peers u x = peers t x) \<and>
    op_descs u = op_descs t \<and> graph_attrs u = graph_attrs t"
  using assms(2-)
proof (induction items arbitrary: t)
  case (Cons item items)
  obtain a b where p: "request_pair nmap t0 item = Some (a, b)" using Cons.prems(2) by auto
  have pt: "request_pair nmap t item = Some (a, b)" using request_pair_wired [OF Cons.prems(1)] p by simp
  have e: "is_data item \<Longrightarrow> peers t b = []" using Cons.prems(3) p by simp
  note c = request_pair_typed [OF assms(1) p]
  have w: "wired t0 (push_link a b t)" by (rule wired_push_request [OF Cons.prems(1) assms(1) p e])
  have j: "joinable t a b"
    using c Cons.prems(1) by (auto simp: joinable_def is_in_def is_out_def split: if_splits)
  have in_peers: "peers (push_link a b t) x = peers t x @ (if x = b then [a] else [])"
    if "class_of t0 x = Some d" "is_in d" for x d
  proof -
    have "x \<noteq> a" using that c by (auto simp: is_in_def split: if_splits)
    then show ?thesis using joinable_neq [OF j] by (simp add: peers_push_link [OF j])
  qed
  have "peers (push_link a b t) (snd (the (request_pair nmap t0 i))) = []" if i: "i \<in> set items" "is_data i" for i
  proof -
    obtain a' b' where q: "request_pair nmap t0 i = Some (a', b')" using Cons.prems(2) i(1) by auto
    have "b' \<noteq> b"
    proof (cases "is_data item")
      case True
      then show ?thesis using Cons.prems(4) i q p by force
    next
      case False
      then show ?thesis using c(2) request_pair_typed(2) [OF assms(1) q] i(2) by auto
    qed
    moreover have "class_of t0 b' = Some InDataAnchor" using request_pair_typed(2) [OF assms(1) q] i(2) by simp
    moreover have "peers t b' = []" using Cons.prems(3) i q by (metis list.set_intros(2) option.sel snd_conv)
    ultimately show ?thesis using in_peers [of b' InDataAnchor] q by (simp add: is_in_def)
  qed
  moreover have "distinct (map (\<lambda>item. snd (the (request_pair nmap t0 item))) (filter is_data items))"
    using Cons.prems(4) by (simp split: if_splits)
  moreover have "\<forall>item \<in> set items. request_pair nmap t0 item \<noteq> None" using Cons.prems(2) by simp
  ultimately obtain u where u: "while_ok (link_request nmap) items (push_link a b t) = (u, True)" "wired t0 u"
    "\<forall>x c. class_of t0 x = Some c \<and> is_in c \<longrightarrow> peers u x = peers (push_link a b t) x @
       map fst (filter (\<lambda>p. snd p = x) (map (the \<circ> request_pair nmap t0) items))"
    "\<forall>x. x \<notin> fst ` set (map (the \<circ> request_pair nmap t0) items) \<longrightarrow>
       x \<notin> snd ` set (map (the \<circ> request_pair nmap t0) items) \<longrightarrow> peers u x = peers (push_link a b t) x"
    "op_descs u = op_descs (push_link a b t) \<and> graph_attrs u = graph_attrs (push_link a b t)"
    using Cons.IH [OF w] by blast
  have "while_ok (link_request nmap) (item # items) t = (u, True)"
    by (simp add: link_request_push [OF pt e] u(1))
  moreover have "peers u x = peers t x @ map fst (filter (\<lambda>p. snd p = x) (map (the \<circ> request_pair nmap t0) (item # items)))"
    if "class_of t0 x = Some d" "is_in d" for x d
    using u(3) that in_peers [OF that] p by auto
  moreover have "op_descs u = op_descs t \<and> graph_attrs u = graph_attrs t"
    using u(5) by (simp add: push_link_def upd_peers_def)
  moreover have "peers u x = peers t x"
    if "x \<notin> fst ` set (map (the \<circ> request_pair nmap t0) (item # items))"
      "x \<notin> snd ` set (map (the \<circ> request_pair nmap t0) (item # items))" for x
    using u(4) that p by (simp add: peers_push_link [OF j])
  ultimately show ?case using u(2) by blast
qed simp

section \<open>The requests of a whole graph\<close>

lemma data_requests_iff:
  "item \<in> set (data_requests s n d as) \<longleftrightarrow>
     (\<exists>i<length as. \<exists>p m. GetPeerOutAnchor s (as ! i) = Some p \<and> GetOwnerNode s p = Some m \<and>
        item = request (GetName s m) (GetIdx s p) n (d + i))"
proof (induction as arbitrary: d)
  case (Cons a as)
  have h: "item \<in> set (data_request s n d a) \<longleftrightarrow>
      (\<exists>p m. GetPeerOutAnchor s a = Some p \<and> GetOwnerNode s p = Some m \<and>
        item = request (GetName s m) (GetIdx s p) n d)"
    by (cases "GetPeerOutAnchor s a"; cases "GetOwnerNode s (the (GetPeerOutAnchor s a))")
      (simp_all add: data_request_def)
  show ?case
    unfolding data_requests_simps set_append Un_iff h Cons.IH
    by (simp add: Ex_less_Suc2)
qed (simp add: data_requests_simps)

lemma data_requests_target:
  "item \<in> set (data_requests s n d as) \<Longrightarrow> nr_dst_node item = n \<and> d \<le> nr_dst_in_index item"
  by (auto simp: data_requests_iff)

lemma data_requests_distinct: "distinct (map nr_dst_in_index (data_requests s n d as))"
proof (induction as arbitrary: d)
  case (Cons a as)
  have "d \<notin> nr_dst_in_index ` set (data_requests s n (Suc d) as)"
    using data_requests_target by fastforce
  then show ?case using Cons
    by (auto simp: data_requests_simps data_request_def split: option.split)
qed (simp add: data_requests_simps)

lemma control_requests_iff:
  "item \<in> set (control_requests s n m) \<longleftrightarrow>
     (\<exists>a p k. GetInControlAnchor s m = Some a \<and> p \<in> set (InControl_GetPeerOutControlAnchors s a) \<and>
        GetOwnerNode s p = Some k \<and> item = request (GetName s k) (- 1) n (length (in_data_anchors s m)))"
  by (cases "GetInControlAnchor s m") (auto simp: control_requests_def List.map_filter_def image_iff Bex_def)

end
