(* ===== verification/GraphDef_Properties.thy ===== *)
theory GraphDef_Properties
  imports GraphDef_Links
begin

text \<open>
  A graph that was written and read is a copy of itself: the theorem at the end of the first part
  puts together the texts, the new nodes and the links.
\<close>

section \<open>Graphs that can be written\<close>

text \<open>
  The nodes have names of their own, as many anchors as their descriptions have ports, and are
  linked to each other only; the inputs and outputs of the graph are among them.
\<close>

definition closed_node :: "('m, 'z) desc_store_scheme \<Rightarrow> nat list \<Rightarrow> nat \<Rightarrow> bool" where
  "closed_node s ns n \<longleftrightarrow>
     GetOpDesc s n \<noteq> None \<and> OpDesc_GetName (op_descs s n) = GetName s n \<and>
     length (in_data_anchors s n) = GetAllInputsSize (op_descs s n) \<and>
     length (out_data_anchors s n) = GetOutputsSize (op_descs s n) \<and> length (out_data_anchors s n) < 2^31 \<and>
     (\<forall>a \<in> set (in_data_anchors s n). \<forall>p. GetPeerOutAnchor s a = Some p \<longrightarrow> (\<exists>m \<in> set ns. GetOwnerNode s p = Some m)) \<and>
     (\<forall>a p. GetInControlAnchor s n = Some a \<longrightarrow> p \<in> set (InControl_GetPeerOutControlAnchors s a) \<longrightarrow>
        (\<exists>m \<in> set ns. GetOwnerNode s p = Some m))"

definition writable :: "('m, 'z) desc_store_scheme \<Rightarrow> compute_graph \<Rightarrow> bool" where
  "writable s x \<longleftrightarrow>
     distinct (map (GetName s) (g_nodes x)) \<and> (\<forall>n \<in> set (g_nodes x). closed_node s (g_nodes x) n) \<and>
     set (g_input_nodes x) \<subseteq> set (g_nodes x) \<and> distinct (g_output_nodes_info x) \<and>
     (\<forall>o' \<in> set (g_output_nodes_info x). fst o' \<in> set (g_nodes x) \<and> -(2^31) \<le> snd o' \<and> snd o' < 2^31)"

text \<open>The new nodes, as images of the old ones.\<close>

definition copied :: "('m, 'z) desc_store_scheme \<Rightarrow> ('m, 'z) desc_store_scheme \<Rightarrow> (nat \<Rightarrow> nat) \<Rightarrow> nat \<Rightarrow> bool" where
  "copied s u \<rho> n \<longleftrightarrow>
     length (in_data_anchors u (\<rho> n)) = length (in_data_anchors s n) \<and>
     length (out_data_anchors u (\<rho> n)) = length (out_data_anchors s n) \<and>
     GetInControlAnchor u (\<rho> n) \<noteq> None \<and> GetOutControlAnchor u (\<rho> n) \<noteq> None"

definition out_image :: "('m, 'z) desc_store_scheme \<Rightarrow> ('m, 'z) desc_store_scheme \<Rightarrow> (nat \<Rightarrow> nat) \<Rightarrow> nat \<Rightarrow> nat" where
  "out_image s u \<rho> p = out_data_anchors u (\<rho> (the (GetOwnerNode s p))) ! nat (GetIdx s p)"

definition control_image :: "('m, 'z) desc_store_scheme \<Rightarrow> ('m, 'z) desc_store_scheme \<Rightarrow> (nat \<Rightarrow> nat) \<Rightarrow> nat \<Rightarrow> nat" where
  "control_image s u \<rho> p = the (GetOutControlAnchor u (\<rho> (the (GetOwnerNode s p))))"

text \<open>An output has a position in its node.\<close>

lemma out_anchor_place:
  assumes "node_inv s" "class_of s p = Some OutDataAnchor" "GetOwnerNode s p = Some m" "nodes s m \<noteq> None"
  shows "0 \<le> GetIdx s p \<and> nat (GetIdx s p) < length (out_data_anchors s m)"
proof -
  have "node_wf s m" using node_invD(2) [OF assms(1)] assms(4) by (simp add: nodes_wf_def)
  then have "p \<in> set (out_data_anchors s m)" using assms(2,3) node_wfD(2) [of s m p] by (simp add: owns_def)
  then obtain k where "k < length (out_data_anchors s m)" "out_data_anchors s m ! k = p"
    by (auto simp: in_set_conv_nth)
  then show ?thesis using node_invD(3) [OF assms(1)] by (auto simp: placed_def)
qed

lemma closed_nodeD:
  assumes "closed_node s ns n"
  shows "GetOpDesc s n \<noteq> None" "nodes s n \<noteq> None"
    "a \<in> set (in_data_anchors s n) \<Longrightarrow> GetPeerOutAnchor s a = Some p \<Longrightarrow> \<exists>m \<in> set ns. GetOwnerNode s p = Some m"
    "GetInControlAnchor s n = Some a \<Longrightarrow> p \<in> set (InControl_GetPeerOutControlAnchors s a) \<Longrightarrow>
       \<exists>m \<in> set ns. GetOwnerNode s p = Some m"
  using assms by (auto simp: closed_node_def GetOpDesc_def split: option.splits)

lemma closed_node_peer:
  assumes "node_inv s" "\<forall>n \<in> set ns. closed_node s ns n" "n \<in> set ns" "a \<in> set (in_data_anchors s n)"
    "GetPeerOutAnchor s a = Some p"
  shows "\<exists>m \<in> set ns. GetOwnerNode s p = Some m \<and> 0 \<le> GetIdx s p \<and> nat (GetIdx s p) < length (out_data_anchors s m)"
proof -
  obtain m where m: "m \<in> set ns" "GetOwnerNode s p = Some m"
    using closed_nodeD(3) [of s ns n a p] assms(2-) by blast
  have "nodes s m \<noteq> None" using closed_nodeD(2) assms(2) m(1) by blast
  then show ?thesis
    using out_anchor_place [OF assms(1) _ m(2)] GetPeerOutAnchor_typed [OF assms(5)] m by blast
qed

lemma closed_short_index:
  assumes "node_inv s" "\<forall>n \<in> set ns. closed_node s ns n" "n \<in> set ns"
  shows "\<forall>a \<in> set (in_data_anchors s n). short_index s a"
proof (intro ballI)
  fix a assume a: "a \<in> set (in_data_anchors s n)"
  have "0 \<le> GetIdx s p \<and> GetIdx s p < 2^31" if p: "GetPeerOutAnchor s a = Some p" for p
  proof -
    obtain m where m: "m \<in> set ns" "0 \<le> GetIdx s p" "nat (GetIdx s p) < length (out_data_anchors s m)"
      using closed_node_peer [OF assms a p] by blast
    have "length (out_data_anchors s m) < 2^31" using assms(2) m(1) unfolding closed_node_def by blast
    then show ?thesis using m(2,3) by simp
  qed
  then show "short_index s a" by (simp add: short_index_def)
qed

section \<open>The pairs of anchors that are linked\<close>

definition copy_requests :: "('m, 'z) desc_store_scheme \<Rightarrow> (nat \<Rightarrow> nat) \<Rightarrow> nat list \<Rightarrow> NodeNameNodeReq list" where
  "copy_requests s \<rho> ns =
     concat (map (\<lambda>n. data_requests s (\<rho> n) 0 (in_data_anchors s n) @ control_requests s (\<rho> n) n) ns)"

lemma data_pair:
  assumes "GetOwnerNode s p = Some m" "map_of nmap (GetName s m) = Some (\<rho> m)" "copied s u \<rho> m" "copied s u \<rho> n"
    "0 \<le> GetIdx s p" "nat (GetIdx s p) < length (out_data_anchors s m)" "i < length (in_data_anchors s n)"
  shows "request_pair nmap u (request (GetName s m) (GetIdx s p) (\<rho> n) i) =
    Some (out_image s u \<rho> p, in_data_anchors u (\<rho> n) ! i)"
  using assms by (auto simp: request_pair_def copied_def GetOutDataAnchor_def GetInDataAnchor_def out_image_def)

lemma control_pair:
  assumes "GetOwnerNode s p = Some m" "map_of nmap (GetName s m) = Some (\<rho> m)" "copied s u \<rho> m" "copied s u \<rho> n"
  shows "request_pair nmap u (request (GetName s m) (- 1) (\<rho> n) i) =
    Some (control_image s u \<rho> p, the (GetInControlAnchor u (\<rho> n)))"
  using assms by (auto simp: request_pair_def copied_def control_image_def)

definition data_link :: "('m, 'z) desc_store_scheme \<Rightarrow> ('m, 'z) desc_store_scheme \<Rightarrow> (nat \<Rightarrow> nat) \<Rightarrow> nat list \<Rightarrow> nat \<Rightarrow> nat \<Rightarrow> bool" where
  "data_link s u \<rho> ns a b \<longleftrightarrow>
     (\<exists>n \<in> set ns. \<exists>i<length (in_data_anchors s n). \<exists>p. GetPeerOutAnchor s (in_data_anchors s n ! i) = Some p \<and>
        a = out_image s u \<rho> p \<and> b = in_data_anchors u (\<rho> n) ! i)"

definition control_link :: "('m, 'z) desc_store_scheme \<Rightarrow> ('m, 'z) desc_store_scheme \<Rightarrow> (nat \<Rightarrow> nat) \<Rightarrow> nat list \<Rightarrow> nat \<Rightarrow> nat \<Rightarrow> bool" where
  "control_link s u \<rho> ns a b \<longleftrightarrow>
     (\<exists>n \<in> set ns. \<exists>c p. GetInControlAnchor s n = Some c \<and> p \<in> set (InControl_GetPeerOutControlAnchors s c) \<and>
        a = control_image s u \<rho> p \<and> b = the (GetInControlAnchor u (\<rho> n)))"

lemma copy_requests_pairs:
  assumes inv: "node_inv s" and ns: "\<forall>n \<in> set ns. closed_node s ns n"
    and \<rho>: "\<forall>n \<in> set ns. map_of nmap (GetName s n) = Some (\<rho> n)" "\<forall>n \<in> set ns. copied s u \<rho> n"
    and n: "n \<in> set ns"
  shows "item \<in> set (data_requests s (\<rho> n) 0 (in_data_anchors s n)) \<Longrightarrow>
      is_data item \<and> (\<exists>a b. request_pair nmap u item = Some (a, b) \<and> data_link s u \<rho> ns a b)"
    "item \<in> set (control_requests s (\<rho> n) n) \<Longrightarrow>
      \<not> is_data item \<and> (\<exists>a b. request_pair nmap u item = Some (a, b) \<and> control_link s u \<rho> ns a b)"
proof -
  assume "item \<in> set (data_requests s (\<rho> n) 0 (in_data_anchors s n))"
  then obtain i p m where i: "i < length (in_data_anchors s n)" "GetPeerOutAnchor s (in_data_anchors s n ! i) = Some p"
    "GetOwnerNode s p = Some m" "item = request (GetName s m) (GetIdx s p) (\<rho> n) i"
    by (auto simp: data_requests_iff)
  have m: "m \<in> set ns" "0 \<le> GetIdx s p" "nat (GetIdx s p) < length (out_data_anchors s m)"
    using closed_node_peer [OF inv ns n nth_mem [OF i(1)] i(2)] i(3) by auto
  have "request_pair nmap u item = Some (out_image s u \<rho> p, in_data_anchors u (\<rho> n) ! i)"
    unfolding i(4) using \<rho> m n i(1,3) by (intro data_pair) simp_all
  moreover have "data_link s u \<rho> ns (out_image s u \<rho> p) (in_data_anchors u (\<rho> n) ! i)"
    using n i(1,2) by (auto simp: data_link_def)
  ultimately show "is_data item \<and> (\<exists>a b. request_pair nmap u item = Some (a, b) \<and> data_link s u \<rho> ns a b)"
    using i(4) m(2) by simp
next
  assume "item \<in> set (control_requests s (\<rho> n) n)"
  then obtain c p m where c: "GetInControlAnchor s n = Some c" "p \<in> set (InControl_GetPeerOutControlAnchors s c)"
    "GetOwnerNode s p = Some m" "item = request (GetName s m) (- 1) (\<rho> n) (length (in_data_anchors s n))"
    by (auto simp: control_requests_iff)
  have "\<exists>m' \<in> set ns. GetOwnerNode s p = Some m'" using closed_nodeD(4) [OF _ c(1,2)] ns n by blast
  then have m: "m \<in> set ns" using c(3) by simp
  have "request_pair nmap u item = Some (control_image s u \<rho> p, the (GetInControlAnchor u (\<rho> n)))"
    unfolding c(4) using \<rho> m n c(3) by (intro control_pair) simp_all
  moreover have "control_link s u \<rho> ns (control_image s u \<rho> p) (the (GetInControlAnchor u (\<rho> n)))"
    using n c(1,2) by (auto simp: control_link_def)
  ultimately show "\<not> is_data item \<and> (\<exists>a b. request_pair nmap u item = Some (a, b) \<and> control_link s u \<rho> ns a b)"
    using c(4) by simp
qed

lemma copy_requests_all:
  assumes inv: "node_inv s" and ns: "\<forall>n \<in> set ns. closed_node s ns n"
    and \<rho>: "\<forall>n \<in> set ns. map_of nmap (GetName s n) = Some (\<rho> n)" "\<forall>n \<in> set ns. copied s u \<rho> n"
  shows "\<forall>item \<in> set (copy_requests s \<rho> ns). request_pair nmap u item \<noteq> None"
    "(a, b) \<in> set (map (the \<circ> request_pair nmap u) (copy_requests s \<rho> ns)) \<longleftrightarrow>
       data_link s u \<rho> ns a b \<or> control_link s u \<rho> ns a b"
proof -
  note c = copy_requests_pairs [OF assms]
  show "\<forall>item \<in> set (copy_requests s \<rho> ns). request_pair nmap u item \<noteq> None"
    using c by (fastforce simp: copy_requests_def)
  have d: "(a, b) \<in> (the \<circ> request_pair nmap u) ` set (copy_requests s \<rho> ns)" if l: "data_link s u \<rho> ns a b"
  proof -
    obtain n i p where n: "n \<in> set ns" "i < length (in_data_anchors s n)"
      "GetPeerOutAnchor s (in_data_anchors s n ! i) = Some p" "a = out_image s u \<rho> p" "b = in_data_anchors u (\<rho> n) ! i"
      using l unfolding data_link_def by blast
    obtain m where m: "m \<in> set ns" "GetOwnerNode s p = Some m" "0 \<le> GetIdx s p" "nat (GetIdx s p) < length (out_data_anchors s m)"
      using closed_node_peer [OF inv ns n(1) nth_mem [OF n(2)] n(3)] by blast
    have "request_pair nmap u (request (GetName s m) (GetIdx s p) (\<rho> n) i) = Some (a, b)"
      unfolding n(4,5) using \<rho> m n(1,2) by (intro data_pair) simp_all
    moreover have "request (GetName s m) (GetIdx s p) (\<rho> n) i \<in> set (copy_requests s \<rho> ns)"
      using n(1-3) m(2) by (auto simp: copy_requests_def data_requests_iff)
    ultimately show ?thesis by (metis comp_apply image_eqI option.sel)
  qed
  have e: "(a, b) \<in> (the \<circ> request_pair nmap u) ` set (copy_requests s \<rho> ns)" if l: "control_link s u \<rho> ns a b"
  proof -
    obtain n k p where n: "n \<in> set ns" "GetInControlAnchor s n = Some k" "p \<in> set (InControl_GetPeerOutControlAnchors s k)"
      "a = control_image s u \<rho> p" "b = the (GetInControlAnchor u (\<rho> n))"
      using l unfolding control_link_def by blast
    obtain m where m: "m \<in> set ns" "GetOwnerNode s p = Some m"
      using closed_nodeD(4) [OF _ n(2,3)] ns n(1) by blast
    let ?r = "request (GetName s m) (- 1) (\<rho> n) (length (in_data_anchors s n))"
    have "request_pair nmap u ?r = Some (a, b)"
      unfolding n(4,5) using \<rho> m n(1) by (intro control_pair) simp_all
    moreover have "?r \<in> set (copy_requests s \<rho> ns)"
      using n(1-3) m(2) by (auto simp: copy_requests_def control_requests_iff)
    ultimately show ?thesis by (metis comp_apply image_eqI option.sel)
  qed
  have "data_link s u \<rho> ns a b \<or> control_link s u \<rho> ns a b"
    if "item \<in> set (copy_requests s \<rho> ns)" "(a, b) = the (request_pair nmap u item)" for item
    using that c(1,2) [of _ item] by (fastforce simp: copy_requests_def)
  then show "(a, b) \<in> set (map (the \<circ> request_pair nmap u) (copy_requests s \<rho> ns)) \<longleftrightarrow>
       data_link s u \<rho> ns a b \<or> control_link s u \<rho> ns a b"
    using d e by (auto simp: image_iff)
qed

section \<open>The linked copy\<close>

lemma distinct_map_concat:
  assumes "distinct ns" "\<And>n. n \<in> set ns \<Longrightarrow> distinct (map K (D n))"
    "\<And>n m x y. n \<in> set ns \<Longrightarrow> m \<in> set ns \<Longrightarrow> x \<in> set (D n) \<Longrightarrow> y \<in> set (D m) \<Longrightarrow> K x = K y \<Longrightarrow> n = m"
  shows "distinct (map K (concat (map D ns)))"
  using assms
proof (induction ns)
  case (Cons n ns)
  have "K x \<notin> K ` (\<Union>m \<in> set ns. set (D m))" if "x \<in> set (D n)" for x
  proof
    assume "K x \<in> K ` (\<Union>m \<in> set ns. set (D m))"
    then obtain m y where "m \<in> set ns" "y \<in> set (D m)" "K x = K y" by auto
    then show False using Cons.prems(1) Cons.prems(3) [of n m x y] that by auto
  qed
  moreover have "distinct (map K (concat (map D ns)))"
    using Cons.prems by (intro Cons.IH) auto
  ultimately show ?case using Cons.prems(2) [of n] by auto
qed simp

lemma data_requests_key:
  assumes "item \<in> set (data_requests s k 0 as)" "request_pair nmap u item = Some (a, b)" "is_data item"
    "length (in_data_anchors u k) = length as"
  shows "b = in_data_anchors u k ! nr_dst_in_index item \<and> nr_dst_in_index item < length as"
  using assms by (auto simp: data_requests_iff request_pair_def GetInDataAnchor_def split: option.splits if_splits)

lemma filter_copy_requests:
  assumes "\<And>n item. n \<in> set ns \<Longrightarrow> item \<in> set (data_requests s (\<rho> n) 0 (in_data_anchors s n)) \<Longrightarrow> is_data item"
  shows "filter is_data (copy_requests s \<rho> ns) = concat (map (\<lambda>n. data_requests s (\<rho> n) 0 (in_data_anchors s n)) ns)"
proof -
  have "filter is_data (control_requests s (\<rho> n) n) = []" for n
    by (auto simp: filter_empty_conv control_requests_iff)
  moreover have "filter is_data (data_requests s (\<rho> n) 0 (in_data_anchors s n)) = data_requests s (\<rho> n) 0 (in_data_anchors s n)"
    if "n \<in> set ns" for n using assms that by (simp add: filter_id_conv)
  ultimately show ?thesis by (simp add: copy_requests_def filter_concat comp_def cong: map_cong)
qed

lemma owners_differ:
  assumes "nodes_wf u" "a \<in> set (in_data_anchors u n)" "a \<in> set (in_data_anchors u m)"
  shows "n = m"
  using node_member_typed(3) [OF assms(1,2)] node_member_typed(3) [OF assms(1,3)] by simp

lemma copy_targets_distinct:
  assumes inv: "node_inv s" and ns: "\<forall>n \<in> set ns. closed_node s ns n" and d: "distinct ns"
    and \<rho>: "\<forall>n \<in> set ns. map_of nmap (GetName s n) = Some (\<rho> n)" "\<forall>n \<in> set ns. copied s u \<rho> n"
    and u: "nodes_wf u" and i: "inj_on \<rho> (set ns)"
  shows "distinct (map (\<lambda>item. snd (the (request_pair nmap u item))) (filter is_data (copy_requests s \<rho> ns)))"
proof -
  let ?K = "\<lambda>item. snd (the (request_pair nmap u item))"
  let ?D = "\<lambda>n. data_requests s (\<rho> n) 0 (in_data_anchors s n)"
  have k: "?K item = in_data_anchors u (\<rho> n) ! nr_dst_in_index item"
      "nr_dst_in_index item < length (in_data_anchors u (\<rho> n))" "is_data item"
    if l: "n \<in> set ns" "item \<in> set (?D n)" for n item
  proof -
    obtain a b where "request_pair nmap u item = Some (a, b)" "is_data item"
      using copy_requests_pairs(1) [OF inv ns \<rho> l] by blast
    moreover have "length (in_data_anchors u (\<rho> n)) = length (in_data_anchors s n)"
      using \<rho>(2) l(1) by (simp add: copied_def)
    ultimately show "?K item = in_data_anchors u (\<rho> n) ! nr_dst_in_index item"
      "nr_dst_in_index item < length (in_data_anchors u (\<rho> n))" "is_data item"
      using data_requests_key [OF l(2)] by auto
  qed
  have f: "filter is_data (copy_requests s \<rho> ns) = concat (map ?D ns)"
    by (rule filter_copy_requests) (rule k(3))
  show ?thesis
    unfolding f
  proof (rule distinct_map_concat [OF d])
    fix n assume n: "n \<in> set ns"
    have nn: "nodes u (\<rho> n) \<noteq> None"
      using \<rho>(2) n by (auto simp: copied_def GetInControlAnchor_def split: option.splits)
    then have "distinct (in_data_anchors u (\<rho> n))" using u node_wfD(5) by (auto simp: nodes_wf_def)
    moreover have "map ?K (?D n) = map ((!) (in_data_anchors u (\<rho> n))) (map nr_dst_in_index (?D n))"
      using k(1) [OF n] by simp
    ultimately show "distinct (map ?K (?D n))"
      using data_requests_distinct [of s "\<rho> n" 0 "in_data_anchors s n"] k(2) [OF n] by (auto simp: distinct_map inj_on_def nth_eq_iff_index_eq)
  next
    fix n m x y
    assume nm: "n \<in> set ns" "m \<in> set ns" "x \<in> set (?D n)" "y \<in> set (?D m)" and e: "?K x = ?K y"
    have "?K x \<in> set (in_data_anchors u (\<rho> n))" "?K y \<in> set (in_data_anchors u (\<rho> m))"
      using k(1,2) [OF nm(1,3)] k(1,2) [OF nm(2,4)] by simp_all
    then have "\<rho> n = \<rho> m" using owners_differ [OF u] e by simp
    then show "n = m" using i nm(1,2) by (simp add: inj_on_def)
  qed
qed

text \<open>The peers of the inputs of the copy are the images of the peers they had.\<close>

lemma GetPeerOutAnchor_uniform:
  assumes "peers u b \<noteq> []" "\<And>x. x \<in> set (peers u b) \<Longrightarrow> x = a" "class_of u a = Some OutDataAnchor"
  shows "GetPeerOutAnchor u b = Some a"
proof -
  obtain xs where "peers u b = a # xs" using assms(1,2) by (cases "peers u b") auto
  then show ?thesis
    using assms(3) lock_object [of u a]
    by (simp add: GetPeerOutAnchor_def DynamicAnchorCast_class is_type_of_concrete class_of_None [symmetric])
qed

text \<open>The images are anchors of the copy.\<close>

lemma out_image_wf:
  assumes "node_inv s" "\<forall>n \<in> set ns. closed_node s ns n" "\<forall>n \<in> set ns. copied s u \<rho> n" "nodes_wf u"
    "n \<in> set ns" "a \<in> set (in_data_anchors s n)" "GetPeerOutAnchor s a = Some p"
  shows "class_of u (out_image s u \<rho> p) = Some OutDataAnchor \<and>
    (\<exists>m \<in> set ns. GetOwnerNode u (out_image s u \<rho> p) = Some (\<rho> m))"
proof -
  obtain m where m: "m \<in> set ns" "GetOwnerNode s p = Some m" "nat (GetIdx s p) < length (out_data_anchors s m)"
    using closed_node_peer [OF assms(1,2,5-7)] by blast
  have "out_image s u \<rho> p \<in> set (out_data_anchors u (\<rho> m))"
    using m assms(3) by (simp add: out_image_def copied_def)
  then show ?thesis using node_member_typed(2,4) [OF assms(4)] m(1) by blast
qed

lemma control_image_wf:
  assumes "\<forall>n \<in> set ns. closed_node s ns n" "\<forall>n \<in> set ns. copied s u \<rho> n" "nodes_wf u"
    "n \<in> set ns" "GetInControlAnchor s n = Some c" "p \<in> set (InControl_GetPeerOutControlAnchors s c)"
  shows "class_of u (control_image s u \<rho> p) = Some OutControlAnchor \<and>
    (\<exists>m \<in> set ns. GetOwnerNode u (control_image s u \<rho> p) = Some (\<rho> m))"
proof -
  obtain m where m: "m \<in> set ns" "GetOwnerNode s p = Some m"
    using closed_nodeD(4) [OF _ assms(5,6)] assms(1,4) by blast
  then obtain a where "GetOutControlAnchor u (\<rho> m) = Some a" using assms(2) by (auto simp: copied_def)
  then show ?thesis using node_control_typed(4) [OF assms(3)] m by (auto simp: control_image_def)
qed

lemma linked_copy:
  fixes s u :: "('m, 'z) desc_store_scheme"
  assumes inv: "node_inv s" and ns: "\<forall>n \<in> set ns. closed_node s ns n" and d: "distinct ns"
    and \<rho>: "\<forall>n \<in> set ns. map_of nmap (GetName s n) = Some (\<rho> n)" "\<forall>n \<in> set ns. copied s u \<rho> n"
    and u: "node_inv u" and i: "inj_on \<rho> (set ns)"
    and new: "\<forall>n \<in> set ns. \<forall>a. GetOwnerNode u a = Some (\<rho> n) \<longrightarrow> peers u a = []"
  shows "\<exists>v. while_ok (link_request nmap) (copy_requests s \<rho> ns) u = (v, True) \<and> wired u v \<and>
    op_descs v = op_descs u \<and> graph_attrs v = graph_attrs u \<and>
    (\<forall>n \<in> set ns. \<forall>i<length (in_data_anchors s n).
       GetPeerOutAnchor v (in_data_anchors u (\<rho> n) ! i) =
         map_option (out_image s u \<rho>) (GetPeerOutAnchor s (in_data_anchors s n ! i))) \<and>
    (\<forall>n \<in> set ns. \<forall>c. GetInControlAnchor s n = Some c \<longrightarrow>
       set (InControl_GetPeerOutControlAnchors v (the (GetInControlAnchor u (\<rho> n)))) =
         control_image s u \<rho> ` set (InControl_GetPeerOutControlAnchors s c)) \<and>
    (\<forall>a. (\<forall>n \<in> set ns. GetOwnerNode u a \<noteq> Some (\<rho> n)) \<longrightarrow> peers v a = peers u a)"
proof -
  have e: "n \<in> set ns \<Longrightarrow> GetOwnerNode u a = Some (\<rho> n) \<Longrightarrow> peers u a = []" for n a using new by blast
  note wf = node_invD(2) [OF u]
  let ?P = "map (the \<circ> request_pair nmap u) (copy_requests s \<rho> ns)"
  note all = copy_requests_all [OF inv ns \<rho>]
  have in_wf: "class_of u b = Some InDataAnchor \<and> GetOwnerNode u b = Some (\<rho> n)"
    if "b = in_data_anchors u (\<rho> n) ! i" "i < length (in_data_anchors s n)" "n \<in> set ns" for b n i
    using that \<rho>(2) node_member_typed(1,3) [OF wf, of b "\<rho> n"] by (simp add: copied_def)
  have ctl_wf: "class_of u b = Some InControlAnchor \<and> GetOwnerNode u b = Some (\<rho> n)"
    if "b = the (GetInControlAnchor u (\<rho> n))" "n \<in> set ns" for b n
    using that \<rho>(2) node_control_typed(3) [OF wf, of "\<rho> n" b] by (auto simp: copied_def)
  have target: "\<exists>n \<in> set ns. GetOwnerNode u b = Some (\<rho> n)" if "(a, b) \<in> set ?P" for a b
    using that all(2) [of a b] in_wf ctl_wf unfolding data_link_def control_link_def by blast
  have source: "\<exists>n \<in> set ns. GetOwnerNode u a = Some (\<rho> n)" if p: "(a, b) \<in> set ?P" for a b
  proof -
    have "data_link s u \<rho> ns a b \<or> control_link s u \<rho> ns a b" using p all(2) by simp
    then show ?thesis
      using out_image_wf [OF inv ns \<rho>(2) wf _ nth_mem] control_image_wf [OF ns \<rho>(2) wf]
      unfolding data_link_def control_link_def by blast
  qed
  have 4: "\<forall>item \<in> set (copy_requests s \<rho> ns). is_data item \<longrightarrow> peers u (snd (the (request_pair nmap u item))) = []"
  proof (intro ballI impI)
    fix item assume "item \<in> set (copy_requests s \<rho> ns)"
    then have "the (request_pair nmap u item) \<in> set ?P" by simp
    then show "peers u (snd (the (request_pair nmap u item))) = []"
      using target e by (metis prod.collapse)
  qed
  obtain v where v: "while_ok (link_request nmap) (copy_requests s \<rho> ns) u = (v, True)" "wired u v"
    "\<And>b c. class_of u b = Some c \<Longrightarrow> is_in c \<Longrightarrow> peers v b = peers u b @ map fst (filter (\<lambda>p. snd p = b) ?P)"
    "\<And>x. x \<notin> fst ` set ?P \<Longrightarrow> x \<notin> snd ` set ?P \<Longrightarrow> peers v x = peers u x"
    "op_descs v = op_descs u" "graph_attrs v = graph_attrs u"
    using link_requests_effect [OF wf wired_start [OF u] all(1) 4 copy_targets_distinct [OF inv ns d \<rho> wf i]]
    by blast
  have pv: "x \<in> set (peers v b) \<longleftrightarrow> data_link s u \<rho> ns x b \<or> control_link s u \<rho> ns x b"
    if "class_of u b = Some c" "is_in c" "GetOwnerNode u b = Some (\<rho> n)" "n \<in> set ns" for x b c n
  proof -
    have "x \<in> set (map fst (filter (\<lambda>p. snd p = b) P)) \<longleftrightarrow> (x, b) \<in> set P" for P :: "(nat \<times> nat) list"
      by force
    then show ?thesis unfolding v(3) [OF that(1,2)] e [OF that(4,3)] all(2) [symmetric] append_Nil .
  qed
  show ?thesis
  proof (intro exI [of _ v] conjI v(1,2,5,6) ballI allI impI)
    fix n k assume n: "n \<in> set ns" and k: "k < length (in_data_anchors s n)"
    let ?b = "in_data_anchors u (\<rho> n) ! k"
    have b: "class_of u ?b = Some InDataAnchor" "GetOwnerNode u ?b = Some (\<rho> n)" using in_wf [OF refl k n] by simp_all
    have m: "x \<in> set (peers v ?b) \<longleftrightarrow> (\<exists>p. GetPeerOutAnchor s (in_data_anchors s n ! k) = Some p \<and> x = out_image s u \<rho> p)" for x
    proof -
      have same: "n' = n \<and> k' = k" if "n' \<in> set ns" "k' < length (in_data_anchors s n')" "?b = in_data_anchors u (\<rho> n') ! k'" for n' k'
      proof -
        have "\<rho> n' = \<rho> n" using in_wf [OF that(3,2,1)] b(2) by simp
        then have n': "n' = n" using i n that(1) by (simp add: inj_on_def)
        have "nodes u (\<rho> n) \<noteq> None"
          using \<rho>(2) n by (auto simp: copied_def GetInControlAnchor_def split: option.splits)
        then have "distinct (in_data_anchors u (\<rho> n))" using wf node_wfD(5) by (auto simp: nodes_wf_def)
        then show ?thesis
          using that(2,3) k \<rho>(2) n unfolding n' by (auto simp: copied_def nth_eq_iff_index_eq)
      qed
      have "\<not> control_link s u \<rho> ns x ?b" using ctl_wf b(1) unfolding control_link_def by fastforce
      then have "x \<in> set (peers v ?b) \<longleftrightarrow> data_link s u \<rho> ns x ?b"
        using pv [OF b(1) _ b(2) n] by (simp add: is_in_def)
      then show ?thesis using same n k unfolding data_link_def by blast
    qed
    show "GetPeerOutAnchor v ?b = map_option (out_image s u \<rho>) (GetPeerOutAnchor s (in_data_anchors s n ! k))"
    proof (cases "GetPeerOutAnchor s (in_data_anchors s n ! k)")
      case None
      then have "peers v ?b = []" using m by (metis list.set_intros(1) neq_Nil_conv option.distinct(1))
      then have "GetPeerOutAnchor v ?b = None" by (simp add: GetPeerOutAnchor_def)
      then show ?thesis by (simp add: None)
    next
      case (Some p)
      have x: "x \<in> set (peers v ?b) \<longleftrightarrow> x = out_image s u \<rho> p" for x using m Some by simp
      have c: "class_of v (out_image s u \<rho> p) = Some OutDataAnchor"
        using out_image_wf [OF inv ns \<rho>(2) wf n nth_mem [OF k] Some] v(2) by simp
      have "peers v ?b \<noteq> []" using x [of "out_image s u \<rho> p"] by auto
      then have "GetPeerOutAnchor v ?b = Some (out_image s u \<rho> p)"
        by (rule GetPeerOutAnchor_uniform [OF _ _ c]) (simp only: x)
      then show ?thesis by (simp add: Some)
    qed
  next
    fix n c assume n: "n \<in> set ns" and c: "GetInControlAnchor s n = Some c"
    show "set (InControl_GetPeerOutControlAnchors v (the (GetInControlAnchor u (\<rho> n)))) =
         control_image s u \<rho> ` set (InControl_GetPeerOutControlAnchors s c)"
    proof (intro set_eqI)
      fix x
      let ?b = "the (GetInControlAnchor u (\<rho> n))"
      have b: "class_of u ?b = Some InControlAnchor" "GetOwnerNode u ?b = Some (\<rho> n)" using ctl_wf [OF refl n] by simp_all
      have "\<not> data_link s u \<rho> ns x ?b" using in_wf b(1) unfolding data_link_def by fastforce
      then have "x \<in> set (peers v ?b) \<longleftrightarrow> control_link s u \<rho> ns x ?b"
        using pv [OF b(1) _ b(2) n] by (simp add: is_in_def)
      also have "\<dots> \<longleftrightarrow> x \<in> control_image s u \<rho> ` set (InControl_GetPeerOutControlAnchors s c)"
      proof -
        have "n' = n" if "n' \<in> set ns" "?b = the (GetInControlAnchor u (\<rho> n'))" for n'
          using ctl_wf [OF that(2,1)] b(2) i n that(1) by (simp add: inj_on_def)
        then show ?thesis using n c unfolding control_link_def by fastforce
      qed
      finally show "x \<in> set (InControl_GetPeerOutControlAnchors v ?b) \<longleftrightarrow>
          x \<in> control_image s u \<rho> ` set (InControl_GetPeerOutControlAnchors s c)"
        using control_image_wf [OF ns \<rho>(2) wf n c] v(2) by (auto simp: peers_typed)
    qed
  next
    fix a assume "\<forall>n \<in> set ns. GetOwnerNode u a \<noteq> Some (\<rho> n)"
    then show "peers v a = peers u a" using source target by (intro v(4)) fastforce+
  qed
qed

section \<open>Inputs and outputs of the graph\<close>

lemma upd_graph_comp: "upd_graph g f1 (upd_graph g f2 t) = upd_graph g (f1 \<circ> f2) t"
  by (simp add: upd_graph_def option.map_comp)

lemma upd_graph_id: "(\<And>x. f x = x) \<Longrightarrow> upd_graph g f t = t"
proof -
  assume "\<And>x. f x = x"
  then have "map_option f (graphs t g) = graphs t g" by (cases "graphs t g") simp_all
  then show ?thesis by (simp add: upd_graph_def)
qed

lemma input_requests_effect:
  assumes "graphs t g = Some y" "\<forall>n \<in> set xs. map_of nmap (N n) = Some (\<rho> n) \<and> \<rho> n \<in> set (g_nodes y)"
  shows "while_ok (input_request nmap) (map (\<lambda>n. \<lparr>gr_node_name = N n, gr_index = i, gr_graph = g\<rparr>) xs) t =
    (upd_graph g (g_input_nodes_update (\<lambda>ns. ns @ map \<rho> xs)) t, True)"
  using assms
proof (induction xs arbitrary: t y)
  case (Cons n xs)
  let ?t = "upd_graph g (g_input_nodes_update (\<lambda>ns. ns @ [\<rho> n])) t"
  have 1: "input_request nmap \<lparr>gr_node_name = N n, gr_index = i, gr_graph = g\<rparr> t = (?t, True)"
    using Cons.prems by (simp add: input_request_def AddInputNode_def graph_nodes_def upd_graph_def)
  have "graphs ?t g = Some (y\<lparr>g_input_nodes := g_input_nodes y @ [\<rho> n]\<rparr>)"
    using Cons.prems(1) by (simp add: upd_graph_def)
  from Cons.IH [OF this] Cons.prems(2)
  have "while_ok (input_request nmap) (map (\<lambda>n. \<lparr>gr_node_name = N n, gr_index = i, gr_graph = g\<rparr>) xs) ?t =
      (upd_graph g (g_input_nodes_update (\<lambda>ns. ns @ map \<rho> xs)) ?t, True)" by simp
  then show ?case by (simp add: 1 upd_graph_comp comp_def)
qed (simp add: upd_graph_id)

lemma output_requests_effect:
  assumes "graphs t g = Some y"
    "\<forall>(n, i) \<in> set xs. map_of nmap (N n) = Some (\<rho> n) \<and> \<rho> n \<in> set (g_nodes y) \<and> GetOpDesc t (\<rho> n) \<noteq> None"
    "distinct (map (\<lambda>(n, i). (GetName t n, i)) (g_output_nodes_info y) @ map (\<lambda>(n, i). (GetName t (\<rho> n), i)) xs)"
  shows "while_ok (output_request nmap) (map (\<lambda>(n, i). \<lparr>gr_node_name = N n, gr_index = i, gr_graph = g\<rparr>) xs) t =
    (upd_graph g (g_output_nodes_info_update (\<lambda>is. is @ map (\<lambda>(n, i). (\<rho> n, i)) xs)) t, True)"
  using assms
proof (induction xs arbitrary: t y)
  case (Cons x xs)
  obtain n i where x: "x = (n, i)" by (cases x)
  let ?t = "upd_graph g (g_output_nodes_info_update (\<lambda>is. is @ [(\<rho> n, i)])) t"
  have "\<forall>item \<in> set (g_output_nodes_info y). \<not> (GetName t (fst item) = GetName t (\<rho> n) \<and> snd item = i)"
    using Cons.prems(3) by (force simp: x)
  then have f: "find_index (\<lambda>item. GetName t (fst item) = GetName t (\<rho> n) \<and> snd item = i) (g_output_nodes_info y) = None"
    by (simp add: find_index_None)
  have 1: "output_request nmap \<lparr>gr_node_name = N n, gr_index = i, gr_graph = g\<rparr> t = (?t, True)"
    using Cons.prems(1,2)
    by (simp add: x output_request_def AddOutputNodeByIndex_def f graph_nodes_def upd_graph_def)
  have g: "graphs ?t g = Some (y\<lparr>g_output_nodes_info := g_output_nodes_info y @ [(\<rho> n, i)]\<rparr>)"
    using Cons.prems(1) by (simp add: upd_graph_def)
  have e: "GetName ?t = GetName t" "GetOpDesc ?t = GetOpDesc t"
    by (simp_all add: fun_eq_iff GetName_def GetOpDesc_def upd_graph_def)
  have "while_ok (output_request nmap) (map (\<lambda>(n, i). \<lparr>gr_node_name = N n, gr_index = i, gr_graph = g\<rparr>) xs) ?t =
      (upd_graph g (g_output_nodes_info_update (\<lambda>is. is @ map (\<lambda>(n, i). (\<rho> n, i)) xs)) ?t, True)"
    by (rule Cons.IH [OF g]) (use Cons.prems(2,3) in \<open>auto simp: e x\<close>)
  then show ?case by (simp add: x 1 upd_graph_comp comp_def)
qed (simp add: upd_graph_id)

section \<open>The round trip of a graph\<close>

lemma list_image: "distinct xs \<Longrightarrow> length xs = length ys \<Longrightarrow> \<exists>\<rho>. map \<rho> xs = ys"
proof -
  assume d: "distinct xs" "length xs = length ys"
  have "map (\<lambda>x. the (map_of (zip xs ys) x)) xs = ys"
    using d by (intro nth_equalityI) (simp_all add: map_of_zip_nth)
  then show ?thesis by blast
qed

lemma serialize_nodes_eq:
  "\<forall>n \<in> set ns. GetOpDesc s n \<noteq> None \<Longrightarrow>
   serialize_nodes is_dump s ns = Some (map (\<lambda>n. SerializeEdge s n (SerializeOpDesc is_dump (op_descs s n))) ns)"
  by (induction ns) (simp_all add: SerializeNode_def)

lemma node_map_names:
  assumes "distinct (map N ns)" "n \<in> set ns"
  shows "map_of (fold (\<lambda>n. map_put (N n) (\<rho> n)) ns m) (N n) = Some (\<rho> n)"
  using assms
proof (induction ns arbitrary: m)
  case (Cons k ns)
  have other: "N k \<notin> N ` set ns \<Longrightarrow> map_of (fold (\<lambda>n. map_put (N n) (\<rho> n)) ns m) (N k) = map_of m (N k)" for m
    by (induction ns arbitrary: m) (auto simp: map_of_put)
  show ?case
  proof (cases "n = k")
    case True
    then show ?thesis using Cons.prems other [of "map_put (N k) (\<rho> k) m"] by (simp add: map_of_put)
  qed (use Cons in simp)
qed simp

lemma copy_requests_asked:
  assumes "node_inv s" "\<forall>n \<in> set ns. closed_node s ns n"
  shows "asked im (map \<rho> ns) (map (\<lambda>n. SerializeEdge s n (SerializeOpDesc is_dump (op_descs s n))) ns) =
    im\<lparr>node_input_node_names := node_input_node_names im @ copy_requests s \<rho> ns,
       node_map := fold (\<lambda>n. map_put (GetName s n) (\<rho> n)) ns (node_map im)\<rparr>"
proof -
  let ?D = "\<lambda>n. SerializeEdge s n (SerializeOpDesc is_dump (op_descs s n))"
  have n: "d_name (?D n) = GetName s n" if "n \<in> set ns" for n
    using assms(2) that by (auto simp: SerializeEdge_def written_frame closed_node_def)
  have r: "node_requests (\<rho> n) 0 (d_input (?D n)) = data_requests s (\<rho> n) 0 (in_data_anchors s n) @ control_requests s (\<rho> n) n"
    if "n \<in> set ns" for n
    by (rule node_requests_node [OF closed_short_index [OF assms that]])
  have z: "zip (map \<rho> ns) (map ?D ns) = map (\<lambda>n. (\<rho> n, ?D n)) ns"
    by (simp add: zip_map_map zip_same_conv_map)
  have "map2 (\<lambda>n d. node_requests n 0 (d_input d)) (map \<rho> ns) (map ?D ns) =
      map (\<lambda>n. data_requests s (\<rho> n) 0 (in_data_anchors s n) @ control_requests s (\<rho> n) n) ns"
    unfolding z by (simp add: r)
  moreover have "fold (\<lambda>(n, d). map_put (d_name d) n) (zip (map \<rho> ns) (map ?D ns)) m =
      fold (\<lambda>n. map_put (GetName s n) (\<rho> n)) ns m" for m
    unfolding z by (simp add: fold_map comp_def) (rule fold_cong; simp add: n)
  ultimately show ?thesis unfolding asked_def copy_requests_def by simp
qed

lemma closed_copied:
  assumes "closed_node s ns n" "made u (\<rho> n) (SerializeEdge s n (SerializeOpDesc is_dump (op_descs s n)))"
  shows "copied s u \<rho> n" "GetName u (\<rho> n) = GetName s n"
proof -
  let ?d = "SerializeEdge s n (SerializeOpDesc is_dump (op_descs s n))"
  have p: "ported u (\<rho> n) (brief_desc (UnserializeOpDesc ?d))" using assms(2) by (simp add: made_def)
  have l: "length (inputs_desc (UnserializeOpDesc ?d)) = length (inputs_desc (op_descs s n))"
    "length (outputs_desc (UnserializeOpDesc ?d)) = length (outputs_desc (op_descs s n))"
    "OpDesc_GetName (UnserializeOpDesc ?d) = OpDesc_GetName (op_descs s n)"
    by (simp_all add: read_frame) (simp_all add: SerializeEdge_def written_frame)
  show "copied s u \<rho> n" "GetName u (\<rho> n) = GetName s n"
    using assms(1) p l
    by (simp_all add: copied_def ported_def closed_node_def brief_desc_def GetAllInputsSize_def GetOutputsSize_def GetName_def)
qed

definition node_message :: "bool \<Rightarrow> ('m, 'z) desc_store_scheme \<Rightarrow> nat \<Rightarrow> 'm op_def" where
  "node_message is_dump s n = SerializeEdge s n (SerializeOpDesc is_dump (op_descs s n))"

definition graph_message :: "bool \<Rightarrow> ('m, 'z) desc_store_scheme \<Rightarrow> nat \<Rightarrow> compute_graph \<Rightarrow> 'm graph_def" where
  "graph_message is_dump s g x =
     \<lparr>gd_name = g_name x, gd_input = map (\<lambda>n. GetName s n @ '':0'') (g_input_nodes x),
      gd_output = map (\<lambda>(n, i). node_index (GetName s n) i) (g_output_nodes_info x),
      gd_op = map (node_message is_dump s) (g_nodes x), gd_attr = graph_attrs s g\<rparr>"

lemma graph_written:
  assumes "graphs s g = Some x" "writable s x"
  shows "SerializeGraph is_dump s g = Some (graph_message is_dump s g x)"
proof -
  have "\<forall>n \<in> set (g_nodes x). GetOpDesc s n \<noteq> None"
    using assms(2) closed_nodeD(1) unfolding writable_def by blast
  from serialize_nodes_eq [OF this] show ?thesis
    using assms(1) by (simp add: SerializeGraph_def graph_message_def node_message_def [abs_def] GetDirectNode_def graph_nodes_def)
qed

text \<open>The requests of the message.\<close>

definition copy_imp :: "('m, 'z) desc_store_scheme \<Rightarrow> compute_graph \<Rightarrow> (nat \<Rightarrow> nat) \<Rightarrow> imp" where
  "copy_imp s x \<rho> =
     \<lparr>graph_input_node_names =
        map (\<lambda>n. \<lparr>gr_node_name = GetName s n, gr_index = 0, gr_graph = next_addr s\<rparr>) (g_input_nodes x),
      graph_output_node_names =
        map (\<lambda>(n, i). \<lparr>gr_node_name = GetName s n, gr_index = i, gr_graph = next_addr s\<rparr>) (g_output_nodes_info x),
      node_input_node_names = copy_requests s \<rho> (g_nodes x),
      node_map = fold (\<lambda>n. map_put (GetName s n) (\<rho> n)) (g_nodes x) []\<rparr>"

text \<open>The store with the new nodes, before they are linked.\<close>

definition node_copy :: "bool \<Rightarrow> ('m, 'z) desc_store_scheme \<Rightarrow> compute_graph \<Rightarrow> (nat \<Rightarrow> nat) \<Rightarrow> ('m, 'z) desc_store_scheme \<Rightarrow> bool" where
  "node_copy is_dump s x \<rho> u \<longleftrightarrow>
     graph_inv u \<and> grown (next_addr s) s u \<and> inj_on \<rho> (set (g_nodes x)) \<and>
     (\<forall>n \<in> set (g_nodes x). next_addr s < \<rho> n \<and> copied s u \<rho> n \<and> GetName u (\<rho> n) = GetName s n \<and>
        op_descs u (\<rho> n) = UnserializeOpDesc (node_message is_dump s n))"

lemma writableD:
  assumes "writable s x"
  shows "\<forall>n \<in> set (g_nodes x). closed_node s (g_nodes x) n" "distinct (map (GetName s) (g_nodes x))" "distinct (g_nodes x)"
    "\<forall>o' \<in> set (g_output_nodes_info x). fst o' \<in> set (g_nodes x) \<and> -(2^31) \<le> snd o' \<and> snd o' < 2^31"
    "set (g_input_nodes x) \<subseteq> set (g_nodes x)" "distinct (g_output_nodes_info x)"
  using assms by (simp_all add: writable_def distinct_map)

lemma outputs_named_apart:
  assumes "writable s x"
  shows "distinct (map (\<lambda>(n, i). (GetName s n, i)) (g_output_nodes_info x))"
proof -
  note w = writableD [OF assms]
  have i: "inj_on (GetName s) (set (g_nodes x))" using w(2) by (simp add: distinct_map)
  have "inj_on (\<lambda>(n, i). (GetName s n, i)) (set (g_output_nodes_info x))"
  proof (rule inj_onI)
    fix o1 o2 assume o: "o1 \<in> set (g_output_nodes_info x)" "o2 \<in> set (g_output_nodes_info x)"
      and e: "(case o1 of (n, i) \<Rightarrow> (GetName s n, i)) = (case o2 of (n, i) \<Rightarrow> (GetName s n, i))"
    have "fst o1 \<in> set (g_nodes x)" "fst o2 \<in> set (g_nodes x)" using o w(4) by blast+
    moreover have "GetName s (fst o1) = GetName s (fst o2)" "snd o1 = snd o2" using e by (simp_all add: case_prod_unfold)
    ultimately show "o1 = o2" using inj_onD [OF i] by (metis prod.expand)
  qed
  then show ?thesis using w(6) by (simp add: distinct_map)
qed

lemma message_requests:
  assumes "writable s x"
  shows "graph_requests b (gd_input (graph_message is_dump s g x)) =
      map (\<lambda>n. \<lparr>gr_node_name = GetName s n, gr_index = 0, gr_graph = b\<rparr>) (g_input_nodes x)"
    "graph_requests b (gd_output (graph_message is_dump s g x)) =
      map (\<lambda>(n, i). \<lparr>gr_node_name = GetName s n, gr_index = i, gr_graph = b\<rparr>) (g_output_nodes_info x)"
proof -
  have "gd_input (graph_message is_dump s g x) = map (\<lambda>(n, i). node_index (GetName s n) i) (map (\<lambda>n. (n, 0)) (g_input_nodes x))"
    by (simp add: graph_message_def input_text_zero)
  then show "graph_requests b (gd_input (graph_message is_dump s g x)) =
      map (\<lambda>n. \<lparr>gr_node_name = GetName s n, gr_index = 0, gr_graph = b\<rparr>) (g_input_nodes x)"
    using graph_requests_texts [of "map (\<lambda>n. (n, 0)) (g_input_nodes x)" b s] by (simp add: comp_def)
  show "graph_requests b (gd_output (graph_message is_dump s g x)) =
      map (\<lambda>(n, i). \<lparr>gr_node_name = GetName s n, gr_index = i, gr_graph = b\<rparr>) (g_output_nodes_info x)"
    using graph_requests_texts [of "g_output_nodes_info x" b s] writableD(4) [OF assms] by (simp add: graph_message_def)
qed

lemma nodes_read:
  fixes s :: "('m, 'z) desc_store_scheme"
  assumes inv: "graph_inv s" and w: "writable s x"
  shows "\<exists>u \<rho>. UnserializeGraphWithoutEdge (graph_message is_dump s g x) (s, new_imp) =
      (next_addr s, (u, copy_imp s x \<rho>), True) \<and> node_copy is_dump s x \<rho> u \<and>
    graphs u (next_addr s) = Some (with_nodes (map \<rho> (g_nodes x)) (new_graph (g_name x))) \<and>
    graph_attrs u (next_addr s) = graph_attrs s g"
proof -
  let ?d = "graph_message is_dump s g x" and ?b = "next_addr s" and ?ns = "g_nodes x"
  define t0 where "t0 = snd (alloc_graph ?d s)"
  note a = alloc_graph_effect [OF inv, of ?d, folded t0_def]
  note w' = writableD [OF w]
  have ni: "node_inv s" using inv by (simp add: graph_inv_def)
  define im0 where "im0 = new_imp\<lparr>graph_input_node_names := graph_requests ?b (gd_input ?d),
      graph_output_node_names := graph_requests ?b (gd_output ?d)\<rparr>"
  have g0: "graphs t0 ?b = Some (new_graph (g_name x))" by (simp add: a graph_message_def)
  obtain u ns' where u: "unserialize_nodes ?b (gd_op ?d) (t0, im0) = ((u, asked im0 ns' (gd_op ?d)), True)"
    "graph_inv u" "grown ?b s u" "graphs u = (graphs t0)(?b \<mapsto> with_nodes ns' (new_graph (g_name x)))"
    "list_all2 (made u) ns' (gd_op ?d)" "distinct ns'" "\<forall>n \<in> set ns'. Suc ?b \<le> n" "graph_attrs u = graph_attrs t0"
    using unserialize_nodes_effect [OF a(1,2) g0, of "gd_op ?d" im0] unfolding a(4) by blast
  have "length ns' = length ?ns" using list_all2_lengthD [OF u(5)] by (simp add: graph_message_def)
  then obtain \<rho> where \<rho>: "ns' = map \<rho> ?ns" using list_image [OF w'(3), of ns'] by auto
  have m: "made u (\<rho> n) (node_message is_dump s n)" if "n \<in> set ?ns" for n
    using u(5) that by (auto simp: \<rho> graph_message_def list_all2_map1 list_all2_map2 list_all2_same)
  have "node_copy is_dump s x \<rho> u"
    unfolding node_copy_def
  proof (intro conjI ballI)
    fix n assume n: "n \<in> set ?ns"
    show "copied s u \<rho> n" "GetName u (\<rho> n) = GetName s n"
      using closed_copied [of s ?ns n u \<rho> is_dump] w'(1) n m by (simp_all add: node_message_def)
    show "?b < \<rho> n" using u(7) n by (auto simp: \<rho>)
    show "op_descs u (\<rho> n) = UnserializeOpDesc (node_message is_dump s n)" using m [OF n] by (simp add: made_def)
  qed (use u in \<open>simp_all add: \<rho> distinct_map\<close>)
  moreover have "asked im0 ns' (gd_op ?d) = copy_imp s x \<rho>"
    using copy_requests_asked [OF ni w'(1), of im0 \<rho> is_dump] message_requests [OF w, of ?b is_dump g]
    by (simp add: \<rho> graph_message_def node_message_def [abs_def] im0_def new_imp_def copy_imp_def)
  moreover have "UnserializeGraphWithoutEdge ?d (s, new_imp) = (?b, (u, asked im0 ns' (gd_op ?d)), True)"
    using u(1) a(3) by (simp add: UnserializeGraphWithoutEdge_def t0_def im0_def new_imp_def case_prod_unfold)
  ultimately show ?thesis
    by (intro exI [of _ u] exI [of _ \<rho>]) (simp add: u(4,8) a \<rho>, simp add: graph_message_def)
qed

lemma copy_owner:
  assumes "node_inv s" "node_copy is_dump s x \<rho> u" "n \<in> set (g_nodes x)" "GetOwnerNode u a = Some (\<rho> n)"
  shows "next_addr s \<le> a"
proof (rule ccontr)
  assume "\<not> next_addr s \<le> a"
  then have "GetOwnerNode s a = Some (\<rho> n)"
    using assms(2,4) by (simp add: node_copy_def grown_def GetOwnerNode_def)
  then show False using assms(2,3) node_invD(4) [OF assms(1)] by (fastforce simp: fresh_above_def node_copy_def)
qed

text \<open>What linking makes of it.\<close>

definition linked_as :: "('m, 'z) desc_store_scheme \<Rightarrow> compute_graph \<Rightarrow> (nat \<Rightarrow> nat) \<Rightarrow> ('m, 'z) desc_store_scheme \<Rightarrow> bool" where
  "linked_as s x \<rho> v \<longleftrightarrow>
     (\<forall>n \<in> set (g_nodes x).
       (\<forall>i<length (in_data_anchors s n).
          GetPeerOutAnchor v (in_data_anchors v (\<rho> n) ! i) =
            map_option (out_image s v \<rho>) (GetPeerOutAnchor s (in_data_anchors s n ! i))) \<and>
       (\<forall>c. GetInControlAnchor s n = Some c \<longrightarrow>
          set (InControl_GetPeerOutControlAnchors v (the (GetInControlAnchor v (\<rho> n)))) =
            control_image s v \<rho> ` set (InControl_GetPeerOutControlAnchors s c))) \<and>
    (\<forall>a<next_addr s. nodes v a = nodes s a \<and> peers v a = peers s a)"

lemma nodes_linked:
  fixes s u :: "('m, 'z) desc_store_scheme"
  assumes inv: "graph_inv s" and w: "writable s x" and c: "node_copy is_dump s x \<rho> u"
  shows "\<exists>v. while_ok (link_request (node_map (copy_imp s x \<rho>))) (node_input_node_names (copy_imp s x \<rho>)) u = (v, True) \<and>
    linked_as s x \<rho> v \<and> wired u v \<and> op_descs v = op_descs u \<and> graph_attrs v = graph_attrs u"
proof -
  let ?ns = "g_nodes x"
  note w' = writableD [OF w]
  have ni: "node_inv s" and nu: "node_inv u" and g: "grown (next_addr s) s u" and inj: "inj_on \<rho> (set ?ns)"
    using inv c by (simp_all add: graph_inv_def node_copy_def)
  have cp: "\<forall>n \<in> set ?ns. copied s u \<rho> n" using c by (simp add: node_copy_def)
  have found: "\<forall>n \<in> set ?ns. map_of (node_map (copy_imp s x \<rho>)) (GetName s n) = Some (\<rho> n)"
    by (auto simp: copy_imp_def intro: node_map_names [OF w'(2)])
  have e: "\<forall>n \<in> set ?ns. \<forall>a. GetOwnerNode u a = Some (\<rho> n) \<longrightarrow> peers u a = []"
    using copy_owner [OF ni c] g by (simp add: grown_def)
  obtain v where v: "while_ok (link_request (node_map (copy_imp s x \<rho>))) (copy_requests s \<rho> ?ns) u = (v, True)"
    "wired u v" "op_descs v = op_descs u" "graph_attrs v = graph_attrs u"
    "\<forall>n \<in> set ?ns. \<forall>i<length (in_data_anchors s n). GetPeerOutAnchor v (in_data_anchors u (\<rho> n) ! i) =
         map_option (out_image s u \<rho>) (GetPeerOutAnchor s (in_data_anchors s n ! i))"
    "\<forall>n \<in> set ?ns. \<forall>c. GetInControlAnchor s n = Some c \<longrightarrow>
       set (InControl_GetPeerOutControlAnchors v (the (GetInControlAnchor u (\<rho> n)))) =
         control_image s u \<rho> ` set (InControl_GetPeerOutControlAnchors s c)"
    "\<forall>a. (\<forall>n \<in> set ?ns. GetOwnerNode u a \<noteq> Some (\<rho> n)) \<longrightarrow> peers v a = peers u a"
    using linked_copy [OF ni w'(1,3) found cp nu inj e] by blast
  note m = wired_members [OF v(2)]
  have i: "out_image s v \<rho> = out_image s u \<rho>" "control_image s v \<rho> = control_image s u \<rho>"
    by (simp_all add: fun_eq_iff out_image_def control_image_def m)
  have "peers v a = peers s a \<and> nodes v a = nodes s a" if a: "a < next_addr s" for a
  proof -
    have "GetOwnerNode u a \<noteq> Some (\<rho> n)" if "n \<in> set ?ns" for n using copy_owner [OF ni c that] a by fastforce
    then have "peers v a = peers u a" using v(7) by blast
    then show ?thesis using g a by (simp add: m grown_def peers_def)
  qed
  then have "linked_as s x \<rho> v" using v(5,6) by (simp add: linked_as_def i m)
  then show ?thesis using v(1-4) by (auto simp: copy_imp_def)
qed

lemma linked_as_upd_graph: "linked_as s x \<rho> (upd_graph g f v) = linked_as s x \<rho> v"
proof -
  have a: "anchors (upd_graph g f v) = anchors v" "nodes (upd_graph g f v) = nodes v" by (simp_all add: upd_graph_def)
  have m: "in_data_anchors (upd_graph g f v) = in_data_anchors v" "out_data_anchors (upd_graph g f v) = out_data_anchors v"
    "GetInControlAnchor (upd_graph g f v) = GetInControlAnchor v" "GetOutControlAnchor (upd_graph g f v) = GetOutControlAnchor v"
    by (simp_all add: fun_eq_iff in_data_anchors_def out_data_anchors_def GetInControlAnchor_def GetOutControlAnchor_def a)
  have l: "lock (upd_graph g f v) = lock v" "peers (upd_graph g f v) = peers v"
    by (simp_all add: fun_eq_iff lock_def peers_def a)
  have c: "DynamicAnchorCast (upd_graph g f v) = DynamicAnchorCast v"
    by (simp add: fun_eq_iff DynamicAnchorCast_def a cong: option.case_cong)
  have p: "peers (upd_graph g f v) = peers v" "GetPeerOutAnchor (upd_graph g f v) = GetPeerOutAnchor v"
    "InControl_GetPeerOutControlAnchors (upd_graph g f v) = InControl_GetPeerOutControlAnchors v"
    by (simp_all only: fun_eq_iff GetPeerOutAnchor_def InControl_GetPeerOutControlAnchors_def
        peers_of_class_def l c) simp_all
  show ?thesis
    unfolding linked_as_def out_image_def [abs_def] control_image_def [abs_def] m p a ..
qed

text \<open> C2: A graph of an invariant store, whose nodes have names of their own and are linked only to each
  other, can be written, and reading the message succeeds. It gives a new graph in an invariant
  store whose nodes, inputs and outputs are images of the old ones in the same order; every node
  has the name it had and the description that its message holds; the peer of every data input is
  the image of the peer it had, and the control predecessors are the images of the control
  predecessors it had. The nodes and links of the store before are untouched.
\<close>

theorem graph_round_trip:
  fixes s :: "('m, 'z) desc_store_scheme"
  assumes inv: "graph_inv s" and g: "graphs s g = Some x" and w: "writable s x"
  shows "\<exists>d h v \<rho> y. SerializeGraph is_dump s g = Some d \<and> UnserializeGraph d s = (h, v, True) \<and> graph_inv v \<and>
    inj_on \<rho> (set (g_nodes x)) \<and> graphs v h = Some y \<and> g_name y = g_name x \<and> graph_attrs v h = graph_attrs s g \<and>
    g_nodes y = map \<rho> (g_nodes x) \<and> g_input_nodes y = map \<rho> (g_input_nodes x) \<and>
    g_output_nodes_info y = map (\<lambda>(n, i). (\<rho> n, i)) (g_output_nodes_info x) \<and>
    (\<forall>n \<in> set (g_nodes x). GetName v (\<rho> n) = GetName s n \<and>
       op_descs v (\<rho> n) = UnserializeOpDesc (node_message is_dump s n) \<and>
       length (in_data_anchors v (\<rho> n)) = length (in_data_anchors s n)) \<and>
    linked_as s x \<rho> v"
proof -
  let ?b = "next_addr s" and ?ns = "g_nodes x"
  note w' = writableD [OF w]
  obtain u \<rho> where u: "UnserializeGraphWithoutEdge (graph_message is_dump s g x) (s, new_imp) = (?b, (u, copy_imp s x \<rho>), True)"
    "node_copy is_dump s x \<rho> u" "graphs u ?b = Some (with_nodes (map \<rho> ?ns) (new_graph (g_name x)))"
    "graph_attrs u ?b = graph_attrs s g"
    using nodes_read [OF inv w, of is_dump g] by blast
  let ?im = "copy_imp s x \<rho>"
  obtain v1 where v1: "while_ok (link_request (node_map ?im)) (node_input_node_names ?im) u = (v1, True)"
    "linked_as s x \<rho> v1" "wired u v1" "op_descs v1 = op_descs u" "graph_attrs v1 = graph_attrs u"
    using nodes_linked [OF inv w u(2)] by blast
  note m = wired_members [OF v1(3)]
  have gv1: "graphs v1 = graphs u" by (rule same_frame_graphs) (use v1(3) in \<open>simp add: wired_def\<close>)
  have found: "\<forall>n \<in> set ?ns. map_of (node_map ?im) (GetName s n) = Some (\<rho> n)"
    by (auto simp: copy_imp_def intro: node_map_names [OF w'(2)])
  let ?f1 = "g_input_nodes_update (\<lambda>ns. ns @ map \<rho> (g_input_nodes x))"
  let ?f2 = "g_output_nodes_info_update (\<lambda>is. is @ map (\<lambda>(n, i). (\<rho> n, i)) (g_output_nodes_info x))"
  let ?v2 = "upd_graph ?b ?f1 v1" and ?v = "upd_graph ?b ?f2 (upd_graph ?b ?f1 v1)"
  have 2: "while_ok (input_request (node_map ?im)) (graph_input_node_names ?im) v1 = (?v2, True)"
    using input_requests_effect [of v1 ?b _ "g_input_nodes x" "node_map ?im" "GetName s" \<rho> 0] u(3) w'(5) found
    by (fastforce simp: gv1 copy_imp_def with_nodes_def new_graph_def)
  have y: "graphs ?v2 ?b = Some (?f1 (with_nodes (map \<rho> ?ns) (new_graph (g_name x))))"
    using u(3) by (simp add: gv1 upd_graph_def)
  have d: "GetOpDesc ?v2 = GetOpDesc u" "GetOpDesc ?v = GetOpDesc u"
    by (simp_all add: fun_eq_iff GetOpDesc_def upd_graph_def m)
  have names: "GetName ?v2 (\<rho> n) = GetName s n" "GetName ?v (\<rho> n) = GetName s n" "GetOpDesc ?v2 (\<rho> n) \<noteq> None"
    if "n \<in> set ?ns" for n
  proof -
    have "GetName u (\<rho> n) = GetName s n" using u(2) that by (simp add: node_copy_def)
    then show "GetName ?v2 (\<rho> n) = GetName s n" "GetName ?v (\<rho> n) = GetName s n" by (simp_all add: GetName_def d)
    have "GetInControlAnchor u (\<rho> n) \<noteq> None" using u(2) that by (simp add: node_copy_def copied_def)
    then have "nodes u (\<rho> n) \<noteq> None" by (auto simp: GetInControlAnchor_def split: option.splits)
    then have "node_wf u (\<rho> n)"
      using u(2) by (simp add: node_copy_def graph_inv_def node_inv_def nodes_wf_def)
    then have "GetOpDesc u (\<rho> n) \<noteq> None" by (rule node_wfD(7))
    then show "GetOpDesc ?v2 (\<rho> n) \<noteq> None" by (simp add: d)
  qed
  have eq: "map (\<lambda>(n, i). (GetName ?v2 (\<rho> n), i)) (g_output_nodes_info x) =
      map (\<lambda>(n, i). (GetName s n, i)) (g_output_nodes_info x)"
    using w'(4) names(1) by (intro map_cong) auto
  have dist: "distinct (map (\<lambda>(n, i). (GetName ?v2 (\<rho> n), i)) (g_output_nodes_info x))"
    unfolding eq by (rule outputs_named_apart [OF w])
  have 3: "while_ok (output_request (node_map ?im)) (graph_output_node_names ?im) ?v2 = (?v, True)"
    using output_requests_effect [OF y, of "g_output_nodes_info x" "node_map ?im" "GetName s" \<rho>] w'(4) found names(3) dist
    by (fastforce simp: copy_imp_def with_nodes_def new_graph_def)
  have "UnserializeGraph (graph_message is_dump s g x) s = (?b, ?v, True)"
    by (simp add: UnserializeGraph_def u(1) HandleNodeNameRef_def v1(1) 2 3 then_ok_def)
  moreover have "graph_inv ?v"
  proof -
    have "graph_inv v1" using graph_inv_wired [of u v1] u(2) v1(3) by (simp add: node_copy_def)
    then show ?thesis by (intro graph_inv_tidy [OF graph_inv_tidy [OF _ tidy_graph_attrs(1)] tidy_graph_attrs(2)])
  qed
  moreover have "graphs ?v ?b = Some (?f2 (?f1 (with_nodes (map \<rho> ?ns) (new_graph (g_name x)))))"
    using u(3) by (simp add: gv1 upd_graph_def)
  moreover have "linked_as s x \<rho> ?v" by (simp add: linked_as_upd_graph v1(2))
  moreover have "op_descs ?v = op_descs u" "graph_attrs ?v = graph_attrs u" "in_data_anchors ?v = in_data_anchors u"
    by (simp_all add: upd_graph_def v1(4,5) fun_eq_iff in_data_anchors_def m)
  ultimately show ?thesis
    using u(2,4) names(2) graph_written [OF g w, of is_dump]
    by (intro exI [of _ "graph_message is_dump s g x"] exI [of _ ?b] exI [of _ ?v] exI [of _ \<rho>]
        exI [of _ "?f2 (?f1 (with_nodes (map \<rho> ?ns) (new_graph (g_name x))))"])
      (simp add: node_copy_def copied_def with_nodes_def new_graph_def)
qed

text \<open>A data node that feeds an operator, whose description names a subgraph; all at small addresses.\<close>

definition small_anchors :: "nat \<Rightarrow> anchor option" where
  "small_anchors =
     [0 \<mapsto> linked_anchor OutDataAnchor 6 0 [3], 1 \<mapsto> linked_anchor InControlAnchor 6 (-1) [],
      2 \<mapsto> linked_anchor OutControlAnchor 6 (-1) [], 3 \<mapsto> linked_anchor InDataAnchor 7 0 [0],
      4 \<mapsto> linked_anchor InControlAnchor 7 (-1) [], 5 \<mapsto> linked_anchor OutControlAnchor 7 (-1) []]"

definition small_desc :: "nat \<Rightarrow> string ge_op_desc" where
  "small_desc n =
     (if n = 6 then fst (AddOutputDesc ''y'' GeTensorDesc_default (OpDesc_of ''d'' ''Data''))
      else fst (SetSubgraphInstanceName 0 ''sub'' (fst (AddSubgraphName ''body''
        (fst (AddInputDesc ''x'' GeTensorDesc_default (OpDesc_of ''o'' ''Call'')))))))"

definition small_node :: "nat \<Rightarrow> nat list \<Rightarrow> nat list \<Rightarrow> nat \<Rightarrow> nat \<Rightarrow> node" where
  "small_node n ins outs ic oc =
     (new_node (Some (brief_desc (small_desc n))) (Some 8))
       \<lparr>n_in_data := ins, n_out_data := outs, n_in_control := Some ic, n_out_control := Some oc, n_has_init := True\<rparr>"

definition small_store :: "string desc_store" where
  "small_store =
     \<lparr>anchors = small_anchors, nodes = [6 \<mapsto> small_node 6 [] [0] 1 2, 7 \<mapsto> small_node 7 [3] [] 4 5], next_addr = 10,
      graphs = [8 \<mapsto> (new_graph ''g'')\<lparr>g_nodes := [6, 7], g_direct_nodes_size := 2,
                   g_input_nodes := [6], g_output_nodes_info := [(6, 0)]\<rparr>, 9 \<mapsto> new_graph ''sub''],
      op_descs = small_desc, graph_attrs = (\<lambda>_. [])\<rparr>"

lemmas small_defs = small_store_def small_anchors_def linked_anchor_def new_anchor_def small_node_def new_node_def

lemma small_peers [simp]: "peers small_store a = (if a = 0 then [3] else if a = 3 then [0] else [])"
  by (simp add: peers_def small_defs)

lemma small_class [simp]:
  "class_of small_store a =
     (if a = 0 then Some OutDataAnchor else if a = 3 then Some InDataAnchor
      else if a = 1 \<or> a = 4 then Some InControlAnchor
      else if a = 2 \<or> a = 5 then Some OutControlAnchor else None)"
  by (simp add: class_of_def small_defs)

lemma small_owner [simp]:
  "GetOwnerNode small_store a = (if a \<le> 2 then Some 6 else if a \<le> 5 then Some 7 else None)"
  by (auto simp: GetOwnerNode_def small_defs)

lemma small_members [simp]:
  "in_data_anchors small_store n = (if n = 7 then [3] else [])"
  "out_data_anchors small_store n = (if n = 6 then [0] else [])"
  "GetInControlAnchor small_store n = (if n = 6 then Some 1 else if n = 7 then Some 4 else None)"
  "GetOutControlAnchor small_store n = (if n = 6 then Some 2 else if n = 7 then Some 5 else None)"
  "GetOpDesc small_store n = (if n = 6 \<or> n = 7 then Some (brief_desc (small_desc n)) else None)"
  "nodes small_store n = None \<longleftrightarrow> n \<noteq> 6 \<and> n \<noteq> 7"
  "op_descs small_store = small_desc"
  by (simp_all add: in_data_anchors_def out_data_anchors_def GetInControlAnchor_def
      GetOutControlAnchor_def GetOpDesc_def small_defs)

lemma small_inv: "graph_inv small_store"
proof -
  have "\<forall>a c. class_of small_store a = Some c \<longrightarrow> is_in c \<or> is_out c"
    by (simp add: is_in_def is_out_def)
  moreover have "\<forall>a b k. key_of small_store a = Some k \<longrightarrow> key_of small_store b = Some k \<longrightarrow> a = b"
    by (auto simp: key_of_def small_defs anchor_key_def split: if_splits)
  ultimately have "ident_wf small_store" unfolding ident_wf_def by blast
  then have anchors: "anchor_inv small_store"
    by (auto simp: anchor_inv_def single_source_def link_inv_def joinable_def is_in_def is_out_def)
  have "node_wf small_store 6" "node_wf small_store 7"
    unfolding node_wf_def owns_def by (auto split: if_splits)
  then have wf: "nodes_wf small_store" by (auto simp: nodes_wf_def)
  have "GetIdx small_store 0 = 0" "GetIdx small_store 3 = 0" by (simp_all add: GetIdx_def small_defs)
  then have placed: "placed small_store" by (simp add: placed_def)
  have nxt: "next_addr small_store = 10" by (simp add: small_store_def)
  have "anchors small_store a = None \<and> nodes small_store a = None" if "10 \<le> a" for a
    using that by (simp add: small_store_def small_anchors_def)
  moreover have "n < 10" if "GetOwnerNode small_store a = Some n" for a n
    using that by (simp split: if_splits)
  ultimately have fresh: "fresh_above small_store" unfolding fresh_above_def nxt by blast
  have "counted small_store" by (simp add: counted_def small_store_def new_graph_def)
  with anchors wf placed fresh show ?thesis by (simp add: graph_inv_def node_inv_def)
qed

lemma small_desc_eq:
  "small_desc 6 = OpDesc_default\<lparr>ge_op_desc.op_name := ''d'', ge_op_desc.op_type := ''Data'', outputs_desc := [GeTensorDesc_default],
     output_name_idx := [(''y'', 0)], register_output_name := [''y'']\<rparr>"
  "small_desc 7 = OpDesc_default\<lparr>ge_op_desc.op_name := ''o'', ge_op_desc.op_type := ''Call'', inputs_desc := [GeTensorDesc_default],
     input_name_idx := [(''x'', 0)], register_input_name := [''x''],
     subgraph_instance_names := [''sub''], subgraph_names_to_index := [(''body'', 0)]\<rparr>"
  by (simp_all add: small_desc_def sample_defs add_once_def)

lemma small_names [simp]:
  "GetName small_store 6 = ''d''" "GetName small_store 7 = ''o''"
  "subgraph_names small_store 6 = []" "subgraph_names small_store 7 = [''sub'']"
  by (simp_all add: GetName_def subgraph_names_def brief_desc_def OpDesc_GetName_def small_desc_eq OpDesc_default_def)

lemma small_writable:
  "writable small_store ((new_graph ''g'')\<lparr>g_nodes := [6, 7], g_direct_nodes_size := 2,
     g_input_nodes := [6], g_output_nodes_info := [(6, 0)]\<rparr>)"
proof -
  have "closed_node small_store [6, 7] 6" "closed_node small_store [6, 7] 7"
    by (simp_all add: closed_node_def small_desc_eq OpDesc_GetName_def GetAllInputsSize_def GetOutputsSize_def
        OpDesc_default_def GetPeerOutAnchor_def InControl_GetPeerOutControlAnchors_def peers_of_class_def
        DynamicAnchorCast_lock)
  then show ?thesis by (simp add: writable_def)
qed

theorem graph_round_trip_witness:
  "\<exists>d h v. SerializeGraph False small_store 8 = Some d \<and> UnserializeGraph d small_store = (h, v, True) \<and> graph_inv v"
  using graph_round_trip [OF small_inv _ small_writable, of 8 False] by (simp add: small_store_def) blast

end
