(* ===== verification/GraphDef_Models.thy ===== *)
theory GraphDef_Models
  imports GraphDef_Properties
begin

text \<open>
  Rebuilding the ownership of subgraphs when a model is read: the loop returns when no graph is
  below itself, it fails exactly when a name is missing, and afterwards every named subgraph
  has a parent that names it and is registered in the main graph.
\<close>

section \<open>What the loop keeps\<close>

definition kept :: "('z) graph_store_scheme \<Rightarrow> ('z) graph_store_scheme \<Rightarrow> bool" where
  "kept s t \<longleftrightarrow> nodes t = nodes s \<and>
     (\<forall>g. map_option g_nodes (graphs t g) = map_option g_nodes (graphs s g) \<and>
          map_option g_name (graphs t g) = map_option g_name (graphs s g))"

lemma kept_refl [simp]: "kept s s"
  by (simp add: kept_def)

lemma kept_trans: "kept s t \<Longrightarrow> kept t u \<Longrightarrow> kept s u"
  by (simp add: kept_def)

lemma kept_upd: "(\<And>x. g_nodes (f x) = g_nodes x \<and> g_name (f x) = g_name x) \<Longrightarrow> kept s (upd_graph g f s)"
  by (simp add: kept_def upd_graph_def option.map_comp comp_def)

lemma keptD:
  assumes "kept s t"
  shows "graph_nodes t = graph_nodes s" "subgraph_names t = subgraph_names s" "graph_name t = graph_name s"
    "graphs t g = None \<longleftrightarrow> graphs s g = None" "GetOwnerComputeGraph t = GetOwnerComputeGraph s"
proof -
  have n: "nodes t = nodes s" and g: "map_option g_nodes (graphs t g) = map_option g_nodes (graphs s g)"
      "map_option g_name (graphs t g) = map_option g_name (graphs s g)" for g
    using assms by (simp_all add: kept_def)
  show "graph_nodes t = graph_nodes s"
  proof
    show "graph_nodes t h = graph_nodes s h" for h
      using g(1) [of h] by (cases "graphs s h"; cases "graphs t h") (auto simp: graph_nodes_def)
  qed
  show "graph_name t = graph_name s"
  proof
    show "graph_name t h = graph_name s h" for h
      using g(2) [of h] by (cases "graphs s h"; cases "graphs t h") (auto simp: graph_name_def)
  qed
  show "graphs t g = None \<longleftrightarrow> graphs s g = None" using g(1) [of g] by (cases "graphs s g"; cases "graphs t g") auto
  show "subgraph_names t = subgraph_names s" "GetOwnerComputeGraph t = GetOwnerComputeGraph s"
    by (simp_all add: fun_eq_iff subgraph_names_def GetOpDesc_def GetOwnerComputeGraph_def n)
qed

lemma kept_AddSubgraph: "kept s (fst (AddSubgraph g name p s))"
  by (auto simp: AddSubgraph_def intro!: kept_upd split: option.split)

lemma kept_parents: "kept s (SetParentNode h n (SetParentGraph h g s))"
  by (rule kept_trans [of _ "SetParentGraph h g s"]) (auto simp: SetParentGraph_def SetParentNode_def intro!: kept_upd)

section \<open>Owning one subgraph\<close>

text \<open>A graph is owned when its parent is a node of a graph of the model that names it, and the main
  graph finds it by its name.\<close>

definition names_child :: "('z) graph_store_scheme \<Rightarrow> (string \<times> nat) list \<Rightarrow> nat \<Rightarrow> nat \<Rightarrow> nat \<Rightarrow> bool" where
  "names_child s subs g n h \<longleftrightarrow> n \<in> set (graph_nodes s g) \<and> (\<exists>name \<in> set (subgraph_names s n). map_of subs name = Some h)"

definition owned :: "nat \<Rightarrow> (string \<times> nat) list \<Rightarrow> nat set \<Rightarrow> ('z) graph_store_scheme \<Rightarrow> nat \<Rightarrow> bool" where
  "owned root subs R t h \<longleftrightarrow>
     (\<exists>g \<in> R. \<exists>n. names_child t subs g n h \<and> GetParentGraph t h = Some g \<and> GetParentNode t h = Some n) \<and>
     names_to_subgraph t root (graph_name t h) = Some h"

definition owners_ok :: "('z) graph_store_scheme \<Rightarrow> nat \<Rightarrow> (string \<times> nat) list \<Rightarrow> bool" where
  "owners_ok s root subs \<longleftrightarrow> graphs s root \<noteq> None \<and>
     (\<forall>name h. map_of subs name = Some h \<longrightarrow> graphs s h \<noteq> None \<and> graph_name s h = name) \<and>
     (\<forall>g n. n \<in> set (graph_nodes s g) \<longrightarrow> GetOwnerComputeGraph s n = Some g) \<and>
     (\<forall>name h. names_to_subgraph s root name = Some h \<longrightarrow> map_of subs name = Some h)"

lemma names_child_kept: "kept s t \<Longrightarrow> names_child t subs = names_child s subs"
  using keptD [of s t] by (simp add: names_child_def fun_eq_iff)

lemma names_childD:
  assumes "owners_ok s root subs" "names_child s subs g n h"
  shows "graphs s root \<noteq> None" "graphs s h \<noteq> None" "GetOwnerComputeGraph s n = Some g"
    "map_of subs (graph_name s h) = Some h"
  using assms by (auto simp: owners_ok_def names_child_def)

definition adopt :: "nat \<Rightarrow> nat \<Rightarrow> nat \<Rightarrow> nat \<Rightarrow> ('z) graph_store_scheme \<Rightarrow> ('z) graph_store_scheme" where
  "adopt root g n h s =
     (let s1 = SetParentNode h (Some n) (SetParentGraph h (Some g) s)
      in fst (AddSubgraph root (graph_name s1 h) (Some h) s1))"

lemma kept_adopt: "kept s (adopt root g n h s)"
  unfolding adopt_def Let_def by (rule kept_trans [OF kept_parents kept_AddSubgraph])

lemma adopt_parents:
  assumes "graphs s h \<noteq> None"
  shows "GetParentGraph (adopt root g n h s) k = (if k = h then Some g else GetParentGraph s k)"
    "GetParentNode (adopt root g n h s) k = (if k = h then Some n else GetParentNode s k)"
  using assms
  by (auto simp: adopt_def Let_def AddSubgraph_def SetParentNode_def SetParentGraph_def GetParentGraph_def
      GetParentNode_def upd_graph_def split: option.split)

lemma adopt_names:
  assumes "graphs s root \<noteq> None" "graphs s h \<noteq> None" "GetOwnerComputeGraph s n = Some g"
  shows "names_to_subgraph (adopt root g n h s) root name =
    (if name = graph_name s h \<and> names_to_subgraph s root name = None then Some h else names_to_subgraph s root name)"
proof -
  let ?s = "SetParentNode h (Some n) (SetParentGraph h (Some g) s)"
  note k = keptD [OF kept_parents [of s h "Some n" "Some g"]]
  have p: "GetParentGraph ?s h = Some g" "GetParentNode ?s h = Some n"
    using assms(2) by (auto simp: SetParentNode_def SetParentGraph_def GetParentGraph_def GetParentNode_def upd_graph_def)
  have m: "names_to_subgraph ?s = names_to_subgraph s"
    by (auto simp: fun_eq_iff names_to_subgraph_def SetParentNode_def SetParentGraph_def upd_graph_def split: option.split)
  have r: "graphs ?s root \<noteq> None" using assms(1) k(4) by simp
  have u: "names_to_subgraph (upd_graph root (\<lambda>x. x\<lparr>g_sub_graph := g_sub_graph x @ [h],
      g_names_to_subgraph := (g_names_to_subgraph x)(nm \<mapsto> h)\<rparr>) ?s) root = (names_to_subgraph ?s root)(nm \<mapsto> h)" for nm
    using r by (auto simp: names_to_subgraph_def upd_graph_def)
  have "names_to_subgraph (fst (AddSubgraph root nm (Some h) ?s)) root name =
      (if name = nm \<and> names_to_subgraph s root nm = None then Some h else names_to_subgraph s root name)" for nm
    using assms(3) by (simp add: AddSubgraph_def p k(5) u) (simp add: m)
  then show ?thesis by (auto simp: adopt_def Let_def k(3))
qed

lemma owners_ok_adopt:
  assumes "owners_ok s root subs" "names_child s subs g n h"
  shows "owners_ok (adopt root g n h s) root subs"
proof -
  note h = names_childD [OF assms]
  have "\<And>name k. names_to_subgraph s root name = Some k \<Longrightarrow> map_of subs name = Some k"
    using assms(1) unfolding owners_ok_def by blast
  then have "names_to_subgraph (adopt root g n h s) root name = Some k \<Longrightarrow> map_of subs name = Some k" for name k
    using h(4) by (auto simp: adopt_names [OF h(1-3)] split: if_split_asm)
  then have 1: "\<forall>name k. names_to_subgraph (adopt root g n h s) root name = Some k \<longrightarrow> map_of subs name = Some k" by blast
  have 2: "graphs s root \<noteq> None"
    and 3: "\<forall>name h. map_of subs name = Some h \<longrightarrow> graphs s h \<noteq> None \<and> graph_name s h = name"
    and 4: "\<forall>g n. n \<in> set (graph_nodes s g) \<longrightarrow> GetOwnerComputeGraph s n = Some g"
    using assms(1) unfolding owners_ok_def by blast+
  show ?thesis
    unfolding owners_ok_def keptD [OF kept_adopt [of s root g n h]] by (intro conjI 1 2 3 4)
qed

lemma adopt_owned:
  assumes "owners_ok s root subs" "g \<in> R" "names_child s subs g n h"
  shows "owned root subs R (adopt root g n h s) h" "owned root subs R s k \<Longrightarrow> owned root subs R (adopt root g n h s) k"
proof -
  let ?t = "adopt root g n h s"
  note k = keptD [OF kept_adopt [of s root g n h]] names_child_kept [OF kept_adopt [of s root g n h]]
  note h = names_childD [OF assms(1,3)]
  have "\<And>name k. names_to_subgraph s root name = Some k \<Longrightarrow> map_of subs name = Some k"
    using assms(1) unfolding owners_ok_def by blast
  from this [of "graph_name s h"] h(4) have "names_to_subgraph s root (graph_name s h) \<in> {None, Some h}"
    by (cases "names_to_subgraph s root (graph_name s h)") simp_all
  then show 1: "owned root subs R ?t h"
    using assms(2,3) adopt_parents [OF h(2), of root g n] adopt_names [OF h(1-3)] by (auto simp: owned_def k)
  show "owned root subs R s k \<Longrightarrow> owned root subs R ?t k"
    using 1 adopt_parents [OF h(2), of root g n k] adopt_names [OF h(1-3)]
    by (cases "k = h") (auto simp: owned_def k)
qed

section \<open>Owning the subgraphs of a graph\<close>

definition named_graphs :: "('z) graph_store_scheme \<Rightarrow> (string \<times> nat) list \<Rightarrow> nat \<Rightarrow> nat list" where
  "named_graphs s subs n = map (\<lambda>name. the (map_of subs name)) (subgraph_names s n)"

definition all_found :: "('z) graph_store_scheme \<Rightarrow> (string \<times> nat) list \<Rightarrow> nat \<Rightarrow> bool" where
  "all_found s subs n \<longleftrightarrow> (\<forall>name \<in> set (subgraph_names s n). map_of subs name \<noteq> None)"

definition owns_more :: "nat \<Rightarrow> (string \<times> nat) list \<Rightarrow> nat set \<Rightarrow> ('z) graph_store_scheme \<Rightarrow> ('z) graph_store_scheme \<Rightarrow> bool" where
  "owns_more root subs R s t \<longleftrightarrow> kept s t \<and> owners_ok t root subs \<and> (\<forall>k. owned root subs R s k \<longrightarrow> owned root subs R t k)"

lemma owns_more_trans: "owns_more root subs R s t \<Longrightarrow> owns_more root subs R t u \<Longrightarrow> owns_more root subs R s u"
  by (auto simp: owns_more_def elim: kept_trans)

lemma owns_more_adopt:
  "owners_ok s root subs \<Longrightarrow> g \<in> R \<Longrightarrow> names_child s subs g n h \<Longrightarrow> owns_more root subs R s (adopt root g n h s)"
  by (simp add: owns_more_def kept_adopt owners_ok_adopt adopt_owned(2))

lemma own_names_effect:
  assumes "owners_ok s root subs" "g \<in> R" "n \<in> set (graph_nodes s g)" "set names \<subseteq> set (subgraph_names s n)"
  shows "\<exists>t q' ok. own_names root subs g n names (s, q) = ((t, q'), ok) \<and> owns_more root subs R s t \<and>
    (ok \<longleftrightarrow> (\<forall>name \<in> set names. map_of subs name \<noteq> None)) \<and>
    (ok \<longrightarrow> q' = q @ map (\<lambda>name. the (map_of subs name)) names \<and>
      (\<forall>name \<in> set names. owned root subs R t (the (map_of subs name))))"
  using assms
proof (induction names arbitrary: s q)
  case Nil
  then show ?case by (auto simp: owns_more_def)
next
  case (Cons name names)
  show ?case
  proof (cases "map_of subs name")
    case None
    then show ?thesis using Cons.prems by (auto simp: owns_more_def)
  next
    case (Some h)
    let ?s = "adopt root g n h s"
    have c: "names_child s subs g n h" using Cons.prems Some by (auto simp: names_child_def)
    note k = keptD [OF kept_adopt [of s root g n h]]
    note o = owns_more_adopt [OF Cons.prems(1,2) c]
    have e: "own_names root subs g n (name # names) (s, q) = own_names root subs g n names (?s, q @ [h])"
      by (simp add: Some adopt_def Let_def)
    have "owners_ok ?s root subs" "n \<in> set (graph_nodes ?s g)" "set names \<subseteq> set (subgraph_names ?s n)"
      using Cons.prems o by (simp_all add: k owns_more_def)
    from Cons.IH [OF this(1) Cons.prems(2) this(2,3), of "q @ [h]"] obtain t q' ok where
      t: "own_names root subs g n names (?s, q @ [h]) = ((t, q'), ok)" "owns_more root subs R ?s t"
        "ok \<longleftrightarrow> (\<forall>name \<in> set names. map_of subs name \<noteq> None)"
        "ok \<longrightarrow> q' = (q @ [h]) @ map (\<lambda>name. the (map_of subs name)) names \<and>
          (\<forall>name \<in> set names. owned root subs R t (the (map_of subs name)))"
      by blast
    have "owned root subs R t h" using t(2) adopt_owned(1) [OF Cons.prems(1,2) c] by (simp add: owns_more_def)
    then show ?thesis unfolding e using t(1,3,4) owns_more_trans [OF o t(2)] Some by auto
  qed
qed

lemma own_nodes_effect:
  assumes "owners_ok s root subs" "g \<in> R" "set ns \<subseteq> set (graph_nodes s g)"
  shows "\<exists>t q' ok. own_nodes root subs g ns (s, q) = ((t, q'), ok) \<and> owns_more root subs R s t \<and>
    (ok \<longleftrightarrow> (\<forall>n \<in> set ns. all_found s subs n)) \<and>
    (ok \<longrightarrow> q' = q @ concat (map (named_graphs s subs) ns) \<and>
      (\<forall>n \<in> set ns. \<forall>h \<in> set (named_graphs s subs n). owned root subs R t h))"
  using assms
proof (induction ns arbitrary: s q)
  case Nil
  then show ?case by (auto simp: owns_more_def)
next
  case (Cons n ns)
  have n: "n \<in> set (graph_nodes s g)" using Cons.prems(3) by simp
  have "\<exists>t q' ok. own_names root subs g n (subgraph_names s n) (s, q) = ((t, q'), ok) \<and> owns_more root subs R s t \<and>
      (ok \<longleftrightarrow> all_found s subs n) \<and>
      (ok \<longrightarrow> q' = q @ named_graphs s subs n \<and> (\<forall>h \<in> set (named_graphs s subs n). owned root subs R t h))"
    using own_names_effect [OF Cons.prems(1,2) n subset_refl, of q] by (simp only: all_found_def named_graphs_def set_map ball_simps)
  then obtain s1 q1 ok1 where
    1: "own_names root subs g n (subgraph_names s n) (s, q) = ((s1, q1), ok1)" "owns_more root subs R s s1"
      "ok1 \<longleftrightarrow> all_found s subs n"
      "ok1 \<longrightarrow> q1 = q @ named_graphs s subs n \<and> (\<forall>h \<in> set (named_graphs s subs n). owned root subs R s1 h)"
    by blast
  note k = keptD [of s s1]
  have o1: "owners_ok s1 root subs" "kept s s1" using 1(2) by (simp_all add: owns_more_def)
  have e: "named_graphs s1 subs = named_graphs s subs" "all_found s1 subs = all_found s subs"
    by (simp_all add: fun_eq_iff named_graphs_def all_found_def k(2) [OF o1(2)])
  have "set ns \<subseteq> set (graph_nodes s1 g)" using Cons.prems(3) by (simp add: k(1) [OF o1(2)])
  from Cons.IH [OF o1(1) Cons.prems(2) this, of q1] obtain t q' ok where
    2: "own_nodes root subs g ns (s1, q1) = ((t, q'), ok)" "owns_more root subs R s1 t"
      "ok \<longleftrightarrow> (\<forall>n \<in> set ns. all_found s subs n)"
      "ok \<longrightarrow> q' = q1 @ concat (map (named_graphs s subs) ns) \<and>
        (\<forall>n \<in> set ns. \<forall>h \<in> set (named_graphs s subs n). owned root subs R t h)"
    unfolding e by blast
  show ?case
  proof (cases ok1)
    case True
    have "\<forall>h \<in> set (named_graphs s subs n). owned root subs R t h"
      using True 1(4) 2(2) by (simp add: owns_more_def)
    with True 1 2 owns_more_trans [OF 1(2) 2(2)] show ?thesis by (simp add: then_ok_def)
  next
    case False
    with 1 show ?thesis by (auto simp: then_ok_def)
  qed
qed

section \<open>The loop\<close>

definition below :: "('z) graph_store_scheme \<Rightarrow> (string \<times> nat) list \<Rightarrow> nat \<Rightarrow> nat set" where
  "below s subs g = {h. (g, h) \<in> {(g, h). \<exists>n. names_child s subs g n h}\<^sup>*}"

definition no_missing :: "('z) graph_store_scheme \<Rightarrow> (string \<times> nat) list \<Rightarrow> nat \<Rightarrow> bool" where
  "no_missing s subs g \<longleftrightarrow> (\<forall>n \<in> set (graph_nodes s g). all_found s subs n)"

definition child_graphs :: "('z) graph_store_scheme \<Rightarrow> (string \<times> nat) list \<Rightarrow> nat \<Rightarrow> nat list" where
  "child_graphs s subs g = concat (map (named_graphs s subs) (graph_nodes s g))"

lemma loop_kept:
  assumes "kept s t"
  shows "below t = below s" "no_missing t = no_missing s" "child_graphs t = child_graphs s" "names_child t = names_child s"
proof -
  have e: "named_graphs t = named_graphs s" "all_found t = all_found s" and c: "names_child t = names_child s"
    by (simp_all add: fun_eq_iff named_graphs_def all_found_def names_child_def keptD(1,2) [OF assms])
  show "below t = below s" "no_missing t = no_missing s" "child_graphs t = child_graphs s" "names_child t = names_child s"
    by (simp_all add: fun_eq_iff below_def no_missing_def child_graphs_def e c keptD(1,2) [OF assms])
qed

lemma child_graphs_iff:
  assumes "no_missing s subs g"
  shows "h \<in> set (child_graphs s subs g) \<longleftrightarrow> (\<exists>n. names_child s subs g n h)"
  using assms by (force simp: child_graphs_def named_graphs_def names_child_def no_missing_def all_found_def)

lemma below_step: "h \<in> below s subs g \<Longrightarrow> names_child s subs h n k \<Longrightarrow> k \<in> below s subs g"
  by (auto simp: below_def intro: rtrancl_into_rtrancl)

lemma below_self: "g \<in> below s subs g"
  by (simp add: below_def)

lemma below_cases:
  assumes "h \<in> below s subs g"
  obtains "h = g" | n k where "names_child s subs g n k" "h \<in> below s subs k"
  using assms unfolding below_def mem_Collect_eq
  by (rule converse_rtranclE) (simp_all, blast)

lemma below_above: "names_child s subs g n h \<Longrightarrow> k \<in> below s subs h \<Longrightarrow> k \<in> below s subs g"
  unfolding below_def mem_Collect_eq by (rule converse_rtrancl_into_rtrancl) auto

lemma below_unfold:
  "below s subs g = insert g (\<Union>h \<in> {h. \<exists>n. names_child s subs g n h}. below s subs h)"
  by (auto intro: below_self below_above elim: below_cases)

lemma rebuild_loop_effect:
  assumes "owners_ok s root subs" "\<And>g n h. names_child s subs g n h \<Longrightarrow> rank h < (rank g :: nat)"
    "set q \<subseteq> R" "\<And>g n h. g \<in> R \<Longrightarrow> names_child s subs g n h \<Longrightarrow> h \<in> R"
  shows "\<exists>t ok. rebuild_loop root subs q s = Some (t, ok) \<and> owns_more root subs R s t \<and>
    (ok \<longleftrightarrow> (\<forall>g \<in> \<Union> (below s subs ` set q). no_missing s subs g)) \<and>
    (ok \<longrightarrow> (\<forall>g \<in> \<Union> (below s subs ` set q). \<forall>n h. names_child s subs g n h \<longrightarrow> owned root subs R t h))"
  using assms
proof (induction q arbitrary: s rule: wf_induct_rule [OF wf_inv_image [OF wf_mult [OF wf_less_than],
      of "\<lambda>q. image_mset rank (mset q)"]])
  case (1 q)
  show ?case
  proof (cases q)
    case Nil
    then show ?thesis using 1(2) by (subst rebuild_loop.simps) (auto simp: owns_more_def)
  next
    case (Cons g rest)
    have g: "g \<in> R" using 1(4) Cons by simp
    from own_nodes_effect [OF 1(2) g subset_refl, of rest] obtain s1 q1 ok1 where
      s1: "own_nodes root subs g (graph_nodes s g) (s, rest) = ((s1, q1), ok1)" "owns_more root subs R s s1"
        "ok1 \<longleftrightarrow> no_missing s subs g"
        "ok1 \<longrightarrow> q1 = rest @ child_graphs s subs g \<and> (\<forall>h \<in> set (child_graphs s subs g). owned root subs R s1 h)"
      by (simp add: no_missing_def child_graphs_def) blast
    have l: "rebuild_loop root subs (g # rest) s = (if ok1 then rebuild_loop root subs q1 s1 else Some (s1, False))"
      using s1(1) by (subst rebuild_loop.simps) (simp add: GetDirectNode_def graph_nodes_def)
    show ?thesis
    proof (cases ok1)
      case False
      with s1 show ?thesis by (auto simp: l Cons intro: below_self intro!: exI [of _ g])
    next
      case True
      have c: "h \<in> set (child_graphs s subs g) \<longleftrightarrow> (\<exists>n. names_child s subs g n h)" for h
        by (rule child_graphs_iff) (use True s1(3) in simp)
      have cs: "set (child_graphs s subs g) = {h. \<exists>n. names_child s subs g n h}" using c by blast
      have q1: "q1 = rest @ child_graphs s subs g" using True s1(4) by simp
      have o1: "owners_ok s1 root subs" "kept s s1" using s1(2) by (simp_all add: owns_more_def)
      have "(image_mset rank (mset rest) + image_mset rank (mset (child_graphs s subs g)),
          image_mset rank (mset rest) + {#rank g#}) \<in> mult less_than"
        by (rule one_step_implies_mult) (auto simp: c dest: 1(3))
      then have d: "(q1, q) \<in> inv_image (mult less_than) (\<lambda>q. image_mset rank (mset q))"
        by (simp add: q1 Cons)
      have R: "set q1 \<subseteq> R" using 1(4,5) Cons c g by (auto simp: q1)
      from 1(1) [OF d o1(1) _ R] 1(3,5) obtain t ok where
        t: "rebuild_loop root subs q1 s1 = Some (t, ok)" "owns_more root subs R s1 t"
          "ok \<longleftrightarrow> (\<forall>g \<in> \<Union> (below s subs ` set q1). no_missing s subs g)"
          "ok \<longrightarrow> (\<forall>g \<in> \<Union> (below s subs ` set q1). \<forall>n h. names_child s subs g n h \<longrightarrow> owned root subs R t h)"
        unfolding loop_kept [OF o1(2)] by blast
      have b: "\<Union> (below s subs ` set q) = insert g (\<Union> (below s subs ` set q1))"
        using below_unfold [of s subs g] unfolding cs [symmetric] by (auto simp: Cons q1)
      have "\<forall>h \<in> set (child_graphs s subs g). owned root subs R t h"
        using True s1(4) t(2) by (simp add: owns_more_def)
      then show ?thesis
        unfolding b using True s1(3) t owns_more_trans [OF s1(2) t(2)] by (auto simp: l c Cons)
    qed
  qed
qed

text \<open>A graph that names itself through its operators is queued again and again.\<close>

definition endless :: "nat \<Rightarrow> (string \<times> nat) list \<Rightarrow> nat set \<Rightarrow> nat list \<Rightarrow> ('z) graph_store_scheme \<Rightarrow> bool" where
  "endless root subs C q s \<longleftrightarrow> owners_ok s root subs \<and> set q \<inter> C \<noteq> {} \<and>
     (\<forall>c \<in> C. \<exists>n h. names_child s subs c n h \<and> h \<in> C) \<and> (\<forall>h. no_missing s subs h)"

lemma endless_step:
  assumes "endless root subs C q s"
  obtains g rest s1 q1 where "q = g # rest" "own_nodes root subs g (GetDirectNode s g) (s, rest) = ((s1, q1), True)"
    "endless root subs C q1 s1"
proof -
  have o: "owners_ok s root subs" and C: "\<forall>c \<in> C. \<exists>n h. names_child s subs c n h \<and> h \<in> C"
    and m: "\<forall>h. no_missing s subs h" and q: "set q \<inter> C \<noteq> {}"
    using assms by (simp_all add: endless_def)
  from q obtain g rest where q': "q = g # rest" by (cases q) auto
  from own_nodes_effect [OF o UNIV_I subset_refl, of g rest] obtain s1 q1 ok1 where
    s1: "own_nodes root subs g (graph_nodes s g) (s, rest) = ((s1, q1), ok1)" "owns_more root subs UNIV s s1"
      "ok1 \<longleftrightarrow> no_missing s subs g" "ok1 \<longrightarrow> q1 = rest @ child_graphs s subs g"
    by (simp add: no_missing_def child_graphs_def) blast
  have ok: "ok1" "q1 = rest @ child_graphs s subs g" using s1(3,4) m by simp_all
  have k: "kept s s1" "owners_ok s1 root subs" using s1(2) by (simp_all add: owns_more_def)
  have "set (child_graphs s subs g) \<inter> C \<noteq> {}" if "g \<in> C"
    using that C child_graphs_iff [of s subs g] m by blast
  then have "set q1 \<inter> C \<noteq> {}" using q by (auto simp: q' ok(2))
  then have e: "endless root subs C q1 s1"
    unfolding endless_def loop_kept [OF k(1)] using k(2) C m by (intro conjI)
  have "own_nodes root subs g (GetDirectNode s g) (s, rest) = ((s1, q1), True)"
    using s1(1) ok(1) by (simp add: GetDirectNode_def graph_nodes_def)
  from that [OF q' this e] show ?thesis .
qed

lemma loop_never_returns:
  assumes "endless root subs C q s"
  shows "rebuild_loop root subs q s = None"
proof (rule ccontr)
  assume "rebuild_loop root subs q s \<noteq> None"
  then obtain r where ret: "rebuild_loop root subs q s = Some r" by blast
  have "endless root subs C q s \<longrightarrow> False"
  proof (rule rebuild_loop.raw_induct [OF _ ret])
    fix loop :: "nat \<Rightarrow> (string \<times> nat) list \<Rightarrow> nat list \<Rightarrow> ('a, 'b) desc_store_scheme \<Rightarrow>
        (('a, 'b) desc_store_scheme \<times> bool) option" and root subs q s r
    assume ih: "\<And>root subs q s r. loop root subs q s = Some r \<Longrightarrow> endless root subs C q s \<longrightarrow> False"
      and r: "(case q of [] \<Rightarrow> Some (s, True)
        | g # rest \<Rightarrow> (case own_nodes root subs g (GetDirectNode s g) (s, rest) of
            ((s1, all_graphs1), ok) \<Rightarrow> if ok then loop root subs all_graphs1 s1 else Some (s1, False))) = Some r"
    show "endless root subs C q s \<longrightarrow> False"
    proof
      assume e: "endless root subs C q s"
      from e obtain g rest s1 q1 where "q = g # rest"
        "own_nodes root subs g (GetDirectNode s g) (s, rest) = ((s1, q1), True)" "endless root subs C q1 s1"
        by (rule endless_step)
      with r ih show False by simp
    qed
  qed
  with assms show False by blast
qed

section \<open>The ownership of a whole model\<close>

text \<open> C5: when no graph is below itself, rebuilding the ownership of the subgraphs of a model returns.
  It succeeds exactly when every name an operator below the main graph carries is found; then
  each graph so named has a node that names it, and that node's graph, as its parents, and the
  main graph finds it by its name. No node, no description and no graph's name changes.
\<close>

theorem ownership_rebuilt:
  assumes ok: "owners_ok s root subs" and rank: "\<And>g n h. names_child s subs g n h \<Longrightarrow> rank h < (rank g :: nat)"
  shows "\<exists>t ok. RebuildOwnership root subs s = Some (t, ok) \<and> kept s t \<and>
    (ok \<longleftrightarrow> (\<forall>g \<in> below s subs root. no_missing s subs g)) \<and>
    (ok \<longrightarrow> (\<forall>g \<in> below s subs root. \<forall>n h. names_child s subs g n h \<longrightarrow>
       owned root subs (below s subs root) t h))"
proof -
  let ?R = "below s subs root"
  have "\<exists>t ok. rebuild_loop root subs [root] s = Some (t, ok) \<and> owns_more root subs ?R s t \<and>
    (ok \<longleftrightarrow> (\<forall>g \<in> \<Union> (below s subs ` set [root]). no_missing s subs g)) \<and>
    (ok \<longrightarrow> (\<forall>g \<in> \<Union> (below s subs ` set [root]). \<forall>n h. names_child s subs g n h \<longrightarrow> owned root subs ?R t h))"
    by (rule rebuild_loop_effect [where rank = rank])
      (rule ok, erule rank, simp add: below_self, erule (1) below_step)
  then show ?thesis unfolding RebuildOwnership_def owns_more_def by simp blast
qed

lemma small_graphs:
  "graph_nodes small_store g = (if g = 8 then [6, 7] else [])"
  "graph_name small_store 9 = ''sub''"
  "graphs small_store g = None \<longleftrightarrow> g \<noteq> 8 \<and> g \<noteq> 9"
  "names_to_subgraph small_store 8 = (\<lambda>_. None)"
  by (simp_all add: graph_nodes_def graph_name_def names_to_subgraph_def small_store_def new_graph_def)

lemma small_owners:
  "GetOwnerComputeGraph small_store 6 = Some 8" "GetOwnerComputeGraph small_store 7 = Some 8"
  by (simp_all add: GetOwnerComputeGraph_def small_defs)

theorem ownership_rebuilt_witness:
  "\<exists>t. RebuildOwnership 8 [(''sub'', 9)] small_store = Some (t, True) \<and> kept small_store t \<and>
    owned 8 [(''sub'', 9)] (below small_store [(''sub'', 9)] 8) t 9"
proof -
  let ?s = "small_store" and ?subs = "[(''sub'', 9)] :: (string \<times> nat) list"
  have ok: "owners_ok ?s 8 ?subs"
    unfolding owners_ok_def by (auto simp: small_graphs small_owners split: if_splits)
  have c: "names_child ?s ?subs g n h \<longleftrightarrow> g = 8 \<and> n = 7 \<and> h = 9" for g n h
    by (auto simp: names_child_def small_graphs split: if_splits)
  have "no_missing ?s ?subs g" for g
    by (auto simp: no_missing_def all_found_def small_graphs split: if_splits)
  with ownership_rebuilt [where rank = "\<lambda>g. 9 - g", OF ok] c below_self [of 8 ?s ?subs]
  show ?thesis by force
qed

end
