(* ===== verification/Spec2Isabelle.thy ===== *)
theory Spec2Isabelle
  imports Graph_Properties Output_Names TensorSize TensorStore OpDesc_Properties OpDef_Properties FusionPass_Properties GraphDef_Models
begin

text \<open>
  A verification library for the metadata definition library of the Ascend graph engine (metadef).
  The program keeps neural networks as graphs: nodes own anchors, anchors of different nodes are
  linked to each other, a node holds an operator description with tensor descriptions and
  attributes, graphs hold nodes and subgraphs. Around this data model it has topological sorting,
  rewiring, fusion of matched patterns, size computations and the writing and reading of models.
  The paths below are those of the repository.

  \<^bold>\<open>The store.\<close> The program shares objects through smart pointers. Here an object is a cell of a
  store at an address (a natural number), a pointer is an optional address, a weak pointer is
  an address that may hold nothing. The record \<^verbatim>\<open>anchor_store\<close> (Anchors) is extended with nodes
  (Nodes), graphs (GraphStore) and whole operator descriptions (DescStore); the operations of a
  layer work on every extension of its record, so their lemmas serve the layers above. A method
  that changes state returns the changed store; status codes are those of
  \<^verbatim>\<open>inc/external/graph/ge_error_codes.h\<close> (Prelude).

  \<^bold>\<open>Anchors and nodes.\<close> Anchors models \<^verbatim>\<open>graph/anchor.cc\<close> and \<^verbatim>\<open>graph/utils/anchor_utils.cc\<close>. LinkInterface
  is the contract the graph algorithms rely on (a locale: joining and cutting of links), and
  Anchor_Links proves the model of the code an instance of it. Anchor_Steps and
  Anchor_Properties: every store reached by the listed operations has symmetric links and one
  data source per input; what each link operation changes; when \<^verbatim>\<open>UnlinkAll\<close> returns. Two
  operations are steps under a condition the code does not check: \<^verbatim>\<open>ReplacePeer\<close> needs a
  first new peer that is not linked (the theorem shows that the condition is exact) and
  \<^verbatim>\<open>SetIdx\<close> a number that is not taken. Destruction of objects is not modelled. Nodes models
  \<^verbatim>\<open>graph/node.cc\<close> and parts of \<^verbatim>\<open>graph/utils/node_utils.cc\<close>.

  \<^bold>\<open>Graphs.\<close> GraphStore models \<^verbatim>\<open>graph/compute_graph.cc\<close>, EdgeOps and GraphRewire the edge and node surgery of
  \<^verbatim>\<open>graph/utils/graph_utils.cc\<close>. Wiring, Isolate, Rewire_Steps, Graph_Inv and Graph_Steps carry the
  invariant of the whole store through every operation; Graph_Properties states it for
  the states the steps of Graph_Steps reach, with isolation of a node, the walk to the root graph and others.
  Left out of the steps, because they break the invariant, which is proved: insertion between
  data anchors (\<^verbatim>\<open>InsertNodeBetweenDataAnchors\<close>) of a node whose first input is wired, and
  \<^verbatim>\<open>ClearInDataAnchor\<close>. Output_Names: the
  textual list of outputs is read back. TopoSort models the sorting of \<^verbatim>\<open>graph/compute_graph.cc\<close>;
  ReadySort is the abstract contract of such worklists (a locale), of which TopoSort_Loops
  proves the depth-first and the breadth-first loop to be instances; TopoSort_Correct and
  TopoSort_Properties: it returns, and succeeds exactly on acyclic graphs with a permutation in
  topological order.

  \<^bold>\<open>Types, tensors and attributes.\<close> GraphTypes models the tables and conversions of element types and memory formats
  (\<^verbatim>\<open>inc/external/graph/types.h\<close>, \<^verbatim>\<open>graph/types.cc\<close>, \<^verbatim>\<open>graph/utils/type_utils.cc\<close>), TensorSize the counts and sizes of
  \<^verbatim>\<open>graph/utils/tensor_utils.cc\<close> at their machine widths, TensorStore the aligned and shared buffers
  of \<^verbatim>\<open>graph/aligned_ptr.cc\<close> and \<^verbatim>\<open>graph/ge_tensor.cc\<close>, TensorDescs the descriptions of the latter.
  AttrValues and AttrUtils model \<^verbatim>\<open>graph/ge_attr_value.cc\<close>: values are messages with a kind, lists have a type of
  their own, and a typed setter changes neither (\<^verbatim>\<open>SetAttr\<close> looks at the kind only). The locales of Attr_Properties state the contract of one kind and of one kind of
  list, interpreted for each kind the code has.

  \<^bold>\<open>Operator descriptions.\<close> OpDescs models \<^verbatim>\<open>graph/op_desc.cc\<close>: ports as positions with maps from names. OpDesc_Properties: names and
  positions stay in bijection, positions of dynamic ports, the comparison, the default format.

  \<^bold>\<open>Fusion.\<close> FusionPatterns and FusionMatch model the construction of patterns and their matching
  (\<^verbatim>\<open>register/graph_optimizer/graph_fusion/fusion_pattern.cc\<close>, \<^verbatim>\<open>pattern_fusion_base_pass_impl.cc\<close>): the
  search returns on every graph and its result carries the shape of the pattern. FusionPasses
  models the base classes of passes and the statistics recorder; the virtual functions a pass
  defines are arguments.

  \<^bold>\<open>Models as messages.\<close> OpDefs and GraphDefs model \<^verbatim>\<open>graph/model_serialize.cc\<close> on the level of the messages of
  \<^verbatim>\<open>proto/ge_ir.proto\<close>. OpDef_Properties: what of an operator description survives writing and
  reading. GraphDef_Texts, GraphDef_Build, GraphDef_Links and GraphDef_Properties: a graph that is
  written and read is a copy of itself up to addresses. GraphDef_Models: rebuilding the ownership
  of subgraphs returns unless a graph is below itself, and what it establishes.

  \<^bold>\<open>Loops.\<close> Loops that recurse on data are structural. Loops that need not return
  (\<^verbatim>\<open>UnlinkAll\<close>, the walk to the root graph, sorting, matching, the ownership of subgraphs) are
  \<^verbatim>\<open>partial_function (option)\<close>: \<^term>\<open>None\<close> means that the loop does not return, and the theorems prove that
  it does (\<^term>\<open>Some\<close>) under the conditions they state, or that it does not. No fuel is used.

  \<^bold>\<open>Integers.\<close> Identifiers, dimensions and sizes of the code are words of its width where arithmetic can wrap or be cast; positions of
  anchors are integers and positions in lists natural numbers, as lists are shorter than any bound of the code.

  \<^bold>\<open>Parameters.\<close> Code outside the repository is an argument: the order in which
  unordered containers are traversed, nested messages of other owners, the functions a
  fusion pass overrides, the environment variable of the memory check.

  \<^bold>\<open>Not modelled.\<close> Allocation failure, logging, locks, and the encoding of messages as bytes (protobuf). The
  graph-construction interface (\<^verbatim>\<open>graph/operator.cc\<close>, \<^verbatim>\<open>graph/graph.cc\<close>, \<^verbatim>\<open>graph/gnode.cc\<close>) wraps the data
  model in shared implementations and callbacks; shape and format inference drive functions of
  operator libraries; registration (\<^verbatim>\<open>register/\<close>) plugs in parsers, tiling and kernels of
  other libraries; scope fusion works on names before a graph exists; \<^verbatim>\<open>ge_ir_utils.cc\<close> copies fields into
  the dump messages; \<^verbatim>\<open>ge_attr_define.cc\<close> is a table of names.
\<close>

end
